(* ===== verification/Prelude.thy ===== *)
theory Prelude
  imports Main "HOL-Library.AList" "HOL-Library.Word" "HOL-Library.List_Lexorder" "HOL-Library.Multiset"
begin

text \<open>
  What every component of the island daemon shares: JavaScript strings as lists of UTF-16 code
  units, insertion-ordered maps and sets (the \<open>Map\<close> and \<open>Set\<close> of the language), exceptions as
  values of a sum type, and the few \<open>String.prototype\<close> operations the sources call.
\<close>

named_theorems model_simps \<open>unfolding rules of the model that several components use\<close>

section \<open>Strings and bytes\<close>

text \<open>A JavaScript string is a list of 16-bit code units; a \<open>Uint8Array\<close> a list of bytes.\<close>

type_synonym jschar = "16 word"
type_synonym jsstr = "jschar list"
type_synonym byte = "8 word"
type_synonym bytes = "byte list"

definition js :: "string \<Rightarrow> jsstr" where
  "js s = map (\<lambda>c. of_nat (of_char c)) s"

lemma js_Nil [simp]: "js [] = []"
  by (simp add: js_def)

lemma js_append: "js (s @ t) = js s @ js t"
  by (simp add: js_def)

lemma length_js [simp]: "length (js s) = length s"
  by (simp add: js_def)

lemma of_char_word_inj:
  "(of_nat (of_char c) :: jschar) = of_nat (of_char d) \<longleftrightarrow> c = d"
proof
  assume eq: "(of_nat (of_char c) :: jschar) = of_nat (of_char d)"
  have small: "of_char x < (2::nat) ^ 16" for x :: char
    by (rule order_less_le_trans [OF nat_of_char_less_256]) simp
  have "unat (of_nat (of_char c) :: jschar) = of_char c"
    "unat (of_nat (of_char d) :: jschar) = of_char d"
    using small by (simp_all add: unat_of_nat take_bit_nat_eq_self)
  with eq have "(of_char c :: nat) = of_char d" by metis
  then show "c = d" by (simp add: of_char_eq_iff)
qed simp

lemma js_inject [simp]: "js s = js t \<longleftrightarrow> s = t"
proof -
  have "inj (\<lambda>c. of_nat (of_char c) :: jschar)"
    by (simp add: inj_def of_char_word_inj)
  then show ?thesis by (simp add: js_def inj_map_eq_map)
qed

lemma js_eq_Nil [simp]: "js s = [] \<longleftrightarrow> s = []" "[] = js s \<longleftrightarrow> s = []"
  by (auto simp: js_def)

definition is_js_ws :: "jschar \<Rightarrow> bool" where
  \<comment> \<open>the WhiteSpace and LineTerminator productions that \<open>trim\<close> and the class \<open>\s\<close> use\<close>
  "is_js_ws c \<longleftrightarrow> (9 \<le> c \<and> c \<le> 13) \<or> c = 32 \<or> c = 0xa0 \<or> c = 0x1680 \<or> (0x2000 \<le> c \<and> c \<le> 0x200a)
     \<or> c = 0x2028 \<or> c = 0x2029 \<or> c = 0x202f \<or> c = 0x205f \<or> c = 0x3000 \<or> c = 0xfeff"

definition trim :: "jsstr \<Rightarrow> jsstr" where
  "trim s = rev (dropWhile is_js_ws (rev (dropWhile is_js_ws s)))"

lemma dropWhile_noop: "\<forall>c \<in> set s. \<not> P c \<Longrightarrow> dropWhile P s = s"
  by (cases s) auto

lemma trim_noop: "\<forall>c \<in> set s. \<not> is_js_ws c \<Longrightarrow> trim s = s"
  by (simp add: trim_def dropWhile_noop)

definition startsWith :: "jsstr \<Rightarrow> jsstr \<Rightarrow> bool" where
  "startsWith s p \<longleftrightarrow> take (length p) s = p"

lemma startsWith_append [simp]: "startsWith (p @ s) p"
  by (simp add: startsWith_def)

fun join :: "jsstr \<Rightarrow> jsstr list \<Rightarrow> jsstr" where
  "join sep [] = []"
| "join sep [x] = x"
| "join sep (x # y # xs) = x @ sep @ join sep (y # xs)"

fun splitOn :: "jschar \<Rightarrow> jsstr \<Rightarrow> jsstr list" where
  \<comment> \<open>\<open>String.prototype.split\<close> with a one-character separator: never the empty list\<close>
  "splitOn sep [] = [[]]"
| "splitOn sep (c # cs) =
     (if c = sep then [] # splitOn sep cs
      else (case splitOn sep cs of [] \<Rightarrow> [[c]] | w # ws \<Rightarrow> (c # w) # ws))"

lemma splitOn_not_Nil [simp]: "splitOn sep s \<noteq> []"
  by (induction s) (auto split: list.splits)

section \<open>Exceptions\<close>

text \<open>
  The exception classes the sources declare, and \<open>JsError\<close> for every other \<open>Error\<close> or
  \<open>TypeError\<close> (thrown by the code itself, the language or a library).
\<close>

datatype err_class =
    VerificationError | CanaryError | FriendError | RegistryError | EventError
  | FileNotFound | ShareQuotaExceeded | Forbidden | RateLimited | PayloadTooLarge | JsError

datatype err = Err (err_class_of: err_class) (err_message: jsstr)

type_synonym 'a res = "err + 'a"

definition throw :: "err_class \<Rightarrow> string \<Rightarrow> 'a res" where
  "throw k msg = Inl (Err k (js msg))"

definition rbind :: "'a res \<Rightarrow> ('a \<Rightarrow> 'b res) \<Rightarrow> 'b res" where
  "rbind m f = (case m of Inl e \<Rightarrow> Inl e | Inr x \<Rightarrow> f x)"

definition rmap :: "('a \<Rightarrow> 'b) \<Rightarrow> 'a res \<Rightarrow> 'b res" where
  "rmap f m = (case m of Inl e \<Rightarrow> Inl e | Inr x \<Rightarrow> Inr (f x))"

definition of_lib :: "string \<Rightarrow> 'a option \<Rightarrow> 'a res" where
  \<comment> \<open>a library call: \<open>None\<close> is the exception it throws\<close>
  "of_lib msg x = (case x of None \<Rightarrow> throw JsError msg | Some y \<Rightarrow> Inr y)"

definition catch_as :: "err_class \<Rightarrow> string \<Rightarrow> 'a res \<Rightarrow> 'a res" where
  \<comment> \<open>\<open>try { m } catch { throw new K(msg) }\<close>\<close>
  "catch_as k msg m = (case m of Inl _ \<Rightarrow> throw k msg | Inr x \<Rightarrow> Inr x)"

lemma rbind_simps [simp]: "rbind (Inl e) f = Inl e" "rbind (Inr x) f = f x"
  by (simp_all add: rbind_def)

lemma rmap_simps [simp]: "rmap f (Inl e) = Inl e" "rmap f (Inr x) = Inr (f x)"
  by (simp_all add: rmap_def)

lemma rbind_eq_Inr: "rbind m f = Inr y \<longleftrightarrow> (\<exists>x. m = Inr x \<and> f x = Inr y)"
  by (cases m) auto

lemma rbind_eq_Inl: "rbind m f = Inl e \<longleftrightarrow> m = Inl e \<or> (\<exists>x. m = Inr x \<and> f x = Inl e)"
  by (cases m) auto

lemma rmap_eq_Inr: "rmap f m = Inr y \<longleftrightarrow> (\<exists>x. m = Inr x \<and> y = f x)"
  by (cases m) auto

lemma throw_ne_Inr [simp]: "throw k msg \<noteq> Inr x" "Inr x \<noteq> throw k msg"
  by (simp_all add: throw_def)

lemma throw_inject [simp]: "throw k s = throw k' s' \<longleftrightarrow> k = k' \<and> s = s'"
  by (simp add: throw_def)

lemma rbind_throw [simp]: "rbind (throw k msg) f = throw k msg"
  by (simp add: throw_def)

lemma rmap_throw [simp]: "rmap f (throw k msg) = throw k msg"
  by (simp add: throw_def)

lemma of_lib_simps [simp]: "of_lib msg (Some x) = Inr x" "of_lib msg None = throw JsError msg"
  by (simp_all add: of_lib_def)

lemma of_lib_eq_Inr: "of_lib msg m = Inr x \<longleftrightarrow> m = Some x"
  by (cases m) auto

lemma catch_as_simps [simp]:
  "catch_as k msg (Inr x) = Inr x" "catch_as k msg (Inl e) = throw k msg"
  "catch_as k msg (throw k' msg') = throw k msg"
  by (simp_all add: catch_as_def throw_def)

lemma catch_as_eq_Inr: "catch_as k msg m = Inr x \<longleftrightarrow> m = Inr x"
  by (cases m) auto

lemmas res_eq = rbind_eq_Inr rbind_eq_Inl rmap_eq_Inr of_lib_eq_Inr catch_as_eq_Inr

fun mapR :: "('a \<Rightarrow> 'b res) \<Rightarrow> 'a list \<Rightarrow> 'b list res" where
  "mapR f [] = Inr []"
| "mapR f (x # xs) = rbind (f x) (\<lambda>y. rmap ((#) y) (mapR f xs))"

lemma mapR_cong [fundef_cong]:
  "xs = ys \<Longrightarrow> (\<And>x. x \<in> set ys \<Longrightarrow> f x = g x) \<Longrightarrow> mapR f xs = mapR g ys"
  by (induction ys arbitrary: xs) auto

lemma mapR_eq_Inr: "mapR f xs = Inr ys \<longleftrightarrow> list_all2 (\<lambda>x y. f x = Inr y) xs ys"
  by (induction xs arbitrary: ys) (auto simp: res_eq list_all2_Cons1)

lemma mapR_map: "(\<And>x. x \<in> set xs \<Longrightarrow> f x = Inr (g x)) \<Longrightarrow> mapR f xs = Inr (map g xs)"
  by (induction xs) auto

lemma mapR_Inr_in: "mapR f xs = Inr ys \<Longrightarrow> x \<in> set xs \<Longrightarrow> \<exists>y. f x = Inr y"
  by (induction xs arbitrary: ys) (auto simp: res_eq)

section \<open>The Map and Set of the language\<close>

text \<open>
  Both keep insertion order: \<open>Map.set\<close> on a key that is present keeps its place, which is what
  \<open>AList.update\<close> does.
\<close>

type_synonym ('k, 'v) jsmap = "('k \<times> 'v) list"

abbreviation map_get :: "('k, 'v) jsmap \<Rightarrow> 'k \<Rightarrow> 'v option" where
  "map_get m k \<equiv> map_of m k"

abbreviation map_set :: "'k \<Rightarrow> 'v \<Rightarrow> ('k, 'v) jsmap \<Rightarrow> ('k, 'v) jsmap" where
  "map_set k v m \<equiv> AList.update k v m"

abbreviation map_del :: "'k \<Rightarrow> ('k, 'v) jsmap \<Rightarrow> ('k, 'v) jsmap" where
  "map_del k m \<equiv> AList.delete k m"

abbreviation map_has :: "('k, 'v) jsmap \<Rightarrow> 'k \<Rightarrow> bool" where
  "map_has m k \<equiv> k \<in> fst ` set m"

abbreviation wf_map :: "('k, 'v) jsmap \<Rightarrow> bool" where
  "wf_map m \<equiv> distinct (map fst m)"

lemma map_get_set [simp]: "map_get (map_set k v m) = (map_get m)(k \<mapsto> v)"
  by (rule ext) (simp add: update_conv)

lemma map_get_del [simp]: "map_get (map_del k m) = (map_get m)(k := None)"
  by (rule ext) (simp add: delete_conv)

lemma map_has_get: "map_has m k \<longleftrightarrow> (\<exists>v. map_get m k = Some v)"
  by (metis domD domI dom_map_of_conv_image_fst)

lemma map_has_set [simp]: "fst ` set (map_set k v m) = insert k (fst ` set m)"
  by (induction m) auto

lemma map_has_del [simp]: "fst ` set (map_del k m) = fst ` set m - {k}"
  by (induction m) auto

lemma wf_map_set [simp]: "wf_map (map_set k v m) = wf_map m"
  by (induction m) auto

lemma wf_map_del [simp]: "wf_map m \<Longrightarrow> wf_map (map_del k m)"
  by (rule distinct_delete)

lemma wf_map_in: "wf_map m \<Longrightarrow> (k, v) \<in> set m \<longleftrightarrow> map_get m k = Some v"
  by (simp add: map_of_eq_Some_iff)

lemma set_map_set: "set (map_set k v m) \<subseteq> insert (k, v) (set m)"
  by (induction m) auto

lemma set_map_del: "set (map_del k m) \<subseteq> set m"
  by (induction m) auto

lemma map_del_absent: "\<not> map_has m k \<Longrightarrow> map_del k m = m"
  by (induction m) auto

lemma wf_map_sort [simp]: "wf_map (sort_key f m) = wf_map m"
proof -
  have "mset (map fst (sort_key f m)) = mset (map fst m)" by (simp add: mset_map)
  then show ?thesis by (metis mset_eq_imp_distinct_iff)
qed

lemma map_get_sort: "wf_map m \<Longrightarrow> map_get (sort_key f m) = map_get m"
  by (simp add: map_of_inject_set)

definition set_add :: "'a \<Rightarrow> 'a list \<Rightarrow> 'a list" where
  "set_add x xs = (if x \<in> set xs then xs else xs @ [x])"

lemma set_set_add [simp]: "set (set_add x xs) = insert x (set xs)"
  by (auto simp: set_add_def)

lemma distinct_set_add [simp]: "distinct (set_add x xs) = distinct xs"
  by (auto simp: set_add_def)

end
