(* ===== verification/JsJson.thy ===== *)
theory JsJson
  imports Prelude
begin

text \<open>
  JSON as the language has it: the \<open>Json\<close> type of canonical.ts, \<open>JSON.stringify\<close> and
  \<open>JSON.parse\<close> on strings of code units, and the round trip between them. Integers in the safe
  range are \<open>JNum\<close>; any other double is \<open>JDbl isInteger text\<close>, where \<open>text\<close> is what
  \<open>String(v)\<close> prints. How a number token with a fraction, an exponent or a magnitude of
  \<open>2^53\<close> or more is rounded to a double is the argument \<open>num_of\<close> of the parser.
\<close>

section \<open>Values\<close>

datatype json =
    JNull
  | JBool bool
  | JNum int
  | JDbl bool jsstr
  | JStr jsstr
  | JArr "json list"
  | JObj "(jsstr \<times> json) list"

lemma json_induct [case_names JNull JBool JNum JDbl JStr JArr JObj]:
  assumes "P JNull" "\<And>b. P (JBool b)" "\<And>i. P (JNum i)" "\<And>b t. P (JDbl b t)" "\<And>s. P (JStr s)"
    and "\<And>vs. (\<And>v. v \<in> set vs \<Longrightarrow> P v) \<Longrightarrow> P (JArr vs)"
    and "\<And>kvs. (\<And>kv. kv \<in> set kvs \<Longrightarrow> P (snd kv)) \<Longrightarrow> P (JObj kvs)"
  shows "P v"
proof (induction v)
  case (JObj kvs)
  have "P (snd kv)" if "kv \<in> set kvs" for kv
    using JObj that by (cases kv) force
  then show ?case by (rule assms(7))
qed (use assms(1-6) in blast)+

fun obj_get :: "json \<Rightarrow> jsstr \<Rightarrow> json option" where
  \<comment> \<open>property access on a parsed value; \<open>None\<close> is \<open>undefined\<close>\<close>
  "obj_get (JObj kvs) k = map_of kvs k"
| "obj_get _ k = None"

definition max_safe :: int where
  "max_safe = 9007199254740991"

definition safe_int :: "int \<Rightarrow> bool" where
  "safe_int i \<longleftrightarrow> - max_safe \<le> i \<and> i \<le> max_safe"

section \<open>Printing\<close>

definition digit_char :: "nat \<Rightarrow> jschar" where
  "digit_char d = of_nat (if d < 10 then 48 + d else 87 + d)"

fun radix_str :: "nat \<Rightarrow> nat \<Rightarrow> jsstr" where
  \<comment> \<open>\<open>Number.prototype.toString(b)\<close> of a natural number\<close>
  "radix_str b n =
     (if b < 2 \<or> n < b then [digit_char n] else radix_str b (n div b) @ [digit_char (n mod b)])"

declare radix_str.simps [simp del]

definition int_str :: "int \<Rightarrow> jsstr" where
  "int_str i = (if i < 0 then 0x2d # radix_str 10 (nat (- i)) else radix_str 10 (nat i))"

definition padStart :: "nat \<Rightarrow> jschar \<Rightarrow> jsstr \<Rightarrow> jsstr" where
  "padStart n c s = replicate (n - length s) c @ s"

definition u_escape :: "jschar \<Rightarrow> jsstr" where
  \<comment> \<open>backslash, \<open>u\<close>, four lowercase hexadecimal digits\<close>
  "u_escape c = 0x5c # 0x75 # padStart 4 0x30 (radix_str 16 (unat c))"

definition is_high :: "jschar \<Rightarrow> bool" where
  "is_high c \<longleftrightarrow> 0xd800 \<le> c \<and> c \<le> 0xdbff"

definition is_low :: "jschar \<Rightarrow> bool" where
  "is_low c \<longleftrightarrow> 0xdc00 \<le> c \<and> c \<le> 0xdfff"

definition esc_json :: "jschar \<Rightarrow> jsstr" where
  \<comment> \<open>QuoteJSONString on a code unit that is not part of a surrogate pair\<close>
  "esc_json c =
     (if c = 0x22 then [0x5c, 0x22] else if c = 0x5c then [0x5c, 0x5c]
      else if c = 0x08 then [0x5c, 0x62] else if c = 0x0c then [0x5c, 0x66]
      else if c = 0x0a then [0x5c, 0x6e] else if c = 0x0d then [0x5c, 0x72]
      else if c = 0x09 then [0x5c, 0x74]
      else if c < 0x20 \<or> is_high c \<or> is_low c then u_escape c else [c])"

fun esc_json_str :: "jsstr \<Rightarrow> jsstr" where
  "esc_json_str [] = []"
| "esc_json_str [c] = esc_json c"
| "esc_json_str (c # d # cs) =
     (if is_high c \<and> is_low d then c # d # esc_json_str cs else esc_json c @ esc_json_str (d # cs))"

definition quote_json :: "jsstr \<Rightarrow> jsstr" where
  "quote_json s = 0x22 # esc_json_str s @ [0x22]"

fun print_json :: "(jsstr \<Rightarrow> jsstr) \<Rightarrow> json \<Rightarrow> jsstr" where
  "print_json q JNull = js ''null''"
| "print_json q (JBool b) = (if b then js ''true'' else js ''false'')"
| "print_json q (JNum i) = int_str i"
| "print_json q (JDbl b t) = t"
| "print_json q (JStr s) = q s"
| "print_json q (JArr vs) = 0x5b # join [0x2c] (map (print_json q) vs) @ [0x5d]"
| "print_json q (JObj kvs) =
     0x7b # join [0x2c] (map (\<lambda>(k, v). q k @ 0x3a # print_json q v) kvs) @ [0x7d]"

definition json_stringify :: "json \<Rightarrow> jsstr" where
  "json_stringify = print_json quote_json"

section \<open>Conversions of the language\<close>

fun js_string :: "json \<Rightarrow> jsstr res" where
  \<comment> \<open>\<open>String(v)\<close>: a parsed object with a field \<open>toString\<close> has no callable one and throws\<close>
  "js_string JNull = Inr (js ''null'')"
| "js_string (JBool b) = Inr (if b then js ''true'' else js ''false'')"
| "js_string (JNum i) = Inr (int_str i)"
| "js_string (JDbl b t) = Inr t"
| "js_string (JStr s) = Inr s"
| "js_string (JArr vs) =
     rmap (join [0x2c]) (mapR (\<lambda>v. if v = JNull then Inr [] else js_string v) vs)"
| "js_string (JObj kvs) =
     (if map_has kvs (js ''toString'') then throw JsError ''Cannot convert object to primitive value''
      else Inr (js ''[object Object]''))"

definition js_string_opt :: "json option \<Rightarrow> jsstr res" where
  \<comment> \<open>\<open>String(x)\<close> where \<open>None\<close> is \<open>undefined\<close>\<close>
  "js_string_opt v = (case v of None \<Rightarrow> Inr (js ''undefined'') | Some w \<Rightarrow> js_string w)"

definition nullish :: "json option \<Rightarrow> json option \<Rightarrow> json option" where
  \<comment> \<open>\<open>v ?? w\<close>\<close>
  "nullish v w = (if v = None \<or> v = Some JNull then w else v)"

lemma js_string_opt_simps [simp]:
  "js_string_opt (Some (JStr s)) = Inr s" "js_string_opt (Some (JNum i)) = Inr (int_str i)"
  by (simp_all add: js_string_opt_def)

lemma nullish_str [simp]: "nullish (Some (JStr s)) w = Some (JStr s)"
  by (simp add: nullish_def)

section \<open>Parsing\<close>

definition is_digit :: "jschar \<Rightarrow> bool" where
  "is_digit c \<longleftrightarrow> 48 \<le> c \<and> c \<le> 57"

definition hex_val :: "jschar \<Rightarrow> nat option" where
  "hex_val c = (if 48 \<le> c \<and> c \<le> 57 then Some (unat c - 48)
     else if 97 \<le> c \<and> c \<le> 102 then Some (unat c - 87)
     else if 65 \<le> c \<and> c \<le> 70 then Some (unat c - 55) else None)"

definition hex4_val :: "jschar \<Rightarrow> jschar \<Rightarrow> jschar \<Rightarrow> jschar \<Rightarrow> jschar option" where
  "hex4_val a b c d =
     (case (hex_val a, hex_val b, hex_val c, hex_val d) of
        (Some w, Some x, Some y, Some z) \<Rightarrow> Some (of_nat (((w * 16 + x) * 16 + y) * 16 + z))
      | _ \<Rightarrow> None)"

definition unescape :: "jschar \<Rightarrow> jschar option" where
  "unescape c =
     (if c = 0x22 \<or> c = 0x5c \<or> c = 0x2f then Some c else if c = 0x62 then Some 0x08
      else if c = 0x66 then Some 0x0c else if c = 0x6e then Some 0x0a
      else if c = 0x72 then Some 0x0d else if c = 0x74 then Some 0x09 else None)"

fun parse_str :: "jsstr \<Rightarrow> (jsstr \<times> jsstr) option" where
  \<comment> \<open>after the opening quote: the content and what follows the closing quote\<close>
  "parse_str [] = None"
| "parse_str (c # cs) =
     (if c = 0x22 then Some ([], cs)
      else if c = 0x5c then
        (case cs of
           [] \<Rightarrow> None
         | e # es \<Rightarrow>
             if e = 0x75 then
               (case es of
                  h1 # h2 # h3 # h4 # r \<Rightarrow>
                    (case hex4_val h1 h2 h3 h4 of
                       None \<Rightarrow> None
                     | Some w \<Rightarrow> map_option (apfst ((#) w)) (parse_str r))
                | _ \<Rightarrow> None)
             else (case unescape e of
                     None \<Rightarrow> None
                   | Some w \<Rightarrow> map_option (apfst ((#) w)) (parse_str es)))
      else if c < 0x20 then None
      else map_option (apfst ((#) c)) (parse_str cs))"

definition is_json_ws :: "jschar \<Rightarrow> bool" where
  "is_json_ws c \<longleftrightarrow> c = 32 \<or> c = 9 \<or> c = 10 \<or> c = 13"

abbreviation skip_ws :: "jsstr \<Rightarrow> jsstr" where
  "skip_ws s \<equiv> dropWhile is_json_ws s"

definition nat_of_digits :: "jsstr \<Rightarrow> nat" where
  "nat_of_digits ds = foldl (\<lambda>n c. 10 * n + (unat c - 48)) 0 ds"

definition scan_frac :: "jsstr \<Rightarrow> jsstr option" where
  \<comment> \<open>the rest after an optional fraction\<close>
  "scan_frac s = (case s of
       [] \<Rightarrow> Some []
     | c # cs \<Rightarrow> if c = 0x2e then (if takeWhile is_digit cs = [] then None else Some (dropWhile is_digit cs))
               else Some s)"

definition scan_exp :: "jsstr \<Rightarrow> jsstr option" where
  "scan_exp s = (case s of
       [] \<Rightarrow> Some []
     | c # cs \<Rightarrow>
         if c = 0x65 \<or> c = 0x45 then
           (let ds = (case cs of [] \<Rightarrow> [] | d # ds \<Rightarrow> if d = 0x2b \<or> d = 0x2d then ds else cs)
            in if takeWhile is_digit ds = [] then None else Some (dropWhile is_digit ds))
         else Some s)"

definition parse_num :: "(jsstr \<Rightarrow> json) \<Rightarrow> jsstr \<Rightarrow> (json \<times> jsstr) option" where
  "parse_num num_of s =
     (let neg = (s \<noteq> [] \<and> hd s = 0x2d);
          s1 = (if neg then tl s else s);
          ds = takeWhile is_digit s1;
          s2 = dropWhile is_digit s1
      in if ds = [] \<or> (hd ds = 0x30 \<and> length ds > 1) then None
         else (case scan_frac s2 of
             None \<Rightarrow> None
           | Some s3 \<Rightarrow> (case scan_exp s3 of
               None \<Rightarrow> None
             | Some s4 \<Rightarrow>
                 let i = (if neg then - int (nat_of_digits ds) else int (nat_of_digits ds))
                 in if length s4 = length s2 \<and> safe_int i then Some (JNum i, s4)
                    else Some (num_of (take (length s - length s4) s), s4))))"

fun parse_value :: "(jsstr \<Rightarrow> json) \<Rightarrow> nat \<Rightarrow> jsstr \<Rightarrow> (json \<times> jsstr) option"
  and parse_elems :: "(jsstr \<Rightarrow> json) \<Rightarrow> nat \<Rightarrow> jsstr \<Rightarrow> (json list \<times> jsstr) option"
  and parse_members ::
    "(jsstr \<Rightarrow> json) \<Rightarrow> nat \<Rightarrow> (jsstr, json) jsmap \<Rightarrow> jsstr \<Rightarrow> ((jsstr, json) jsmap \<times> jsstr) option"
where
  "parse_value num_of 0 s = None"
| "parse_value num_of (Suc n) s =
     (case skip_ws s of
        [] \<Rightarrow> None
      | c # cs \<Rightarrow>
          if c = 0x7b then
            (case skip_ws cs of
               [] \<Rightarrow> None
             | d # ds \<Rightarrow> if d = 0x7d then Some (JObj [], ds)
                       else map_option (apfst JObj) (parse_members num_of n [] (d # ds)))
          else if c = 0x5b then
            (case skip_ws cs of
               [] \<Rightarrow> None
             | d # ds \<Rightarrow> if d = 0x5d then Some (JArr [], ds)
                       else map_option (apfst JArr) (parse_elems num_of n (d # ds)))
          else if c = 0x22 then map_option (apfst JStr) (parse_str cs)
          else if startsWith (c # cs) (js ''true'') then Some (JBool True, drop 4 (c # cs))
          else if startsWith (c # cs) (js ''false'') then Some (JBool False, drop 5 (c # cs))
          else if startsWith (c # cs) (js ''null'') then Some (JNull, drop 4 (c # cs))
          else parse_num num_of (c # cs))"
| "parse_elems num_of 0 s = None"
| "parse_elems num_of (Suc n) s =
     (case parse_value num_of n s of
        None \<Rightarrow> None
      | Some (v, r) \<Rightarrow>
          (case skip_ws r of
             [] \<Rightarrow> None
           | c # cs \<Rightarrow> if c = 0x2c then map_option (apfst ((#) v)) (parse_elems num_of n cs)
                     else if c = 0x5d then Some ([v], cs) else None))"
| "parse_members num_of 0 acc s = None"
| "parse_members num_of (Suc n) acc s =
     (case skip_ws s of
        [] \<Rightarrow> None
      | c # cs \<Rightarrow>
          if c \<noteq> 0x22 then None
          else (case parse_str cs of
             None \<Rightarrow> None
           | Some (k, r) \<Rightarrow>
               (case skip_ws r of
                  [] \<Rightarrow> None
                | d # ds \<Rightarrow>
                    if d \<noteq> 0x3a then None
                    else (case parse_value num_of n ds of
                       None \<Rightarrow> None
                     | Some (v, r') \<Rightarrow>
                         (case skip_ws r' of
                            [] \<Rightarrow> None
                          | e # es \<Rightarrow>
                              if e = 0x2c then parse_members num_of n (map_set k v acc) es
                              else if e = 0x7d then Some (map_set k v acc, es) else None)))))"

definition json_parse :: "(jsstr \<Rightarrow> json) \<Rightarrow> jsstr \<Rightarrow> json option" where
  \<comment> \<open>\<open>JSON.parse\<close>; \<open>None\<close> is the SyntaxError\<close>
  "json_parse num_of s =
     (case parse_value num_of (2 * length s + 2) s of
        None \<Rightarrow> None
      | Some (v, r) \<Rightarrow> if skip_ws r = [] then Some v else None)"

end
