(* ===== verification/JsJsonFacts.thy ===== *)
theory JsJsonFacts
  imports JsJson
begin

text \<open>
  What the JSON text functions guarantee: a string literal, an integer and a whole value are read
  back as they were printed, for any way of quoting strings that the parser undoes
  (\<open>quote_ok\<close>); and the fuel \<open>JSON.parse\<close> is given is always enough, since each
  recursive call of the parser works on a shorter text.
\<close>

section \<open>String literals\<close>

lemma hex_val_digit_char: "d < 16 \<Longrightarrow> hex_val (digit_char d) = Some d"
proof -
  have "list_all (\<lambda>d. hex_val (digit_char d) = Some d) [0..<16]" by code_simp
  moreover assume "d < 16"
  ultimately show ?thesis by (simp add: list_all_iff)
qed

lemma digit_char_0 [simp]: "digit_char 0 = 0x30"
  by (simp add: digit_char_def)

lemma radix_str_less: "n < b \<Longrightarrow> radix_str b n = [digit_char n]"
  by (simp add: radix_str.simps [of b n])

lemma radix_str_ge:
  "2 \<le> b \<Longrightarrow> b \<le> n \<Longrightarrow> radix_str b n = radix_str b (n div b) @ [digit_char (n mod b)]"
  by (simp add: radix_str.simps [of b n])

lemma hex4_digits:
  assumes "n < 65536"
  shows "padStart 4 0x30 (radix_str 16 n) =
    [digit_char (n div 4096), digit_char (n div 256 mod 16), digit_char (n div 16 mod 16), digit_char (n mod 16)]"
proof -
  have s1: "radix_str 16 n = radix_str 16 (n div 16) @ [digit_char (n mod 16)]" if "16 \<le> n"
    using that by (simp add: radix_str_ge)
  have s2: "radix_str 16 (n div 16) = radix_str 16 (n div 256) @ [digit_char (n div 16 mod 16)]"
    if "256 \<le> n"
  proof -
    have "16 \<le> n div 16" using that by auto
    then show ?thesis by (simp add: radix_str_ge div_mult2_eq [symmetric])
  qed
  have s3: "radix_str 16 (n div 256) = radix_str 16 (n div 4096) @ [digit_char (n div 256 mod 16)]"
    if "4096 \<le> n"
  proof -
    have "16 \<le> n div 256" using that by auto
    then show ?thesis by (simp add: radix_str_ge div_mult2_eq [symmetric])
  qed
  consider "n < 16" | "16 \<le> n" "n < 256" | "256 \<le> n" "n < 4096" | "4096 \<le> n"
    by linarith
  then show ?thesis
  proof cases
    case 1
    then show ?thesis by (simp add: radix_str_less padStart_def numeral_2_eq_2 numeral_3_eq_3)
  next
    case 2
    then have "n div 16 < 16" "n div 4096 = 0" "n div 256 = 0" by auto
    with 2 show ?thesis by (simp add: s1 radix_str_less padStart_def numeral_2_eq_2 numeral_3_eq_3)
  next
    case 3
    then have d: "n div 256 < 16" and z: "n div 4096 = 0" by auto
    have "radix_str 16 n = [digit_char (n div 256 mod 16), digit_char (n div 16 mod 16), digit_char (n mod 16)]"
      using 3 d by (simp only: s1 s2 radix_str_less mod_less) simp
    then show ?thesis by (simp add: padStart_def z)
  next
    case 4
    with assms have "n div 4096 < 16" by auto
    with 4 show ?thesis by (simp add: s1 s2 s3 radix_str_less padStart_def)
  qed
qed

lemma hex4_val_digits:
  assumes "n < 65536"
  shows "hex4_val (digit_char (n div 4096)) (digit_char (n div 256 mod 16))
     (digit_char (n div 16 mod 16)) (digit_char (n mod 16)) = Some (of_nat n)"
proof -
  have "n div 4096 < 16" using assms by auto
  moreover have "((n div 4096 * 16 + n div 256 mod 16) * 16 + n div 16 mod 16) * 16 + n mod 16 = n"
    using div_mult_mod_eq [of n 16] div_mult_mod_eq [of "n div 16" 16] div_mult_mod_eq [of "n div 256" 16]
    by (simp add: div_mult2_eq [symmetric])
  ultimately show ?thesis
    by (simp add: hex4_val_def hex_val_digit_char del: of_nat_add of_nat_mult)
qed

lemma unat_jschar_less: "unat (c :: jschar) < 65536"
  using unsigned_less [of c, where 'a = nat] by simp

lemma parse_str_u_escape:
  "parse_str (u_escape c @ r) = map_option (apfst ((#) c)) (parse_str r)"
  using unat_jschar_less [of c]
  by (simp add: u_escape_def hex4_digits hex4_val_digits)

lemma parse_str_esc_json:
  "parse_str (esc_json c @ r) = map_option (apfst ((#) c)) (parse_str r)"
  unfolding esc_json_def using parse_str_u_escape [of c r]
  by (simp add: unescape_def)

lemma parse_str_raw:
  "c \<noteq> 0x22 \<Longrightarrow> c \<noteq> 0x5c \<Longrightarrow> \<not> c < 0x20 \<Longrightarrow>
     parse_str (c # r) = map_option (apfst ((#) c)) (parse_str r)"
  by simp

lemma surrogate_raw:
  "is_high c \<or> is_low c \<Longrightarrow> parse_str (c # r) = map_option (apfst ((#) c)) (parse_str r)"
  by (rule parse_str_raw) (auto simp: is_high_def is_low_def word_le_nat_alt word_less_nat_alt)

lemma parse_str_esc_json_str:
  "parse_str (esc_json_str s @ 0x22 # r) = Some (s, r)"
proof (induction s rule: esc_json_str.induct)
  case 1
  then show ?case by simp
next
  case (2 c)
  then show ?case by (simp add: parse_str_esc_json)
next
  case (3 c d cs)
  then show ?case by (simp add: parse_str_esc_json surrogate_raw del: parse_str.simps)
qed

section \<open>Integers\<close>

lemma is_digit_digit_char: "d < 10 \<Longrightarrow> is_digit (digit_char d) \<and> unat (digit_char d) - 48 = d"
proof -
  have "list_all (\<lambda>d. is_digit (digit_char d) \<and> unat (digit_char d) - 48 = d) [0..<10]" by code_simp
  moreover assume "d < 10"
  ultimately show ?thesis by (simp add: list_all_iff)
qed

lemma radix_10_digits: "c \<in> set (radix_str 10 n) \<Longrightarrow> is_digit c"
proof (induction "10::nat" n rule: radix_str.induct)
  case (1 n)
  then show ?case
    by (cases "n < 10") (auto simp: radix_str_less radix_str_ge is_digit_digit_char)
qed

lemma radix_str_not_Nil [simp]: "radix_str b n \<noteq> []"
  by (simp add: radix_str.simps [of b n])

lemma nat_of_digits_snoc: "nat_of_digits (ds @ [c]) = 10 * nat_of_digits ds + (unat c - 48)"
  by (simp add: nat_of_digits_def)

lemma nat_of_digits_radix: "nat_of_digits (radix_str 10 n) = n"
proof (induction "10::nat" n rule: radix_str.induct)
  case (1 n)
  show ?case
  proof (cases "n < 10")
    case True
    then show ?thesis by (simp add: radix_str_less nat_of_digits_def is_digit_digit_char)
  next
    case False
    then show ?thesis
      using 1 by (simp add: radix_str_ge nat_of_digits_snoc is_digit_digit_char)
  qed
qed

lemma digit_char_eq_0: "d < 10 \<Longrightarrow> digit_char d = 0x30 \<longleftrightarrow> d = 0"
  using is_digit_digit_char [of d] by (auto simp: digit_char_def)

lemma radix_10_no_leading_0: "hd (radix_str 10 n) = 0x30 \<Longrightarrow> length (radix_str 10 n) = 1"
proof -
  have "0 < n \<Longrightarrow> hd (radix_str 10 n) \<noteq> 0x30"
  proof (induction "10::nat" n rule: radix_str.induct)
    case (1 n)
    then show ?case
      by (cases "n < 10") (simp_all add: radix_str_less radix_str_ge digit_char_eq_0 div_greater_zero_iff)
  qed
  then show "hd (radix_str 10 n) = 0x30 \<Longrightarrow> length (radix_str 10 n) = 1"
    by (cases "n = 0") (auto simp: radix_str_less)
qed

definition num_stop :: "jsstr \<Rightarrow> bool" where
  "num_stop r \<longleftrightarrow> (r = [] \<or> (\<not> is_digit (hd r) \<and> hd r \<notin> {0x2e, 0x65, 0x45}))"

lemma num_stop_scan: "num_stop r \<Longrightarrow> scan_frac r = Some r" "num_stop r \<Longrightarrow> scan_exp r = Some r"
  by (auto simp: num_stop_def scan_frac_def scan_exp_def split: list.split)

lemma digits_split:
  "num_stop r \<Longrightarrow> takeWhile is_digit (radix_str 10 n @ r) = radix_str 10 n"
  "num_stop r \<Longrightarrow> dropWhile is_digit (radix_str 10 n @ r) = r"
proof -
  assume "num_stop r"
  then have "takeWhile is_digit r = []" "dropWhile is_digit r = r"
    by (cases r; auto simp: num_stop_def)+
  then show "takeWhile is_digit (radix_str 10 n @ r) = radix_str 10 n"
    "dropWhile is_digit (radix_str 10 n @ r) = r"
    by (simp_all add: takeWhile_append2 dropWhile_append2 radix_10_digits)
qed

lemma hd_radix_10: "is_digit (hd (radix_str 10 n))"
  by (rule radix_10_digits [of _ n]) simp

lemma digit_not_minus: "is_digit c \<Longrightarrow> c \<noteq> 0x2d"
  by (auto simp: is_digit_def)

lemma parse_num_int_str:
  assumes "safe_int i" "num_stop r"
  shows "parse_num num_of (int_str i @ r) = Some (JNum i, r)"
proof (cases "i < 0")
  case True
  then show ?thesis
    using assms radix_10_no_leading_0 [of "nat (- i)"]
    by (auto simp: parse_num_def int_str_def digits_split num_stop_scan nat_of_digits_radix Let_def)
next
  case False
  then show ?thesis
    using assms radix_10_no_leading_0 [of "nat i"] digit_not_minus [OF hd_radix_10, of "nat i"]
    by (auto simp: parse_num_def int_str_def digits_split num_stop_scan nat_of_digits_radix Let_def)
qed

section \<open>Values\<close>

text \<open>The values that survive a round trip: safe integers only, and no key twice in an object.\<close>

fun json_ok :: "json \<Rightarrow> bool" where
  "json_ok (JNum i) = safe_int i"
| "json_ok (JDbl b t) = False"
| "json_ok (JArr vs) = list_all json_ok vs"
| "json_ok (JObj kvs) = (wf_map kvs \<and> list_all (\<lambda>(k, v). json_ok v) kvs)"
| "json_ok _ = True"

fun fuel_need :: "json \<Rightarrow> nat" where
  "fuel_need (JArr vs) = 1 + sum_list (map (\<lambda>v. 1 + fuel_need v) vs)"
| "fuel_need (JObj kvs) = 1 + sum_list (map (\<lambda>(k, v). 1 + fuel_need v) kvs)"
| "fuel_need _ = 1"

definition quote_ok :: "(jsstr \<Rightarrow> jsstr) \<Rightarrow> bool" where
  "quote_ok q \<longleftrightarrow> (\<forall>s. \<exists>b. q s = 0x22 # b \<and> (\<forall>r. parse_str (b @ r) = Some (s, r)))"

lemma quote_okE:
  assumes "quote_ok q"
  obtains b where "q s = 0x22 # b" "\<And>r. parse_str (b @ r) = Some (s, r)"
  using assms by (auto simp: quote_ok_def)

lemma quote_json_ok: "quote_ok quote_json"
  by (simp add: quote_ok_def quote_json_def parse_str_esc_json_str)

lemma js_literals:
  "js ''null'' = [0x6e, 0x75, 0x6c, 0x6c]" "js ''true'' = [0x74, 0x72, 0x75, 0x65]"
  "js ''false'' = [0x66, 0x61, 0x6c, 0x73, 0x65]"
  by (simp_all add: js_def)

definition value_start :: "jschar \<Rightarrow> bool" where
  "value_start c \<longleftrightarrow> \<not> is_json_ws c \<and> c \<notin> {0x5d, 0x7d, 0x2c}"

lemma digit_start: "is_digit c \<Longrightarrow> value_start c"
  by (auto simp: is_digit_def value_start_def is_json_ws_def word_le_nat_alt)

lemma int_str_start: "\<exists>c cs. int_str i = c # cs \<and> (is_digit c \<or> c = 0x2d)"
proof (cases "i < 0")
  case False
  obtain c cs where "radix_str 10 (nat i) = c # cs"
    using radix_str_not_Nil by (cases "radix_str 10 (nat i)") auto
  then show ?thesis
    using False hd_radix_10 [of "nat i"] by (auto simp: int_str_def)
qed (simp add: int_str_def)

lemma print_start:
  assumes "quote_ok q" "json_ok v"
  shows "\<exists>c cs. print_json q v = c # cs \<and> value_start c"
proof (cases v)
  case (JNum i)
  then show ?thesis
    using int_str_start [of i] digit_start by (auto simp: value_start_def is_json_ws_def)
next
  case (JStr s)
  then show ?thesis
    using assms(1) by (auto elim!: quote_okE [of q s] simp: value_start_def is_json_ws_def)
qed (use assms in \<open>auto simp: js_literals value_start_def is_json_ws_def\<close>)

lemma skip_ws_start: "value_start c \<Longrightarrow> skip_ws (c # cs) = c # cs"
  by (simp add: value_start_def)

lemma num_stop_seps [simp]: "num_stop (0x2c # r)" "num_stop (0x5d # r)" "num_stop (0x7d # r)" "num_stop []"
  by (simp_all add: num_stop_def is_digit_def)

lemma parse_elems_print:
  assumes q: "quote_ok q" and "vs \<noteq> []" "list_all json_ok vs"
    and "sum_list (map (\<lambda>v. 1 + fuel_need v) vs) \<le> n"
    and "\<And>v r n. v \<in> set vs \<Longrightarrow> num_stop r \<Longrightarrow> fuel_need v \<le> n \<Longrightarrow>
      parse_value num_of n (print_json q v @ r) = Some (v, r)"
  shows "parse_elems num_of n (join [0x2c] (map (print_json q) vs) @ 0x5d # r) = Some (vs, r)"
  using assms(2-)
proof (induction vs arbitrary: n)
  case (Cons v vs)
  then obtain m where n: "n = Suc m" "fuel_need v \<le> m" "sum_list (map (\<lambda>v. 1 + fuel_need v) vs) \<le> m"
    by (cases n) auto
  show ?case
  proof (cases vs)
    case Nil
    then show ?thesis using n Cons.prems(4) [of v "0x5d # r" m] by (simp add: is_json_ws_def)
  next
    case (Cons w ws)
    then have IH: "parse_elems num_of m (join [0x2c] (map (print_json q) vs) @ 0x5d # r) = Some (vs, r)"
      using Cons.IH [of m] Cons.prems n by simp
    show ?thesis
      using IH n Cons Cons.prems(4) [of v "0x2c # join [0x2c] (map (print_json q) vs) @ 0x5d # r" m]
      by (simp add: is_json_ws_def)
  qed
qed simp

lemma update_fresh: "\<not> map_has m k \<Longrightarrow> map_set k v m = m @ [(k, v)]"
  by (induction m) auto

lemma parse_members_print:
  assumes q: "quote_ok q" and "kvs \<noteq> []" "list_all (\<lambda>(k, v). json_ok v) kvs"
    and "wf_map (acc @ kvs)"
    and "sum_list (map (\<lambda>(k, v). 1 + fuel_need v) kvs) \<le> n"
    and "\<And>k v r n. (k, v) \<in> set kvs \<Longrightarrow> num_stop r \<Longrightarrow> fuel_need v \<le> n \<Longrightarrow>
      parse_value num_of n (print_json q v @ r) = Some (v, r)"
  shows "parse_members num_of n acc
     (join [0x2c] (map (\<lambda>(k, v). q k @ 0x3a # print_json q v) kvs) @ 0x7d # r) = Some (acc @ kvs, r)"
  using assms(2-)
proof (induction kvs arbitrary: n acc)
  case (Cons kv kvs)
  obtain k v where kv: "kv = (k, v)" by (cases kv)
  from Cons.prems(4) kv obtain m where
    n: "n = Suc m" "fuel_need v \<le> m" "sum_list (map (\<lambda>(k, v). 1 + fuel_need v) kvs) \<le> m"
    by (cases n) auto
  obtain b where b: "q k = 0x22 # b" "\<And>r. parse_str (b @ r) = Some (k, r)"
    using quote_okE [OF q, of k] by blast
  have acc: "map_set k v acc = acc @ [(k, v)]"
    using Cons.prems(3) kv by (intro update_fresh) auto
  show ?case
  proof (cases kvs)
    case Nil
    then show ?thesis
      using n kv b acc Cons.prems(5) [of k v "0x7d # r" m] by (simp add: is_json_ws_def)
  next
    case (Cons kv' kvs')
    let ?rest = "join [0x2c] (map (\<lambda>(k, v). q k @ 0x3a # print_json q v) kvs) @ 0x7d # r"
    have IH: "parse_members num_of m (acc @ [(k, v)]) ?rest = Some ((acc @ [(k, v)]) @ kvs, r)"
      using Cons Cons.prems kv n by (intro Cons.IH) auto
    have step: "parse_value num_of m (print_json q v @ 0x2c # ?rest) = Some (v, 0x2c # ?rest)"
      using Cons.prems(5) [of k v "0x2c # ?rest" m] n kv by simp
    have "join [0x2c] (map (\<lambda>(k, v). q k @ 0x3a # print_json q v) (kv # kvs)) @ 0x7d # r
      = 0x22 # b @ 0x3a # print_json q v @ 0x2c # ?rest"
      using Cons kv b by simp
    then show ?thesis
      using n kv b(2) acc IH step by (simp add: is_json_ws_def)
  qed
qed simp

lemma parse_value_print:
  assumes q: "quote_ok q"
  shows "json_ok v \<Longrightarrow> num_stop r \<Longrightarrow> fuel_need v \<le> n \<Longrightarrow>
    parse_value num_of n (print_json q v @ r) = Some (v, r)"
proof (induction v arbitrary: r n)
  case JNull
  then show ?case by (cases n) (simp_all add: js_literals is_json_ws_def startsWith_def)
next
  case (JBool b)
  then show ?case by (cases n; cases b) (simp_all add: js_literals is_json_ws_def startsWith_def)
next
  case (JNum i)
  then obtain m where n: "n = Suc m" by (cases n) auto
  obtain c cs where c: "int_str i = c # cs" "is_digit c \<or> c = 0x2d"
    using int_str_start by blast
  have nc: "\<not> is_json_ws c \<and> c \<notin> {0x7b, 0x5b, 0x22, 0x74, 0x66, 0x6e}"
    using c(2) by (auto simp: is_digit_def is_json_ws_def word_le_nat_alt)
  have "parse_num num_of (c # cs @ r) = Some (JNum i, r)"
    using parse_num_int_str [of i r num_of] JNum.prems c(1) by simp
  then show ?case
    using n c(1) nc by (simp add: js_literals startsWith_def)
next
  case (JDbl b t)
  then show ?case by simp
next
  case (JStr s)
  then obtain m where n: "n = Suc m" by (cases n) auto
  obtain b where "q s = 0x22 # b" "\<And>r. parse_str (b @ r) = Some (s, r)"
    using quote_okE [OF q, of s] by blast
  then show ?case using n by (simp add: is_json_ws_def)
next
  case (JArr vs)
  then obtain m where n: "n = Suc m" "sum_list (map (\<lambda>v. 1 + fuel_need v) vs) \<le> m"
    by (cases n) auto
  show ?case
  proof (cases vs)
    case Nil
    then show ?thesis using n by (simp add: is_json_ws_def)
  next
    case (Cons w ws)
    let ?body = "join [0x2c] (map (print_json q) vs) @ 0x5d # r"
    have body: "parse_elems num_of m ?body = Some (vs, r)"
      using JArr n Cons by (intro parse_elems_print [OF q]) (auto simp: list_all_iff)
    obtain c cs where c: "print_json q w = c # cs" "value_start c"
      using print_start [OF q, of w] JArr.prems Cons by auto
    then obtain ds where "?body = c # ds"
      using Cons by (cases ws) auto
    then show ?thesis
      using n body c(2) by (simp add: is_json_ws_def value_start_def)
  qed
next
  case (JObj kvs)
  then obtain m where n: "n = Suc m" "sum_list (map (\<lambda>(k, v). 1 + fuel_need v) kvs) \<le> m"
    by (cases n) auto
  show ?case
  proof (cases kvs)
    case Nil
    then show ?thesis using n by (simp add: is_json_ws_def)
  next
    case (Cons kv kvs')
    let ?body = "join [0x2c] (map (\<lambda>(k, v). q k @ 0x3a # print_json q v) kvs) @ 0x7d # r"
    have IH: "parse_value num_of n (print_json q v @ r) = Some (v, r)"
      if "(k, v) \<in> set kvs" "num_stop r" "fuel_need v \<le> n" for k v r n
      using JObj.IH [OF that(1), of v r n] JObj.prems(1) that by (auto simp: list_all_iff)
    have body: "parse_members num_of m [] ?body = Some ([] @ kvs, r)"
      using JObj.prems(1) n(2) Cons IH by (intro parse_members_print [OF q]) auto
    obtain b where "q (fst kv) = 0x22 # b"
      using quote_okE [OF q, of "fst kv"] by blast
    then obtain ds where "?body = 0x22 # ds"
      using Cons by (cases kv; cases kvs') auto
    then show ?thesis
      using n body by (simp add: is_json_ws_def)
  qed
qed

lemma length_join: "length (join [s] xs) + 1 = sum_list (map (\<lambda>x. length x + 1) xs) \<or> xs = []"
  by (induction "[s]" xs rule: join.induct) auto

lemma print_not_Nil: "quote_ok q \<Longrightarrow> json_ok v \<Longrightarrow> 1 \<le> length (print_json q v)"
  using print_start [of q v] by auto

lemma sum_list_need:
  fixes f g :: "'a \<Rightarrow> nat"
  assumes "\<And>x. x \<in> set xs \<Longrightarrow> f x \<le> 2 * g x"
  shows "sum_list (map (\<lambda>x. 1 + f x) xs) \<le> 2 * sum_list (map (\<lambda>x. g x + 1) xs)"
  using assms
proof (induction xs)
  case (Cons x xs)
  then have "f x \<le> 2 * g x" "(\<Sum>x\<leftarrow>xs. 1 + f x) \<le> 2 * (\<Sum>x\<leftarrow>xs. g x + 1)" by auto
  then show ?case by simp
qed simp

lemma fuel_need_length:
  assumes q: "quote_ok q"
  shows "json_ok v \<Longrightarrow> fuel_need v \<le> 2 * length (print_json q v)"
proof (induction v)
  case (JArr vs)
  have "sum_list (map (\<lambda>v. 1 + fuel_need v) vs) \<le> 2 * sum_list (map (\<lambda>v. length (print_json q v) + 1) vs)"
    using JArr by (intro sum_list_need) (auto simp: list_all_iff)
  then show ?case
    using length_join [of "0x2c" "map (print_json q) vs"] by (auto simp: o_def)
next
  case (JObj kvs)
  have "sum_list (map (\<lambda>kv. 1 + fuel_need (snd kv)) kvs)
     \<le> 2 * sum_list (map (\<lambda>kv. length (q (fst kv) @ 0x3a # print_json q (snd kv)) + 1) kvs)"
    using JObj by (intro sum_list_need) (fastforce simp: list_all_iff)
  then show ?case
    using length_join [of "0x2c" "map (\<lambda>(k, v). q k @ 0x3a # print_json q v) kvs"]
    by (auto simp: o_def case_prod_unfold)
next
  case (JNum i)
  then show ?case using print_not_Nil [OF q, of "JNum i"] by simp
next
  case (JStr s)
  then show ?case using print_not_Nil [OF q, of "JStr s"] by simp
qed simp_all

lemma json_parse_print:
  assumes "quote_ok q" "json_ok v"
  shows "json_parse num_of (print_json q v) = Some v"
  using parse_value_print [OF assms, of "[]" "2 * length (print_json q v) + 2" num_of]
    fuel_need_length [OF assms] by (simp add: json_parse_def)

section \<open>Fuel\<close>

lemma parse_str_length: "parse_str s = Some (t, r) \<Longrightarrow> length r < length s"
proof (induction s arbitrary: t rule: length_induct)
  case (1 s)
  then have IH: "length s' < length s \<Longrightarrow> parse_str s' = Some (t', r) \<Longrightarrow> length r < length s'" for s' t'
    by blast
  from "1.prems" show ?case
    by (cases s) (auto split: if_splits list.splits option.splits dest!: IH [rotated])
qed

lemma scan_length:
  "scan_frac s = Some r \<Longrightarrow> length r \<le> length s" "scan_exp s = Some r \<Longrightarrow> length r \<le> length s"
proof -
  note le = length_dropWhile_le [of is_digit]
  show "scan_frac s = Some r \<Longrightarrow> length r \<le> length s"
    by (auto simp: scan_frac_def le le_SucI split: list.splits if_splits)
  show "scan_exp s = Some r \<Longrightarrow> length r \<le> length s"
    by (auto simp: scan_exp_def Let_def le le_SucI split: list.splits if_splits)
qed

lemma length_dropWhile_less: "takeWhile P s \<noteq> [] \<Longrightarrow> length (dropWhile P s) < length s"
  by (cases s) (auto simp: le_imp_less_Suc length_dropWhile_le split: if_splits)

lemma parse_num_length:
  assumes "parse_num num_of s = Some (v, r)"
  shows "length r < length s"
proof -
  define s1 where "s1 = (if s \<noteq> [] \<and> hd s = 0x2d then tl s else s)"
  from assms obtain s3 where s3: "takeWhile is_digit s1 \<noteq> []" "scan_frac (dropWhile is_digit s1) = Some s3"
    "scan_exp s3 = Some r"
    by (simp add: parse_num_def Let_def s1_def [symmetric] split: if_splits option.splits)
  have "length r \<le> length s3" "length s3 \<le> length (dropWhile is_digit s1)"
    using s3 scan_length by blast+
  moreover have "length (dropWhile is_digit s1) < length s1" using s3(1) by (rule length_dropWhile_less)
  moreover have "length s1 \<le> length s" by (simp add: s1_def)
  ultimately show ?thesis by linarith
qed

lemma skip_ws_length: "skip_ws s = c # cs \<Longrightarrow> length cs < length s"
  using length_dropWhile_le [of is_json_ws s] by simp

lemma parse_length:
  "(\<forall>s v r. parse_value num_of n s = Some (v, r) \<longrightarrow> length r < length s)
   \<and> (\<forall>s vs r. parse_elems num_of n s = Some (vs, r) \<longrightarrow> length r < length s)
   \<and> (\<forall>acc s kvs r. parse_members num_of n acc s = Some (kvs, r) \<longrightarrow> length r < length s)"
proof (induction n)
  case (Suc n)
  then have IH: "parse_value num_of n s = Some (v, r) \<Longrightarrow> length r < length s"
     "parse_elems num_of n s = Some (vs, r) \<Longrightarrow> length r < length s"
     "parse_members num_of n acc s = Some (kvs, r) \<Longrightarrow> length r < length s" for s v vs kvs r acc
    by blast+
  have V: "length r < length s" if A: "parse_value num_of (Suc n) s = Some (v, r)" for s v r
  proof -
    obtain c cs where c: "skip_ws s = c # cs" using A by (cases "skip_ws s") (simp_all del: dropWhile_eq_Nil_conv)
    from A c have "length r < length (c # cs)"
      by (auto split: list.splits if_splits dest!: IH parse_str_length parse_num_length skip_ws_length)
    with skip_ws_length [OF c] show ?thesis by simp
  qed
  have E: "length r < length s" if "parse_elems num_of (Suc n) s = Some (vs, r)" for s vs r
    using that by (auto split: list.splits if_splits option.splits dest!: IH skip_ws_length)
  have M: "length r < length s" if "parse_members num_of (Suc n) acc s = Some (kvs, r)" for acc s kvs r
    using that by (auto split: list.splits if_splits option.splits dest!: IH parse_str_length skip_ws_length)
  show ?case using V E M by blast
qed simp

lemmas parse_value_length = parse_length [THEN conjunct1, rule_format]
  and parse_elems_length = parse_length [THEN conjunct2, THEN conjunct1, rule_format]
  and parse_members_length = parse_length [THEN conjunct2, THEN conjunct2, rule_format]


lemma parse_fuel_Suc:
  "(\<forall>s. 2 * length s + 1 \<le> n \<longrightarrow> parse_value num_of (Suc n) s = parse_value num_of n s)
   \<and> (\<forall>s. 2 * length s + 2 \<le> n \<longrightarrow> parse_elems num_of (Suc n) s = parse_elems num_of n s)
   \<and> (\<forall>acc s. 2 * length s + 2 \<le> n \<longrightarrow>
        parse_members num_of (Suc n) acc s = parse_members num_of n acc s)"
proof (induction n)
  case (Suc n)
  then have IH:
    "2 * length s + 1 \<le> n \<Longrightarrow> parse_value num_of (Suc n) s = parse_value num_of n s"
    "2 * length s + 2 \<le> n \<Longrightarrow> parse_elems num_of (Suc n) s = parse_elems num_of n s"
    "2 * length s + 2 \<le> n \<Longrightarrow> parse_members num_of (Suc n) acc s = parse_members num_of n acc s"
    for s acc by blast+
  have V: "parse_value num_of (Suc (Suc n)) s = parse_value num_of (Suc n) s"
    if "2 * length s + 1 \<le> Suc n" for s
  proof -
    have sub: "parse_elems num_of (Suc n) (d # ds) = parse_elems num_of n (d # ds)"
        "parse_members num_of (Suc n) [] (d # ds) = parse_members num_of n [] (d # ds)"
      if "skip_ws s = c # cs" "skip_ws cs = d # ds" for c cs d ds
      using skip_ws_length [OF that(1)] skip_ws_length [OF that(2)] \<open>2 * length s + 1 \<le> Suc n\<close>
      by (intro IH; simp)+
    show ?thesis
    proof (cases "skip_ws s")
      case (Cons c cs)
      show ?thesis
        using sub [OF Cons] by (cases "skip_ws cs") (simp_all only: parse_value.simps(2) [of _ _ s] Cons list.case)
    qed (simp only: parse_value.simps(2) list.case)
  qed
  have E: "parse_elems num_of (Suc (Suc n)) s = parse_elems num_of (Suc n) s"
    if len: "2 * length s + 2 \<le> Suc n" for s
  proof -
    have v: "parse_value num_of (Suc n) s = parse_value num_of n s"
      using len by (intro IH) simp
    have e: "parse_elems num_of (Suc n) cs = parse_elems num_of n cs"
      if "parse_value num_of n s = Some (v, r)" "skip_ws r = c # cs" for v r c cs
      using parse_value_length [OF that(1)] skip_ws_length [OF that(2)] len by (intro IH) auto
    show ?thesis
    proof (cases "parse_value num_of n s")
      case (Some vr)
      then show ?thesis
        using e by (cases vr; cases "skip_ws (snd vr)")
          (simp_all only: parse_elems.simps(2) [of _ _ s] v option.case prod.case list.case snd_conv)
    qed (simp only: parse_elems.simps(2) v option.case)
  qed
  have M: "parse_members num_of (Suc (Suc n)) acc s = parse_members num_of (Suc n) acc s"
    if len: "2 * length s + 2 \<le> Suc n" for acc s
  proof -
    have v: "parse_value num_of (Suc n) ds = parse_value num_of n ds"
      if "skip_ws s = c # cs" "parse_str cs = Some (k, r)" "skip_ws r = d # ds" for c cs k r d ds
      using skip_ws_length [OF that(1)] parse_str_length [OF that(2)] skip_ws_length [OF that(3)] len
      by (intro IH) auto
    have m: "parse_members num_of (Suc n) acc es = parse_members num_of n acc es"
      if "skip_ws s = c # cs" "parse_str cs = Some (k, r)" "skip_ws r = d # ds"
        "parse_value num_of n ds = Some (v, r')" "skip_ws r' = e # es" for c cs k r d ds v r' e es acc
      using skip_ws_length [OF that(1)] parse_str_length [OF that(2)] skip_ws_length [OF that(3)]
        parse_value_length [OF that(4)] skip_ws_length [OF that(5)] len
      by (intro IH) auto
    note unf = parse_members.simps(2) [of _ _ acc s]
    show ?thesis
    proof (cases "skip_ws s")
      case s: (Cons c cs)
      show ?thesis
      proof (cases "parse_str cs")
        case (Some kr)
        then obtain k r where k: "parse_str cs = Some (k, r)" by (cases kr) simp
        show ?thesis
        proof (cases "skip_ws r")
          case d: (Cons d ds)
          note v' = v [OF s k d]
          show ?thesis
          proof (cases "parse_value num_of n ds")
            case (Some vr)
            then obtain w r' where w: "parse_value num_of n ds = Some (w, r')" by (cases vr) simp
            show ?thesis
              using m [OF s k d w]
              by (cases "skip_ws r'") (simp_all only: unf s k d v' w list.case option.case prod.case)
          qed (simp only: unf s k d v' list.case option.case prod.case)
        qed (simp only: unf s k list.case option.case prod.case)
      qed (simp only: unf s list.case option.case)
    qed (simp only: unf list.case)
  qed
  show ?case using V E M by blast
qed simp

lemma parse_value_fuel:
  "2 * length s + 1 \<le> n \<Longrightarrow> n \<le> m \<Longrightarrow> parse_value num_of m s = parse_value num_of n s"
proof (induction m)
  case (Suc m)
  show ?case
  proof (cases "n = Suc m")
    case False
    with Suc.prems have "n \<le> m" by simp
    then show ?thesis
      using Suc parse_fuel_Suc [of m num_of] by auto
  qed simp
qed simp

lemma json_parse_fuel:
  assumes "2 * length s + 2 \<le> n"
  shows "json_parse num_of s =
    (case parse_value num_of n s of
       None \<Rightarrow> None | Some (v, r) \<Rightarrow> if skip_ws r = [] then Some v else None)"
  using assms parse_value_fuel [of s "2 * length s + 2" n num_of] by (simp add: json_parse_def)

end
