(* ===== verification/Utf8.thy ===== *)
theory Utf8
  imports JsJson
begin

text \<open>
  \<open>TextEncoder\<close> and \<open>TextDecoder\<close>: UTF-16 code units to UTF-8 bytes and back, as the Encoding
  standard defines them. A lone surrogate is encoded as U+FFFD; the decoder replaces each
  maximal malformed sequence by U+FFFD and drops one leading byte order mark.
\<close>

section \<open>Encoding\<close>

fun code_points :: "jsstr \<Rightarrow> nat list" where
  "code_points [] = []"
| "code_points [c] = [if is_high c \<or> is_low c then 0xfffd else unat c]"
| "code_points (c # d # cs) =
     (if is_high c \<and> is_low d
      then (0x10000 + (unat c - 0xd800) * 0x400 + (unat d - 0xdc00)) # code_points cs
      else (if is_high c \<or> is_low c then 0xfffd else unat c) # code_points (d # cs))"

definition utf8_cp :: "nat \<Rightarrow> nat list" where
  "utf8_cp n =
     (if n < 0x80 then [n]
      else if n < 0x800 then [0xc0 + n div 64, 0x80 + n mod 64]
      else if n < 0x10000 then [0xe0 + n div 4096, 0x80 + n div 64 mod 64, 0x80 + n mod 64]
      else [0xf0 + n div 262144, 0x80 + n div 4096 mod 64, 0x80 + n div 64 mod 64, 0x80 + n mod 64])"

definition text_encode :: "jsstr \<Rightarrow> bytes" where
  "text_encode s = map of_nat (concat (map utf8_cp (code_points s)))"

section \<open>Decoding\<close>

abbreviation cont :: "nat \<Rightarrow> bool" where
  "cont b \<equiv> 0x80 \<le> b \<and> b \<le> 0xbf"

fun utf8_cps :: "nat list \<Rightarrow> nat list" where
  "utf8_cps [] = []"
| "utf8_cps (b # bs) =
     (if b < 0x80 then b # utf8_cps bs
      else if 0xc2 \<le> b \<and> b \<le> 0xdf then
        (case bs of
           [] \<Rightarrow> [0xfffd]
         | c # r \<Rightarrow> if cont c then ((b - 0xc0) * 64 + (c - 0x80)) # utf8_cps r
                   else 0xfffd # utf8_cps bs)
      else if 0xe0 \<le> b \<and> b \<le> 0xef then
        (case bs of
           [] \<Rightarrow> [0xfffd]
         | c # r \<Rightarrow>
             if (if b = 0xe0 then 0xa0 else 0x80) \<le> c \<and> c \<le> (if b = 0xed then 0x9f else 0xbf) then
               (case r of
                  [] \<Rightarrow> [0xfffd]
                | d # r' \<Rightarrow>
                    if cont d then ((b - 0xe0) * 4096 + (c - 0x80) * 64 + (d - 0x80)) # utf8_cps r'
                    else 0xfffd # utf8_cps r)
             else 0xfffd # utf8_cps bs)
      else if 0xf0 \<le> b \<and> b \<le> 0xf4 then
        (case bs of
           [] \<Rightarrow> [0xfffd]
         | c # r \<Rightarrow>
             if (if b = 0xf0 then 0x90 else 0x80) \<le> c \<and> c \<le> (if b = 0xf4 then 0x8f else 0xbf) then
               (case r of
                  [] \<Rightarrow> [0xfffd]
                | d # r' \<Rightarrow>
                    if cont d then
                      (case r' of
                         [] \<Rightarrow> [0xfffd]
                       | e # r'' \<Rightarrow>
                           if cont e
                           then ((b - 0xf0) * 262144 + (c - 0x80) * 4096 + (d - 0x80) * 64 + (e - 0x80))
                                # utf8_cps r''
                           else 0xfffd # utf8_cps r')
                    else 0xfffd # utf8_cps r)
             else 0xfffd # utf8_cps bs)
      else 0xfffd # utf8_cps bs)"

definition utf16_cp :: "nat \<Rightarrow> jsstr" where
  "utf16_cp n =
     (if n < 0x10000 then [of_nat n]
      else [of_nat (0xd800 + (n - 0x10000) div 0x400), of_nat (0xdc00 + (n - 0x10000) mod 0x400)])"

definition text_decode :: "bytes \<Rightarrow> jsstr" where
  "text_decode bs =
     (let cps = utf8_cps (map unat bs)
      in concat (map utf16_cp (if cps \<noteq> [] \<and> hd cps = 0xfeff then tl cps else cps)))"

section \<open>Round trip\<close>

definition scalar :: "nat \<Rightarrow> bool" where
  "scalar n \<longleftrightarrow> n < 0xd800 \<or> (0xe000 \<le> n \<and> n < 0x110000)"

lemma utf8_cp_bytes: "scalar n \<Longrightarrow> b \<in> set (utf8_cp n) \<Longrightarrow> b < 256"
  by (auto simp: utf8_cp_def scalar_def less_mult_imp_div_less split: if_splits)

lemma div_64:
  fixes n :: nat
  shows "n = n div 4096 * 4096 + n div 64 mod 64 * 64 + n mod 64"
    "n = n div 262144 * 262144 + n div 4096 mod 64 * 4096 + n div 64 mod 64 * 64 + n mod 64"
proof -
  have 1: "n = n div 64 * 64 + n mod 64"
    and 2: "n div 64 = n div 4096 * 64 + n div 64 mod 64"
    and 3: "n div 4096 = n div 262144 * 64 + n div 4096 mod 64"
    using div_mult_mod_eq [of "n div 64" 64] div_mult_mod_eq [of "n div 4096" 64]
    by (simp_all add: div_mult2_eq [symmetric])
  show "n = n div 4096 * 4096 + n div 64 mod 64 * 64 + n mod 64"
    using 1 2 by linarith
  show "n = n div 262144 * 262144 + n div 4096 mod 64 * 4096 + n div 64 mod 64 * 64 + n mod 64"
    using 1 2 3 by linarith
qed

lemma utf8_cps_3:
  "a < 16 \<Longrightarrow> b < 64 \<Longrightarrow> c < 64 \<Longrightarrow> (a = 0 \<Longrightarrow> 32 \<le> b) \<Longrightarrow> (a = 13 \<Longrightarrow> b < 32) \<Longrightarrow>
     utf8_cps ([0xe0 + a, 0x80 + b, 0x80 + c] @ r) = (a * 4096 + b * 64 + c) # utf8_cps r"
  by auto

lemma utf8_cps_4:
  "a < 5 \<Longrightarrow> b < 64 \<Longrightarrow> c < 64 \<Longrightarrow> d < 64 \<Longrightarrow> (a = 0 \<Longrightarrow> 16 \<le> b) \<Longrightarrow> (a = 4 \<Longrightarrow> b < 16) \<Longrightarrow>
     utf8_cps ([0xf0 + a, 0x80 + b, 0x80 + c, 0x80 + d] @ r)
       = (a * 262144 + b * 4096 + c * 64 + d) # utf8_cps r"
  by auto

lemma utf8_cps_cp:
  assumes "scalar n"
  shows "utf8_cps (utf8_cp n @ r) = n # utf8_cps r"
proof -
  consider "n < 0x80" | "0x80 \<le> n" "n < 0x800" | "0x800 \<le> n" "n < 0x10000" | "0x10000 \<le> n"
    by linarith
  then show ?thesis
  proof cases
    case 1
    then show ?thesis by (simp add: utf8_cp_def)
  next
    case 2
    then have "2 \<le> n div 64" "n div 64 < 32" by auto
    then show ?thesis using 2 by (simp add: utf8_cp_def)
  next
    case 3
    let ?a = "n div 4096" and ?b = "n div 64 mod 64" and ?c = "n mod 64"
    have n: "n = ?a * 4096 + ?b * 64 + ?c" by (rule div_64)
    have "?a < 16" "?b < 64" "?c < 64" using 3 by auto
    moreover have "?a = 0 \<Longrightarrow> 32 \<le> ?b" using 3 n \<open>?c < 64\<close> by linarith
    moreover have "?a = 13 \<Longrightarrow> ?b < 32" using assms 3 n \<open>?c < 64\<close> by (auto simp: scalar_def)
    ultimately have "utf8_cps ([0xe0 + ?a, 0x80 + ?b, 0x80 + ?c] @ r) = n # utf8_cps r"
      using n by (subst utf8_cps_3) auto
    then show ?thesis using 3 by (simp only: utf8_cp_def) simp
  next
    case 4
    let ?a = "n div 262144" and ?b = "n div 4096 mod 64" and ?c = "n div 64 mod 64" and ?d = "n mod 64"
    have n: "n = ?a * 262144 + ?b * 4096 + ?c * 64 + ?d" by (rule div_64)
    have bnd: "?a < 5" "?b < 64" "?c < 64" "?d < 64" using 4 assms by (auto simp: scalar_def)
    moreover have "?a = 0 \<Longrightarrow> 16 \<le> ?b" using 4 n bnd by linarith
    moreover have "?a = 4 \<Longrightarrow> ?b < 16" using assms 4 n by (auto simp: scalar_def)
    ultimately have "utf8_cps ([0xf0 + ?a, 0x80 + ?b, 0x80 + ?c, 0x80 + ?d] @ r) = n # utf8_cps r"
      using n by (subst utf8_cps_4) auto
    then show ?thesis using 4 by (simp only: utf8_cp_def) simp
  qed
qed

lemma utf8_cps_concat: "list_all scalar ns \<Longrightarrow> utf8_cps (concat (map utf8_cp ns)) = ns"
  by (induction ns) (simp_all add: utf8_cps_cp)

lemma surrogate_bounds:
  "is_high c \<longleftrightarrow> 0xd800 \<le> unat c \<and> unat c \<le> 0xdbff" "is_low c \<longleftrightarrow> 0xdc00 \<le> unat c \<and> unat c \<le> 0xdfff"
  by (simp_all add: is_high_def is_low_def word_le_nat_alt)

lemma unat_jschar_bound: "unat (c :: jschar) < 0x10000"
  using unsigned_less [of c, where 'a = nat] by simp

lemma code_points_scalar: "list_all scalar (code_points s)"
proof (induction s rule: code_points.induct)
  case (2 c)
  then show ?case using unat_jschar_bound [of c] by (auto simp: scalar_def surrogate_bounds)
next
  case (3 c d cs)
  then show ?case using unat_jschar_bound [of c] by (auto simp: scalar_def surrogate_bounds)
qed simp

fun wf16 :: "jsstr \<Rightarrow> bool" where
  \<comment> \<open>no lone surrogate\<close>
  "wf16 [] = True"
| "wf16 [c] = (\<not> is_high c \<and> \<not> is_low c)"
| "wf16 (c # d # cs) =
     (if is_high c \<and> is_low d then wf16 cs else \<not> is_high c \<and> \<not> is_low c \<and> wf16 (d # cs))"

lemma utf16_cp_unat: "utf16_cp (unat c) = [c]"
  using unat_jschar_bound [of c] by (simp add: utf16_cp_def)

lemma utf16_cp_pair:
  assumes "is_high c" "is_low d"
  shows "utf16_cp (0x10000 + (unat c - 0xd800) * 0x400 + (unat d - 0xdc00)) = [c, d]"
proof -
  obtain x y where xy: "unat c = 0xd800 + x" "unat d = 0xdc00 + y" "y < 0x400"
    using assms le_Suc_ex [of "0xd800" "unat c"] le_Suc_ex [of "0xdc00" "unat d"]
    by (auto simp: surrogate_bounds)
  have "of_nat (0xd800 + x) = c" unfolding xy(1) [symmetric] by simp
  moreover have "of_nat (0xdc00 + y) = d" unfolding xy(2) [symmetric] by simp
  ultimately show ?thesis
    using xy by (simp add: utf16_cp_def del: of_nat_add)
qed

lemma utf16_code_points: "wf16 s \<Longrightarrow> concat (map utf16_cp (code_points s)) = s"
  by (induction s rule: code_points.induct) (auto simp: utf16_cp_unat utf16_cp_pair split: if_splits)

lemma unat_text_encode: "map unat (text_encode s) = concat (map utf8_cp (code_points s))"
proof -
  have "map (\<lambda>n. unat (of_nat n :: byte)) ns = ns" if "\<forall>n \<in> set ns. n < 256" for ns
    using that by (induction ns) (simp_all add: unat_of_nat take_bit_nat_eq_self)
  moreover have "\<forall>n \<in> set (concat (map utf8_cp (code_points s))). n < 256"
    using code_points_scalar [of s] utf8_cp_bytes by (auto simp: list_all_iff)
  ultimately show ?thesis by (simp add: text_encode_def comp_def)
qed

lemma utf8_cps_text_encode: "utf8_cps (map unat (text_encode s)) = code_points s"
  by (simp add: unat_text_encode utf8_cps_concat code_points_scalar)

lemma code_points_bom:
  "code_points s \<noteq> [] \<and> hd (code_points s) = 0xfeff \<longleftrightarrow> s \<noteq> [] \<and> hd s = 0xfeff"
  by (induction s rule: code_points.induct) (auto simp: surrogate_bounds word_unat_eq_iff)

lemma text_decode_encode:
  assumes "wf16 s"
  shows "text_decode (text_encode s) = (if s \<noteq> [] \<and> hd s = 0xfeff then tl s else s)"
proof -
  have "concat (map utf16_cp (tl (code_points s))) = tl s" if "s \<noteq> []" "hd s = 0xfeff"
  proof -
    from that obtain cs where s: "s = 0xfeff # cs" by (cases s) auto
    then have "wf16 cs" "code_points s = 0xfeff # code_points cs"
      using assms by (cases cs; simp add: surrogate_bounds)+
    then show ?thesis using s utf16_code_points by simp
  qed
  then show ?thesis
    using assms by (simp add: text_decode_def Let_def utf8_cps_text_encode code_points_bom utf16_code_points)
qed

lemma ascii_wf16: "\<forall>c \<in> set s. c < 0x80 \<Longrightarrow> wf16 s"
  by (induction s rule: wf16.induct) (auto simp: surrogate_bounds word_less_nat_alt)

lemma text_decode_ascii:
  assumes "\<forall>c \<in> set s. c < 0x80"
  shows "text_decode (text_encode s) = s"
proof -
  have "s = [] \<or> hd s \<noteq> 0xfeff" using assms by (cases s) auto
  then show ?thesis using text_decode_encode [OF ascii_wf16 [OF assms]] by auto
qed

lemma text_encode_ascii:
  assumes "\<forall>c \<in> set s. c < 0x80"
  shows "text_encode s = map (\<lambda>c. of_nat (unat c)) s"
proof -
  have "concat (map utf8_cp (code_points s)) = map unat s"
    using assms
    by (induction s rule: code_points.induct)
      (auto simp: surrogate_bounds word_less_nat_alt utf8_cp_def)
  then show ?thesis by (simp add: text_encode_def comp_def)
qed

lemma text_encode_inject:
  "wf16 s \<Longrightarrow> wf16 t \<Longrightarrow> text_encode s = text_encode t \<Longrightarrow> s = t"
  by (metis utf8_cps_text_encode utf16_code_points)

end
