(* ===== verification/Canonical.thy ===== *)
theory Canonical
  imports JsJsonFacts Utf8
begin

text \<open>
  core/canonical.ts: the exact text that is signed. \<open>encode\<close> is the source's recursive encoder,
  which throws on a number that is not an integer; the facts say that its text is plain ASCII,
  that \<open>JSON.parse\<close> reads it back as the value with sorted keys, and that two values with the
  same text are the same up to the order of keys.
\<close>

section \<open>The encoder\<close>

definition encode_unit :: "jschar \<Rightarrow> jsstr" where
  \<comment> \<open>one turn of the loop of \<open>encodeString\<close>\<close>
  "encode_unit c =
     (if c = 0x22 then [0x5c, 0x22] else if c = 0x5c then [0x5c, 0x5c]
      else if c = 0x08 then [0x5c, 0x62] else if c = 0x09 then [0x5c, 0x74]
      else if c = 0x0a then [0x5c, 0x6e] else if c = 0x0c then [0x5c, 0x66]
      else if c = 0x0d then [0x5c, 0x72]
      else if c < 0x20 \<or> 0x7f \<le> c then u_escape c
      else [c])"

definition encodeString :: "jsstr \<Rightarrow> jsstr" where
  "encodeString s = 0x22 # concat (map encode_unit s) @ [0x22]"

fun encode :: "json \<Rightarrow> jsstr res" where
  "encode JNull = Inr (js ''null'')"
| "encode (JBool b) = Inr (if b then js ''true'' else js ''false'')"
| "encode (JNum i) = Inr (int_str i)"
| "encode (JDbl is_int t) =
     (if is_int then Inr t else Inl (Err JsError (js ''canonical: only integers allowed, got '' @ t)))"
| "encode (JStr s) = Inr (encodeString s)"
| "encode (JArr vs) = rmap (\<lambda>ts. 0x5b # join [0x2c] ts @ [0x5d]) (mapR encode vs)"
| "encode (JObj kvs) =
     rmap (\<lambda>ts. 0x7b # join [0x2c] ts @ [0x7d])
       (mapR (\<lambda>kv. rmap (\<lambda>t. encodeString (fst kv) @ 0x3a # t) (encode (snd kv)))
          (sort_key fst kvs))"

definition canonicalize :: "json \<Rightarrow> jsstr res" where
  "canonicalize v = encode v"

definition canonicalBytes :: "json \<Rightarrow> bytes res" where
  "canonicalBytes v = rmap text_encode (canonicalize v)"

section \<open>The value a canonical text stands for\<close>

fun norm_json :: "json \<Rightarrow> json" where
  "norm_json (JArr vs) = JArr (map norm_json vs)"
| "norm_json (JObj kvs) = JObj (map (\<lambda>kv. (fst kv, norm_json (snd kv))) (sort_key fst kvs))"
| "norm_json v = v"

fun has_float :: "json \<Rightarrow> bool" where
  \<comment> \<open>some number inside is not an integer\<close>
  "has_float (JDbl is_int t) = (\<not> is_int)"
| "has_float (JArr vs) = list_ex has_float vs"
| "has_float (JObj kvs) = list_ex (\<lambda>kv. has_float (snd kv)) kvs"
| "has_float _ = False"

lemma map_fst_norm [simp]: "map fst (map (\<lambda>kv. (fst kv, f (snd kv))) kvs) = map fst kvs"
  by simp

lemma json_ok_obj: "json_ok (JObj kvs) \<longleftrightarrow> wf_map kvs \<and> (\<forall>kv \<in> set kvs. json_ok (snd kv))"
  by (auto simp: list_all_iff case_prod_unfold)

lemma json_ok_norm: "json_ok v \<Longrightarrow> json_ok (norm_json v)"
proof (induction v rule: json_induct)
  case (JObj kvs)
  then show ?case by (simp add: json_ok_obj comp_def del: json_ok.simps)
qed (auto simp: list_all_iff)

lemma json_ok_no_float: "json_ok v \<Longrightarrow> \<not> has_float v"
proof (induction v rule: json_induct)
  case (JObj kvs)
  then show ?case by (auto simp: json_ok_obj list_ex_iff simp del: json_ok.simps)
qed (auto simp: list_all_iff list_ex_iff)

lemma encode_print: "\<not> has_float v \<Longrightarrow> encode v = Inr (print_json encodeString (norm_json v))"
proof (induction v rule: json_induct)
  case (JArr vs)
  then have "mapR encode vs = Inr (map (\<lambda>v. print_json encodeString (norm_json v)) vs)"
    by (intro mapR_map) (auto simp: list_ex_iff)
  then show ?case by (simp add: comp_def)
next
  case (JObj kvs)
  have "mapR (\<lambda>kv. rmap (\<lambda>t. encodeString (fst kv) @ 0x3a # t) (encode (snd kv))) (sort_key fst kvs)
    = Inr (map (\<lambda>kv. encodeString (fst kv) @ 0x3a # print_json encodeString (norm_json (snd kv)))
        (sort_key fst kvs))"
    using JObj by (intro mapR_map) (auto simp: list_ex_iff)
  then show ?case by (simp add: comp_def)
qed auto

lemma encode_throws: "has_float v \<Longrightarrow> \<exists>e. encode v = Inl e"
proof (induction v rule: json_induct)
  case (JArr vs)
  then show ?case
    by (cases "mapR encode vs") (fastforce simp: list_ex_iff dest: mapR_Inr_in)+
next
  case (JObj kvs)
  let ?f = "\<lambda>kv. rmap (\<lambda>t. encodeString (fst kv) @ 0x3a # t) (encode (snd kv))"
  obtain kv where kv: "kv \<in> set kvs" "has_float (snd kv)" using JObj.prems by (auto simp: list_ex_iff)
  then have "\<exists>e. ?f kv = Inl e" using JObj.IH by fastforce
  then show ?case
    using kv(1) by (cases "mapR ?f (sort_key fst kvs)") (auto dest: mapR_Inr_in [of ?f _ _ kv])
qed auto

section \<open>Round trip and injectivity\<close>

lemma parse_str_encode_unit:
  "parse_str (encode_unit c @ r) = map_option (apfst ((#) c)) (parse_str r)"
  unfolding encode_unit_def using parse_str_u_escape [of c r]
  by (simp add: unescape_def)

lemma encodeString_ok: "quote_ok encodeString"
proof -
  have "parse_str (concat (map encode_unit s) @ 0x22 # r) = Some (s, r)" for s r
    by (induction s) (simp_all add: parse_str_encode_unit)
  then show ?thesis by (simp add: quote_ok_def encodeString_def)
qed

lemma canonical_parse:
  assumes "json_ok v"
  shows "\<exists>t. canonicalize v = Inr t \<and> json_parse num_of t = Some (norm_json v)"
  using assms json_parse_print [OF encodeString_ok json_ok_norm [OF assms], of num_of]
  by (simp add: canonicalize_def encode_print json_ok_no_float)

lemma canonicalize_total: "(\<exists>t. canonicalize v = Inr t) \<longleftrightarrow> \<not> has_float v"
  using encode_print encode_throws by (fastforce simp: canonicalize_def)

lemma canonicalize_inject:
  assumes "json_ok v" "json_ok w" "canonicalize v = canonicalize w"
  shows "norm_json v = norm_json w"
  using canonical_parse [OF assms(1), of "\<lambda>_. JNull"] canonical_parse [OF assms(2), of "\<lambda>_. JNull"] assms(3)
  by auto

section \<open>ASCII\<close>

lemma digit_char_ascii: "d < 16 \<Longrightarrow> 0x20 \<le> digit_char d \<and> digit_char d < 0x7f"
proof -
  have "list_all (\<lambda>d. 0x20 \<le> digit_char d \<and> digit_char d < 0x7f) [0..<16]" by code_simp
  moreover assume "d < 16"
  ultimately show ?thesis by (simp add: list_all_iff)
qed

definition printable :: "jsstr \<Rightarrow> bool" where
  "printable s \<longleftrightarrow> (\<forall>c \<in> set s. 0x20 \<le> c \<and> c < 0x7f)"

lemma printable_simps [simp]:
  "printable []" "printable (c # s) \<longleftrightarrow> 0x20 \<le> c \<and> c < 0x7f \<and> printable s"
  "printable (s @ t) \<longleftrightarrow> printable s \<and> printable t"
  by (auto simp: printable_def)

lemma radix_str_printable: "2 \<le> b \<Longrightarrow> b \<le> 16 \<Longrightarrow> printable (radix_str b n)"
proof (induction b n rule: radix_str.induct)
  case (1 b n)
  show ?case
  proof (cases "n < b")
    case True
    then show ?thesis using 1 digit_char_ascii [of n] by (simp add: radix_str_less)
  next
    case False
    have "n mod b < b" using 1 by simp
    then have "n mod b < 16" using 1 by linarith
    then show ?thesis using 1 False digit_char_ascii [of "n mod b"] by (simp add: radix_str_ge)
  qed
qed

lemma u_escape_printable: "printable (u_escape c)"
proof -
  have "printable (replicate n 0x30)" for n by (auto simp: printable_def)
  then show ?thesis by (simp add: u_escape_def padStart_def radix_str_printable)
qed

lemma encodeString_printable: "printable (encodeString s)"
proof -
  have "printable (encode_unit c)" for c
    using u_escape_printable [of c] by (auto simp: encode_unit_def not_le not_less)
  then have "printable (concat (map encode_unit s))" by (induction s) simp_all
  then show ?thesis by (simp add: encodeString_def)
qed

lemma int_str_printable: "printable (int_str i)"
  by (simp add: int_str_def radix_str_printable)

lemma join_printable: "printable sep \<Longrightarrow> \<forall>t \<in> set ts. printable t \<Longrightarrow> printable (join sep ts)"
  by (induction sep ts rule: join.induct) simp_all

lemma print_printable: "json_ok v \<Longrightarrow> printable (print_json encodeString v)"
proof (induction v rule: json_induct)
  case (JObj kvs)
  then show ?case
    by (auto simp: json_ok_obj encodeString_printable intro!: join_printable simp del: json_ok.simps)
qed (auto simp: js_literals int_str_printable encodeString_printable list_all_iff intro!: join_printable)

lemma printable_ascii: "printable s \<Longrightarrow> \<forall>c \<in> set s. c < 0x80"
  by (auto simp: printable_def word_less_nat_alt)

lemma canonicalBytes_ok:
  assumes "json_ok v"
  obtains t where "canonicalBytes v = Inr (text_encode t)" "canonicalize v = Inr t" "printable t"
    "json_parse num_of t = Some (norm_json v)" "text_decode (text_encode t) = t"
proof -
  obtain t where t: "canonicalize v = Inr t" "json_parse num_of t = Some (norm_json v)"
    using canonical_parse [OF assms] by blast
  have "printable t"
    using t(1) print_printable [OF json_ok_norm [OF assms]] assms
    by (simp add: canonicalize_def encode_print json_ok_no_float)
  with t that show ?thesis
    by (simp add: canonicalBytes_def text_decode_ascii printable_ascii)
qed

lemma canonicalBytes_inject:
  assumes "json_ok v" "json_ok w" "canonicalBytes v = canonicalBytes w"
  shows "norm_json v = norm_json w"
proof -
  obtain t u where "canonicalBytes v = Inr (text_encode t)" "canonicalize v = Inr t" "text_decode (text_encode t) = t"
    "canonicalBytes w = Inr (text_encode u)" "canonicalize w = Inr u" "text_decode (text_encode u) = u"
    using canonicalBytes_ok [OF assms(1)] canonicalBytes_ok [OF assms(2)] by metis
  then have "canonicalize v = canonicalize w" using assms(3) by (metis sum.inject(2))
  then show ?thesis using assms by (intro canonicalize_inject)
qed

section \<open>Reading a normalised object\<close>

lemma obj_get_norm:
  "json_ok (JObj kvs) \<Longrightarrow> obj_get (norm_json (JObj kvs)) k = map_option norm_json (map_get kvs k)"
proof -
  have map: "map_get (map (\<lambda>kv. (fst kv, f (snd kv))) m) k = map_option f (map_get m k)" for f m
    by (induction m) auto
  show "json_ok (JObj kvs) \<Longrightarrow> ?thesis" by (simp add: map map_get_sort)
qed

lemma norm_json_atom_iff [simp]:
  "norm_json v = JStr s \<longleftrightarrow> v = JStr s" "norm_json v = JNum i \<longleftrightarrow> v = JNum i"
  by (cases v; simp)+

lemma norm_json_eq_obj:
  assumes "json_ok (JObj kvs)" "json_ok (JObj kvs')" "norm_json (JObj kvs) = norm_json (JObj kvs')"
  shows "map_option norm_json (map_get kvs k) = map_option norm_json (map_get kvs' k)"
  using obj_get_norm [OF assms(1), of k] obj_get_norm [OF assms(2), of k] assms(3) by simp
end
