(* ===== verification/JsDate.thy ===== *)
theory JsDate
  imports JsJsonFacts
begin

text \<open>
  Dates: a valid \<open>Date\<close> is its time value, the milliseconds since 1970 as an integer.
  \<open>toISOString\<close> follows the calendar functions of the language (DayFromYear, MonthFromTime,
  DateFromTime). \<open>Date.parse\<close> reads back exactly the strings \<open>toISOString\<close> prints; what any
  other string means is left to the implementation by the language, so it is the argument
  \<open>fallback\<close>, where \<open>None\<close> is NaN.
\<close>

section \<open>The calendar\<close>

definition ms_per_day :: int where
  "ms_per_day = 86400000"

definition max_time :: int where
  "max_time = 8640000000000000"

definition day_from_year :: "int \<Rightarrow> int" where
  "day_from_year y = 365 * (y - 1970) + (y - 1969) div 4 - (y - 1901) div 100 + (y - 1601) div 400"

definition year_of_day :: "int \<Rightarrow> int" where
  "year_of_day d =
     (let y = 1970 + (400 * d) div 146097
      in if d < day_from_year y then y - 1 else if day_from_year (y + 1) \<le> d then y + 1 else y)"

definition leap_year :: "int \<Rightarrow> bool" where
  "leap_year y \<longleftrightarrow> y mod 4 = 0 \<and> (y mod 100 \<noteq> 0 \<or> y mod 400 = 0)"

definition month_start :: "bool \<Rightarrow> nat \<Rightarrow> int" where
  \<comment> \<open>days before month \<open>m\<close>, counted from 0\<close>
  "month_start leap m =
     [0, 31, 59, 90, 120, 151, 181, 212, 243, 273, 304, 334] ! m + (if leap \<and> 2 \<le> m then 1 else 0)"

fun month_upto :: "bool \<Rightarrow> int \<Rightarrow> nat \<Rightarrow> nat" where
  "month_upto leap doy 0 = 0"
| "month_upto leap doy (Suc m) =
     (if month_start leap (Suc m) \<le> doy then Suc m else month_upto leap doy m)"

definition month_of :: "bool \<Rightarrow> int \<Rightarrow> nat" where
  "month_of leap doy = month_upto leap doy 11"

definition make_day :: "int \<Rightarrow> nat \<Rightarrow> int \<Rightarrow> int" where
  \<comment> \<open>MakeDay for a month from 0 and a day from 1\<close>
  "make_day y m dt = day_from_year y + month_start (leap_year y) m + dt - 1"

section \<open>Printing and parsing\<close>

definition pad :: "nat \<Rightarrow> nat \<Rightarrow> jsstr" where
  "pad n k = padStart n 0x30 (radix_str 10 k)"

definition year_str :: "int \<Rightarrow> jsstr" where
  "year_str y =
     (if 0 \<le> y \<and> y \<le> 9999 then pad 4 (nat y)
      else if y < 0 then 0x2d # pad 6 (nat (- y)) else 0x2b # pad 6 (nat y))"

definition iso_str :: "int \<Rightarrow> jsstr" where
  "iso_str t =
     (let d = t div ms_per_day; ms = nat (t mod ms_per_day); y = year_of_day d;
          doy = d - day_from_year y; m = month_of (leap_year y) doy;
          dt = doy - month_start (leap_year y) m + 1
      in year_str y @ 0x2d # pad 2 (m + 1) @ 0x2d # pad 2 (nat dt) @ 0x54 # pad 2 (ms div 3600000)
         @ 0x3a # pad 2 (ms div 60000 mod 60) @ 0x3a # pad 2 (ms div 1000 mod 60)
         @ 0x2e # pad 3 (ms mod 1000) @ [0x5a])"

definition toISOString :: "int \<Rightarrow> jsstr res" where
  \<comment> \<open>throws RangeError on an invalid date\<close>
  "toISOString t =
     (if - max_time \<le> t \<and> t \<le> max_time then Inr (iso_str t) else throw JsError ''Invalid Date'')"

definition num_at :: "nat \<Rightarrow> nat \<Rightarrow> jsstr \<Rightarrow> nat" where
  "num_at i n s = nat_of_digits (take n (drop i s))"

definition iso_read :: "jsstr \<Rightarrow> int" where
  \<comment> \<open>the time value at the fixed places of the format, whatever stands between them\<close>
  "iso_read s =
     (let sgn = (s \<noteq> [] \<and> (hd s = 0x2d \<or> hd s = 0x2b));
          y = (if sgn then (if hd s = 0x2d then - int (num_at 1 6 s) else int (num_at 1 6 s))
               else int (num_at 0 4 s));
          b = drop (if sgn then 7 else 4) s
      in make_day y (num_at 1 2 b - 1) (int (num_at 4 2 b)) * ms_per_day
         + int (num_at 7 2 b) * 3600000 + int (num_at 10 2 b) * 60000
         + int (num_at 13 2 b) * 1000 + int (num_at 16 3 b))"

definition date_parse :: "(jsstr \<Rightarrow> int option) \<Rightarrow> jsstr \<Rightarrow> int option" where
  "date_parse fallback s =
     (if toISOString (iso_read s) = Inr s then Some (iso_read s) else fallback s)"

section \<open>The year of a day\<close>

lemma div_bounds:
  assumes "(0::int) < k"
  shows "k * (x div k) \<le> x" "x < k * (x div k) + k"
  using assms pos_mod_sign [of k x] pos_mod_bound [of k x] mult_div_mod_eq [of k x] by linarith+

lemma div_plus_1:
  assumes "(0::int) < k"
  shows "(x + 1) div k = x div k + (if (x + 1) mod k = 0 then 1 else 0)"
proof -
  have r: "0 \<le> x mod k" "x mod k < k" "x = x div k * k + x mod k" using assms by simp_all
  show ?thesis
  proof (cases "x mod k = k - 1")
    case True
    have "(x div k + 1) * k = x div k * k + k" by (simp add: distrib_right)
    with True r(3) have "x + 1 = (x div k + 1) * k" by linarith
    then show ?thesis using assms by simp
  next
    case False
    then have lt: "x mod k + 1 < k" using r by linarith
    have eq: "x + 1 = k * (x div k) + (x mod k + 1)" using r(3) by (simp add: mult.commute)
    have "(x + 1) div k = x div k" using r(1) lt by (intro int_div_pos_eq [OF eq]) auto
    moreover have "(x + 1) mod k = x mod k + 1" using r(1) lt by (intro int_mod_pos_eq [OF eq]) auto
    ultimately show ?thesis using r by simp
  qed
qed

lemma year_of_day_spec:
  "day_from_year (year_of_day d) \<le> d \<and> d < day_from_year (year_of_day d + 1)"
proof -
  define y where "y = 1970 + (400 * d) div 146097"
  have y: "146097 * (y - 1970) \<le> 400 * d" "400 * d < 146097 * (y - 1970) + 146097"
    using div_bounds [of 146097 "400 * d"] by (simp_all add: y_def)
  have b1: "146097 * z - 287811596 \<le> 400 * day_from_year z"
    and b2: "400 * day_from_year z \<le> 146097 * z - 287810501" for z
    using div_bounds [of 4 "z - 1969"] div_bounds [of 100 "z - 1901"] div_bounds [of 400 "z - 1601"]
    unfolding day_from_year_def by simp_all
  have lo: "day_from_year (y - 1) \<le> d" using b2 [of "y - 1"] y by simp
  have hi: "d < day_from_year (2 + y)" using b1 [of "2 + y"] y by simp
  show ?thesis
    using lo hi by (simp add: year_of_day_def y_def [symmetric] Let_def)
qed

lemma day_from_year_Suc: "day_from_year (y + 1) = day_from_year y + (if leap_year y then 366 else 365)"
proof -
  define p q r where pqr: "p \<longleftrightarrow> y mod 4 = 0" "q \<longleftrightarrow> y mod 100 = 0" "r \<longleftrightarrow> y mod 400 = 0"
  define a b c where abc: "a = (y - 1969) div 4" "b = (y - 1901) div 100" "c = (y - 1601) div 400"
  have a': "(y - 1968) div 4 = a + (if p then 1 else 0)"
    using div_plus_1 [of 4 "y - 1969"] mod_mult_self1 [of "y - 1968" 492 4] by (simp add: pqr abc)
  have b': "(y - 1900) div 100 = b + (if q then 1 else 0)"
    using div_plus_1 [of 100 "y - 1901"] mod_mult_self1 [of "y - 1900" 19 100] by (simp add: pqr abc)
  have c': "(y - 1600) div 400 = c + (if r then 1 else 0)"
    using div_plus_1 [of 400 "y - 1601"] mod_mult_self1 [of "y - 1600" 4 400] by (simp add: pqr abc)
  have "r \<Longrightarrow> q" "q \<Longrightarrow> p"
    using mod_mod_cancel [of 100 400 y] mod_mod_cancel [of 4 100 y] by (simp_all add: pqr)
  moreover have "leap_year y \<longleftrightarrow> p \<and> (\<not> q \<or> r)" by (simp add: leap_year_def pqr)
  moreover have "day_from_year (y + 1) = 365 * (y - 1969) + (y - 1968) div 4 - (y - 1900) div 100 + (y - 1600) div 400"
    by (simp add: day_from_year_def)
  moreover have "day_from_year y = 365 * (y - 1970) + a - b + c"
    by (simp add: day_from_year_def abc)
  ultimately show ?thesis
    unfolding a' b' c' by (cases p; cases q; cases r) simp_all
qed

lemma day_of_year: "0 \<le> d - day_from_year (year_of_day d)" "d - day_from_year (year_of_day d) \<le> 365"
  using year_of_day_spec [of d] day_from_year_Suc [of "year_of_day d"] by (auto split: if_splits)

lemma year_of_day_bound:
  assumes "- 100000000 \<le> d" "d \<le> 100000000"
  shows "- 999999 \<le> year_of_day d" "year_of_day d \<le> 999999"
proof -
  have "- 300000 \<le> (400 * d) div 146097" "(400 * d) div 146097 \<le> 300000"
    using assms div_bounds [of 146097 "400 * d"] by simp_all
  then show "- 999999 \<le> year_of_day d" "year_of_day d \<le> 999999"
    by (simp_all add: year_of_day_def Let_def)
qed

section \<open>Months\<close>

lemma month_upto_le: "month_upto leap doy m \<le> m"
  by (induction m) auto

lemma month_start_0 [simp]: "month_start leap 0 = 0"
  by (simp add: month_start_def)

lemma month_upto_start: "0 \<le> doy \<Longrightarrow> month_start leap (month_upto leap doy m) \<le> doy"
  by (induction m) auto

lemma month_upto_next:
  "month_upto leap doy m < m \<Longrightarrow> doy < month_start leap (Suc (month_upto leap doy m))"
proof (induction m)
  case (Suc m)
  then show ?case
    using month_upto_le [of leap doy m] by (cases "month_upto leap doy m = m") auto
qed simp

lemma month_length: "m < 11 \<Longrightarrow> month_start leap (Suc m) \<le> month_start leap m + 31"
proof -
  have "list_all (\<lambda>m. month_start False (Suc m) \<le> month_start False m + 31
      \<and> month_start True (Suc m) \<le> month_start True m + 31) [0..<11]" by code_simp
  moreover assume "m < 11"
  ultimately show ?thesis by (cases leap) (auto simp: list_all_iff)
qed

lemma day_of_month:
  assumes "0 \<le> doy" "doy \<le> 365"
  shows "1 \<le> doy - month_start leap (month_of leap doy) + 1"
    and "doy - month_start leap (month_of leap doy) + 1 \<le> 32"
proof -
  show "1 \<le> doy - month_start leap (month_of leap doy) + 1"
    using month_upto_start [OF assms(1)] by (simp add: month_of_def)
  show "doy - month_start leap (month_of leap doy) + 1 \<le> 32"
  proof (cases "month_of leap doy < 11")
    case True
    then show ?thesis
      using month_upto_next [of leap doy 11] month_length [of "month_of leap doy" leap] by (simp add: month_of_def)
  next
    case False
    then have "month_of leap doy = 11"
      using month_upto_le [of leap doy 11] by (simp add: month_of_def)
    then show ?thesis using assms(2) by (simp add: month_start_def)
  qed
qed

section \<open>Digits\<close>

lemma length_radix_10: "0 < n \<Longrightarrow> k < 10 ^ n \<Longrightarrow> length (radix_str 10 k) \<le> n"
proof (induction n arbitrary: k)
  case (Suc n)
  show ?case
  proof (cases "k < 10")
    case False
    then have "n \<noteq> 0" using Suc.prems by (cases n) auto
    moreover have "k div 10 < 10 ^ n" using Suc.prems by (simp add: less_mult_imp_div_less mult.commute)
    ultimately show ?thesis using Suc.IH [of "k div 10"] False by (simp add: radix_str_ge)
  qed (simp add: radix_str_less)
qed simp

lemma length_pad: "0 < n \<Longrightarrow> k < 10 ^ n \<Longrightarrow> length (pad n k) = n"
  using length_radix_10 [of n k] by (simp add: pad_def padStart_def)

lemma nat_of_digits_zeros: "nat_of_digits (replicate m 0x30 @ ds) = nat_of_digits ds"
  by (induction m) (simp_all add: nat_of_digits_def)

lemma nat_of_digits_pad: "nat_of_digits (pad n k) = k"
  by (simp add: pad_def padStart_def nat_of_digits_zeros nat_of_digits_radix)

lemma num_at_pad:
  assumes "0 < n" "k < 10 ^ n"
  shows "num_at (length p) n (p @ pad n k @ r) = k"
  by (simp add: num_at_def length_pad [OF assms] nat_of_digits_pad)

lemma pad_digit: "0 < n \<Longrightarrow> k < 10 ^ n \<Longrightarrow> c \<in> set (pad n k) \<Longrightarrow> is_digit c"
  using radix_10_digits [of c k] by (auto simp: pad_def padStart_def is_digit_def)

section \<open>Round trip\<close>

lemma iso_body_fields:
  assumes "length A = 2" "length B = 2" "length C = 2" "length D = 2" "length E = 2" "length F = 3"
    and "b = 0x2d # A @ 0x2d # B @ 0x54 # C @ 0x3a # D @ 0x3a # E @ 0x2e # F @ [0x5a]"
  shows "num_at 1 2 b = nat_of_digits A" "num_at 4 2 b = nat_of_digits B" "num_at 7 2 b = nat_of_digits C"
    "num_at 10 2 b = nat_of_digits D" "num_at 13 2 b = nat_of_digits E" "num_at 16 3 b = nat_of_digits F"
  unfolding num_at_def assms(7) by (simp_all add: assms(1-6) drop_Cons' take_Cons')

lemma ms_fields:
  fixes ms :: nat
  assumes "ms < 86400000"
  shows "ms div 3600000 < 24"
    and "ms div 3600000 * 3600000 + ms div 60000 mod 60 * 60000 + ms div 1000 mod 60 * 1000 + ms mod 1000 = ms"
proof -
  show "ms div 3600000 < 24" using assms by (simp add: less_mult_imp_div_less)
  have "ms div 1000 = ms div 60000 * 60 + ms div 1000 mod 60"
    using div_mult_mod_eq [of "ms div 1000" 60] by (simp add: div_mult2_eq [symmetric])
  moreover have "ms div 60000 = ms div 3600000 * 60 + ms div 60000 mod 60"
    using div_mult_mod_eq [of "ms div 60000" 60] by (simp add: div_mult2_eq [symmetric])
  moreover have "ms = ms div 1000 * 1000 + ms mod 1000" by simp
  ultimately show "ms div 3600000 * 3600000 + ms div 60000 mod 60 * 60000 + ms div 1000 mod 60 * 1000
    + ms mod 1000 = ms" by linarith
qed

lemma year_str_read:
  fixes b :: jsstr
  assumes "- 999999 \<le> y" "y \<le> 999999"
  defines "s \<equiv> year_str y @ b"
  shows "(let sgn = (s \<noteq> [] \<and> (hd s = 0x2d \<or> hd s = 0x2b)) in
     ((if sgn then (if hd s = 0x2d then - int (num_at 1 6 s) else int (num_at 1 6 s)) else int (num_at 0 4 s)),
      drop (if sgn then 7 else 4) s)) = (y, b)"
proof (cases "0 \<le> y \<and> y \<le> 9999")
  case True
  then have k: "nat y < 10 ^ 4" by (simp add: nat_less_iff)
  have "is_digit (hd (pad 4 (nat y)))"
    using pad_digit [OF _ k, of "hd (pad 4 (nat y))"] length_pad [OF _ k] by (cases "pad 4 (nat y)") auto
  moreover have "pad 4 (nat y) \<noteq> []" using length_pad [OF _ k] by auto
  ultimately have "hd s \<noteq> 0x2d" "hd s \<noteq> 0x2b"
    using True by (auto simp: s_def year_str_def is_digit_def)
  then show ?thesis
    using True length_pad [OF _ k] num_at_pad [OF _ k, of "[]" b] by (simp add: s_def year_str_def Let_def)
next
  case False
  show ?thesis
  proof (cases "y < 0")
    case True
    have k: "nat (- y) < 10 ^ 6" using assms(1,2) by (simp add: nat_less_iff)
    show ?thesis
      using True length_pad [OF _ k] num_at_pad [OF _ k, of "[0x2d]" b] by (simp add: s_def year_str_def Let_def)
  next
    case pos: False
    have k: "nat y < 10 ^ 6" using assms(1,2) by (simp add: nat_less_iff)
    show ?thesis
      using False pos length_pad [OF _ k] num_at_pad [OF _ k, of "[0x2b]" b] by (simp add: s_def year_str_def Let_def)
  qed
qed

lemma iso_read_str:
  assumes "- max_time \<le> t" "t \<le> max_time"
  shows "iso_read (iso_str t) = t"
proof -
  define d y m dt ms where "d = t div ms_per_day" and "y = year_of_day d"
    and "m = month_of (leap_year y) (d - day_from_year y)"
    and "dt = d - day_from_year y - month_start (leap_year y) m + 1" and "ms = nat (t mod ms_per_day)"
  note defs = this
  define b where "b = 0x2d # pad 2 (m + 1) @ 0x2d # pad 2 (nat dt) @ 0x54 # pad 2 (ms div 3600000)
      @ 0x3a # pad 2 (ms div 60000 mod 60) @ 0x3a # pad 2 (ms div 1000 mod 60) @ 0x2e # pad 3 (ms mod 1000) @ [0x5a]"
  have str: "iso_str t = year_str y @ b"
    by (simp add: iso_str_def Let_def b_def defs)
  have "- 100000000 \<le> d" "d \<le> 100000000"
    using assms div_bounds [of 86400000 t] by (simp_all add: d_def ms_per_day_def max_time_def)
  then have y: "- 999999 \<le> y" "y \<le> 999999"
    unfolding y_def by (rule year_of_day_bound)+
  have m: "m < 12" using month_upto_le [of "leap_year y" "d - day_from_year y" 11] by (simp add: m_def month_of_def)
  have dt: "1 \<le> dt" "dt \<le> 32"
    using day_of_month [OF day_of_year [of d]] by (simp_all add: dt_def m_def y_def)
  have ms: "ms < 86400000" "int ms = t mod ms_per_day"
    by (simp_all add: ms_def ms_per_day_def nat_less_iff)
  have len: "length (pad 2 (m + 1)) = 2" "length (pad 2 (nat dt)) = 2" "length (pad 2 (ms div 3600000)) = 2"
    "length (pad 2 (ms div 60000 mod 60)) = 2" "length (pad 2 (ms div 1000 mod 60)) = 2"
    "length (pad 3 (ms mod 1000)) = 3"
    by (rule length_pad; use m dt ms_fields(1) [OF ms(1)] in simp)+
  note fields = iso_body_fields [OF len b_def, unfolded nat_of_digits_pad]
  have "iso_read (iso_str t) = make_day y m dt * ms_per_day + int (ms div 3600000) * 3600000
      + int (ms div 60000 mod 60) * 60000 + int (ms div 1000 mod 60) * 1000 + int (ms mod 1000)"
    using year_str_read [OF y, of b] dt(1)
    unfolding iso_read_def str Let_def prod.inject by (simp add: fields del: One_nat_def)
  also have "\<dots> = d * ms_per_day + int ms"
    using ms_fields(2) [OF ms(1)] unfolding make_day_def dt_def by simp
  also have "\<dots> = t" by (simp add: ms(2) d_def)
  finally show ?thesis .
qed

lemma toISOString_eq: "toISOString t = Inr s \<longleftrightarrow> - max_time \<le> t \<and> t \<le> max_time \<and> s = iso_str t"
  by (auto simp: toISOString_def)

lemma date_parse_toISOString: "toISOString t = Inr s \<Longrightarrow> date_parse fallback s = Some t"
  by (auto simp: date_parse_def toISOString_eq iso_read_str)

lemma toISOString_inject: "toISOString t = Inr s \<Longrightarrow> toISOString u = Inr s \<Longrightarrow> t = u"
  using date_parse_toISOString [of t s "\<lambda>_. None"] date_parse_toISOString [of u s "\<lambda>_. None"] by simp

end
