(* ===== verification/Sodium.thy ===== *)
theory Sodium
  imports Canonical JsDate
begin

text \<open>
  What the daemon takes from libsodium and from the parts of the language the standard leaves to
  the implementation: a record \<open>lib\<close> of functions, the argument \<open>L\<close> of every definition that
  uses it. \<open>None\<close> is the exception the library throws (a key, signature or text of the wrong
  shape). Randomness is an explicit argument of the calls that draw it. On top of it: codec.ts and
  identity.ts. \<open>lib_ok\<close> states the documented laws of the library that some properties rest on;
  \<open>demo_lib\<close> is a concrete library that has them.
\<close>

section \<open>The library\<close>

datatype base64_variant = ORIGINAL | URLSAFE_NO_PADDING

record lib =
  crypto_sign_seed_keypair :: "bytes \<Rightarrow> (bytes \<times> bytes) option" \<comment> \<open>seed to public, secret\<close>
  crypto_sign_keypair :: "bytes \<Rightarrow> bytes \<times> bytes" \<comment> \<open>randomness to public, secret\<close>
  crypto_box_keypair :: "bytes \<Rightarrow> bytes \<times> bytes" \<comment> \<open>randomness to public, private\<close>
  crypto_scalarmult_base :: "bytes \<Rightarrow> bytes option"
  crypto_sign_detached :: "bytes \<Rightarrow> bytes \<Rightarrow> bytes option" \<comment> \<open>message, secret key\<close>
  crypto_sign_verify_detached :: "bytes \<Rightarrow> bytes \<Rightarrow> bytes \<Rightarrow> bool option" \<comment> \<open>signature, message, public key\<close>
  crypto_box_seal :: "bytes \<Rightarrow> bytes \<Rightarrow> bytes \<Rightarrow> bytes option" \<comment> \<open>randomness, message, public key\<close>
  crypto_box_seal_open :: "bytes \<Rightarrow> bytes \<Rightarrow> bytes \<Rightarrow> bytes option" \<comment> \<open>box, public key, private key\<close>
  crypto_generichash :: "nat \<Rightarrow> bytes \<Rightarrow> bytes option"
  to_base64 :: "base64_variant \<Rightarrow> bytes \<Rightarrow> jsstr"
  from_base64 :: "base64_variant \<Rightarrow> jsstr \<Rightarrow> bytes option"
  number_of_token :: "jsstr \<Rightarrow> json" \<comment> \<open>rounding of a number token outside the safe integers\<close>
  date_of_text :: "jsstr \<Rightarrow> int option" \<comment> \<open>\<open>Date.parse\<close> outside the standard's format\<close>
  floor_of_double :: "jsstr \<Rightarrow> int" \<comment> \<open>integer part of a double that is no safe integer, by its text\<close>
  upper_of :: "jsstr \<Rightarrow> jsstr" \<comment> \<open>Unicode's upper case of one code point outside ASCII\<close>
  column_text :: "json \<Rightarrow> jsstr option" \<comment> \<open>what a NOT NULL text column of SQLite keeps of a value that is no string,
      if it can be bound\<close>

definition b64_char :: "jschar \<Rightarrow> bool" where
  "b64_char c \<longleftrightarrow> 0x21 \<le> c \<and> c < 0x7f"

definition sign_key :: "lib \<Rightarrow> bytes \<Rightarrow> bytes \<Rightarrow> bool" where
  \<comment> \<open>a public and a secret key that belong together\<close>
  "sign_key L pk sk \<longleftrightarrow> (\<exists>seed. crypto_sign_seed_keypair L seed = Some (pk, sk))"

definition box_key :: "lib \<Rightarrow> bytes \<Rightarrow> bytes \<Rightarrow> bool" where
  "box_key L pub priv \<longleftrightarrow> crypto_scalarmult_base L priv = Some pub"

definition base64_ok :: "lib \<Rightarrow> bool" where
  "base64_ok L \<longleftrightarrow>
     (\<forall>v b. from_base64 L v (to_base64 L v b) = Some b \<and> list_all b64_char (to_base64 L v b))"

definition sign_ok :: "lib \<Rightarrow> bool" where
  \<comment> \<open>a signature made with the secret key of a pair verifies under its public key\<close>
  "sign_ok L \<longleftrightarrow> (\<forall>pk sk m. sign_key L pk sk \<longrightarrow>
     (\<exists>sig. crypto_sign_detached L m sk = Some sig \<and> crypto_sign_verify_detached L sig m pk = Some True))"

definition box_ok :: "lib \<Rightarrow> bool" where
  \<comment> \<open>what is sealed to a public key opens with its pair\<close>
  "box_ok L \<longleftrightarrow> (\<forall>pub priv r m. box_key L pub priv \<longrightarrow>
     (\<exists>c. crypto_box_seal L r m pub = Some c \<and> crypto_box_seal_open L c pub priv = Some m))"

definition keys_ok :: "lib \<Rightarrow> bool" where
  \<comment> \<open>fresh pairs are pairs; the first 32 bytes of a secret signing key are its seed\<close>
  "keys_ok L \<longleftrightarrow>
     (\<forall>r. crypto_sign_seed_keypair L (take 32 (snd (crypto_sign_keypair L r))) = Some (crypto_sign_keypair L r))
   \<and> (\<forall>r. crypto_scalarmult_base L (snd (crypto_box_keypair L r)) = Some (fst (crypto_box_keypair L r)))"

definition lib_ok :: "lib \<Rightarrow> bool" where
  "lib_ok L \<longleftrightarrow> base64_ok L \<and> sign_ok L \<and> box_ok L \<and> keys_ok L"

lemma base64D:
  assumes "base64_ok L"
  shows "from_base64 L v (to_base64 L v b) = Some b" "\<forall>c \<in> set (to_base64 L v b). b64_char c"
  using assms by (simp_all add: base64_ok_def list_all_iff)

lemma lib_okD:
  assumes "lib_ok L"
  shows "base64_ok L" "sign_ok L" "box_ok L" "keys_ok L"
  using assms by (simp_all add: lib_ok_def)

lemma b64_char_not_ws: "b64_char c \<Longrightarrow> \<not> is_js_ws c"
  by (auto simp: b64_char_def is_js_ws_def word_le_nat_alt word_less_nat_alt)

lemma trim_b64: "base64_ok L \<Longrightarrow> trim (to_base64 L v b) = to_base64 L v b"
  using base64D(2) [of L v b] by (intro trim_noop) (auto dest: b64_char_not_ws)

lemma to_base64_inject: "base64_ok L \<Longrightarrow> to_base64 L v b = to_base64 L v c \<longleftrightarrow> b = c"
  by (metis base64D(1) option.inject)

section \<open>Strings and dates with what the implementation adds\<close>

definition upper_ascii :: "jschar \<Rightarrow> jschar" where
  "upper_ascii c = (if 0x61 \<le> c \<and> c \<le> 0x7a then c - 0x20 else c)"

fun toUpperCase :: "lib \<Rightarrow> jsstr \<Rightarrow> jsstr" where
  "toUpperCase L [] = []"
| "toUpperCase L [c] = (if c < 0x80 then [upper_ascii c] else upper_of L [c])"
| "toUpperCase L (c # d # s) =
     (if c < 0x80 then upper_ascii c # toUpperCase L (d # s)
      else if is_high c \<and> is_low d then upper_of L [c, d] @ toUpperCase L s
      else upper_of L [c] @ toUpperCase L (d # s))"

definition dateParse :: "lib \<Rightarrow> jsstr \<Rightarrow> int option" where
  \<comment> \<open>\<open>Date.parse\<close>; \<open>None\<close> is NaN\<close>
  "dateParse L s = date_parse (date_of_text L) s"

lemma dateParse_toISOString: "toISOString t = Inr s \<Longrightarrow> dateParse L s = Some t"
  by (simp add: dateParse_def date_parse_toISOString)

lemma toUpperCase_ascii: "\<forall>c \<in> set s. c < 0x80 \<Longrightarrow> toUpperCase L s = map upper_ascii s"
  by (induction L s rule: toUpperCase.induct) simp_all

section \<open>codec.ts\<close>

definition toB64 :: "lib \<Rightarrow> bytes \<Rightarrow> jsstr" where
  "toB64 L raw = to_base64 L ORIGINAL raw"

definition fromB64 :: "lib \<Rightarrow> jsstr \<Rightarrow> bytes res" where
  "fromB64 L text = of_lib ''invalid input'' (from_base64 L ORIGINAL (trim text))"

lemma fromB64_toB64 [simp]: "base64_ok L \<Longrightarrow> fromB64 L (toB64 L b) = Inr b"
  by (simp add: fromB64_def toB64_def trim_b64 base64D)

lemma toB64_inject [simp]: "base64_ok L \<Longrightarrow> toB64 L b = toB64 L c \<longleftrightarrow> b = c"
  by (simp add: toB64_def to_base64_inject)

section \<open>identity.ts\<close>

record sign_keys =
  seed :: bytes
  publicKey :: bytes
  secretKey :: bytes

record box_keys =
  boxPublicKey :: bytes
  privateKey :: bytes

record identity =
  ed25519 :: sign_keys
  x25519 :: box_keys

type_synonym files = "(jsstr, jsstr) jsmap"

definition read_file :: "files \<Rightarrow> jsstr \<Rightarrow> jsstr res" where
  "read_file fs path = of_lib ''ENOENT'' (map_get fs path)"

definition path_join :: "jsstr \<Rightarrow> string \<Rightarrow> jsstr" where
  "path_join dir name = dir @ 0x2f # js name"

definition loadIdentity :: "lib \<Rightarrow> files \<Rightarrow> jsstr \<Rightarrow> identity res" where
  "loadIdentity L fs dir =
     rbind (read_file fs (path_join dir ''ed25519.key'')) (\<lambda>t.
     rbind (fromB64 L t) (\<lambda>sd.
     rbind (of_lib ''invalid seed length'' (crypto_sign_seed_keypair L sd)) (\<lambda>(pk, sk).
     rbind (read_file fs (path_join dir ''x25519.key'')) (\<lambda>u.
     rbind (fromB64 L u) (\<lambda>xPriv.
     rbind (of_lib ''invalid privateKey length'' (crypto_scalarmult_base L xPriv)) (\<lambda>xPub.
       Inr \<lparr> ed25519 = \<lparr> seed = sd, publicKey = pk, secretKey = sk \<rparr>,
             x25519 = \<lparr> boxPublicKey = xPub, privateKey = xPriv \<rparr> \<rparr>))))))"

definition generateIdentity :: "lib \<Rightarrow> bytes \<Rightarrow> bytes \<Rightarrow> identity" where
  "generateIdentity L r1 r2 =
     (let (pk, sk) = crypto_sign_keypair L r1; (xPub, xPriv) = crypto_box_keypair L r2
      in \<lparr> ed25519 = \<lparr> seed = take 32 sk, publicKey = pk, secretKey = sk \<rparr>,
           x25519 = \<lparr> boxPublicKey = xPub, privateKey = xPriv \<rparr> \<rparr>)"

definition saveIdentity :: "lib \<Rightarrow> jsstr \<Rightarrow> identity \<Rightarrow> files \<Rightarrow> files" where
  "saveIdentity L dir i fs =
     map_set (path_join dir ''x25519.pub'') (toB64 L (boxPublicKey (x25519 i)))
      (map_set (path_join dir ''x25519.key'') (toB64 L (privateKey (x25519 i)))
      (map_set (path_join dir ''ed25519.pub'') (toB64 L (publicKey (ed25519 i)))
      (map_set (path_join dir ''ed25519.key'') (toB64 L (seed (ed25519 i))) fs)))"

definition id_ok :: "lib \<Rightarrow> identity \<Rightarrow> bool" where
  \<comment> \<open>the two halves of both key pairs belong together\<close>
  "id_ok L i \<longleftrightarrow> sign_key L (publicKey (ed25519 i)) (secretKey (ed25519 i))
     \<and> box_key L (boxPublicKey (x25519 i)) (privateKey (x25519 i))"

lemma path_join_inject [simp]: "path_join d s = path_join d t \<longleftrightarrow> s = t"
  by (simp add: path_join_def)

lemma load_id_ok: "loadIdentity L fs dir = Inr i \<Longrightarrow> id_ok L i"
  by (auto simp: loadIdentity_def res_eq id_ok_def sign_key_def box_key_def)

lemma generate_id_ok: "keys_ok L \<Longrightarrow> id_ok L (generateIdentity L r1 r2)"
  unfolding keys_ok_def generateIdentity_def id_ok_def sign_key_def box_key_def
  by (auto simp: case_prod_unfold Let_def)

lemma load_save_identity:
  assumes "lib_ok L"
  shows "loadIdentity L (saveIdentity L dir (generateIdentity L r1 r2) fs) dir = Inr (generateIdentity L r1 r2)"
proof -
  obtain pk sk xp xs where keys: "crypto_sign_keypair L r1 = (pk, sk)" "crypto_box_keypair L r2 = (xp, xs)"
    by (meson surj_pair)
  have "crypto_sign_seed_keypair L (take 32 sk) = Some (pk, sk)" "crypto_scalarmult_base L xs = Some xp"
    using lib_okD(4) [OF assms] keys unfolding keys_ok_def by (metis fst_conv snd_conv)+
  then show ?thesis
    using lib_okD(1) [OF assms]
    by (simp add: loadIdentity_def saveIdentity_def read_file_def generateIdentity_def keys)
qed

lemma sign_okD:
  assumes "sign_ok L" "id_ok L i"
  obtains sig where "crypto_sign_detached L m (secretKey (ed25519 i)) = Some sig"
    "crypto_sign_verify_detached L sig m (publicKey (ed25519 i)) = Some True"
  using assms unfolding sign_ok_def id_ok_def by blast

lemma box_okD:
  assumes "box_ok L" "id_ok L i"
  obtains c where "crypto_box_seal L r m (boxPublicKey (x25519 i)) = Some c"
    "crypto_box_seal_open L c (boxPublicKey (x25519 i)) (privateKey (x25519 i)) = Some m"
  using assms unfolding box_ok_def id_ok_def by blast

section \<open>A concrete library\<close>

text \<open>
  Keys are 32-byte strings that are their own other half, a signature is the key and the sum of
  the message, a box is the key followed by the message, base64 is two letters per byte. It has
  the laws and computes, which is all the witnesses need of it.
\<close>

definition demo_b64 :: "bytes \<Rightarrow> jsstr" where
  "demo_b64 b = concat (map (\<lambda>x. [0x41 + ucast (drop_bit 4 x), 0x41 + ucast (and x 15)]) b)"

fun demo_unb64 :: "jsstr \<Rightarrow> bytes option" where
  "demo_unb64 [] = Some []"
| "demo_unb64 [c] = None"
| "demo_unb64 (c # d # s) =
     (if 0x41 \<le> c \<and> c < 0x51 \<and> 0x41 \<le> d \<and> d < 0x51
      then map_option ((#) (push_bit 4 (ucast (c - 0x41)) + ucast (d - 0x41))) (demo_unb64 s) else None)"

definition demo_key :: "bytes \<Rightarrow> bytes" where
  "demo_key r = take 32 (r @ replicate 32 0)"

definition demo_sig :: "bytes \<Rightarrow> bytes \<Rightarrow> bytes" where
  "demo_sig m k = take 63 (k @ replicate 63 0) @ [sum_list m]"

definition demo_lib :: lib where
  "demo_lib = \<lparr>
     crypto_sign_seed_keypair = (\<lambda>s. if length s = 32 then Some (s, s) else None),
     crypto_sign_keypair = (\<lambda>r. (demo_key r, demo_key r)),
     crypto_box_keypair = (\<lambda>r. (demo_key r, demo_key r)),
     crypto_scalarmult_base = (\<lambda>k. if length k = 32 then Some k else None),
     crypto_sign_detached = (\<lambda>m sk. if length sk = 32 then Some (demo_sig m sk) else None),
     crypto_sign_verify_detached = (\<lambda>sig m pk.
        if length sig = 64 \<and> length pk = 32 then Some (sig = demo_sig m pk) else None),
     crypto_box_seal = (\<lambda>r m pk. if length pk = 32 then Some (pk @ m) else None),
     crypto_box_seal_open = (\<lambda>c pub priv.
        if take 32 c = pub \<and> length priv = 32 then Some (drop 32 c) else None),
     crypto_generichash = (\<lambda>n m. Some (take n (m @ replicate n 0))),
     to_base64 = (\<lambda>v. demo_b64),
     from_base64 = (\<lambda>v. demo_unb64),
     number_of_token = (\<lambda>t. JDbl False t),
     date_of_text = (\<lambda>s. None),
     floor_of_double = (\<lambda>t. 0),
     upper_of = (\<lambda>c. c),
     column_text = (\<lambda>v. None) \<rparr>"

lemma demo_byte:
  fixes x :: byte
  defines "c \<equiv> 0x41 + ucast (drop_bit 4 x) :: jschar" and "d \<equiv> 0x41 + ucast (and x 15) :: jschar"
  shows "0x41 \<le> c" "c < 0x51" "0x41 \<le> d" "d < 0x51"
    "push_bit 4 (ucast (c - 0x41)) + ucast (d - 0x41) = x"
proof -
  have "list_all (\<lambda>n. let x = word_of_nat n :: byte; c = 0x41 + ucast (drop_bit 4 x) :: jschar;
      d = 0x41 + ucast (and x 15) :: jschar in
      0x41 \<le> c \<and> c < 0x51 \<and> 0x41 \<le> d \<and> d < 0x51
      \<and> push_bit 4 (ucast (c - 0x41)) + ucast (d - 0x41) = x) [0..<256]" by code_simp
  moreover have "unat x \<in> set [0..<256]" using unsigned_less [of x] by simp
  ultimately have "let x = word_of_nat (unat x) :: byte; c = 0x41 + ucast (drop_bit 4 x) :: jschar;
      d = 0x41 + ucast (and x 15) :: jschar in
      0x41 \<le> c \<and> c < 0x51 \<and> 0x41 \<le> d \<and> d < 0x51
      \<and> push_bit 4 (ucast (c - 0x41)) + ucast (d - 0x41) = x" by (simp only: list_all_iff)
  then show "0x41 \<le> c" "c < 0x51" "0x41 \<le> d" "d < 0x51"
    "push_bit 4 (ucast (c - 0x41)) + ucast (d - 0x41) = x"
    by (simp_all add: Let_def c_def d_def)
qed

lemma demo_b64_ok: "demo_unb64 (demo_b64 b) = Some b" "list_all b64_char (demo_b64 b)"
proof -
  have "b64_char c" if "0x41 \<le> c" "c < 0x51" for c
    using that by (simp add: b64_char_def word_less_nat_alt word_le_nat_alt)
  then show "demo_unb64 (demo_b64 b) = Some b" "list_all b64_char (demo_b64 b)"
    using demo_byte(5) by (induction b) (simp_all add: demo_b64_def demo_byte(1-4))
qed

lemma length_demo_key [simp]: "length (demo_key r) = 32"
  by (simp add: demo_key_def)

lemma length_demo_sig [simp]: "length (demo_sig m k) = 64"
  by (simp add: demo_sig_def)

lemma demo_lib_ok: "lib_ok demo_lib"
  by (auto simp: lib_ok_def base64_ok_def sign_ok_def box_ok_def keys_ok_def sign_key_def box_key_def
      demo_lib_def demo_b64_ok split: if_splits)

definition demo_id :: "byte \<Rightarrow> identity" where
  "demo_id b =
     \<lparr> ed25519 = \<lparr> seed = replicate 32 b, publicKey = replicate 32 b, secretKey = replicate 32 b \<rparr>,
       x25519 = \<lparr> boxPublicKey = replicate 32 b, privateKey = replicate 32 b \<rparr> \<rparr>"

lemma demo_id_ok [simp]: "id_ok demo_lib (demo_id b)"
proof -
  have "crypto_sign_seed_keypair demo_lib (replicate 32 b) = Some (replicate 32 b, replicate 32 b)"
    by (simp add: demo_lib_def)
  moreover have "crypto_scalarmult_base demo_lib (replicate 32 b) = Some (replicate 32 b)"
    by (simp add: demo_lib_def)
  ultimately show ?thesis by (auto simp only: id_ok_def sign_key_def box_key_def demo_id_def identity.simps
    sign_keys.simps box_keys.simps)
qed

lemma demo_keys_inject [simp]:
  "publicKey (ed25519 (demo_id b)) = publicKey (ed25519 (demo_id c)) \<longleftrightarrow> b = c"
  by (simp add: demo_id_def replicate_eq_replicate)

lemmas demo_base64 [simp] = lib_okD(1) [OF demo_lib_ok]

end
