(* ===== verification/Envelope.thy ===== *)
theory Envelope
  imports Sodium
begin

text \<open>
  envelope.ts: sign-then-seal and open-then-verify. A payload is the association list of its
  fields; what \<open>JSON.parse\<close> returns is any JSON value, and reading a field of it follows the
  language (a field of \<open>null\<close> throws, of any other non-object is \<open>undefined\<close>).
\<close>

type_synonym payload = "(jsstr \<times> json) list"

definition errs :: "err_class \<Rightarrow> string \<Rightarrow> jsstr \<Rightarrow> 'a res" where
  \<comment> \<open>\<open>throw new K(`text ${arg}`)\<close>\<close>
  "errs k text arg = Inl (Err k (js text @ arg))"

lemma errs_simps [simp]: "errs k t a \<noteq> Inr x" "Inr x \<noteq> errs k t a" "rbind (errs k t a) f = errs k t a"
  by (simp_all add: errs_def)

section \<open>The operations\<close>

definition sealSign :: "lib \<Rightarrow> bytes \<Rightarrow> payload \<Rightarrow> bytes \<Rightarrow> bytes \<Rightarrow> bytes res" where
  "sealSign L rnd payload signSecretKey recipientPublicKey =
     rbind (canonicalBytes (JObj payload)) (\<lambda>msg.
     rbind (of_lib ''invalid secretKey length'' (crypto_sign_detached L msg signSecretKey)) (\<lambda>signature.
     rbind (canonicalBytes (JObj [(js ''payload'', JObj payload),
                                  (js ''sig'', JStr (to_base64 L ORIGINAL signature))])) (\<lambda>inner.
     of_lib ''invalid publicKey length'' (crypto_box_seal L rnd inner recipientPublicKey))))"

definition field :: "json \<Rightarrow> jsstr \<Rightarrow> json option res" where
  \<comment> \<open>\<open>v.k\<close>: \<open>Inr None\<close> is \<open>undefined\<close>\<close>
  "field v k = (if v = JNull then throw JsError ''null is not an object'' else Inr (obj_get v k))"

definition parse_bytes :: "lib \<Rightarrow> bytes \<Rightarrow> json res" where
  \<comment> \<open>\<open>JSON.parse(new TextDecoder().decode(bytes))\<close>\<close>
  "parse_bytes L b = of_lib ''JSON Parse error'' (json_parse (number_of_token L) (text_decode b))"

definition str_of :: "json option \<Rightarrow> jsstr res" where
  \<comment> \<open>a string, where anything else throws\<close>
  "str_of v = (case v of Some (JStr t) \<Rightarrow> Inr t | _ \<Rightarrow> throw JsError ''not a string'')"

definition obj_of :: "json option \<Rightarrow> payload res" where
  "obj_of v = (case v of Some (JObj kvs) \<Rightarrow> Inr kvs | _ \<Rightarrow> throw JsError ''not an object'')"

definition sealed_contents :: "lib \<Rightarrow> bytes \<Rightarrow> (payload \<times> bytes \<times> jsstr) res" where
  \<comment> \<open>the body of the second \<open>try\<close> of \<open>openVerify\<close>: a payload whose \<open>node\<close> is a string is an object\<close>
  "sealed_contents L innerBytes =
     rbind (parse_bytes L innerBytes) (\<lambda>obj.
     rbind (field obj (js ''payload'')) (\<lambda>payload.
     rbind (field obj (js ''sig'')) (\<lambda>sig.
     rbind (str_of sig) (\<lambda>t.
     rbind (of_lib ''invalid input'' (from_base64 L ORIGINAL t)) (\<lambda>signature.
     rbind (obj_of payload) (\<lambda>kvs.
     rbind (str_of (map_get kvs (js ''node''))) (\<lambda>node.
       Inr (kvs, signature, node))))))))"

type_synonym verify_key_for = "jsstr \<Rightarrow> bytes option"

definition openVerify :: "lib \<Rightarrow> bytes \<Rightarrow> bytes \<Rightarrow> bytes \<Rightarrow> verify_key_for \<Rightarrow> payload res" where
  "openVerify L blob recipientPublicKey recipientPrivateKey verifyKeyFor =
     rbind (catch_as VerificationError ''cannot decrypt blob''
              (of_lib ''incorrect key pair'' (crypto_box_seal_open L blob recipientPublicKey recipientPrivateKey)))
       (\<lambda>innerBytes.
     rbind (catch_as VerificationError ''malformed sealed contents'' (sealed_contents L innerBytes))
       (\<lambda>(payload, signature, node).
     (case verifyKeyFor node of
        None \<Rightarrow> errs VerificationError ''unknown node, not trusted: '' node
      | Some verifyKey \<Rightarrow>
          rbind (canonicalBytes (JObj payload)) (\<lambda>msg.
          rbind (of_lib ''invalid length'' (crypto_sign_verify_detached L signature msg verifyKey)) (\<lambda>ok.
            if \<not> ok then errs VerificationError ''bad signature for node '' node else Inr payload)))))"

section \<open>Facts\<close>

lemma str_of_eq_Inr: "str_of v = Inr t \<longleftrightarrow> v = Some (JStr t)"
  by (auto simp: str_of_def split: option.splits json.splits)

lemma obj_of_eq_Inr: "obj_of v = Inr kvs \<longleftrightarrow> v = Some (JObj kvs)"
  by (auto simp: obj_of_def split: option.splits json.splits)

lemma field_eq_Inr: "field v k = Inr r \<longleftrightarrow> v \<noteq> JNull \<and> r = obj_get v k"
  by (auto simp: field_def)

definition norm_payload :: "payload \<Rightarrow> payload" where
  "norm_payload kvs = map (\<lambda>kv. (fst kv, norm_json (snd kv))) (sort_key fst kvs)"

lemma norm_json_payload: "norm_json (JObj kvs) = JObj (norm_payload kvs)"
  by (simp add: norm_payload_def)

lemma get_norm_payload:
  "json_ok (JObj kvs) \<Longrightarrow> map_get (norm_payload kvs) k = map_option norm_json (map_get kvs k)"
  using obj_get_norm [of kvs k] unfolding norm_json_payload by simp

lemma norm_str: "norm_json (JStr s) = JStr s"
  by simp

lemma canonical_norm: "json_ok v \<Longrightarrow> canonicalBytes (norm_json v) = canonicalBytes v"
proof -
  have "norm_json (norm_json v) = norm_json v" for v
  proof (induction v rule: json_induct)
    case (JObj kvs)
    have "sort_key fst (map (\<lambda>kv. (fst kv, norm_json (snd kv))) (sort_key fst kvs))
        = map (\<lambda>kv. (fst kv, norm_json (snd kv))) (sort_key fst kvs)"
      by (rule sort_key_id_if_sorted) (simp add: comp_def)
    then show ?case using JObj by simp
  qed simp_all
  then have idem: "norm_json (norm_json v) = norm_json v" .
  assume "json_ok v"
  then have "\<not> has_float v" "\<not> has_float (norm_json v)"
    by (simp_all only: json_ok_norm json_ok_no_float not_False_eq_True)
  then show "canonicalBytes (norm_json v) = canonicalBytes v"
    by (simp only: canonicalBytes_def canonicalize_def encode_print idem not_False_eq_True)
qed

lemma parse_canonical:
  assumes "json_ok v" "canonicalBytes v = Inr b"
  shows "parse_bytes L b = Inr (norm_json v)"
proof -
  obtain t where "canonicalBytes v = Inr (text_encode t)" "text_decode (text_encode t) = t"
    "json_parse (number_of_token L) t = Some (norm_json v)"
    using canonicalBytes_ok [OF assms(1)] by metis
  then show ?thesis using assms(2) by (simp add: parse_bytes_def)
qed

lemma sealed_contents_inner:
  assumes "json_ok (JObj kvs)" "map_get kvs (js ''node'') = Some (JStr n)" "base64_ok L"
    "canonicalBytes (JObj [(js ''payload'', JObj kvs), (js ''sig'', JStr (to_base64 L ORIGINAL s))]) = Inr b"
  shows "sealed_contents L b = Inr (norm_payload kvs, s, n)"
proof -
  let ?o = "[(js ''payload'', JObj kvs), (js ''sig'', JStr (to_base64 L ORIGINAL s))]"
  have ok: "json_ok (JObj ?o)" using assms(1) by simp
  have "parse_bytes L b = Inr (norm_json (JObj ?o))" by (rule parse_canonical [OF ok assms(4)])
  moreover have "field (norm_json (JObj ?o)) (js ''payload'') = Inr (Some (norm_json (JObj kvs)))"
    "field (norm_json (JObj ?o)) (js ''sig'') = Inr (Some (JStr (to_base64 L ORIGINAL s)))"
    unfolding field_def obj_get_norm [OF ok] by simp_all
  ultimately show ?thesis
    using get_norm_payload [OF assms(1), of "js ''node''"] assms(2) base64D(1) [OF assms(3)]
    by (simp add: sealed_contents_def norm_json_payload norm_str str_of_def obj_of_def del: norm_json.simps)
qed

lemma openVerify_eq_Inr:
  "openVerify L blob pub priv keyFor = Inr p \<longleftrightarrow>
     (\<exists>inner sig n vk msg. crypto_box_seal_open L blob pub priv = Some inner
        \<and> sealed_contents L inner = Inr (p, sig, n) \<and> keyFor n = Some vk
        \<and> canonicalBytes (JObj p) = Inr msg \<and> crypto_sign_verify_detached L sig msg vk = Some True)"
proof (cases "crypto_box_seal_open L blob pub priv")
  case (Some inner)
  note opened = this
  show ?thesis
  proof (cases "sealed_contents L inner")
    case (Inr r)
    then obtain q sig n where r: "sealed_contents L inner = Inr (q, sig, n)" by (cases r) simp
    then show ?thesis
      by (auto simp: openVerify_def opened res_eq split: option.splits if_splits)
  qed (simp add: openVerify_def opened)
qed (simp add: openVerify_def)

lemma sealed_contents_eq_Inr:
  "sealed_contents L b = Inr (p, sig, n) \<longleftrightarrow>
     (\<exists>obj t. parse_bytes L b = Inr obj \<and> obj_get obj (js ''payload'') = Some (JObj p)
        \<and> obj_get obj (js ''sig'') = Some (JStr t) \<and> from_base64 L ORIGINAL t = Some sig
        \<and> map_get p (js ''node'') = Some (JStr n))"
  by (auto simp: sealed_contents_def res_eq str_of_eq_Inr obj_of_eq_Inr field_eq_Inr)

text \<open>An accepted envelope was signed, over exactly the payload returned, by the key trusted for its node.\<close>

lemma openVerify_authentic:
  assumes "openVerify L blob pub priv keyFor = Inr p"
  obtains n vk msg sig where "map_get p (js ''node'') = Some (JStr n)" "keyFor n = Some vk"
    "canonicalBytes (JObj p) = Inr msg" "crypto_sign_verify_detached L sig msg vk = Some True"
  using assms by (auto simp: openVerify_eq_Inr sealed_contents_eq_Inr)

lemma seal_sign_ok:
  assumes "lib_ok L" "id_ok L sender" "id_ok L recipient" "json_ok (JObj kvs)"
    and "map_get kvs (js ''node'') = Some (JStr n)"
  obtains blob where
    "sealSign L r kvs (secretKey (ed25519 sender)) (boxPublicKey (x25519 recipient)) = Inr blob"
    "\<And>keyFor. keyFor n = Some (publicKey (ed25519 sender)) \<Longrightarrow>
       openVerify L blob (boxPublicKey (x25519 recipient)) (privateKey (x25519 recipient)) keyFor
       = Inr (norm_payload kvs)"
proof -
  obtain m where m: "canonicalBytes (JObj kvs) = Inr m"
    using canonicalBytes_ok [OF assms(4)] by metis
  obtain sig where sig: "crypto_sign_detached L m (secretKey (ed25519 sender)) = Some sig"
    "crypto_sign_verify_detached L sig m (publicKey (ed25519 sender)) = Some True"
    using sign_okD lib_okD(2) assms(1,2) by blast
  have ok: "json_ok (JObj [(js ''payload'', JObj kvs), (js ''sig'', JStr (to_base64 L ORIGINAL sig))])"
    using assms(4) by simp
  obtain b where b:
    "canonicalBytes (JObj [(js ''payload'', JObj kvs), (js ''sig'', JStr (to_base64 L ORIGINAL sig))]) = Inr b"
    using canonicalBytes_ok [OF ok] by metis
  obtain c where c: "crypto_box_seal L r b (boxPublicKey (x25519 recipient)) = Some c"
    "crypto_box_seal_open L c (boxPublicKey (x25519 recipient)) (privateKey (x25519 recipient)) = Some b"
    using box_okD lib_okD(3) assms(1,3) by blast
  have msg: "canonicalBytes (JObj (norm_payload kvs)) = Inr m"
    using canonical_norm [OF assms(4)] m unfolding norm_json_payload by simp
  have "sealed_contents L b = Inr (norm_payload kvs, sig, n)"
    by (rule sealed_contents_inner [OF assms(4,5) lib_okD(1) [OF assms(1)] b])
  then show thesis
    using c msg sig b m by (intro that [of c]) (simp_all add: sealSign_def openVerify_eq_Inr)
qed

text \<open>
  Every rejection is a \<open>VerificationError\<close>, except where canonicalising the parsed payload or the
  verification primitive itself throws: those two exceptions are outside both \<open>try\<close> blocks.
\<close>

lemma openVerify_errors:
  assumes "openVerify L blob pub priv keyFor = Inl e"
  shows "err_class_of e = VerificationError \<or>
    (\<exists>inner p sig n vk. crypto_box_seal_open L blob pub priv = Some inner
       \<and> sealed_contents L inner = Inr (p, sig, n) \<and> keyFor n = Some vk
       \<and> (has_float (JObj p) \<or>
          (\<exists>msg. canonicalBytes (JObj p) = Inr msg \<and> crypto_sign_verify_detached L sig msg vk = None)))"
proof (cases "crypto_box_seal_open L blob pub priv")
  case (Some inner)
  note opened = this
  show ?thesis
  proof (cases "sealed_contents L inner")
    case (Inr r)
    obtain p sig n where r: "r = (p, sig, n)" by (cases r)
    note inner = Inr [unfolded r]
    show ?thesis
    proof (cases "keyFor n")
      case None
      then show ?thesis using assms by (auto simp: openVerify_def opened inner errs_def)
    next
      case (Some vk)
      note key = this
      show ?thesis
      proof (cases "canonicalBytes (JObj p)")
        case (Inl e')
        then have "has_float (JObj p)"
          using canonicalize_total [of "JObj p"] by (cases "canonicalize (JObj p)") (auto simp: canonicalBytes_def)
        then show ?thesis using opened inner key by blast
      next
        case (Inr msg)
        then show ?thesis
          using assms opened inner key
          by (cases "crypto_sign_verify_detached L sig msg vk")
            (auto simp: openVerify_def errs_def split: if_splits)
      qed
    qed
  qed (use assms Some in \<open>auto simp: openVerify_def throw_def\<close>)
qed (use assms in \<open>auto simp: openVerify_def throw_def\<close>)

end
