(* ===== verification/Canary.thy ===== *)
theory Canary
  imports Envelope
begin

text \<open>
  canary.ts: the signed and sealed request that opens the gate. \<open>makeCanary\<close> builds it with an
  admin key, \<open>verifyCanary\<close> makes the hard checks; the nonce is the gate's (theory Gate).
  Freshness is a whole number of seconds.
\<close>

record canary =
  admin :: jsstr
  keyword :: jsstr
  text_of :: jsstr
  cnonce :: jsstr
  issued :: jsstr

definition canary_payload :: "lib \<Rightarrow> identity \<Rightarrow> jsstr \<Rightarrow> jsstr \<Rightarrow> bytes \<Rightarrow> jsstr \<Rightarrow> payload" where
  "canary_payload L adm kw txt rnd iss =
     [(js ''node'', JStr (toB64 L (publicKey (ed25519 adm)))), (js ''keyword'', JStr kw), (js ''text'', JStr txt),
      (js ''nonce'', JStr (toB64 L rnd)), (js ''issued'', JStr iss)]"

definition makeCanary ::
  "lib \<Rightarrow> bytes \<Rightarrow> bytes \<Rightarrow> identity \<Rightarrow> jsstr \<Rightarrow> jsstr \<Rightarrow> jsstr \<Rightarrow> int \<Rightarrow> jsstr res" where
  \<comment> \<open>\<open>rnd\<close> is the nonce drawn, \<open>r\<close> the randomness of the seal\<close>
  "makeCanary L rnd r adm kw txt vegaX25519 now =
     rbind (toISOString now) (\<lambda>iss.
     rbind (fromB64 L vegaX25519) (\<lambda>pk.
     rmap (toB64 L) (sealSign L r (canary_payload L adm kw txt rnd iss) (secretKey (ed25519 adm)) pk)))"

definition first_token :: "jsstr \<Rightarrow> jsstr" where
  \<comment> \<open>\<open>text.trim().split(/\s+/)[0] ?? ""\<close>\<close>
  "first_token t = takeWhile (\<lambda>c. \<not> is_js_ws c) (trim t)"

definition verifyCanary ::
  "lib \<Rightarrow> identity \<Rightarrow> jsstr \<Rightarrow> verify_key_for \<Rightarrow> jsstr \<Rightarrow> int \<Rightarrow> int \<Rightarrow> canary res" where
  "verifyCanary L vega blobB64 adminVerify kword freshnessSeconds now =
     rbind (fromB64 L blobB64) (\<lambda>blob.
     rbind (openVerify L blob (boxPublicKey (x25519 vega)) (privateKey (x25519 vega)) adminVerify) (\<lambda>p.
     rbind (js_string_opt (nullish (map_get p (js ''text'')) (Some (JStr [])))) (\<lambda>txt.
     rbind (js_string_opt (nullish (map_get p (js ''keyword'')) (Some (JStr [])))) (\<lambda>kw.
     if kw \<noteq> kword \<or> first_token txt \<noteq> kword
     then throw CanaryError ''canary keyword missing or not the first token''
     else
       rbind (js_string_opt (map_get p (js ''issued''))) (\<lambda>iss.
       (case dateParse L iss of
          None \<Rightarrow> throw CanaryError ''canary has no valid issued time''
        | Some issuedMs \<Rightarrow>
            if \<bar>now - issuedMs\<bar> > freshnessSeconds * 1000
            then throw CanaryError ''canary is stale or future-dated''
            else
              rbind (js_string_opt (map_get p (js ''node''))) (\<lambda>nd.
              rbind (js_string_opt (map_get p (js ''nonce''))) (\<lambda>nc.
                Inr \<lparr> admin = nd, keyword = kw, text_of = txt, cnonce = nc, issued = iss \<rparr>))))))))"

section \<open>Facts\<close>

lemma verifyCanary_eq_Inr:
  "verifyCanary L vega b av kword F now = Inr c \<longleftrightarrow>
     (\<exists>blob p t.
        fromB64 L b = Inr blob
      \<and> openVerify L blob (boxPublicKey (x25519 vega)) (privateKey (x25519 vega)) av = Inr p
      \<and> js_string_opt (nullish (map_get p (js ''text'')) (Some (JStr []))) = Inr (text_of c)
      \<and> js_string_opt (nullish (map_get p (js ''keyword'')) (Some (JStr []))) = Inr kword
      \<and> keyword c = kword \<and> first_token (text_of c) = kword
      \<and> js_string_opt (map_get p (js ''issued'')) = Inr (issued c)
      \<and> dateParse L (issued c) = Some t \<and> \<bar>now - t\<bar> \<le> F * 1000
      \<and> js_string_opt (map_get p (js ''node'')) = Inr (admin c)
      \<and> js_string_opt (map_get p (js ''nonce'')) = Inr (cnonce c))"
proof -
  have "c = \<lparr> admin = a, keyword = k, text_of = t, cnonce = n, issued = i \<rparr> \<longleftrightarrow>
      admin c = a \<and> keyword c = k \<and> text_of c = t \<and> cnonce c = n \<and> issued c = i" for a k t n i
    by (cases c) auto
  then show ?thesis
    by (fastforce simp: verifyCanary_def res_eq split: option.splits if_splits)
qed

lemma canary_payload_ok: "json_ok (JObj (canary_payload L adm kw txt rnd iss))"
  by (simp add: canary_payload_def)

lemma canary_fields:
  "map_get (norm_payload (canary_payload L adm kw txt rnd iss)) k =
     map_option norm_json (map_get (canary_payload L adm kw txt rnd iss) k)"
  by (rule get_norm_payload [OF canary_payload_ok])


lemma make_verify_canary:
  assumes "lib_ok L" "id_ok L adm" "id_ok L vega" "toISOString now = Inr iss"
    and "av (toB64 L (publicKey (ed25519 adm))) = Some (publicKey (ed25519 adm))"
    and "first_token txt = kw" "\<bar>now' - now\<bar> \<le> F * 1000"
  obtains blob where
    "makeCanary L rnd r adm kw txt (toB64 L (boxPublicKey (x25519 vega))) now = Inr blob"
    "verifyCanary L vega blob av kw F now'
     = Inr \<lparr> admin = toB64 L (publicKey (ed25519 adm)), keyword = kw, text_of = txt,
             cnonce = toB64 L rnd, issued = iss \<rparr>"
proof -
  let ?p = "canary_payload L adm kw txt rnd iss"
  have node: "map_get ?p (js ''node'') = Some (JStr (toB64 L (publicKey (ed25519 adm))))"
    by (simp add: canary_payload_def)
  obtain c where c: "sealSign L r ?p (secretKey (ed25519 adm)) (boxPublicKey (x25519 vega)) = Inr c"
    "openVerify L c (boxPublicKey (x25519 vega)) (privateKey (x25519 vega)) av = Inr (norm_payload ?p)"
    using seal_sign_ok [OF assms(1-3) canary_payload_ok node] assms(5) by metis
  have get: "map_get (norm_payload ?p) (js k) = map_option norm_json (map_get ?p (js k))" for k
    by (rule canary_fields)
  have "verifyCanary L vega (toB64 L c) av kw F now'
     = Inr \<lparr> admin = toB64 L (publicKey (ed25519 adm)), keyword = kw, text_of = txt,
             cnonce = toB64 L rnd, issued = iss \<rparr>"
    using c(2) assms(6,7) dateParse_toISOString [OF assms(4)] lib_okD(1) [OF assms(1)]
    by (simp add: verifyCanary_eq_Inr get) (simp add: canary_payload_def)
  with that show thesis
    using c(1) assms(4) lib_okD(1) [OF assms(1)] by (simp add: makeCanary_def)
qed

section \<open>The admin allowlist\<close>

definition admin_keys :: "lib \<Rightarrow> jsstr list \<Rightarrow> (jsstr, bytes) jsmap res" where
  \<comment> \<open>the loop of \<open>boot\<close> that decodes the configured admin keys\<close>
  "admin_keys L pubs =
     foldl (\<lambda>m p. rbind m (\<lambda>keys. rmap (\<lambda>k. map_set p k keys) (fromB64 L p))) (Inr []) pubs"

definition adminVerify :: "(jsstr, bytes) jsmap \<Rightarrow> verify_key_for" where
  "adminVerify keys ed = map_get keys ed"

lemma admin_keys_aux:
  "foldl (\<lambda>m p. rbind m (\<lambda>keys. rmap (\<lambda>k. map_set p k keys) (fromB64 L p))) m0 pubs = Inr m \<Longrightarrow>
   \<exists>m1. m0 = Inr m1 \<and> (\<forall>p k. map_get m p = Some k \<longleftrightarrow>
     (if p \<in> set pubs then fromB64 L p = Inr k else map_get m1 p = Some k))"
proof (induction pubs arbitrary: m0)
  case (Cons q pubs)
  then obtain m1 where m1: "rbind m0 (\<lambda>keys. rmap (\<lambda>k. map_set q k keys) (fromB64 L q)) = Inr m1"
    "\<forall>p k. map_get m p = Some k \<longleftrightarrow> (if p \<in> set pubs then fromB64 L p = Inr k else map_get m1 p = Some k)"
    by auto blast
  then show ?case by (auto simp: res_eq split: if_splits)
qed simp

lemma admin_keys_get:
  "admin_keys L pubs = Inr m \<Longrightarrow> map_get m p = Some k \<longleftrightarrow> p \<in> set pubs \<and> fromB64 L p = Inr k"
  unfolding admin_keys_def by (drule admin_keys_aux) auto

end
