(* ===== verification/Gate.thy ===== *)
theory Gate
  imports Canary Machine
begin

text \<open>
  gate.ts: the decision of the language model, the privileged helper and the gate itself. A call
  of \<open>open\<close> or \<open>close\<close> is cut where the code awaits: \<open>gate_begin\<close> runs up to the question to
  the model, \<open>gate_deny\<close> or a queued job follows the answer, and a job of the lock queue is
  \<open>job_start\<close>, the helper process, then \<open>job_done\<close>. The step relation \<open>gate_step\<close> interleaves
  the pieces; \<open>egress\<close> is the firewall, which only the helper changes. The clock is in
  milliseconds, the configured times are whole seconds.
\<close>

section \<open>The decision\<close>

record decision =
  approve :: bool
  reason_of :: jsstr

definition mock_decide :: "jsstr \<Rightarrow> decision" where
  "mock_decide t = \<lparr> approve = True, reason_of = js ''mock: open internet access approved'' \<rparr>"

definition llama_prompt :: "jsstr \<Rightarrow> jsstr" where
  "llama_prompt t =
     js ''Decide whether the user wants to turn on internet access. ''
     @ js ''Answer YES if the message asks to open, enable, allow, or turn on internet or network access. ''
     @ js ''Answer NO if it asks to keep it off, is about something else, or is nonsense.''
     @ [0x0a] @ js ''User: '' @ t @ [0x0a] @ js ''Answer:''"

definition llama_body :: "jsstr \<Rightarrow> jsstr" where
  "llama_body t =
     json_stringify (JObj
       [(js ''prompt'', JStr (llama_prompt t)), (js ''n_predict'', JNum 4), (js ''temperature'', JNum 0),
        (js ''grammar'', JStr (js ''root ::= \"YES\" | \"NO\"''))])"

fun str_includes :: "jsstr \<Rightarrow> jsstr \<Rightarrow> bool" where
  "str_includes [] p = (p = [])"
| "str_includes (c # s) p = (startsWith (c # s) p \<or> str_includes s p)"

definition llama_answer :: "lib \<Rightarrow> json \<Rightarrow> decision res" where
  "llama_answer L j =
     rbind (field j (js ''content'')) (\<lambda>content.
     rbind (field j (js ''completion'')) (\<lambda>completion.
     rbind (js_string_opt (nullish content (nullish completion (Some (JStr []))))) (\<lambda>s.
       let out = toUpperCase L s
       in Inr \<lparr> approve = str_includes out (js ''YES'') \<and> \<not> str_includes out (js ''NO''),
                reason_of = (if trim out = [] then js ''no reason'' else trim out) \<rparr>)))"

definition llama_decide :: "lib \<Rightarrow> (jsstr \<Rightarrow> jsstr \<Rightarrow> json res) \<Rightarrow> jsstr \<Rightarrow> jsstr \<Rightarrow> decision" where
  \<comment> \<open>\<open>http url body\<close> is the parsed response, or what \<open>fetch\<close>, the timeout or \<open>r.json()\<close> threw\<close>
  "llama_decide L http url t =
     (case rbind (http (url @ js ''/completion'') (llama_body t)) (llama_answer L) of
        Inr d \<Rightarrow> d
      | Inl e \<Rightarrow> \<lparr> approve = False, reason_of = js ''llama unreachable: '' @ err_message e \<rparr>)"

section \<open>The helper\<close>

datatype verb = VOpen | VClose

fun verb_str :: "verb \<Rightarrow> jsstr" where
  "verb_str VOpen = js ''open''"
| "verb_str VClose = js ''close''"

fun split_ws :: "jsstr \<Rightarrow> jsstr \<Rightarrow> jsstr list" where
  \<comment> \<open>\<open>split(/\s+/)\<close>: \<open>w\<close> is the word being read\<close>
  "split_ws w [] = [w]"
| "split_ws w [c] = (if is_js_ws c then [w, []] else [w @ [c]])"
| "split_ws w (c # d # s) =
     (if \<not> is_js_ws c then split_ws (w @ [c]) (d # s)
      else if is_js_ws d then split_ws w (d # s)
      else w # split_ws [] (d # s))"

definition shell_base :: "jsstr \<Rightarrow> jsstr list" where
  "shell_base cmd = filter (\<lambda>w. w \<noteq> []) (split_ws [] cmd)"

definition shell_run :: "(jsstr list \<Rightarrow> int) \<Rightarrow> jsstr \<Rightarrow> verb \<Rightarrow> unit res" where
  \<comment> \<open>\<open>spawn argv\<close> is the exit code of the child\<close>
  "shell_run spawn cmd v =
     (if spawn (shell_base cmd @ [verb_str v]) \<noteq> 0
      then Inl (Err JsError (js ''island-gate '' @ verb_str v @ js '' failed'')) else Inr ())"

section \<open>The gate\<close>

datatype mode = Island | Internet

record gate_state =
  mode_of :: mode
  closesAt :: "jsstr option"

datatype log_action = LogOpen | LogClose | LogDeny

record log_entry =
  log_at :: jsstr
  log_action :: log_action
  log_admin :: "jsstr option"
  log_reason :: jsstr

record gate_config =
  ttlSeconds :: int
  noncePruneSeconds :: int

record gate =
  gstate :: gate_state
  glog :: "log_entry list"
  consumed :: "(jsstr, int) jsmap"
  timer :: "(int \<times> jsstr) option" \<comment> \<open>when it is due, and the reason of the close\<close>
  recloseAttempts :: nat

definition gate_new :: gate where
  "gate_new = \<lparr> gstate = \<lparr> mode_of = Island, closesAt = None \<rparr>, glog = [], consumed = [],
     timer = None, recloseAttempts = 0 \<rparr>"

definition scheduleReclose :: "int \<Rightarrow> int \<Rightarrow> jsstr \<Rightarrow> gate \<Rightarrow> gate" where
  "scheduleReclose clk delayMs reason g = g\<lparr> timer := Some (clk + delayMs, reason) \<rparr>"

definition gate_toJSON :: "gate \<Rightarrow> json" where
  "gate_toJSON g = JObj [(js ''consumed'', JArr (map (\<lambda>(n, at). JArr [JStr n, JNum at]) (consumed g)))]"

definition load_entry :: "lib \<Rightarrow> json \<Rightarrow> gate \<Rightarrow> gate res" where
  \<comment> \<open>\<open>const [nonce, at] = entry ?? []\<close>: a number, a boolean or an object is not iterable, and
      what a string yields is never a number\<close>
  "load_entry L e g =
     (case e of
        JNull \<Rightarrow> Inr g
      | JStr s \<Rightarrow> Inr g
      | JArr (JStr n # JNum at # _) \<Rightarrow> Inr (g\<lparr> consumed := map_set n at (consumed g) \<rparr>)
      | JArr (JStr n # JDbl b t # _) \<Rightarrow> Inr (g\<lparr> consumed := map_set n (floor_of_double L t) (consumed g) \<rparr>)
      | JArr _ \<Rightarrow> Inr g
      | _ \<Rightarrow> throw JsError ''entry is not iterable'')"

fun load_entries :: "lib \<Rightarrow> json list \<Rightarrow> gate \<Rightarrow> gate \<times> unit res" where
  "load_entries L [] g = (g, Inr ())"
| "load_entries L (e # es) g =
     (case load_entry L e g of Inl x \<Rightarrow> (g, Inl x) | Inr g' \<Rightarrow> load_entries L es g')"

definition loadConsumed :: "lib \<Rightarrow> json option \<Rightarrow> gate \<Rightarrow> gate \<times> unit res" where
  "loadConsumed L data g =
     (case data of
        Some d \<Rightarrow> (case obj_get d (js ''consumed'') of Some (JArr es) \<Rightarrow> load_entries L es g | _ \<Rightarrow> (g, Inr ()))
      | None \<Rightarrow> (g, Inr ()))"

record open_result =
  opened :: bool
  res_state :: gate_state
  res_reason :: jsstr

definition prune_consumed :: "gate_config \<Rightarrow> int \<Rightarrow> gate \<Rightarrow> gate" where
  "prune_consumed cfg now g =
     g\<lparr> consumed := filter (\<lambda>(n, at). \<not> at < now - noncePruneSeconds cfg * 1000) (consumed g) \<rparr>"

definition gate_begin :: "gate_config \<Rightarrow> canary \<Rightarrow> int \<Rightarrow> gate \<Rightarrow> gate \<times> unit res" where
  \<comment> \<open>\<open>open\<close> up to the question to the model\<close>
  "gate_begin cfg c now g =
     (let g1 = prune_consumed cfg now g
      in if map_has (consumed g1) (cnonce c) then (g1, throw CanaryError ''canary already used'')
         else (g1\<lparr> consumed := map_set (cnonce c) now (consumed g1) \<rparr>, Inr ()))"

definition gate_log :: "int \<Rightarrow> log_action \<Rightarrow> jsstr option \<Rightarrow> jsstr \<Rightarrow> gate \<Rightarrow> gate \<times> unit res" where
  "gate_log now act adm r g =
     (case toISOString now of
        Inl e \<Rightarrow> (g, Inl e)
      | Inr t \<Rightarrow>
          (g\<lparr> glog := glog g @ [\<lparr> log_at = t, log_action = act, log_admin = adm, log_reason = r \<rparr>] \<rparr>, Inr ()))"

definition gate_deny :: "canary \<Rightarrow> int \<Rightarrow> jsstr \<Rightarrow> gate \<Rightarrow> gate \<times> open_result res" where
  "gate_deny c now r g =
     (let (g', l) = gate_log now LogDeny (Some (admin c)) r g
      in (g', rmap (\<lambda>_. \<lparr> opened = False, res_state = gstate g', res_reason = r \<rparr>) l))"

datatype job = JOpen canary int jsstr | JClose jsstr int

fun job_start :: "job \<Rightarrow> gate \<Rightarrow> gate" where
  "job_start (JOpen c now r) g = g\<lparr> timer := None \<rparr>"
| "job_start (JClose r now) g = g"

definition open_ok :: "gate_config \<Rightarrow> int \<Rightarrow> canary \<Rightarrow> int \<Rightarrow> jsstr \<Rightarrow> gate \<Rightarrow> gate \<times> open_result res" where
  "open_ok cfg clk c now r g =
     (let g1 = g\<lparr> recloseAttempts := 0 \<rparr>
      in case toISOString (now + ttlSeconds cfg * 1000) of
           Inl e \<Rightarrow> (g1, Inl e)
         | Inr t \<Rightarrow>
             (let g2 = g1\<lparr> gstate := \<lparr> mode_of = Internet, closesAt = Some t \<rparr> \<rparr>;
                  g3 = scheduleReclose clk (ttlSeconds cfg * 1000) (js ''auto-reclose (ttl)'') g2;
                  (g4, l) = gate_log now LogOpen (Some (admin c)) r g3
              in (g4, rmap (\<lambda>_. \<lparr> opened = True, res_state = gstate g4, res_reason = r \<rparr>) l)))"

definition open_fail :: "int \<Rightarrow> gate \<Rightarrow> gate" where
  "open_fail clk g =
     (if mode_of (gstate g) = Internet
      then scheduleReclose clk 0 (js ''reclose after failed re-open'') g else g)"

definition close_ok :: "jsstr \<Rightarrow> int \<Rightarrow> gate \<Rightarrow> gate \<times> gate_state res" where
  "close_ok r now g =
     (let g1 = g\<lparr> timer := None, recloseAttempts := 0, gstate := \<lparr> mode_of = Island, closesAt = None \<rparr> \<rparr>;
          (g2, l) = gate_log now LogClose None r g1
      in (g2, rmap (\<lambda>_. gstate g2) l))"

definition backoff_ms :: "nat \<Rightarrow> int" where
  "backoff_ms n = min (1000 * 2 ^ n) 60000"

definition close_fail :: "int \<Rightarrow> jsstr \<Rightarrow> gate \<Rightarrow> gate" where
  "close_fail clk r g =
     (let g1 = g\<lparr> recloseAttempts := recloseAttempts g + 1 \<rparr>
      in scheduleReclose clk (backoff_ms (recloseAttempts g1)) r g1)"

fun job_done :: "gate_config \<Rightarrow> int \<Rightarrow> job \<Rightarrow> bool \<Rightarrow> gate \<Rightarrow> gate" where
  \<comment> \<open>the job's continuation after the helper succeeded or failed\<close>
  "job_done cfg clk (JOpen c now r) ok g = (if ok then fst (open_ok cfg clk c now r g) else open_fail clk g)"
| "job_done cfg clk (JClose r now) ok g = (if ok then fst (close_ok r now g) else close_fail clk r g)"

section \<open>The gate in its world\<close>

record world =
  gate :: gate
  clock :: int
  deciding :: "(canary \<times> int) list" \<comment> \<open>calls of \<open>open\<close> waiting for the model\<close>
  queue :: "job list" \<comment> \<open>the lock: jobs waiting\<close>
  running :: "job option" \<comment> \<open>the job that holds it\<close>
  egress :: bool

definition world_init :: "gate_config \<Rightarrow> world \<Rightarrow> bool" where
  "world_init cfg w \<longleftrightarrow> 0 < ttlSeconds cfg \<and>
     gstate (gate w) = \<lparr> mode_of = Island, closesAt = None \<rparr> \<and> timer (gate w) = None
   \<and> recloseAttempts (gate w) = 0 \<and> 0 \<le> clock w \<and> clock w + ttlSeconds cfg * 1000 \<le> max_time
   \<and> deciding w = [] \<and> queue w = [] \<and> running w = None \<and> \<not> egress w
   \<and> wf_map (consumed (gate w)) \<and> (\<forall>(n, at) \<in> set (consumed (gate w)). safe_int at)"

fun egress_after :: "bool \<Rightarrow> job \<Rightarrow> bool \<Rightarrow> bool \<Rightarrow> bool \<Rightarrow> bool" where
  \<comment> \<open>what the firewall may be after a job's helper ended. \<open>sound\<close> is a helper that keeps its word: an
      \<open>open\<close> that fails changed nothing, a \<open>close\<close> that exits 0 closed. Any other helper may leave the
      rules of an \<open>open\<close> that failed half way, and may exit 0 from a \<open>close\<close> that removed nothing, as
      \<open>deploy/island-gate\<close> can: several commands under \<open>set -e\<close>, and \<open>|| true\<close> at the end of its close\<close>
  "egress_after sound (JOpen c now r) ok e e' = (if ok then e' else sound \<longrightarrow> e' = e)"
| "egress_after sound (JClose r now) ok e e' = ((sound \<and> ok \<longrightarrow> \<not> e') \<and> (e' \<longrightarrow> e))"

inductive gate_step :: "gate_config \<Rightarrow> bool \<Rightarrow> world \<Rightarrow> world \<Rightarrow> bool"
  for cfg :: gate_config and sound :: bool where
  OpenCall:
    "gate_begin cfg c (clock w) (gate w) = (g, Inr ()) \<Longrightarrow>
     gate_step cfg sound w (w\<lparr> gate := g, deciding := deciding w @ [(c, clock w)] \<rparr>)"
| OpenReject:
    "gate_begin cfg c (clock w) (gate w) = (g, Inl e) \<Longrightarrow> gate_step cfg sound w (w\<lparr> gate := g \<rparr>)"
| Deny:
    "(c, now) \<in> set (deciding w) \<Longrightarrow>
     gate_step cfg sound w
       (w\<lparr> gate := fst (gate_deny c now r (gate w)), deciding := remove1 (c, now) (deciding w) \<rparr>)"
| Approve:
    "(c, now) \<in> set (deciding w) \<Longrightarrow>
     gate_step cfg sound w (w\<lparr> deciding := remove1 (c, now) (deciding w), queue := queue w @ [JOpen c now r] \<rparr>)"
| CloseCall:
    "gate_step cfg sound w (w\<lparr> queue := queue w @ [JClose r (clock w)] \<rparr>)"
| Start:
    "running w = None \<Longrightarrow> queue w = j # q \<Longrightarrow>
     gate_step cfg sound w (w\<lparr> gate := job_start j (gate w), queue := q, running := Some j \<rparr>)"
| Finish:
    "running w = Some j \<Longrightarrow> egress_after sound j ok (egress w) e \<Longrightarrow>
     gate_step cfg sound w
       (w\<lparr> gate := job_done cfg (clock w) j ok (gate w), running := None, egress := e \<rparr>)"
| Fire:
    "timer (gate w) = Some (due, r) \<Longrightarrow> due \<le> clock w \<Longrightarrow>
     gate_step cfg sound w
       (w\<lparr> gate := (gate w)\<lparr> timer := None \<rparr>, queue := queue w @ [JClose r (clock w)] \<rparr>)"
| Tick:
    "clock w \<le> t \<Longrightarrow> t + ttlSeconds cfg * 1000 \<le> max_time \<Longrightarrow>
     gate_step cfg sound w (w\<lparr> clock := t \<rparr>)"

definition boot_gate :: "lib \<Rightarrow> jsstr option \<Rightarrow> gate" where
  \<comment> \<open>what \<open>boot\<close> makes of the saved \<open>gate.json\<close>: a fresh gate with its spent nonces; an exception is ignored\<close>
  "boot_gate L saved =
     (case saved of
        None \<Rightarrow> gate_new
      | Some s \<Rightarrow> (case json_parse (number_of_token L) s of
                    None \<Rightarrow> gate_new | Some d \<Rightarrow> fst (loadConsumed L (Some d) gate_new)))"

definition persist_gate :: "gate \<Rightarrow> jsstr" where
  \<comment> \<open>what \<open>persist\<close> writes to \<open>gate.json\<close>\<close>
  "persist_gate g = json_stringify (gate_toJSON g)"

definition restart :: "lib \<Rightarrow> jsstr option \<Rightarrow> world \<Rightarrow> world" where
  \<comment> \<open>the process ends and a new one boots: the file, the clock and the firewall survive\<close>
  "restart L saved w =
     w\<lparr> gate := boot_gate L saved, deciding := [], queue := [], running := None \<rparr>"

inductive gate_life :: "lib \<Rightarrow> gate_config \<Rightarrow> bool \<Rightarrow> world \<times> jsstr option \<Rightarrow> world \<times> jsstr option \<Rightarrow> bool"
  for L :: lib and cfg :: gate_config and sound :: bool where
  \<comment> \<open>the gate beside its file: a step of the process, a \<open>persist\<close> that completes, an end and a new start\<close>
  Run: "gate_step cfg sound w w' \<Longrightarrow> gate_life L cfg sound (w, saved) (w', saved)"
| Save: "gate_life L cfg sound (w, saved) (w, Some (persist_gate (gate w)))"
| Restart: "gate_life L cfg sound (w, saved) (restart L saved w, saved)"

end
