(* ===== verification/GateFacts.thy ===== *)
theory GateFacts
  imports Gate
begin

text \<open>
  The gate is safe: the invariant of its step relation, single use of a nonce, the retry loop of a
  failing close, and what survives a restart.
\<close>

section \<open>What each piece changes\<close>

lemma gate_log_keeps [simp]:
  "gstate (fst (gate_log now a adm r g)) = gstate g" "timer (fst (gate_log now a adm r g)) = timer g"
  "consumed (fst (gate_log now a adm r g)) = consumed g"
  by (simp_all add: gate_log_def split: sum.splits)

lemma gate_deny_keeps [simp]:
  "gstate (fst (gate_deny c now r g)) = gstate g" "timer (fst (gate_deny c now r g)) = timer g"
  "consumed (fst (gate_deny c now r g)) = consumed g"
  by (simp_all add: gate_deny_def case_prod_unfold Let_def)

lemma gate_begin_keeps:
  assumes "gate_begin cfg c now g = (g', x)"
  shows "gstate g' = gstate g" "timer g' = timer g"
  using assms by (auto simp: gate_begin_def prune_consumed_def Let_def split: if_splits)

lemma job_start_keeps [simp]:
  "gstate (job_start j g) = gstate g" "consumed (job_start j g) = consumed g"
  by (cases j; simp)+

lemma job_done_consumed [simp]: "consumed (job_done cfg clk j ok g) = consumed g"
  by (cases j) (simp_all add: open_ok_def open_fail_def close_ok_def close_fail_def scheduleReclose_def Let_def
    case_prod_unfold split: sum.splits)

lemma open_ok_timer:
  assumes "toISOString (now + ttlSeconds cfg * 1000) = Inr t"
  shows "gstate (fst (open_ok cfg clk c now r g)) = \<lparr> mode_of = Internet, closesAt = Some t \<rparr>"
    "timer (fst (open_ok cfg clk c now r g)) = Some (clk + ttlSeconds cfg * 1000, js ''auto-reclose (ttl)'')"
  using assms by (simp_all add: open_ok_def Let_def case_prod_unfold scheduleReclose_def)

lemma close_ok_island:
  "gstate (fst (close_ok r now g)) = \<lparr> mode_of = Island, closesAt = None \<rparr>" "timer (fst (close_ok r now g)) = None"
  by (simp_all add: close_ok_def Let_def case_prod_unfold)

lemma backoff_bounds: "0 < backoff_ms n" "backoff_ms n \<le> 60000"
  by (simp_all add: backoff_ms_def)

lemma toISOString_defined: "- max_time \<le> t \<Longrightarrow> t \<le> max_time \<Longrightarrow> toISOString t = Inr (iso_str t)"
  by (simp add: toISOString_def)

section \<open>The invariant\<close>

definition gate_safe :: "world \<Rightarrow> bool" where
  \<comment> \<open>the open state only with a way back\<close>
  "gate_safe w \<longleftrightarrow>
     (mode_of (gstate (gate w)) = Internet \<longrightarrow>
        timer (gate w) \<noteq> None \<or> running w \<noteq> None \<or> (\<exists>r now. JClose r now \<in> set (queue w)))"

fun job_at :: "int \<Rightarrow> job \<Rightarrow> bool" where
  "job_at t (JOpen c now r) = (0 \<le> now \<and> now \<le> t)"
| "job_at t (JClose r now) = (0 \<le> now \<and> now \<le> t)"

definition times_ok :: "gate_config \<Rightarrow> world \<Rightarrow> bool" where
  "times_ok cfg w \<longleftrightarrow>
     0 < ttlSeconds cfg \<and> 0 \<le> clock w \<and> clock w + ttlSeconds cfg * 1000 \<le> max_time
   \<and> (\<forall>(c, now) \<in> set (deciding w). 0 \<le> now \<and> now \<le> clock w)
   \<and> (\<forall>j \<in> set (queue w). job_at (clock w) j) \<and> (\<forall>j. running w = Some j \<longrightarrow> job_at (clock w) j)"

definition timer_bounded :: "gate_config \<Rightarrow> world \<Rightarrow> bool" where
  "timer_bounded cfg w \<longleftrightarrow>
     (\<forall>due r. timer (gate w) = Some (due, r) \<longrightarrow> due \<le> clock w + max (ttlSeconds cfg * 1000) 60000)"

definition gate_inv :: "gate_config \<Rightarrow> world \<Rightarrow> bool" where
  "gate_inv cfg w \<longleftrightarrow> gate_safe w \<and> times_ok cfg w \<and> timer_bounded cfg w"

lemma job_at_mono: "job_at t j \<Longrightarrow> t \<le> u \<Longrightarrow> job_at u j"
  by (cases j) auto

lemma step_times: "gate_step cfg sound w w' \<Longrightarrow> times_ok cfg w \<Longrightarrow> times_ok cfg w'"
  by (induction rule: gate_step.induct)
    (auto simp: times_ok_def intro: job_at_mono dest: set_mp [OF set_remove1_subset])

lemma done_timer:
  assumes "job_at clk j" "0 < ttlSeconds cfg" "clk + ttlSeconds cfg * 1000 \<le> max_time" "0 \<le> clk"
  shows "mode_of (gstate (job_done cfg clk j ok g)) = Internet \<longrightarrow> timer (job_done cfg clk j ok g) \<noteq> None"
    and "timer (job_done cfg clk j ok g) = Some (due, r) \<Longrightarrow>
      due \<le> clk + max (ttlSeconds cfg * 1000) 60000 \<or> timer g = Some (due, r)"
    and "mode_of (gstate (job_done cfg clk j ok g)) =
      (case j of JOpen _ _ _ \<Rightarrow> if ok then Internet else mode_of (gstate g)
               | JClose _ _ \<Rightarrow> if ok then Island else mode_of (gstate g))"
proof -
  have "toISOString (now + ttlSeconds cfg * 1000) = Inr (iso_str (now + ttlSeconds cfg * 1000))"
    if "j = JOpen c now r" for c now r
    using assms that by (intro toISOString_defined) (auto simp: max_time_def)
  note opened = open_ok_timer [OF this]
  show "mode_of (gstate (job_done cfg clk j ok g)) = Internet \<longrightarrow> timer (job_done cfg clk j ok g) \<noteq> None"
    using opened by (cases j) (auto simp: open_fail_def close_ok_island close_fail_def scheduleReclose_def Let_def)
  show "timer (job_done cfg clk j ok g) = Some (due, r) \<Longrightarrow>
      due \<le> clk + max (ttlSeconds cfg * 1000) 60000 \<or> timer g = Some (due, r)"
    using opened backoff_bounds
    by (cases j) (auto simp: open_fail_def close_ok_island close_fail_def scheduleReclose_def Let_def
      le_max_iff_disj split: if_splits)
  show "mode_of (gstate (job_done cfg clk j ok g)) =
      (case j of JOpen _ _ _ \<Rightarrow> if ok then Internet else mode_of (gstate g)
               | JClose _ _ \<Rightarrow> if ok then Island else mode_of (gstate g))"
    using opened by (cases j) (auto simp: open_fail_def close_ok_island close_fail_def scheduleReclose_def Let_def)
qed

lemma gate_step_inv:
  assumes "gate_step cfg sound w w'" "gate_inv cfg w"
  shows "gate_inv cfg w'"
proof -
  have times: "times_ok cfg w'" using assms step_times by (auto simp: gate_inv_def)
  have safe: "gate_safe w" and tb: "timer_bounded cfg w" and tw: "times_ok cfg w"
    using assms(2) by (auto simp: gate_inv_def)
  have "gate_safe w' \<and> timer_bounded cfg w'"
    using assms(1)
  proof cases
    case (OpenCall c g)
    then show ?thesis using safe tb gate_begin_keeps [OF OpenCall(2)] by (auto simp: gate_safe_def timer_bounded_def)
  next
    case (OpenReject c g e)
    then show ?thesis using safe tb gate_begin_keeps [OF OpenReject(2)] by (auto simp: gate_safe_def timer_bounded_def)
  next
    case (Start j q)
    then show ?thesis using safe tb by (cases j) (auto simp: gate_safe_def timer_bounded_def)
  next
    case (Finish j ok e)
    have at: "job_at (clock w) j" "0 < ttlSeconds cfg" "clock w + ttlSeconds cfg * 1000 \<le> max_time" "0 \<le> clock w"
      using tw Finish by (auto simp: times_ok_def)
    show ?thesis
      using Finish done_timer(1) [OF at, of ok "gate w"] done_timer(2) [OF at, of ok "gate w"] tb
      by (auto simp: gate_safe_def timer_bounded_def)
  next
    case (Fire due r)
    then show ?thesis using safe by (auto simp: gate_safe_def timer_bounded_def)
  next
    case (Tick t)
    then show ?thesis using safe tb by (fastforce simp: gate_safe_def timer_bounded_def)
  qed (use safe tb in \<open>auto simp: gate_safe_def timer_bounded_def\<close>)
  with times show ?thesis by (simp add: gate_inv_def)
qed

lemma gate_init_inv: "world_init cfg w \<Longrightarrow> gate_inv cfg w"
  by (auto simp: world_init_def gate_inv_def gate_safe_def times_ok_def timer_bounded_def)

definition egress_open :: "gate_config \<Rightarrow> world \<Rightarrow> bool" where
  \<comment> \<open>for a helper that keeps its word, in one process: forwarding only in the open state\<close>
  "egress_open cfg w \<longleftrightarrow> gate_inv cfg w \<and> (egress w \<longrightarrow> mode_of (gstate (gate w)) = Internet)"

lemma egress_step:
  assumes "gate_step cfg True w w'" "egress_open cfg w"
  shows "egress_open cfg w'"
proof -
  have inv: "gate_inv cfg w" and eg: "egress w \<longrightarrow> mode_of (gstate (gate w)) = Internet"
    using assms(2) by (simp_all add: egress_open_def)
  have "egress w' \<longrightarrow> mode_of (gstate (gate w')) = Internet"
    using assms(1)
  proof cases
    case (OpenCall c g)
    then show ?thesis using eg gate_begin_keeps [OF OpenCall(2)] by simp
  next
    case (OpenReject c g e)
    then show ?thesis using eg gate_begin_keeps [OF OpenReject(2)] by simp
  next
    case (Finish j ok e')
    have at: "job_at (clock w) j" "0 < ttlSeconds cfg" "clock w + ttlSeconds cfg * 1000 \<le> max_time" "0 \<le> clock w"
      using inv Finish by (auto simp: gate_inv_def times_ok_def)
    show ?thesis using eg Finish done_timer(3) [OF at, of ok "gate w"] by (cases j) (auto split: if_splits)
  qed (use eg in simp_all)
  then show ?thesis using gate_step_inv [OF assms(1) inv] by (simp add: egress_open_def)
qed

interpretation egress_machine: machine "world_init cfg" "gate_step cfg True" "egress_open cfg" for cfg
proof unfold_locales
  show "world_init cfg w \<Longrightarrow> egress_open cfg w" for w
    using gate_init_inv by (auto simp: egress_open_def world_init_def)
qed (rule egress_step)

section \<open>Spent nonces\<close>

lemma map_get_filter: "map_get m k = Some v \<Longrightarrow> P (k, v) \<Longrightarrow> map_get (filter P m) k = Some v"
  by (induction m) (auto split: if_splits)

lemma begin_keeps_nonce:
  assumes "gate_begin cfg c now g = (g', x)" "map_get (consumed g) n = Some t"
    and "now - noncePruneSeconds cfg * 1000 \<le> t"
  shows "map_get (consumed g') n = Some t"
proof -
  have kept: "map_get (consumed (prune_consumed cfg now g)) n = Some t"
    unfolding prune_consumed_def using assms(2,3) by (simp add: map_get_filter)
  then have "map_has (consumed (prune_consumed cfg now g)) n"
    by (auto simp: map_has_get)
  with kept assms(1) show ?thesis
    by (cases "n = cnonce c") (simp_all add: gate_begin_def Let_def split: if_splits, (elim conjE, hypsubst, simp)?)
qed

lemma begin_spends: "gate_begin cfg c now g = (g', Inr u) \<Longrightarrow> map_get (consumed g') (cnonce c) = Some now"
  by (auto simp: gate_begin_def Let_def split: if_splits)

lemma step_clock: "gate_step cfg sound w w' \<Longrightarrow> clock w \<le> clock w'"
  by (induction rule: gate_step.induct) auto

lemma step_keeps_nonce:
  assumes "gate_step cfg sound w w'" "map_get (consumed (gate w)) n = Some t"
    and "clock w \<le> t + noncePruneSeconds cfg * 1000"
  shows "map_get (consumed (gate w')) n = Some t"
  using assms(1)
proof cases
  case (OpenCall c g)
  then show ?thesis using begin_keeps_nonce [OF OpenCall(2) assms(2)] assms(3) by simp
next
  case (OpenReject c g e)
  then show ?thesis using begin_keeps_nonce [OF OpenReject(2) assms(2)] assms(3) by simp
qed (use assms(2) in simp_all)

lemma steps_keep_nonce:
  "steps (gate_step cfg sound) w w' \<Longrightarrow> map_get (consumed (gate w)) n = Some t \<Longrightarrow>
   clock w' \<le> t + noncePruneSeconds cfg * 1000 \<Longrightarrow>
   map_get (consumed (gate w')) n = Some t \<and> clock w \<le> clock w'"
proof (induction rule: steps.induct)
  case (trans s t' u)
  then show ?case using step_clock [OF trans(2)] step_keeps_nonce [OF trans(2)] by fastforce
qed simp

lemma begin_rejects:
  assumes "map_get (consumed g) (cnonce c) = Some t" "now - noncePruneSeconds cfg * 1000 \<le> t"
  shows "gate_begin cfg c now g = (prune_consumed cfg now g, throw CanaryError ''canary already used'')"
proof -
  have "map_get (consumed (prune_consumed cfg now g)) (cnonce c) = Some t"
    unfolding prune_consumed_def using assms by (simp add: map_get_filter)
  then have "map_has (consumed (prune_consumed cfg now g)) (cnonce c)" by (auto simp: map_has_get)
  then show ?thesis by (simp add: gate_begin_def Let_def)
qed

lemma verifyCanary_again:
  assumes "verifyCanary L vega b av kw F t1 = Inr c" "verifyCanary L vega b av kw F t2 = Inr c'"
  shows "c' = c" "t2 - t1 \<le> 2 * F * 1000"
proof -
  show "c' = c" using assms unfolding verifyCanary_eq_Inr by (intro canary.equality) auto
  obtain t t' where "dateParse L (issued c) = Some t" "\<bar>t1 - t\<bar> \<le> F * 1000"
    "dateParse L (issued c') = Some t'" "\<bar>t2 - t'\<bar> \<le> F * 1000"
    using assms unfolding verifyCanary_eq_Inr by auto
  then show "t2 - t1 \<le> 2 * F * 1000" using \<open>c' = c\<close> by simp
qed

section \<open>Retrying a close\<close>

inductive close_attempt :: "gate_config \<Rightarrow> bool \<Rightarrow> bool \<Rightarrow> world \<Rightarrow> world \<Rightarrow> bool"
  for cfg :: gate_config and sound :: bool and ok :: bool where
  \<comment> \<open>one round of an undisturbed gate: its timer is due, fires, the close gets the lock, the helper ends\<close>
  "timer (gate w) = Some (due, r) \<Longrightarrow>
   w1 = w\<lparr> clock := max (clock w) due \<rparr> \<Longrightarrow> gate_step cfg sound w w1 \<Longrightarrow>
   w2 = w1\<lparr> gate := (gate w1)\<lparr> timer := None \<rparr>, queue := [JClose r (clock w1)] \<rparr> \<Longrightarrow> gate_step cfg sound w1 w2 \<Longrightarrow>
   w3 = w2\<lparr> queue := [], running := Some (JClose r (clock w1)) \<rparr> \<Longrightarrow> gate_step cfg sound w2 w3 \<Longrightarrow>
   w4 = w3\<lparr> gate := job_done cfg (clock w3) (JClose r (clock w1)) ok (gate w3), running := None, egress := e \<rparr> \<Longrightarrow>
   gate_step cfg sound w3 w4 \<Longrightarrow> egress_after sound (JClose r (clock w1)) ok (egress w3) e \<Longrightarrow>
   close_attempt cfg sound ok w w4"

inductive failed_closes :: "gate_config \<Rightarrow> bool \<Rightarrow> nat \<Rightarrow> world \<Rightarrow> world \<Rightarrow> bool"
  for cfg :: gate_config and sound :: bool where
  none: "failed_closes cfg sound 0 w w"
| one_more: "failed_closes cfg sound k w w1 \<Longrightarrow> close_attempt cfg sound False w1 w2 \<Longrightarrow> failed_closes cfg sound (Suc k) w w2"

inductive_cases failed_closesE: "failed_closes cfg sound 0 w w'" "failed_closes cfg sound (Suc k) w w'"

definition waiting_close :: "world \<Rightarrow> int \<Rightarrow> jsstr \<Rightarrow> nat \<Rightarrow> bool" where
  \<comment> \<open>the lock is free and a close is due, after so many failures\<close>
  "waiting_close w due r n \<longleftrightarrow> timer (gate w) = Some (due, r) \<and> running w = None \<and> queue w = [] \<and> recloseAttempts (gate w) = n"

lemma close_attempt_enabled:
  assumes "waiting_close w due r n" "t = max (clock w) due" "t + ttlSeconds cfg * 1000 \<le> max_time"
    and "egress_after sound (JClose r t) ok (egress w) e"
  shows "\<exists>w'. close_attempt cfg sound ok w w' \<and> egress w' = e"
proof -
  let ?w1 = "w\<lparr> clock := max (clock w) due \<rparr>"
  let ?w2 = "?w1\<lparr> gate := (gate ?w1)\<lparr> timer := None \<rparr>, queue := [JClose r (clock ?w1)] \<rparr>"
  let ?w3 = "?w2\<lparr> queue := [], running := Some (JClose r (clock ?w1)) \<rparr>"
  let ?w4 = "?w3\<lparr> gate := job_done cfg (clock ?w3) (JClose r (clock ?w1)) ok (gate ?w3), running := None, egress := e \<rparr>"
  have w: "timer (gate w) = Some (due, r)" "running w = None" "queue w = []"
    using assms(1) by (simp_all add: waiting_close_def)
  have s1: "gate_step cfg sound w ?w1" using assms(2,3) by (intro gate_step.Tick) auto
  have "gate_step cfg sound ?w1
      (?w1\<lparr> gate := (gate ?w1)\<lparr> timer := None \<rparr>, queue := queue ?w1 @ [JClose r (clock ?w1)] \<rparr>)"
    using w by (intro gate_step.Fire) auto
  then have s2: "gate_step cfg sound ?w1 ?w2" using w by simp
  have "gate_step cfg sound ?w2 (?w2\<lparr> gate := job_start (JClose r (clock ?w1)) (gate ?w2), queue := [],
      running := Some (JClose r (clock ?w1)) \<rparr>)"
    using w by (intro gate_step.Start) auto
  then have s3: "gate_step cfg sound ?w2 ?w3" by simp
  have e: "egress_after sound (JClose r (clock ?w1)) ok (egress ?w3) e" using assms(2,4) by simp
  then have s4: "gate_step cfg sound ?w3 ?w4" by (intro gate_step.Finish) simp_all
  have "close_attempt cfg sound ok w ?w4"
    by (rule close_attempt.intros [OF w(1) HOL.refl s1 HOL.refl s2 HOL.refl s3 HOL.refl s4 e])
  then show ?thesis by (intro exI [of _ ?w4]) simp
qed

lemma close_attempt_fails:
  assumes "close_attempt cfg sound False w w'" "waiting_close w due r n"
  shows "waiting_close w' (max (clock w) due + backoff_ms (n + 1)) r (n + 1) \<and> clock w' = max (clock w) due
    \<and> gstate (gate w') = gstate (gate w)"
  using assms by (auto elim!: close_attempt.cases simp: waiting_close_def close_fail_def scheduleReclose_def Let_def)

lemma close_attempt_works:
  assumes "close_attempt cfg sound True w w'" "waiting_close w due r n"
  shows "gstate (gate w') = \<lparr> mode_of = Island, closesAt = None \<rparr> \<and> timer (gate w') = None \<and> recloseAttempts (gate w') = 0
    \<and> running w' = None \<and> queue w' = [] \<and> clock w' = max (clock w) due \<and> (sound \<longrightarrow> \<not> egress w')"
  using assms
  by (auto elim!: close_attempt.cases simp: waiting_close_def close_ok_island close_ok_def gate_log_def Let_def
      case_prod_unfold split: sum.splits)

definition backoff_total :: "nat \<Rightarrow> nat \<Rightarrow> int" where
  \<comment> \<open>the waits after \<open>k\<close> more failures, the first being attempt \<open>n + 1\<close>\<close>
  "backoff_total n k = sum_list (map backoff_ms [n + 1..<n + 1 + k])"

lemma backoff_total_Suc: "backoff_total n (Suc k) = backoff_total n k + backoff_ms (n + k + 1)"
  by (simp add: backoff_total_def)

lemma backoff_total_0 [simp]: "backoff_total n 0 = 0"
  by (simp add: backoff_total_def)

lemma backoff_total_le: "backoff_total n k \<le> 60000 * int k"
proof (induction k)
  case (Suc k)
  then show ?case unfolding backoff_total_Suc using backoff_bounds(2) [of "n + k + 1"] by (simp del: One_nat_def)
qed simp

lemma backoff_total_mono: "backoff_total n k \<le> backoff_total n (Suc k)"
  using backoff_bounds(1) [of "n + k + 1"] by (simp add: backoff_total_Suc less_imp_le del: One_nat_def)

lemma failed_closes_waiting:
  assumes "failed_closes cfg sound k w w'" "waiting_close w due r n"
  shows "\<exists>due'. waiting_close w' due' r (n + k) \<and> max (clock w') due' = max (clock w) due + backoff_total n k
      \<and> gstate (gate w') = gstate (gate w)"
  using assms
proof (induction k arbitrary: w')
  case 0
  then have "w' = w" by (auto elim: failed_closesE)
  then show ?case using 0 by auto
next
  case (Suc k)
  then obtain w1 where w1: "failed_closes cfg sound k w w1" "close_attempt cfg sound False w1 w'"
    by (auto elim: failed_closesE)
  then obtain due' where due': "waiting_close w1 due' r (n + k)" "gstate (gate w1) = gstate (gate w)"
    "max (clock w1) due' = max (clock w) due + backoff_total n k" using Suc by blast
  show ?case
    using close_attempt_fails [OF w1(2) due'(1)] due'(2,3) backoff_bounds(1) [of "n + k + 1"]
    by (intro exI [of _ "max (clock w1) due' + backoff_ms (n + k + 1)"]) (simp add: backoff_total_Suc)
qed

lemma failed_closes_possible:
  assumes "waiting_close w due r n" "max (clock w) due + backoff_total n k + ttlSeconds cfg * 1000 \<le> max_time"
  shows "\<exists>w'. failed_closes cfg sound k w w'"
  using assms(2)
proof (induction k)
  case 0
  show ?case by (blast intro: failed_closes.none)
next
  case (Suc k)
  have b: "max (clock w) due + backoff_total n k + ttlSeconds cfg * 1000 \<le> max_time"
    using Suc.prems backoff_total_mono [of n k] by linarith
  then obtain w1 where w1: "failed_closes cfg sound k w w1" using Suc.IH by blast
  then obtain due' where due': "waiting_close w1 due' r (n + k)"
    "max (clock w1) due' = max (clock w) due + backoff_total n k" using failed_closes_waiting [OF _ assms(1)] by blast
  have "max (clock w1) due' + ttlSeconds cfg * 1000 \<le> max_time" using b due'(2) by simp
  then obtain w2 where "close_attempt cfg sound False w1 w2"
    using close_attempt_enabled [OF due'(1) HOL.refl, of cfg sound False "egress w1"] by auto
  then show ?case using w1 by (blast intro: failed_closes.one_more)
qed

section \<open>Saving and restoring the spent nonces\<close>

definition consumed_ok :: "world \<Rightarrow> bool" where
  "consumed_ok w \<longleftrightarrow> wf_map (consumed (gate w)) \<and> (\<forall>(n, at) \<in> set (consumed (gate w)). safe_int at)
     \<and> 0 \<le> clock w \<and> clock w \<le> max_time"

lemma begin_consumed_ok:
  assumes "gate_begin cfg c now g = (g', x)" "wf_map (consumed g)" "\<forall>(n, at) \<in> set (consumed g). safe_int at"
    and "safe_int now"
  shows "wf_map (consumed g') \<and> (\<forall>(n, at) \<in> set (consumed g'). safe_int at)"
proof -
  have p: "wf_map (consumed (prune_consumed cfg now g))"
    "\<forall>(n, at) \<in> set (consumed (prune_consumed cfg now g)). safe_int at"
    using assms(2,3) by (auto simp: prune_consumed_def distinct_map intro: inj_on_subset)
  have "consumed g' = consumed (prune_consumed cfg now g)
      \<or> consumed g' = map_set (cnonce c) now (consumed (prune_consumed cfg now g))"
    using assms(1) by (auto simp: gate_begin_def Let_def split: if_splits)
  then show ?thesis
    using p assms(4) set_map_set [of "cnonce c" now "consumed (prune_consumed cfg now g)"] by auto
qed

lemma step_consumed_ok:
  assumes "gate_step cfg sound w w'" "consumed_ok w \<and> 0 < ttlSeconds cfg"
  shows "consumed_ok w' \<and> 0 < ttlSeconds cfg"
proof -
  have safe: "safe_int (clock w)"
    using assms(2) by (auto simp: consumed_ok_def safe_int_def max_safe_def max_time_def)
  have "consumed_ok w'"
    using assms(1)
  proof cases
    case (OpenCall c g)
    then show ?thesis using begin_consumed_ok [OF OpenCall(2)] safe assms(2) by (auto simp: consumed_ok_def)
  next
    case (OpenReject c g e)
    then show ?thesis using begin_consumed_ok [OF OpenReject(2)] safe assms(2) by (auto simp: consumed_ok_def)
  qed (use assms(2) in \<open>auto simp: consumed_ok_def\<close>)
  then show ?thesis using assms(2) by blast
qed

interpretation nonce_machine:
  machine "world_init cfg" "gate_step cfg sound" "\<lambda>w. consumed_ok w \<and> 0 < ttlSeconds cfg" for cfg sound
proof unfold_locales
  show "world_init cfg w \<Longrightarrow> consumed_ok w \<and> 0 < ttlSeconds cfg" for w
    by (auto simp: world_init_def consumed_ok_def)
qed (rule step_consumed_ok)

lemma load_entries_saved:
  "wf_map (consumed g @ m) \<Longrightarrow>
   load_entries L (map (\<lambda>(n, at). JArr [JStr n, JNum at]) m) g = (g\<lparr> consumed := consumed g @ m \<rparr>, Inr ())"
proof (induction m arbitrary: g)
  case (Cons nat m)
  obtain n at where nat: "nat = (n, at)" by (cases nat)
  have "map_set n at (consumed g) = consumed g @ [(n, at)]"
    using Cons.prems unfolding nat by (intro update_fresh) (auto simp: image_iff)
  then show ?case
    using Cons.IH [of "g\<lparr> consumed := consumed g @ [(n, at)] \<rparr>"] Cons.prems
    by (simp add: nat load_entry_def)
qed simp

lemma boot_saved:
  assumes "wf_map (consumed g)" "\<forall>(n, at) \<in> set (consumed g). safe_int at"
  shows "boot_gate L (Some (persist_gate g)) = gate_new\<lparr> consumed := consumed g \<rparr>"
proof -
  have "json_ok (gate_toJSON g)"
    using assms(2) by (auto simp: gate_toJSON_def list_all_iff)
  then have "json_parse (number_of_token L) (persist_gate g) = Some (gate_toJSON g)"
    unfolding persist_gate_def json_stringify_def by (rule json_parse_print [OF quote_json_ok])
  moreover have "load_entries L (map (\<lambda>(n, at). JArr [JStr n, JNum at]) (consumed g)) gate_new
      = (gate_new\<lparr> consumed := consumed g \<rparr>, Inr ())"
    using load_entries_saved [of gate_new "consumed g" L] assms(1) by (simp add: gate_new_def)
  ultimately show ?thesis
    by (simp add: boot_gate_def loadConsumed_def gate_toJSON_def)
qed

section \<open>The gate beside its file\<close>

definition nonces_ok :: "gate \<Rightarrow> bool" where
  "nonces_ok g \<longleftrightarrow> wf_map (consumed g) \<and> (\<forall>(n, at) \<in> set (consumed g). safe_int at)"

definition saved_ok :: "jsstr option \<Rightarrow> bool" where
  "saved_ok saved \<longleftrightarrow> (\<forall>s. saved = Some s \<longrightarrow> (\<exists>g. s = persist_gate g \<and> nonces_ok g))"

fun life_init :: "gate_config \<Rightarrow> world \<times> jsstr option \<Rightarrow> bool" where
  \<comment> \<open>a daemon that starts with no file, or with a file an earlier one wrote\<close>
  "life_init cfg (w, saved) = (world_init cfg w \<and> saved_ok saved)"

fun life_inv :: "gate_config \<Rightarrow> world \<times> jsstr option \<Rightarrow> bool" where
  "life_inv cfg (w, saved) = (gate_inv cfg w \<and> consumed_ok w \<and> saved_ok saved)"

lemma boot_gate_ok:
  assumes "saved_ok saved"
  shows "\<exists>m. boot_gate L saved = gate_new\<lparr> consumed := m \<rparr> \<and> nonces_ok (gate_new\<lparr> consumed := m \<rparr>)"
proof (cases saved)
  case None
  then show ?thesis by (intro exI [of _ "[]"]) (simp add: boot_gate_def gate_new_def nonces_ok_def)
next
  case (Some s)
  then obtain g where "s = persist_gate g" "nonces_ok g" using assms by (auto simp: saved_ok_def)
  then show ?thesis
    using boot_saved [of g L] Some by (intro exI [of _ "consumed g"]) (simp add: nonces_ok_def)
qed

lemma restart_inv:
  assumes "gate_inv cfg w" "consumed_ok w" "saved_ok saved"
  shows "gate_inv cfg (restart L saved w) \<and> consumed_ok (restart L saved w)"
proof -
  obtain m where "boot_gate L saved = gate_new\<lparr> consumed := m \<rparr>" "nonces_ok (gate_new\<lparr> consumed := m \<rparr>)"
    using boot_gate_ok [OF assms(3)] by blast
  then show ?thesis
    using assms(1,2)
    by (auto simp: restart_def gate_inv_def gate_safe_def times_ok_def timer_bounded_def consumed_ok_def gate_new_def nonces_ok_def)
qed

lemma life_step_inv:
  assumes "gate_life L cfg sound s t" "life_inv cfg s"
  shows "life_inv cfg t"
  using assms
proof (induction rule: gate_life.induct)
  case (Run w w' saved)
  then show ?case
    using gate_step_inv [OF Run(1)] step_consumed_ok [OF Run(1)] by (auto simp: gate_inv_def times_ok_def)
next
  case (Save w saved)
  then show ?case by (auto simp: saved_ok_def nonces_ok_def consumed_ok_def)
next
  case (Restart w saved)
  then show ?case using restart_inv [of cfg w saved L] by simp
qed

interpretation life_machine: machine "life_init cfg" "gate_life L cfg sound" "life_inv cfg" for L cfg sound
proof unfold_locales
  fix s
  assume "life_init cfg s"
  then show "life_inv cfg s"
    using gate_init_inv [of cfg "fst s"] nonce_machine.init_inv [of cfg "fst s"] by (cases s) auto
qed (rule life_step_inv)

definition remembers :: "jsstr \<Rightarrow> int \<Rightarrow> world \<times> jsstr option \<Rightarrow> bool" where
  \<comment> \<open>a nonce is spent for the process and in its file\<close>
  "remembers n t ws \<longleftrightarrow> map_get (consumed (gate (fst ws))) n = Some t
     \<and> (\<exists>g. snd ws = Some (persist_gate g) \<and> nonces_ok g \<and> map_get (consumed g) n = Some t)"

lemma life_clock: "gate_life L cfg sound s t \<Longrightarrow> clock (fst s) \<le> clock (fst t)"
  by (induction rule: gate_life.induct) (auto simp: restart_def dest: step_clock)

lemma life_remembers:
  assumes "gate_life L cfg sound s s'" "remembers n t s" "life_inv cfg s"
    and "clock (fst s) \<le> t + noncePruneSeconds cfg * 1000"
  shows "remembers n t s'"
  using assms
proof (induction rule: gate_life.induct)
  case (Run w w' saved)
  then show ?case using step_keeps_nonce [OF Run(1)] by (auto simp: remembers_def)
next
  case (Save w saved)
  then show ?case by (auto simp: remembers_def nonces_ok_def consumed_ok_def)
next
  case (Restart w saved)
  then show ?case using boot_saved by (auto simp: remembers_def restart_def nonces_ok_def)
qed

lemma lives_clock: "steps (gate_life L cfg sound) s t \<Longrightarrow> clock (fst s) \<le> clock (fst t)"
  by (induction rule: steps.induct) (auto dest: life_clock)

lemma lives_remember:
  assumes "steps (gate_life L cfg sound) s s'" "remembers n t s" "life_inv cfg s"
    and "clock (fst s') \<le> t + noncePruneSeconds cfg * 1000"
  shows "remembers n t s'"
proof -
  from assms have "remembers n t s' \<and> life_inv cfg s'"
  proof (induction rule: steps.induct)
    case (trans s u v)
    have "clock (fst u) \<le> clock (fst v)" by (rule life_clock [OF trans.hyps(2)])
    then have u: "remembers n t u \<and> life_inv cfg u" "clock (fst u) \<le> t + noncePruneSeconds cfg * 1000" using trans by simp_all
    then show ?case using life_remembers [OF trans.hyps(2)] life_step_inv [OF trans.hyps(2)] by blast
  qed simp
  then show ?thesis ..
qed

section \<open>The decision and the helper\<close>

lemma split_ws_words: "\<forall>c \<in> set w. \<not> is_js_ws c \<Longrightarrow> v \<in> set (split_ws w s) \<Longrightarrow> c \<in> set v \<Longrightarrow> \<not> is_js_ws c"
proof (induction w s rule: split_ws.induct)
  case (1 w) then show ?case by simp
next
  case (2 w c')
  then show ?case by (cases "is_js_ws c'") auto
next
  case (3 w x d s)
  show ?case
  proof (cases "is_js_ws x")
    case True
    then show ?thesis using 3 by (cases "is_js_ws d") auto
  next
    case False
    have w: "\<forall>c \<in> set (w @ [x]). \<not> is_js_ws c" using 3(4) False by simp
    have v: "v \<in> set (split_ws (w @ [x]) (d # s))" using 3(5) False by (simp only: split_ws.simps if_True not_False_eq_True)
    show ?thesis by (rule 3(1) [OF False w v 3(6)])
  qed
qed

lemma shell_base_words:
  assumes "w \<in> set (shell_base cmd)"
  shows "w \<noteq> []" "\<forall>c \<in> set w. \<not> is_js_ws c"
  using assms split_ws_words [of "[]" w cmd] by (auto simp: shell_base_def)

section \<open>A concrete run\<close>

definition demo_cfg :: gate_config where
  "demo_cfg = \<lparr> ttlSeconds = 2700, noncePruneSeconds = 3600 \<rparr>"

definition demo_canary :: canary where
  "demo_canary = \<lparr> admin = js ''A'', keyword = js ''GREEN18'', text_of = js ''GREEN18 open'', cnonce = js ''N'',
     issued = js ''1970-01-01T00:00:00.000Z'' \<rparr>"

definition demo_start :: world where
  "demo_start = \<lparr> gate = gate_new, clock = 0, deciding = [], queue = [], running = None, egress = False \<rparr>"

definition demo_open :: world where
  \<comment> \<open>one canary approved and opened\<close>
  "demo_open = demo_start\<lparr> gate := fst (open_ok demo_cfg 0 demo_canary 0 []
     (fst (gate_begin demo_cfg demo_canary 0 gate_new))), egress := True \<rparr>"

lemma demo_month: "month_upto False 0 11 = 0"
  by (simp add: eval_nat_numeral month_start_def)

lemma demo_year: "year_of_day 0 = 1970"
  by (simp add: year_of_day_def day_from_year_def)

lemma demo_pad4: "pad 4 1970 = js ''1970''"
  by (simp add: pad_def padStart_def radix_str.simps digit_char_def js_def)

lemma demo_pad2_0: "pad 2 0 = js ''00''"
  by (simp add: pad_def padStart_def radix_str.simps digit_char_def js_def)

lemma demo_pad2_1: "pad 2 (Suc 0) = js ''01''"
  by (simp add: pad_def padStart_def radix_str.simps digit_char_def js_def)

lemma demo_pad3_0: "pad 3 0 = js ''000''"
  by (simp add: numeral_2_eq_2 pad_def padStart_def radix_str.simps digit_char_def js_def)

lemma demo_pad2_45: "pad 2 45 = js ''45''"
  by (simp add: pad_def padStart_def radix_str.simps digit_char_def js_def)

lemmas demo_dates = demo_month demo_year demo_pad4 demo_pad2_0 demo_pad2_1 demo_pad3_0 demo_pad2_45

lemma demo_iso_0: "iso_str 0 = js ''1970-01-01T00:00:00.000Z''"
  by (simp add: iso_str_def Let_def demo_dates ms_per_day_def month_of_def leap_year_def year_str_def day_from_year_def month_start_def) (simp add: js_def)

lemma demo_iso_45: "iso_str 2700000 = js ''1970-01-01T00:45:00.000Z''"
  by (simp add: iso_str_def Let_def demo_dates ms_per_day_def month_of_def leap_year_def year_str_def day_from_year_def month_start_def) (simp add: js_def)

lemma demo_start_init: "world_init demo_cfg demo_start"
  by (simp add: world_init_def demo_start_def gate_new_def demo_cfg_def max_time_def)

lemma demo_open_eq:
  "demo_open = demo_start\<lparr> egress := True, gate :=
     \<lparr> gstate = \<lparr> mode_of = Internet, closesAt = Some (js ''1970-01-01T00:45:00.000Z'') \<rparr>,
       glog = [\<lparr> log_at = js ''1970-01-01T00:00:00.000Z'', log_action = LogOpen, log_admin = Some (js ''A''),
                log_reason = [] \<rparr>],
       consumed = [(js ''N'', 0)], timer = Some (2700000, js ''auto-reclose (ttl)''), recloseAttempts = 0 \<rparr> \<rparr>"
  by (simp add: demo_open_def demo_start_def gate_begin_def prune_consumed_def gate_new_def Let_def open_ok_def
      toISOString_def max_time_def demo_cfg_def demo_iso_0 demo_iso_45 scheduleReclose_def gate_log_def demo_canary_def)

lemma demo_open_steps: "steps (gate_step demo_cfg True) demo_start demo_open"
proof -
  let ?g = "fst (gate_begin demo_cfg demo_canary 0 gate_new)"
  let ?w1 = "demo_start\<lparr> gate := ?g, deciding := deciding demo_start @ [(demo_canary, clock demo_start)] \<rparr>"
  let ?w2 = "?w1\<lparr> deciding := remove1 (demo_canary, 0) (deciding ?w1), queue := queue ?w1 @ [JOpen demo_canary 0 []] \<rparr>"
  let ?w3 = "?w2\<lparr> gate := job_start (JOpen demo_canary 0 []) (gate ?w2), queue := [], running := Some (JOpen demo_canary 0 []) \<rparr>"
  have s1: "gate_step demo_cfg True demo_start ?w1"
    by (rule gate_step.OpenCall) (simp add: demo_start_def gate_begin_def prune_consumed_def gate_new_def Let_def)
  have s2: "gate_step demo_cfg True ?w1 ?w2"
    by (rule gate_step.Approve) (simp add: demo_start_def)
  have s3: "gate_step demo_cfg True ?w2 ?w3"
    by (rule gate_step.Start) (simp_all add: demo_start_def)
  have s4: "gate_step demo_cfg True ?w3
      (?w3\<lparr> gate := job_done demo_cfg (clock ?w3) (JOpen demo_canary 0 []) True (gate ?w3), running := None, egress := True \<rparr>)"
    by (rule gate_step.Finish) simp_all
  have eq: "?w3\<lparr> gate := job_done demo_cfg (clock ?w3) (JOpen demo_canary 0 []) True (gate ?w3), running := None, egress := True \<rparr>
      = demo_open"
    unfolding demo_open_def
    by (rule world.equality) (simp_all add: demo_start_def gate_begin_def prune_consumed_def gate_new_def Let_def)
  show ?thesis
    unfolding eq [symmetric]
    by (rule steps.trans, rule steps.trans, rule steps.trans, rule steps_single, (rule s1 s2 s3 s4)+)
qed

lemma demo_open_reachable: "reachable (world_init demo_cfg) (gate_step demo_cfg True) demo_open"
  by (rule reachable_steps [OF demo_open_steps]) (rule reachable.start, rule demo_start_init)

end
