(* ===== verification/GateProps.thy ===== *)
theory GateProps
  imports GateFacts
begin

text \<open>
  The properties of the canary and of the gate: what an accepted canary proves, that it opens the
  gate once, that an open gate always has a way back, and where the code falls short of that.
\<close>

section \<open>The canary\<close>

lemma first_token_demo: "first_token (js ''GREEN18 open'') = js ''GREEN18''"
  by (simp add: first_token_def trim_def js_def is_js_ws_def)

lemma demo_canary_run:
  assumes "\<bar>t\<bar> \<le> max_time" "\<bar>now' - t\<bar> \<le> F * 1000"
  obtains blob c where
    "makeCanary demo_lib [7] [] (demo_id 1) (js ''GREEN18'') (js ''GREEN18 open'')
       (toB64 demo_lib (boxPublicKey (x25519 (demo_id 2)))) t = Inr blob"
    "verifyCanary demo_lib (demo_id 2) blob (\<lambda>_. Some (publicKey (ed25519 (demo_id 1)))) (js ''GREEN18'') F now' = Inr c"
    "cnonce c = toB64 demo_lib [7]"
proof -
  have now: "toISOString t = Inr (iso_str t)" using assms(1) by (intro toISOString_defined) auto
  let ?av = "\<lambda>_. Some (publicKey (ed25519 (demo_id 1)))"
  have av: "?av (toB64 demo_lib (publicKey (ed25519 (demo_id 1)))) = Some (publicKey (ed25519 (demo_id 1)))" by simp
  obtain blob where b:
    "makeCanary demo_lib [7] [] (demo_id 1) (js ''GREEN18'') (js ''GREEN18 open'')
       (toB64 demo_lib (boxPublicKey (x25519 (demo_id 2)))) t = Inr blob"
    "verifyCanary demo_lib (demo_id 2) blob ?av (js ''GREEN18'') F now'
     = Inr \<lparr> admin = toB64 demo_lib (publicKey (ed25519 (demo_id 1))), keyword = js ''GREEN18'',
             text_of = js ''GREEN18 open'', cnonce = toB64 demo_lib [7], issued = iso_str t \<rparr>"
    by (rule make_verify_canary [OF demo_lib_ok demo_id_ok demo_id_ok now av first_token_demo assms(2)])
  show thesis by (rule that [OF b]) simp
qed

text \<open>
  C7: a canary that verifies is what its blob holds. The blob opens under the node's key to exactly
  one payload with a signature; that signature verifies, over the canonical bytes of that payload,
  under the key the allowlist holds for the payload's sender; and the sender, nonce, text, keyword
  and issue time that are returned are the fields of that signed payload. The keyword is the
  configured one and the first token of the text, and the issue time is within the freshness window.
\<close>

theorem canary_checks:
  assumes "verifyCanary L vega b av kw F now = Inr c"
  shows "\<exists>blob inner p sig vk m t.
      fromB64 L b = Inr blob
    \<and> crypto_box_seal_open L blob (boxPublicKey (x25519 vega)) (privateKey (x25519 vega)) = Some inner
    \<and> sealed_contents L inner = Inr (p, sig, admin c)
    \<and> av (admin c) = Some vk \<and> canonicalBytes (JObj p) = Inr m \<and> crypto_sign_verify_detached L sig m vk = Some True
    \<and> map_get p (js ''node'') = Some (JStr (admin c))
    \<and> js_string_opt (map_get p (js ''nonce'')) = Inr (cnonce c)
    \<and> js_string_opt (nullish (map_get p (js ''text'')) (Some (JStr []))) = Inr (text_of c)
    \<and> js_string_opt (nullish (map_get p (js ''keyword'')) (Some (JStr []))) = Inr (keyword c)
    \<and> js_string_opt (map_get p (js ''issued'')) = Inr (issued c)
    \<and> keyword c = kw \<and> first_token (text_of c) = kw
    \<and> dateParse L (issued c) = Some t \<and> \<bar>now - t\<bar> \<le> F * 1000"
proof -
  obtain blob p t where p: "fromB64 L b = Inr blob"
    "openVerify L blob (boxPublicKey (x25519 vega)) (privateKey (x25519 vega)) av = Inr p"
    and fields: "js_string_opt (nullish (map_get p (js ''text'')) (Some (JStr []))) = Inr (text_of c)"
    "js_string_opt (nullish (map_get p (js ''keyword'')) (Some (JStr []))) = Inr (keyword c)"
    "keyword c = kw" "first_token (text_of c) = kw" "js_string_opt (map_get p (js ''issued'')) = Inr (issued c)"
    "dateParse L (issued c) = Some t" "\<bar>now - t\<bar> \<le> F * 1000"
    "js_string_opt (map_get p (js ''node'')) = Inr (admin c)" "js_string_opt (map_get p (js ''nonce'')) = Inr (cnonce c)"
    using assms unfolding verifyCanary_eq_Inr by blast
  obtain inner sig n vk m where sealed:
    "crypto_box_seal_open L blob (boxPublicKey (x25519 vega)) (privateKey (x25519 vega)) = Some inner"
    "sealed_contents L inner = Inr (p, sig, n)" "av n = Some vk" "canonicalBytes (JObj p) = Inr m"
    "crypto_sign_verify_detached L sig m vk = Some True"
    using p(2) unfolding openVerify_eq_Inr by blast
  have node: "map_get p (js ''node'') = Some (JStr n)" using sealed(2) unfolding sealed_contents_eq_Inr by blast
  then have "n = admin c" using fields(8) by simp
  with p(1) sealed node fields show ?thesis by blast
qed

theorem canary_checks_witness:
  "\<exists>b c. verifyCanary demo_lib (demo_id 2) b (\<lambda>_. Some (publicKey (ed25519 (demo_id 1)))) (js ''GREEN18'') 120 60000
       = Inr c \<and> keyword c = js ''GREEN18''"
proof -
  obtain b c where "verifyCanary demo_lib (demo_id 2) b (\<lambda>_. Some (publicKey (ed25519 (demo_id 1)))) (js ''GREEN18'') 120 60000 = Inr c"
    by (rule demo_canary_run [of 0 60000 120]) (simp_all add: max_time_def)
  then show ?thesis using canary_checks [of demo_lib "demo_id 2" b] by blast
qed

text \<open>
  a canary made by an identity loaded from disk, whose public key is on the configured
  allowlist, is accepted by the gate node it is sealed to at every time within the freshness
  window, with the text, nonce and time it was made with.
\<close>

theorem canary_accepted:
  assumes "lib_ok L" "loadIdentity L fs dir = Inr adm" "loadIdentity L fs' dir' = Inr vega"
    and "admin_keys L pubs = Inr keys" "toB64 L (publicKey (ed25519 adm)) \<in> set pubs"
    and "toISOString now = Inr iss" "first_token txt = kw" "\<bar>now' - now\<bar> \<le> F * 1000"
  shows "\<exists>blob. makeCanary L rnd r adm kw txt (toB64 L (boxPublicKey (x25519 vega))) now = Inr blob
    \<and> verifyCanary L vega blob (adminVerify keys) kw F now'
      = Inr \<lparr> admin = toB64 L (publicKey (ed25519 adm)), keyword = kw, text_of = txt,
              cnonce = toB64 L rnd, issued = iss \<rparr>"
proof -
  have av: "adminVerify keys (toB64 L (publicKey (ed25519 adm))) = Some (publicKey (ed25519 adm))"
    using admin_keys_get [OF assms(4)] assms(5) lib_okD(1) [OF assms(1)] by (simp add: adminVerify_def)
  show ?thesis
    by (rule make_verify_canary [where av = "adminVerify keys", OF assms(1) load_id_ok [OF assms(2)]
      load_id_ok [OF assms(3)] assms(6) av assms(7,8)]) blast
qed

theorem canary_accepted_witness:
  "\<exists>fs adm keys blob. loadIdentity demo_lib fs (js ''id'') = Inr adm
     \<and> admin_keys demo_lib [toB64 demo_lib (publicKey (ed25519 adm))] = Inr keys
     \<and> makeCanary demo_lib [1] [] adm (js ''GREEN18'') (js ''GREEN18 open'')
         (toB64 demo_lib (boxPublicKey (x25519 adm))) 0 = Inr blob
     \<and> (\<exists>c. verifyCanary demo_lib adm blob (adminVerify keys) (js ''GREEN18'') 120 120000 = Inr c)"
proof -
  define adm where "adm = generateIdentity demo_lib [1] [2]"
  define fs where "fs = saveIdentity demo_lib (js ''id'') adm []"
  have load: "loadIdentity demo_lib fs (js ''id'') = Inr adm"
    unfolding fs_def adm_def by (rule load_save_identity [OF demo_lib_ok])
  define keys where "keys = [(toB64 demo_lib (publicKey (ed25519 adm)), publicKey (ed25519 adm))]"
  have keys: "admin_keys demo_lib [toB64 demo_lib (publicKey (ed25519 adm))] = Inr keys"
    by (simp add: admin_keys_def keys_def)
  have now: "toISOString 0 = Inr (iso_str 0)" by (rule toISOString_defined) (simp_all add: max_time_def)
  from canary_accepted [OF demo_lib_ok load load keys _ now first_token_demo, of 120000 120 "[1]" "[]"]
  obtain blob c where
    "makeCanary demo_lib [1] [] adm (js ''GREEN18'') (js ''GREEN18 open'') (toB64 demo_lib (boxPublicKey (x25519 adm))) 0 = Inr blob"
    "verifyCanary demo_lib adm blob (adminVerify keys) (js ''GREEN18'') 120 120000 = Inr c" by auto
  with load keys show ?thesis by blast
qed

section \<open>The gate\<close>

text \<open>
  C1: the gate never says it is open without a way back. However calls, timers, answers of the model,
  helper runs, saves and restarts interleave, and whatever the helper does to the firewall, a gate in
  the internet state has its reclose timer armed, or a job holding the lock, or a close waiting for
  it. This is the gate's own state: with a helper that fails half way, or after a restart, the
  firewall can forward while the gate says island (\<open>partial_open_not_reclosed\<close>,
  \<open>silent_close_not_retried\<close>, \<open>restart_forgets_open_window\<close> below).
\<close>

theorem gate_always_recloses:
  assumes "reachable (life_init cfg) (gate_life L cfg sound) (w, saved)"
    and "mode_of (gstate (gate w)) = Internet"
  shows "timer (gate w) \<noteq> None \<or> running w \<noteq> None \<or> (\<exists>r now. JClose r now \<in> set (queue w))"
  using life_machine.reachable_inv [OF assms(1)] assms(2) by (simp add: gate_inv_def gate_safe_def)

lemma steps_life: "steps (gate_step cfg sound) w w' \<Longrightarrow> steps (gate_life L cfg sound) (w, saved) (w', saved)"
proof (induction rule: steps.induct)
  case (trans s t u)
  show ?case by (rule steps.trans [OF trans.IH]) (rule gate_life.Run [OF trans.hyps(2)])
qed (rule steps.refl)

lemma life_restart: "steps (gate_life L cfg sound) (w, saved) (restart L saved w, saved)"
  by (rule steps.trans [OF steps.refl]) (rule gate_life.Restart)

lemma demo_open_life: "reachable (life_init demo_cfg) (gate_life L demo_cfg True) (demo_open, None)"
proof (rule reachable_steps [OF steps_life [OF demo_open_steps]], rule reachable.start)
  show "life_init demo_cfg (demo_start, None)" using demo_start_init by (simp add: saved_ok_def)
qed

theorem gate_always_recloses_witness:
  "mode_of (gstate (gate demo_open)) = Internet \<and> timer (gate demo_open) \<noteq> None"
  using gate_always_recloses [OF demo_open_life] by (simp add: demo_open_eq demo_start_def)




text \<open>
  the save is needed: when the process ends after the nonce was spent and before a \<open>persist\<close>, the
  next one admits the same canary again.
\<close>

theorem unsaved_nonce_replayed:
  "\<exists>b c w g. verifyCanary demo_lib (demo_id 2) b (\<lambda>_. Some (publicKey (ed25519 (demo_id 1)))) (js ''GREEN18'') 120 0 = Inr c
     \<and> reachable (life_init demo_cfg) (gate_life demo_lib demo_cfg True) (w, None) \<and> clock w = 0
     \<and> map_has (consumed (gate w)) (cnonce c)
     \<and> gate_begin demo_cfg c 0 (gate (restart demo_lib None w)) = (g, Inr ())"
proof -
  obtain b c where ok: "verifyCanary demo_lib (demo_id 2) b (\<lambda>_. Some (publicKey (ed25519 (demo_id 1))))
      (js ''GREEN18'') 120 0 = Inr c"
    by (rule demo_canary_run [of 0 0 120]) (simp_all add: max_time_def)
  let ?g = "gate_new\<lparr> consumed := [(cnonce c, 0)] \<rparr>"
  have first: "gate_begin demo_cfg c 0 gate_new = (?g, Inr ())"
    by (simp add: gate_begin_def prune_consumed_def gate_new_def Let_def)
  let ?w = "demo_start\<lparr> gate := ?g, deciding := deciding demo_start @ [(c, clock demo_start)] \<rparr>"
  have start: "life_init demo_cfg (demo_start, None)" using demo_start_init by (simp add: saved_ok_def)
  have admitted: "gate_begin demo_cfg c (clock demo_start) (gate demo_start) = (?g, Inr ())"
    using first by (simp add: demo_start_def)
  have "reachable (life_init demo_cfg) (gate_life demo_lib demo_cfg True) (?w, None)"
    by (rule reachable.next_step [OF reachable.start [where init = "life_init demo_cfg"]], rule start, rule gate_life.Run, rule gate_step.OpenCall [OF admitted])
  moreover have "gate (restart demo_lib None ?w) = gate_new" by (simp add: restart_def boot_gate_def)
  ultimately show ?thesis
    using ok first
    by (intro exI [of _ b] exI [of _ c] exI [of _ ?w] exI [of _ ?g]) (simp add: demo_start_def)
qed


text \<open>
  C20: a close that fails is retried until it sticks. Take a gate whose lock is free and whose timer
  is armed, after \<open>n\<close> failures, and nobody else calls it. For every \<open>k\<close> a run in which the next \<open>k\<close>
  closes fail exists, and after every such run, whatever the failing helper did, a close is armed
  again with the same reason, the counter is \<open>n + k\<close>, the gate's state is untouched, and the
  attempts were the capped exponential backoff apart, at most a minute each. The next attempt can
  run, and if its helper works the gate is closed, without a timer and with a fresh counter, and the
  firewall is closed if the helper keeps its word.
\<close>

theorem close_retried_until_done:
  assumes "waiting_close w due r n" "max (clock w) due + backoff_total n k + ttlSeconds cfg * 1000 \<le> max_time"
  shows "(\<exists>w'. failed_closes cfg sound k w w')
    \<and> (\<forall>w'. failed_closes cfg sound k w w' \<longrightarrow>
        (\<exists>due'. waiting_close w' due' r (n + k) \<and> max (clock w') due' = max (clock w) due + backoff_total n k)
      \<and> gstate (gate w') = gstate (gate w) \<and> backoff_total n k \<le> 60000 * int k
      \<and> (\<exists>w''. close_attempt cfg sound True w' w'')
      \<and> (\<forall>w''. close_attempt cfg sound True w' w'' \<longrightarrow>
          gstate (gate w'') = \<lparr> mode_of = Island, closesAt = None \<rparr> \<and> timer (gate w'') = None
        \<and> recloseAttempts (gate w'') = 0 \<and> (sound \<longrightarrow> \<not> egress w'')
        \<and> clock w'' = max (clock w) due + backoff_total n k))"
proof (intro conjI allI impI)
  show "\<exists>w'. failed_closes cfg sound k w w'" by (rule failed_closes_possible [OF assms])
next
  fix w'
  assume "failed_closes cfg sound k w w'"
  then obtain due' where due': "waiting_close w' due' r (n + k)" "gstate (gate w') = gstate (gate w)"
    "max (clock w') due' = max (clock w) due + backoff_total n k"
    using failed_closes_waiting assms(1) by blast
  then show "\<exists>due'. waiting_close w' due' r (n + k) \<and> max (clock w') due' = max (clock w) due + backoff_total n k" by blast
  show "gstate (gate w') = gstate (gate w)" "backoff_total n k \<le> 60000 * int k" by (rule due'(2), rule backoff_total_le)
  show "\<exists>w''. close_attempt cfg sound True w' w''"
    using close_attempt_enabled [OF due'(1) HOL.refl, of cfg sound True False] assms(2) due'(3) by auto
  fix w''
  assume "close_attempt cfg sound True w' w''"
  from close_attempt_works [OF this due'(1)] due'(3)
  show "gstate (gate w'') = \<lparr> mode_of = Island, closesAt = None \<rparr>" "timer (gate w'') = None"
    "recloseAttempts (gate w'') = 0" "clock w'' = max (clock w) due + backoff_total n k" by simp_all
  show "\<not> egress w''" if sound using close_attempt_works [OF \<open>close_attempt cfg sound True w' w''\<close> due'(1)] that by simp
qed

theorem close_retried_until_done_witness:
  "\<exists>w' w''. failed_closes demo_cfg True 3 demo_open w' \<and> recloseAttempts (gate w') = 3
     \<and> close_attempt demo_cfg True True w' w'' \<and> \<not> egress w'' \<and> clock w'' = 2700000 + 14000"
proof -
  have b: "backoff_total 0 3 = 14000" by (simp add: backoff_total_def backoff_ms_def eval_nat_numeral)
  have w: "waiting_close demo_open 2700000 (js ''auto-reclose (ttl)'') 0" "max (clock demo_open) 2700000 = 2700000"
    by (simp_all add: waiting_close_def demo_open_eq demo_start_def)
  have "max (clock demo_open) 2700000 + backoff_total 0 3 + ttlSeconds demo_cfg * 1000 \<le> max_time"
    unfolding w(2) b by (simp add: demo_cfg_def max_time_def)
  note retried = close_retried_until_done [OF w(1) this, of True]
  then obtain w' where w': "failed_closes demo_cfg True 3 demo_open w'" by blast
  with retried obtain w'' where "close_attempt demo_cfg True True w' w''" by blast
  with w' retried show ?thesis by (auto simp: waiting_close_def w(2) b)
qed

text \<open>
  a restart does not reopen the replay window. What \<open>persist\<close> writes in a reachable state,
  parsed and loaded by the next process, is exactly the table of spent nonces, in order.
\<close>

theorem restart_keeps_nonces:
  assumes "reachable (world_init cfg) (gate_step cfg sound) w"
  shows "consumed (gate (restart L (Some (persist_gate (gate w))) w)) = consumed (gate w)"
  using nonce_machine.reachable_inv [OF assms] boot_saved [of "gate w" L]
  by (simp add: restart_def consumed_ok_def)

theorem restart_keeps_nonces_witness:
  "map_get (consumed (gate (restart demo_lib (Some (persist_gate (gate demo_open))) demo_open))) (js ''N'') = Some 0"
  using restart_keeps_nonces [OF demo_open_reachable, of demo_lib] by (simp add: demo_open_eq)

text \<open>
  the language model is asked fail-safe: it approves only if the server answered with a
  parsed body whose text, in upper case, contains YES and does not contain NO. A server that does
  not answer, an exception while reading the answer, or any other text is a denial.
\<close>

theorem llama_fail_safe:
  "approve (llama_decide L http url t) \<longleftrightarrow>
     (\<exists>j s. http (url @ js ''/completion'') (llama_body t) = Inr j \<and> j \<noteq> JNull
        \<and> js_string_opt (nullish (obj_get j (js ''content'')) (nullish (obj_get j (js ''completion'')) (Some (JStr []))))
            = Inr s
        \<and> str_includes (toUpperCase L s) (js ''YES'') \<and> \<not> str_includes (toUpperCase L s) (js ''NO''))"
proof (cases "rbind (http (url @ js ''/completion'') (llama_body t)) (llama_answer L)")
  case (Inl e)
  then have "\<not> approve (llama_decide L http url t)" by (simp add: llama_decide_def)
  moreover have False if "http (url @ js ''/completion'') (llama_body t) = Inr j" "j \<noteq> JNull"
      "js_string_opt (nullish (obj_get j (js ''content'')) (nullish (obj_get j (js ''completion'')) (Some (JStr []))))
            = Inr s" for j s
    using Inl that by (simp add: llama_answer_def field_def Let_def)
  ultimately show ?thesis by blast
next
  case (Inr d)
  then obtain j where j: "http (url @ js ''/completion'') (llama_body t) = Inr j" "llama_answer L j = Inr d"
    by (auto simp: rbind_eq_Inr)
  have decide: "llama_decide L http url t = d" by (simp add: llama_decide_def Inr)
  from j show ?thesis
    unfolding decide by (auto simp: llama_answer_def res_eq field_eq_Inr Let_def)
qed

section \<open>Where the code falls short\<close>

text \<open>
  a daemon that restarts while the gate is open leaves the firewall open with nothing to
  close it: the new process reports the island state and has no timer, no job and no pending call.
\<close>

theorem restart_forgets_open_window:
  "\<exists>w w'. reachable (world_init demo_cfg) (gate_step demo_cfg True) w
     \<and> w' = restart demo_lib (Some (persist_gate (gate w))) w
     \<and> egress w' \<and> mode_of (gstate (gate w')) = Island \<and> timer (gate w') = None
     \<and> queue w' = [] \<and> running w' = None \<and> deciding w' = []"
proof -
  have "boot_gate demo_lib (Some (persist_gate (gate demo_open))) = gate_new\<lparr> consumed := consumed (gate demo_open) \<rparr>"
    by (rule boot_saved) (simp_all add: demo_open_eq safe_int_def max_safe_def)
  then show ?thesis
    using demo_open_reachable
    by (intro exI [of _ demo_open] exI [of _ "restart demo_lib (Some (persist_gate (gate demo_open))) demo_open"])
      (simp add: restart_def gate_new_def demo_open_eq)
qed

text \<open>
  an \<open>open\<close> whose helper fails after it changed the firewall leaves egress with the gate in
  the island state and no reclose scheduled, when the gate was not open before.
\<close>

theorem partial_open_not_reclosed:
  "\<exists>w. reachable (world_init demo_cfg) (gate_step demo_cfg False) w \<and> egress w
     \<and> mode_of (gstate (gate w)) = Island \<and> timer (gate w) = None \<and> queue w = [] \<and> running w = None
     \<and> deciding w = []"
proof -
  let ?g = "fst (gate_begin demo_cfg demo_canary 0 gate_new)" and ?j = "JOpen demo_canary 0 []"
  let ?w1 = "demo_start\<lparr> gate := ?g, deciding := deciding demo_start @ [(demo_canary, clock demo_start)] \<rparr>"
  let ?w2 = "?w1\<lparr> deciding := remove1 (demo_canary, 0) (deciding ?w1), queue := queue ?w1 @ [?j] \<rparr>"
  let ?w3 = "?w2\<lparr> gate := job_start ?j (gate ?w2), queue := [], running := Some ?j \<rparr>"
  let ?w4 = "?w3\<lparr> gate := job_done demo_cfg (clock ?w3) ?j False (gate ?w3), running := None, egress := True \<rparr>"
  have "reachable (world_init demo_cfg) (gate_step demo_cfg False) demo_start"
    by (rule reachable.start) (rule demo_start_init)
  moreover have "gate_step demo_cfg False demo_start ?w1"
    by (rule gate_step.OpenCall) (simp add: demo_start_def gate_begin_def prune_consumed_def gate_new_def Let_def)
  moreover have "gate_step demo_cfg False ?w1 ?w2" by (rule gate_step.Approve) (simp add: demo_start_def)
  moreover have "gate_step demo_cfg False ?w2 ?w3" by (rule gate_step.Start) (simp_all add: demo_start_def)
  moreover have "gate_step demo_cfg False ?w3 ?w4" by (rule gate_step.Finish) simp_all
  ultimately have "reachable (world_init demo_cfg) (gate_step demo_cfg False) ?w4"
    by (blast intro: reachable.next_step)
  then show ?thesis
    by (intro exI [of _ ?w4])
      (simp add: demo_start_def open_fail_def gate_begin_def prune_consumed_def gate_new_def Let_def)
qed

text \<open>
  a \<open>close\<close> whose helper exits 0 without closing, as \<open>nft delete ... || true\<close> does when the
  deletion fails, ends the retries: the gate says island, has no timer, and the firewall forwards.
\<close>

theorem silent_close_not_retried:
  "\<exists>w. steps (gate_step demo_cfg False) demo_open w \<and> egress w
     \<and> mode_of (gstate (gate w)) = Island \<and> timer (gate w) = None \<and> queue w = [] \<and> running w = None"
proof -
  let ?j = "JClose (js ''manual (admin)'') (clock demo_open)"
  let ?w1 = "demo_open\<lparr> queue := queue demo_open @ [?j] \<rparr>"
  let ?w2 = "?w1\<lparr> gate := job_start ?j (gate ?w1), queue := [], running := Some ?j \<rparr>"
  let ?w3 = "?w2\<lparr> gate := job_done demo_cfg (clock ?w2) ?j True (gate ?w2), running := None, egress := True \<rparr>"
  have s1: "gate_step demo_cfg False demo_open ?w1" by (rule gate_step.CloseCall)
  have s2: "gate_step demo_cfg False ?w1 ?w2" by (rule gate_step.Start) (simp_all add: demo_open_eq demo_start_def)
  have s3: "gate_step demo_cfg False ?w2 ?w3" by (rule gate_step.Finish) (simp_all add: demo_open_eq demo_start_def)
  have "steps (gate_step demo_cfg False) demo_open ?w3"
    by (rule steps.trans, rule steps.trans, rule steps_single, (rule s1 s2 s3)+)
  then show ?thesis by (intro exI [of _ ?w3]) (simp add: close_ok_island)
qed

text \<open>
  the bound of \<open>gate_no_replay\<close> is needed: with the default hour of nonce keeping and a freshness
  window of 1801 seconds, one canary is admitted twice, an hour apart.
\<close>

theorem replay_past_nonce_pruning:
  "\<exists>b c g. verifyCanary demo_lib (demo_id 2) b (\<lambda>_. Some (publicKey (ed25519 (demo_id 1)))) (js ''GREEN18'') 1801 0 = Inr c
     \<and> verifyCanary demo_lib (demo_id 2) b (\<lambda>_. Some (publicKey (ed25519 (demo_id 1)))) (js ''GREEN18'') 1801 3600001 = Inr c
     \<and> noncePruneSeconds demo_cfg = 3600
     \<and> gate_begin demo_cfg c 0 gate_new = (g, Inr ()) \<and> snd (gate_begin demo_cfg c 3600001 g) = Inr ()"
proof -
  obtain b c where 1: "makeCanary demo_lib [7] [] (demo_id 1) (js ''GREEN18'') (js ''GREEN18 open'')
       (toB64 demo_lib (boxPublicKey (x25519 (demo_id 2)))) 1800500 = Inr b"
    "verifyCanary demo_lib (demo_id 2) b (\<lambda>_. Some (publicKey (ed25519 (demo_id 1)))) (js ''GREEN18'') 1801 0 = Inr c"
    by (rule demo_canary_run [of 1800500 0 1801]) (simp_all add: max_time_def)
  obtain b' c' where 2: "makeCanary demo_lib [7] [] (demo_id 1) (js ''GREEN18'') (js ''GREEN18 open'')
       (toB64 demo_lib (boxPublicKey (x25519 (demo_id 2)))) 1800500 = Inr b'"
    "verifyCanary demo_lib (demo_id 2) b' (\<lambda>_. Some (publicKey (ed25519 (demo_id 1)))) (js ''GREEN18'') 1801 3600001 = Inr c'"
    by (rule demo_canary_run [of 1800500 3600001 1801]) (simp_all add: max_time_def)
  have "b' = b" using 1(1) 2(1) by simp
  then have "c' = c" using 1(2) 2(2) verifyCanary_again(1) by blast
  have "gate_begin demo_cfg c 0 gate_new = (gate_new\<lparr> consumed := [(cnonce c, 0)] \<rparr>, Inr ())"
    by (simp add: gate_begin_def prune_consumed_def gate_new_def Let_def)
  moreover have "snd (gate_begin demo_cfg c 3600001 (gate_new\<lparr> consumed := [(cnonce c, 0)] \<rparr>)) = Inr ()"
    by (simp add: gate_begin_def prune_consumed_def gate_new_def Let_def demo_cfg_def)
  moreover have "noncePruneSeconds demo_cfg = 3600" by (simp add: demo_cfg_def)
  ultimately show ?thesis using 1(2) 2(2) \<open>b' = b\<close> \<open>c' = c\<close> by blast
qed

end
