(* ===== verification/Wire.thy ===== *)
theory Wire
  imports Envelope
begin

text \<open>
  An object that one node prints with \<open>JSON.stringify\<close> and encodes as UTF-8 is the object another
  node decodes and parses: what the daemon prints never has a lone surrogate.
\<close>

lemma wf16_append: "wf16 s \<Longrightarrow> wf16 t \<Longrightarrow> wf16 (s @ t)"
proof (induction s rule: wf16.induct)
  case (2 c)
  then show ?case by (cases t) auto
qed (auto split: if_splits)

lemma wf16_single: "\<not> is_high c \<Longrightarrow> \<not> is_low c \<Longrightarrow> wf16 s \<Longrightarrow> wf16 (c # s)"
  using wf16_append [of "[c]" s] by simp

lemma ascii_not_surrogate: "c < 0x80 \<Longrightarrow> \<not> is_high c \<and> \<not> is_low c"
  by (auto simp: surrogate_bounds word_less_nat_alt)

lemma u_escape_wf16: "wf16 (u_escape c)"
  by (rule ascii_wf16, rule printable_ascii, rule u_escape_printable)

lemma esc_json_wf16: "wf16 (esc_json c)"
  using u_escape_wf16 [of c] by (auto simp: esc_json_def surrogate_bounds)

lemma esc_json_str_wf16: "wf16 (esc_json_str s)"
  by (induction s rule: esc_json_str.induct) (auto intro: wf16_append simp: esc_json_wf16)

lemma quote_json_wf16: "wf16 (quote_json s)"
  unfolding quote_json_def
  by (rule wf16_single) (auto intro!: wf16_append simp: esc_json_str_wf16 surrogate_bounds)

lemma join_wf16: "wf16 sep \<Longrightarrow> \<forall>t \<in> set ts. wf16 t \<Longrightarrow> wf16 (join sep ts)"
  by (induction sep ts rule: join.induct) (auto intro: wf16_append)

lemma int_str_wf16: "wf16 (int_str i)"
  by (rule ascii_wf16, rule printable_ascii, rule int_str_printable)

lemma wf16_bracket:
  assumes "a < 0x80" "b < 0x80" "wf16 s"
  shows "wf16 (a # s @ [b])"
proof -
  have "wf16 [b]" using ascii_not_surrogate [OF assms(2)] by simp
  then show ?thesis
    using assms ascii_not_surrogate [OF assms(1)] by (auto intro!: wf16_single wf16_append)
qed

lemma stringify_wf16: "json_ok v \<Longrightarrow> wf16 (json_stringify v)"
  unfolding json_stringify_def
proof (induction v rule: json_induct)
  case (JArr vs)
  then show ?case by (auto simp: list_all_iff surrogate_bounds intro!: wf16_bracket join_wf16)
next
  case (JObj kvs)
  have "wf16 (quote_json k @ 0x3a # print_json quote_json v)" if "(k, v) \<in> set kvs" for k v
    using JObj that ascii_not_surrogate [of "0x3a"]
    by (auto simp: list_all_iff intro!: wf16_append quote_json_wf16 wf16_single)
  then show ?case by (auto simp: surrogate_bounds intro!: wf16_bracket join_wf16)
qed (simp_all add: int_str_wf16 quote_json_wf16 js_literals surrogate_bounds)

lemma parse_stringify:
  assumes "json_ok (JObj kvs)"
  shows "parse_bytes L (text_encode (json_stringify (JObj kvs))) = Inr (JObj kvs)"
proof -
  let ?s = "json_stringify (JObj kvs)"
  have "hd ?s = 0x7b" by (simp add: json_stringify_def)
  then have "text_decode (text_encode ?s) = ?s"
    using text_decode_encode [OF stringify_wf16 [OF assms]] by simp
  moreover have "json_parse (number_of_token L) ?s = Some (JObj kvs)"
    unfolding json_stringify_def by (rule json_parse_print [OF quote_json_ok assms])
  ultimately show ?thesis by (simp add: parse_bytes_def)
qed

end
