(* ===== verification/Friends.thy ===== *)
theory Friends
  imports Wire Machine
begin

text \<open>
  friends.ts: signed tokens, accepts and revoke notices, and the book that turns them into
  friendships. Tokens and accepts have the types the interfaces declare, as an invite code always
  decodes to and every node sends: the decoders \<open>token_of_json\<close> and \<open>accept_of_json\<close> give a parsed value
  those types. The code does not check them: a key or a signature that is no string makes it throw
  too, but with another field of the wrong type (a nonce that is an array, a label that is a number)
  it goes on, where the model stops with an exception. Such values are outside the model. An operation of the book returns the new book and its result, and the
  randomness it draws is an argument.
\<close>

section \<open>Data\<close>

record peer_pub =
  peer_ed :: jsstr
  peer_x :: jsstr
  peer_label :: jsstr
  peer_wg0 :: jsstr

record friend_token =
  tok_v :: int
  tok_from :: peer_pub
  tok_nonce :: jsstr
  tok_issued :: jsstr
  tok_expires :: jsstr
  tok_sig :: jsstr

record friend_accept =
  acc_v :: int
  acc_from :: peer_pub
  acc_ref :: jsstr
  acc_issued :: jsstr
  acc_sig :: jsstr

record friend_revoke =
  rev_v :: int
  rev_from :: jsstr
  rev_target :: jsstr
  rev_nonce :: jsstr
  rev_at :: jsstr
  rev_sig :: jsstr

datatype friend_state = Offered | Pending | AreFriends

record friend_record =
  fr_peer :: peer_pub
  fr_state :: friend_state
  fr_nonce :: jsstr
  fr_since :: jsstr

section \<open>What is signed\<close>

definition peerPubJson :: "peer_pub \<Rightarrow> json" where
  "peerPubJson p = JObj [(js ''ed25519'', JStr (peer_ed p)), (js ''x25519'', JStr (peer_x p)),
     (js ''label'', JStr (peer_label p)), (js ''wg0'', JStr (peer_wg0 p))]"

definition tokenSignable :: "friend_token \<Rightarrow> payload" where
  "tokenSignable t = [(js ''v'', JNum (tok_v t)), (js ''from'', peerPubJson (tok_from t)),
     (js ''nonce'', JStr (tok_nonce t)), (js ''issued'', JStr (tok_issued t)), (js ''expires'', JStr (tok_expires t))]"

definition acceptSignable :: "friend_accept \<Rightarrow> payload" where
  "acceptSignable a = [(js ''v'', JNum (acc_v a)), (js ''from'', peerPubJson (acc_from a)),
     (js ''ref'', JStr (acc_ref a)), (js ''issued'', JStr (acc_issued a))]"

definition revokeSignable :: "friend_revoke \<Rightarrow> payload" where
  "revokeSignable r = [(js ''v'', JNum (rev_v r)), (js ''from'', JStr (rev_from r)),
     (js ''target'', JStr (rev_target r)), (js ''nonce'', JStr (rev_nonce r)), (js ''at'', JStr (rev_at r))]"

definition REVOKE_SKEW_MS :: int where
  "REVOKE_SKEW_MS = 120000"

definition sign :: "lib \<Rightarrow> payload \<Rightarrow> bytes \<Rightarrow> jsstr res" where
  "sign L obj sk =
     rbind (canonicalBytes (JObj obj)) (\<lambda>m.
       rmap (toB64 L) (of_lib ''invalid secretKey length'' (crypto_sign_detached L m sk)))"

definition verify :: "lib \<Rightarrow> payload \<Rightarrow> jsstr \<Rightarrow> jsstr \<Rightarrow> bool res" where
  "verify L obj sigB64 pubB64 =
     rbind (fromB64 L sigB64) (\<lambda>s.
     rbind (canonicalBytes (JObj obj)) (\<lambda>m.
     rbind (fromB64 L pubB64) (\<lambda>p.
       of_lib ''invalid length'' (crypto_sign_verify_detached L s m p))))"

section \<open>Addresses\<close>

definition meshWg0 :: "jsstr \<Rightarrow> jsstr option" where
  "meshWg0 addr =
     (let ip = (if startsWith addr (js ''::ffff:'') then drop 7 addr else addr);
          h = drop 8 ip
      in if startsWith ip (js ''10.42.0.'') \<and> 1 \<le> length h \<and> length h \<le> 3 \<and> list_all is_digit h
            \<and> 1 \<le> nat_of_digits h \<and> nat_of_digits h \<le> 254
         then Some ip else None)"

definition peerPubOf :: "lib \<Rightarrow> identity \<Rightarrow> jsstr \<Rightarrow> jsstr \<Rightarrow> peer_pub" where
  "peerPubOf L i lbl w =
     \<lparr> peer_ed = toB64 L (publicKey (ed25519 i)), peer_x = toB64 L (boxPublicKey (x25519 i)),
       peer_label = lbl, peer_wg0 = w \<rparr>"

section \<open>Tokens and accepts\<close>

definition makeToken :: "lib \<Rightarrow> bytes \<Rightarrow> identity \<Rightarrow> jsstr \<Rightarrow> jsstr \<Rightarrow> int \<Rightarrow> int \<Rightarrow> friend_token res" where
  "makeToken L rnd i lbl w ttlSeconds now =
     rbind (toISOString now) (\<lambda>iss.
     rbind (toISOString (now + ttlSeconds * 1000)) (\<lambda>ex.
       let body = \<lparr> tok_v = 1, tok_from = peerPubOf L i lbl w, tok_nonce = toB64 L rnd, tok_issued = iss,
                    tok_expires = ex, tok_sig = [] \<rparr>
       in rmap (\<lambda>s. body\<lparr> tok_sig := s \<rparr>) (sign L (tokenSignable body) (secretKey (ed25519 i)))))"

definition parses_before :: "lib \<Rightarrow> jsstr \<Rightarrow> int \<Rightarrow> bool" where
  \<comment> \<open>\<open>Date.parse(s) < t\<close>: a comparison with NaN is false\<close>
  "parses_before L s t = (case dateParse L s of Some d \<Rightarrow> d < t | None \<Rightarrow> False)"

definition verifyToken :: "lib \<Rightarrow> friend_token \<Rightarrow> int \<Rightarrow> peer_pub res" where
  "verifyToken L t now =
     (if tok_v t \<noteq> 1 then throw FriendError ''unsupported token version''
      else rbind (verify L (tokenSignable t) (tok_sig t) (peer_ed (tok_from t))) (\<lambda>ok.
        if \<not> ok then throw FriendError ''bad token signature''
        else if parses_before L (tok_expires t) now then throw FriendError ''token expired''
        else Inr (tok_from t)))"

definition accept_json :: "friend_accept \<Rightarrow> json" where
  "accept_json a = JObj [(js ''v'', JNum (acc_v a)), (js ''from'', peerPubJson (acc_from a)),
     (js ''ref'', JStr (acc_ref a)), (js ''issued'', JStr (acc_issued a)), (js ''sig'', JStr (acc_sig a))]"

definition makeAccept ::
  "lib \<Rightarrow> bytes \<Rightarrow> identity \<Rightarrow> jsstr \<Rightarrow> jsstr \<Rightarrow> friend_token \<Rightarrow> int \<Rightarrow> jsstr res" where
  "makeAccept L r i lbl w token now =
     rbind (toISOString now) (\<lambda>iss.
       let body = \<lparr> acc_v = 1, acc_from = peerPubOf L i lbl w, acc_ref = tok_nonce token, acc_issued = iss,
                    acc_sig = [] \<rparr>
       in rbind (sign L (acceptSignable body) (secretKey (ed25519 i))) (\<lambda>s.
          rbind (fromB64 L (peer_x (tok_from token))) (\<lambda>pk.
            rmap (toB64 L) (of_lib ''invalid publicKey length''
              (crypto_box_seal L r (text_encode (json_stringify (accept_json (body\<lparr> acc_sig := s \<rparr>)))) pk)))))"

definition int_of :: "json option \<Rightarrow> int res" where
  "int_of v = (case v of Some (JNum i) \<Rightarrow> Inr i | _ \<Rightarrow> throw JsError ''not a number'')"

definition peer_of_json :: "json option \<Rightarrow> peer_pub res" where
  "peer_of_json v =
     rbind (obj_of v) (\<lambda>kv.
     rbind (str_of (map_get kv (js ''ed25519''))) (\<lambda>e.
     rbind (str_of (map_get kv (js ''x25519''))) (\<lambda>x.
     rbind (str_of (map_get kv (js ''label''))) (\<lambda>l.
     rbind (str_of (map_get kv (js ''wg0''))) (\<lambda>w.
       Inr \<lparr> peer_ed = e, peer_x = x, peer_label = l, peer_wg0 = w \<rparr>)))))"

definition accept_of_json :: "json \<Rightarrow> friend_accept res" where
  "accept_of_json v =
     rbind (obj_of (Some v)) (\<lambda>kv.
     rbind (int_of (map_get kv (js ''v''))) (\<lambda>ver.
     rbind (peer_of_json (map_get kv (js ''from''))) (\<lambda>p.
     rbind (str_of (map_get kv (js ''ref''))) (\<lambda>r.
     rbind (str_of (map_get kv (js ''issued''))) (\<lambda>iss.
     rbind (str_of (map_get kv (js ''sig''))) (\<lambda>s.
       Inr \<lparr> acc_v = ver, acc_from = p, acc_ref = r, acc_issued = iss, acc_sig = s \<rparr>))))))"

definition token_of_json :: "json \<Rightarrow> friend_token res" where
  "token_of_json v =
     rbind (obj_of (Some v)) (\<lambda>kv.
     rbind (int_of (map_get kv (js ''v''))) (\<lambda>ver.
     rbind (peer_of_json (map_get kv (js ''from''))) (\<lambda>p.
     rbind (str_of (map_get kv (js ''nonce''))) (\<lambda>n.
     rbind (str_of (map_get kv (js ''issued''))) (\<lambda>iss.
     rbind (str_of (map_get kv (js ''expires''))) (\<lambda>ex.
     rbind (str_of (map_get kv (js ''sig''))) (\<lambda>s.
       Inr \<lparr> tok_v = ver, tok_from = p, tok_nonce = n, tok_issued = iss, tok_expires = ex, tok_sig = s \<rparr>)))))))"

definition openAccept :: "lib \<Rightarrow> identity \<Rightarrow> jsstr \<Rightarrow> friend_accept res" where
  "openAccept L i blobB64 =
     rbind (catch_as FriendError ''cannot open accept (not sealed to us)''
       (rbind (fromB64 L blobB64) (\<lambda>b.
          of_lib ''incorrect key pair'' (crypto_box_seal_open L b (boxPublicKey (x25519 i)) (privateKey (x25519 i))))))
       (\<lambda>inner.
     rbind (catch_as FriendError ''malformed accept'' (parse_bytes L inner)) (\<lambda>v.
     rbind (accept_of_json v) (\<lambda>a.
       if acc_v a \<noteq> 1 then throw FriendError ''unsupported accept version''
       else rbind (verify L (acceptSignable a) (acc_sig a) (peer_ed (acc_from a))) (\<lambda>ok.
         if \<not> ok then throw FriendError ''bad accept signature'' else Inr a))))"

section \<open>The book\<close>

record pending_request =
  pend_token :: friend_token
  pend_received :: jsstr

record book =
  bk_id :: identity
  bk_label :: jsstr
  bk_wg0 :: jsstr
  bk_offered :: "(jsstr, friend_token) jsmap"
  bk_pending :: "(jsstr, pending_request) jsmap"
  bk_friends :: "(jsstr, friend_record) jsmap"
  bk_consumed :: "jsstr list"

definition book_new :: "identity \<Rightarrow> jsstr \<Rightarrow> jsstr \<Rightarrow> book" where
  "book_new i lbl w = \<lparr> bk_id = i, bk_label = lbl, bk_wg0 = w, bk_offered = [], bk_pending = [],
     bk_friends = [], bk_consumed = [] \<rparr>"

definition selfEd :: "lib \<Rightarrow> book \<Rightarrow> jsstr" where
  "selfEd L b = toB64 L (publicKey (ed25519 (bk_id b)))"

definition issueToken :: "lib \<Rightarrow> bytes \<Rightarrow> int \<Rightarrow> int \<Rightarrow> book \<Rightarrow> book \<times> friend_token res" where
  "issueToken L rnd ttlSeconds now b =
     (case makeToken L rnd (bk_id b) (bk_label b) (bk_wg0 b) ttlSeconds now of
        Inl e \<Rightarrow> (b, Inl e)
      | Inr t \<Rightarrow> (b\<lparr> bk_offered := map_set (tok_nonce t) t (bk_offered b) \<rparr>, Inr t))"

definition receive :: "lib \<Rightarrow> friend_token \<Rightarrow> int \<Rightarrow> book \<Rightarrow> book \<times> peer_pub res" where
  "receive L t now b =
     (case verifyToken L t now of
        Inl e \<Rightarrow> (b, Inl e)
      | Inr from \<Rightarrow>
          if tok_nonce t \<in> set (bk_consumed b) then (b, throw FriendError ''token already used'')
          else if peer_ed from = selfEd L b then (b, throw FriendError ''cannot friend yourself'')
          else (case toISOString now of
                  Inl e \<Rightarrow> (b, Inl e)
                | Inr s \<Rightarrow>
                    (b\<lparr> bk_pending := map_set (peer_ed from) \<lparr> pend_token = t, pend_received = s \<rparr> (bk_pending b) \<rparr>,
                     Inr from)))"

definition accept :: "lib \<Rightarrow> bytes \<Rightarrow> jsstr \<Rightarrow> int \<Rightarrow> book \<Rightarrow> book \<times> jsstr res" where
  "accept L r giver now b =
     (case map_get (bk_pending b) giver of
        None \<Rightarrow> (b, throw FriendError ''no pending request from that peer'')
      | Some p \<Rightarrow>
          let t = pend_token p
          in if parses_before L (tok_expires t) now then (b, throw FriendError ''token expired'')
             else (case makeAccept L r (bk_id b) (bk_label b) (bk_wg0 b) t now of
                     Inl e \<Rightarrow> (b, Inl e)
                   | Inr blob \<Rightarrow>
                       let b1 = b\<lparr> bk_pending := map_del giver (bk_pending b),
                                   bk_consumed := set_add (tok_nonce t) (bk_consumed b) \<rparr>
                       in (case toISOString now of
                             Inl e \<Rightarrow> (b1, Inl e)
                           | Inr s \<Rightarrow>
                               (b1\<lparr> bk_friends := map_set giver
                                   \<lparr> fr_peer = tok_from t, fr_state = AreFriends, fr_nonce = tok_nonce t, fr_since = s \<rparr>
                                   (bk_friends b) \<rparr>, Inr blob))))"

definition confirm :: "lib \<Rightarrow> jsstr \<Rightarrow> int \<Rightarrow> book \<Rightarrow> book \<times> friend_record res" where
  "confirm L blobB64 now b =
     (case openAccept L (bk_id b) blobB64 of
        Inl e \<Rightarrow> (b, Inl e)
      | Inr a \<Rightarrow>
          (case map_get (bk_offered b) (acc_ref a) of
             None \<Rightarrow> (b, throw FriendError ''accept does not match any open offer'')
           | Some offer \<Rightarrow>
               if acc_ref a \<in> set (bk_consumed b) then (b, throw FriendError ''offer already consumed'')
               else if parses_before L (tok_expires offer) now then (b, throw FriendError ''offer expired'')
               else
                 let b1 = b\<lparr> bk_offered := map_del (acc_ref a) (bk_offered b),
                             bk_consumed := set_add (acc_ref a) (bk_consumed b) \<rparr>
                 in (case toISOString now of
                       Inl e \<Rightarrow> (b1, Inl e)
                     | Inr s \<Rightarrow>
                         let rec = \<lparr> fr_peer = acc_from a, fr_state = AreFriends, fr_nonce = acc_ref a, fr_since = s \<rparr>
                         in (b1\<lparr> bk_friends := map_set (peer_ed (acc_from a)) rec (bk_friends b) \<rparr>, Inr rec))))"

definition revoke :: "jsstr \<Rightarrow> book \<Rightarrow> book \<times> bool" where
  "revoke peer b = (b\<lparr> bk_friends := map_del peer (bk_friends b) \<rparr>, map_has (bk_friends b) peer)"

definition issueRevoke :: "lib \<Rightarrow> bytes \<Rightarrow> jsstr \<Rightarrow> int \<Rightarrow> book \<Rightarrow> book \<times> (friend_revoke \<times> jsstr) option res" where
  "issueRevoke L rnd peer now b =
     (case map_get (bk_friends b) peer of
        None \<Rightarrow> (b, Inr None)
      | Some rec \<Rightarrow>
          (case toISOString now of
             Inl e \<Rightarrow> (b, Inl e)
           | Inr s \<Rightarrow>
               let body = \<lparr> rev_v = 1, rev_from = selfEd L b, rev_target = peer, rev_nonce = toB64 L rnd, rev_at = s,
                            rev_sig = [] \<rparr>
               in (case sign L (revokeSignable body) (secretKey (ed25519 (bk_id b))) of
                     Inl e \<Rightarrow> (b, Inl e)
                   | Inr g \<Rightarrow> (b\<lparr> bk_friends := map_del peer (bk_friends b) \<rparr>,
                              Inr (Some (body\<lparr> rev_sig := g \<rparr>, peer_wg0 (fr_peer rec)))))))"

definition revoke_of_json :: "json option \<Rightarrow> friend_revoke res" where
  \<comment> \<open>the shape check at the start of \<open>receiveRevoke\<close>\<close>
  "revoke_of_json n = catch_as FriendError ''malformed revoke''
     (rbind (obj_of n) (\<lambda>kv.
      rbind (int_of (map_get kv (js ''v''))) (\<lambda>ver.
      rbind (if ver = 1 then Inr () else throw FriendError ''version'') (\<lambda>_.
      rbind (str_of (map_get kv (js ''from''))) (\<lambda>fr.
      rbind (str_of (map_get kv (js ''target''))) (\<lambda>tg.
      rbind (str_of (map_get kv (js ''nonce''))) (\<lambda>nc.
      rbind (str_of (map_get kv (js ''at''))) (\<lambda>at.
      rbind (str_of (map_get kv (js ''sig''))) (\<lambda>s.
        Inr \<lparr> rev_v = ver, rev_from = fr, rev_target = tg, rev_nonce = nc, rev_at = at, rev_sig = s \<rparr>)))))))))"

definition before_era :: "lib \<Rightarrow> int \<Rightarrow> jsstr \<Rightarrow> bool" where
  \<comment> \<open>\<open>at < Date.parse(since) - REVOKE_SKEW_MS\<close>\<close>
  "before_era L at since = (case dateParse L since of Some s \<Rightarrow> at < s - REVOKE_SKEW_MS | None \<Rightarrow> False)"

definition receiveRevoke :: "lib \<Rightarrow> json option \<Rightarrow> book \<Rightarrow> book \<times> friend_record res" where
  "receiveRevoke L notice b =
     (case revoke_of_json notice of
        Inl e \<Rightarrow> (b, Inl e)
      | Inr n \<Rightarrow>
          if rev_target n \<noteq> selfEd L b then (b, throw FriendError ''revoke not addressed to this node'')
          else (case map_get (bk_friends b) (rev_from n) of
             None \<Rightarrow> (b, throw FriendError ''not a friend'')
           | Some rec \<Rightarrow>
               if rev_nonce n \<in> set (bk_consumed b) then (b, throw FriendError ''revoke already used'')
               else (case verify L (revokeSignable n) (rev_sig n) (peer_ed (fr_peer rec)) of
                  Inl e \<Rightarrow> (b, Inl e)
                | Inr ok \<Rightarrow>
                    if \<not> ok then (b, throw FriendError ''bad revoke signature'')
                    else (case dateParse L (rev_at n) of
                       None \<Rightarrow> (b, throw FriendError ''malformed revoke'')
                     | Some at \<Rightarrow>
                         if before_era L at (fr_since rec) then (b, throw FriendError ''stale revoke'')
                         else (b\<lparr> bk_consumed := set_add (rev_nonce n) (bk_consumed b),
                                  bk_friends := map_del (rev_from n) (bk_friends b) \<rparr>, Inr rec)))))"

section \<open>Queries\<close>

definition listFriends :: "book \<Rightarrow> friend_record list" where
  "listFriends b = map snd (bk_friends b)"

definition listPending :: "book \<Rightarrow> (peer_pub \<times> jsstr) list" where
  "listPending b = map (\<lambda>(k, p). (tok_from (pend_token p), pend_received p)) (bk_pending b)"

definition listOffered :: "book \<Rightarrow> friend_token list" where
  "listOffered b = map snd (bk_offered b)"

definition isFriend :: "jsstr \<Rightarrow> book \<Rightarrow> bool" where
  "isFriend peer b = map_has (bk_friends b) peer"

definition friend :: "jsstr \<Rightarrow> book \<Rightarrow> friend_record option" where
  "friend peer b = map_get (bk_friends b) peer"

fun wg0_scan :: "jsstr \<Rightarrow> friend_record option \<Rightarrow> friend_record list \<Rightarrow> friend_record option" where
  \<comment> \<open>the loop of \<open>friendByWg0\<close>\<close>
  "wg0_scan ip found [] = found"
| "wg0_scan ip found (r # rs) =
     (if peer_wg0 (fr_peer r) \<noteq> ip then wg0_scan ip found rs
      else if found \<noteq> None then None else wg0_scan ip (Some r) rs)"

definition friendByWg0 :: "jsstr \<Rightarrow> book \<Rightarrow> friend_record option" where
  "friendByWg0 w b =
     (case meshWg0 w of
        None \<Rightarrow> None
      | Some ip \<Rightarrow> if ip = bk_wg0 b then None else wg0_scan ip None (listFriends b))"

fun resolver_keys :: "lib \<Rightarrow> friend_record list \<Rightarrow> (jsstr, bytes) jsmap \<Rightarrow> (jsstr, bytes) jsmap res" where
  "resolver_keys L [] keys = Inr keys"
| "resolver_keys L (r # rs) keys =
     rbind (fromB64 L (peer_ed (fr_peer r))) (\<lambda>k. resolver_keys L rs (map_set (peer_ed (fr_peer r)) k keys))"

definition verifyKeyResolver :: "lib \<Rightarrow> book \<Rightarrow> verify_key_for res" where
  "verifyKeyResolver L b = rmap (\<lambda>keys ed. map_get keys ed) (resolver_keys L (listFriends b) [])"

section \<open>Saving the book\<close>

definition token_json :: "friend_token \<Rightarrow> json" where
  "token_json t = JObj [(js ''v'', JNum (tok_v t)), (js ''from'', peerPubJson (tok_from t)),
     (js ''nonce'', JStr (tok_nonce t)), (js ''issued'', JStr (tok_issued t)), (js ''expires'', JStr (tok_expires t)),
     (js ''sig'', JStr (tok_sig t))]"

fun state_str :: "friend_state \<Rightarrow> jsstr" where
  "state_str Offered = js ''offered''"
| "state_str Pending = js ''pending''"
| "state_str AreFriends = js ''friends''"

definition state_of_str :: "jsstr \<Rightarrow> friend_state res" where
  "state_of_str s =
     (if s = js ''offered'' then Inr Offered else if s = js ''pending'' then Inr Pending
      else if s = js ''friends'' then Inr AreFriends else throw JsError ''not a friend state'')"

definition pending_json :: "pending_request \<Rightarrow> json" where
  "pending_json p = JObj [(js ''token'', token_json (pend_token p)), (js ''received'', JStr (pend_received p))]"

definition record_json :: "friend_record \<Rightarrow> json" where
  "record_json r = JObj [(js ''peer'', peerPubJson (fr_peer r)), (js ''state'', JStr (state_str (fr_state r))),
     (js ''nonce'', JStr (fr_nonce r)), (js ''since'', JStr (fr_since r))]"

definition from_entries :: "('a \<Rightarrow> json) \<Rightarrow> (jsstr, 'a) jsmap \<Rightarrow> json" where
  "from_entries f m = JObj (map (\<lambda>(k, v). (k, f v)) m)"

definition book_toJSON :: "book \<Rightarrow> json" where
  "book_toJSON b = JObj
     [(js ''offered'', from_entries token_json (bk_offered b)),
      (js ''pending'', from_entries pending_json (bk_pending b)),
      (js ''friends'', from_entries record_json (bk_friends b)),
      (js ''consumed'', JArr (map JStr (bk_consumed b)))]"

definition pending_of_json :: "json \<Rightarrow> pending_request res" where
  "pending_of_json v =
     rbind (obj_of (Some v)) (\<lambda>kv.
     rbind (field (JObj kv) (js ''token'')) (\<lambda>t.
     rbind (token_of_json (case t of Some w \<Rightarrow> w | None \<Rightarrow> JNull)) (\<lambda>tok.
     rbind (str_of (map_get kv (js ''received''))) (\<lambda>s.
       Inr \<lparr> pend_token = tok, pend_received = s \<rparr>))))"

definition record_of_json :: "json \<Rightarrow> friend_record res" where
  "record_of_json v =
     rbind (obj_of (Some v)) (\<lambda>kv.
     rbind (peer_of_json (map_get kv (js ''peer''))) (\<lambda>p.
     rbind (str_of (map_get kv (js ''state''))) (\<lambda>s.
     rbind (state_of_str s) (\<lambda>st.
     rbind (str_of (map_get kv (js ''nonce''))) (\<lambda>n.
     rbind (str_of (map_get kv (js ''since''))) (\<lambda>t.
       Inr \<lparr> fr_peer = p, fr_state = st, fr_nonce = n, fr_since = t \<rparr>))))))"

definition map_of_json :: "(json \<Rightarrow> 'a res) \<Rightarrow> json option \<Rightarrow> (jsstr, 'a) jsmap res" where
  \<comment> \<open>\<open>new Map(Object.entries(v ?? {}))\<close>\<close>
  "map_of_json f v =
     rbind (obj_of (nullish v (Some (JObj [])))) (\<lambda>kvs. mapR (\<lambda>(k, w). rmap (Pair k) (f w)) kvs)"

definition set_of_json :: "json option \<Rightarrow> jsstr list res" where
  \<comment> \<open>\<open>new Set(v ?? [])\<close>\<close>
  "set_of_json v =
     (case nullish v (Some (JArr [])) of
        Some (JArr vs) \<Rightarrow> rmap (\<lambda>xs. foldl (\<lambda>acc x. set_add x acc) [] xs) (mapR (\<lambda>w. str_of (Some w)) vs)
      | _ \<Rightarrow> throw JsError ''not iterable'')"

definition book_fromJSON :: "identity \<Rightarrow> jsstr \<Rightarrow> jsstr \<Rightarrow> json \<Rightarrow> book res" where
  "book_fromJSON i lbl w data =
     rbind (obj_of (Some data)) (\<lambda>d.
     rbind (map_of_json token_of_json (map_get d (js ''offered''))) (\<lambda>off.
     rbind (map_of_json pending_of_json (map_get d (js ''pending''))) (\<lambda>pen.
     rbind (map_of_json record_of_json (map_get d (js ''friends''))) (\<lambda>fri.
     rbind (set_of_json (map_get d (js ''consumed''))) (\<lambda>con.
       Inr ((book_new i lbl w)\<lparr> bk_offered := off, bk_pending := pen, bk_friends := fri, bk_consumed := con \<rparr>))))))"

end
