(* ===== verification/Messages.thy ===== *)
theory Messages
  imports Friends
begin

text \<open>
  messages.ts: a message is an envelope with a type, a recipient, an id and a time; the inbound path
  checks them and remembers ids through the interface \<open>SeenIds\<close>, which the message book provides
  together with the per-peer logs. \<open>now\<close> arguments are the readings of \<open>Date.now()\<close>, in the order
  the code takes them; \<open>cmp\<close> is \<open>String.prototype.localeCompare\<close>.
\<close>

section \<open>Messages on the wire\<close>

record message =
  msg_id :: "jsstr option"
  msg_from :: jsstr
  msg_to :: jsstr
  msg_body :: jsstr
  msg_ts :: jsstr

datatype direction = DirIn | DirOut

record stored_message = message +
  dir :: direction

definition MAX_MSG_AGE_MS :: int where
  "MAX_MSG_AGE_MS = 15 * 60 * 1000"

definition MAX_MSG_SKEW_MS :: int where
  "MAX_MSG_SKEW_MS = 5 * 60 * 1000"

definition message_payload :: "lib \<Rightarrow> jsstr \<Rightarrow> identity \<Rightarrow> jsstr \<Rightarrow> jsstr \<Rightarrow> jsstr \<Rightarrow> payload" where
  "message_payload L uuid self rcpt body ts =
     [(js ''typ'', JStr (js ''message'')), (js ''id'', JStr uuid),
      (js ''node'', JStr (toB64 L (publicKey (ed25519 self)))), (js ''to'', JStr rcpt), (js ''body'', JStr body),
      (js ''ts'', JStr ts)]"

definition sealMessage :: "lib \<Rightarrow> jsstr \<Rightarrow> bytes \<Rightarrow> identity \<Rightarrow> peer_pub \<Rightarrow> jsstr \<Rightarrow> int \<Rightarrow> jsstr res" where
  \<comment> \<open>\<open>uuid\<close> is what \<open>crypto.randomUUID()\<close> drew\<close>
  "sealMessage L uuid r self recipient body now =
     rbind (toISOString now) (\<lambda>ts.
     rbind (fromB64 L (peer_x recipient)) (\<lambda>pk.
     rmap (toB64 L)
       (sealSign L r (message_payload L uuid self (peer_ed recipient) body ts) (secretKey (ed25519 self)) pk)))"

type_synonym 's mark_seen = "jsstr \<Rightarrow> int \<Rightarrow> 's \<Rightarrow> 's \<times> bool"

definition check_seen ::
  "lib \<Rightarrow> payload \<Rightarrow> int \<Rightarrow> 's mark_seen option \<Rightarrow> 's \<Rightarrow> 's \<times> unit res" where
  \<comment> \<open>the block \<open>if (seen) { ... }\<close>\<close>
  "check_seen L p now seen s =
     (case seen of
        None \<Rightarrow> (s, Inr ())
      | Some mark \<Rightarrow>
          (case js_string_opt (map_get p (js ''ts'')) of
             Inl e \<Rightarrow> (s, Inl e)
           | Inr t \<Rightarrow>
               (case dateParse L t of
                  None \<Rightarrow> (s, throw VerificationError ''message timestamp missing or outside freshness window'')
                | Some tsMs \<Rightarrow>
                    if now - tsMs > MAX_MSG_AGE_MS \<or> now - tsMs < - MAX_MSG_SKEW_MS
                    then (s, throw VerificationError ''message timestamp missing or outside freshness window'')
                    else (case map_get p (js ''id'') of
                       Some (JStr i) \<Rightarrow>
                         if i = [] then (s, throw VerificationError ''duplicate or missing message id (replay)'')
                         else (case mark i tsMs s of (s', ok) \<Rightarrow>
                           (s', if ok then Inr ()
                                else throw VerificationError ''duplicate or missing message id (replay)''))
                     | _ \<Rightarrow> (s, throw VerificationError ''duplicate or missing message id (replay)'')))))"

definition message_of :: "payload \<Rightarrow> message res" where
  "message_of p =
     rbind (js_string_opt (map_get p (js ''node''))) (\<lambda>f.
     rbind (js_string_opt (map_get p (js ''to''))) (\<lambda>t.
     rbind (js_string_opt (map_get p (js ''body''))) (\<lambda>b.
     rbind (js_string_opt (map_get p (js ''ts''))) (\<lambda>ts.
       Inr \<lparr> msg_id = (case map_get p (js ''id'') of Some (JStr i) \<Rightarrow> Some i | _ \<Rightarrow> None),
             msg_from = f, msg_to = t, msg_body = b, msg_ts = ts \<rparr>))))"

definition openMessage ::
  "lib \<Rightarrow> identity \<Rightarrow> jsstr \<Rightarrow> verify_key_for \<Rightarrow> 's mark_seen option \<Rightarrow> int \<Rightarrow> 's \<Rightarrow> 's \<times> message res" where
  "openMessage L self blobB64 verifyKeyFor seen now s =
     (case rbind (fromB64 L blobB64) (\<lambda>b.
             openVerify L b (boxPublicKey (x25519 self)) (privateKey (x25519 self)) verifyKeyFor) of
        Inl e \<Rightarrow> (s, Inl e)
      | Inr p \<Rightarrow>
          if map_get p (js ''typ'') \<noteq> Some (JStr (js ''message''))
          then (s, throw VerificationError ''not a message envelope'')
          else if map_get p (js ''to'') \<noteq> Some (JStr (toB64 L (publicKey (ed25519 self))))
          then (s, throw VerificationError ''message not addressed to this node'')
          else (case check_seen L p now seen s of
                  (s', Inl e) \<Rightarrow> (s', Inl e)
                | (s', Inr _) \<Rightarrow> (s', message_of p)))"

section \<open>The message book\<close>

definition MAX_PER_PEER :: nat where
  "MAX_PER_PEER = 500"

definition MAX_SEEN_IDS :: nat where
  "MAX_SEEN_IDS = 4096"

record message_book =
  mb_logs :: "(jsstr, stored_message list) jsmap"
  mb_seen :: "(jsstr, int) jsmap"

definition message_book_new :: message_book where
  "message_book_new = \<lparr> mb_logs = [], mb_seen = [] \<rparr>"

definition log_of :: "jsstr \<Rightarrow> message_book \<Rightarrow> stored_message list" where
  "log_of peer b = (case map_get (mb_logs b) peer of None \<Rightarrow> [] | Some l \<Rightarrow> l)"

definition append_msg :: "jsstr \<Rightarrow> stored_message \<Rightarrow> message_book \<Rightarrow> message_book" where
  "append_msg peer m b =
     (let l = log_of peer b @ [m];
          l' = (if length l > MAX_PER_PEER then drop (length l - MAX_PER_PEER) l else l)
      in b\<lparr> mb_logs := map_set peer l' (mb_logs b) \<rparr>)"

fun evict :: "(jsstr, int) jsmap \<Rightarrow> (jsstr, int) jsmap" where
  \<comment> \<open>\<open>while (this.seen.size >= MAX_SEEN_IDS)\<close> delete the oldest\<close>
  "evict [] = []"
| "evict (e # m) = (if length (e # m) \<ge> MAX_SEEN_IDS then evict m else e # m)"

definition markSeen :: "int \<Rightarrow> jsstr \<Rightarrow> int \<Rightarrow> message_book \<Rightarrow> message_book \<times> bool" where
  "markSeen now i tsMs b =
     (if map_has (mb_seen b) i then (b, False)
      else
        let cutoff = now - MAX_MSG_AGE_MS - MAX_MSG_SKEW_MS;
            kept = filter (\<lambda>(old, ts). \<not> ts < cutoff) (mb_seen b)
        in (b\<lparr> mb_seen := map_set i tsMs (evict kept) \<rparr>, True))"

fun insert_by :: "('a \<Rightarrow> 'a \<Rightarrow> bool) \<Rightarrow> 'a \<Rightarrow> 'a list \<Rightarrow> 'a list" where
  "insert_by le x [] = [x]"
| "insert_by le x (y # ys) = (if le x y then x # y # ys else y # insert_by le x ys)"

definition sort_by :: "('a \<Rightarrow> 'a \<Rightarrow> bool) \<Rightarrow> 'a list \<Rightarrow> 'a list" where
  \<comment> \<open>\<open>Array.prototype.sort\<close>, which is stable\<close>
  "sort_by le xs = foldr (insert_by le) xs []"

definition thread :: "(jsstr \<Rightarrow> jsstr \<Rightarrow> int) \<Rightarrow> jsstr \<Rightarrow> message_book \<Rightarrow> stored_message list" where
  "thread cmp peer b = sort_by (\<lambda>x y. cmp (msg_ts x) (msg_ts y) \<le> 0) (log_of peer b)"

definition peers :: "message_book \<Rightarrow> jsstr list" where
  "peers b = map fst (mb_logs b)"

section \<open>Saving the message book\<close>

definition stored_json :: "stored_message \<Rightarrow> json" where
  "stored_json m = JObj
     ([(js ''dir'', JStr (case dir m of DirIn \<Rightarrow> js ''in'' | DirOut \<Rightarrow> js ''out'')), (js ''from'', JStr (msg_from m)),
       (js ''to'', JStr (msg_to m)), (js ''body'', JStr (msg_body m)), (js ''ts'', JStr (msg_ts m))]
      @ (case msg_id m of None \<Rightarrow> [] | Some i \<Rightarrow> [(js ''id'', JStr i)]))"

definition stored_of_json :: "json \<Rightarrow> stored_message res" where
  "stored_of_json v =
     rbind (obj_of (Some v)) (\<lambda>kv.
     rbind (str_of (map_get kv (js ''dir''))) (\<lambda>d.
     rbind (if d = js ''in'' then Inr DirIn else if d = js ''out'' then Inr DirOut else throw JsError ''not a direction'') (\<lambda>dd.
     rbind (str_of (map_get kv (js ''from''))) (\<lambda>f.
     rbind (str_of (map_get kv (js ''to''))) (\<lambda>t.
     rbind (str_of (map_get kv (js ''body''))) (\<lambda>b.
     rbind (str_of (map_get kv (js ''ts''))) (\<lambda>ts.
     rbind (case map_get kv (js ''id'') of None \<Rightarrow> Inr None | Some j \<Rightarrow> rmap Some (str_of (Some j))) (\<lambda>i.
       Inr \<lparr> msg_id = i, msg_from = f, msg_to = t, msg_body = b, msg_ts = ts, dir = dd \<rparr>))))))))"

definition log_of_json :: "json \<Rightarrow> stored_message list res" where
  "log_of_json v = (case v of JArr vs \<Rightarrow> mapR stored_of_json vs | _ \<Rightarrow> throw JsError ''not an array'')"

definition messages_toJSON :: "message_book \<Rightarrow> json" where
  "messages_toJSON b = JObj
     [(js ''logs'', from_entries (\<lambda>l. JArr (map stored_json l)) (mb_logs b)), (js ''seen'', from_entries JNum (mb_seen b))]"

definition messages_fromJSON :: "json \<Rightarrow> message_book res" where
  "messages_fromJSON data =
     rbind (obj_of (Some data)) (\<lambda>d.
     rbind (map_of_json log_of_json (map_get d (js ''logs''))) (\<lambda>l.
     rbind (map_of_json (\<lambda>v. int_of (Some v)) (map_get d (js ''seen''))) (\<lambda>s.
       Inr \<lparr> mb_logs = l, mb_seen = s \<rparr>)))"

end
