(* ===== verification/FriendsFacts.thy ===== *)
theory FriendsFacts
  imports Friends
begin

text \<open>
  The book's invariant and its step relation, signing and opening as inverses, the decoders as
  inverses of the printers, and the laws of the mesh address check.
\<close>

section \<open>Signing and decoding\<close>

lemma peer_json_ok [simp]: "json_ok (peerPubJson p)"
  by (simp add: peerPubJson_def)

lemma signable_ok:
  "json_ok (JObj (tokenSignable t)) \<longleftrightarrow> safe_int (tok_v t)"
  "json_ok (JObj (acceptSignable a)) \<longleftrightarrow> safe_int (acc_v a)"
  "json_ok (JObj (revokeSignable r)) \<longleftrightarrow> safe_int (rev_v r)"
  by (simp_all add: tokenSignable_def acceptSignable_def revokeSignable_def peerPubJson_def)

lemma safe_1 [simp]: "safe_int 1"
  by (simp add: safe_int_def max_safe_def)

lemma signable_unsigned [simp]:
  "tokenSignable (t\<lparr> tok_sig := s \<rparr>) = tokenSignable t"
  "acceptSignable (a\<lparr> acc_sig := s \<rparr>) = acceptSignable a"
  "revokeSignable (r\<lparr> rev_sig := s \<rparr>) = revokeSignable r"
  by (simp_all add: tokenSignable_def acceptSignable_def revokeSignable_def)

lemma sign_verifies:
  assumes "lib_ok L" "id_ok L i" "sign L p (secretKey (ed25519 i)) = Inr s"
  shows "verify L p s (toB64 L (publicKey (ed25519 i))) = Inr True"
proof -
  obtain m sig where m: "canonicalBytes (JObj p) = Inr m" "s = toB64 L sig"
    "crypto_sign_detached L m (secretKey (ed25519 i)) = Some sig"
    using assms(3) by (auto simp: sign_def res_eq)
  obtain sig' where "crypto_sign_detached L m (secretKey (ed25519 i)) = Some sig'"
    "crypto_sign_verify_detached L sig' m (publicKey (ed25519 i)) = Some True"
    using sign_okD lib_okD(2) assms(1,2) by blast
  then show ?thesis using m lib_okD(1) [OF assms(1)] by (simp add: verify_def)
qed

lemma sign_total:
  assumes "lib_ok L" "id_ok L i" "json_ok (JObj p)"
  obtains s where "sign L p (secretKey (ed25519 i)) = Inr s"
proof -
  obtain m where m: "canonicalBytes (JObj p) = Inr m" using canonicalBytes_ok [OF assms(3)] by metis
  obtain sig where "crypto_sign_detached L m (secretKey (ed25519 i)) = Some sig"
    using sign_okD lib_okD(2) assms(1,2) by blast
  with m that show thesis by (simp add: sign_def)
qed

lemma str_of_JStr [simp]: "str_of (Some (JStr s)) = Inr s"
  by (simp add: str_of_def)

lemma obj_of_JObj [simp]: "obj_of (Some (JObj kvs)) = Inr kvs"
  by (simp add: obj_of_def)

lemma int_of_JNum [simp]: "int_of (Some (JNum i)) = Inr i"
  by (simp add: int_of_def)

lemma peer_of_json [simp]: "peer_of_json (Some (peerPubJson p)) = Inr p"
  by (simp add: peer_of_json_def peerPubJson_def)

lemma accept_of_json [simp]: "accept_of_json (accept_json a) = Inr a"
  by (simp add: accept_of_json_def accept_json_def)

lemma token_of_json [simp]: "token_of_json (token_json t) = Inr t"
  by (simp add: token_of_json_def token_json_def)

lemma pending_of_json [simp]: "pending_of_json (pending_json p) = Inr p"
  by (simp add: pending_of_json_def pending_json_def field_def)

lemma record_of_json [simp]: "record_of_json (record_json r) = Inr r"
  by (cases "fr_state r") (simp_all add: record_of_json_def record_json_def state_of_str_def)

lemma map_of_entries [simp]:
  assumes "\<And>v. f (g v) = Inr v"
  shows "map_of_json f (Some (from_entries g m)) = Inr m"
proof -
  have "mapR (\<lambda>(k, w). rmap (Pair k) (f w)) (map (\<lambda>(k, v). (k, g v)) m) = Inr m"
    using assms by (induction m) (auto simp: case_prod_unfold)
  then show ?thesis by (simp add: map_of_json_def from_entries_def nullish_def)
qed

lemma set_of_strings:
  assumes "distinct xs"
  shows "set_of_json (Some (JArr (map JStr xs))) = Inr xs"
proof -
  have "mapR (\<lambda>w. str_of (Some w)) (map JStr xs) = Inr xs" by (induction xs) auto
  moreover have "foldl (\<lambda>acc x. set_add x acc) ys zs = ys @ zs" if "distinct (ys @ zs)" for ys zs :: "jsstr list"
    using that
  proof (induction zs arbitrary: ys)
    case (Cons z zs)
    then show ?case using Cons.IH [of "ys @ [z]"] by (simp add: set_add_def)
  qed simp
  ultimately show ?thesis using assms by (simp add: set_of_json_def nullish_def)
qed

section \<open>Tokens and accepts\<close>

lemma makeToken_fields:
  assumes "makeToken L rnd i lbl w ttl now = Inr t"
  shows "tok_v t = 1" "tok_from t = peerPubOf L i lbl w" "tok_nonce t = toB64 L rnd"
    "toISOString (now + ttl * 1000) = Inr (tok_expires t)"
    "sign L (tokenSignable t) (secretKey (ed25519 i)) = Inr (tok_sig t)"
  using assms by (auto simp: makeToken_def res_eq Let_def tokenSignable_def)

lemma parses_before_iso: "toISOString d = Inr s \<Longrightarrow> parses_before L s t \<longleftrightarrow> d < t"
  by (simp add: parses_before_def dateParse_toISOString)

lemma made_token_verifies:
  assumes "lib_ok L" "id_ok L i" "makeToken L rnd i lbl w ttl now = Inr t" "now' \<le> now + ttl * 1000"
  shows "verifyToken L t now' = Inr (peerPubOf L i lbl w)"
  using makeToken_fields [OF assms(3)] sign_verifies [OF assms(1,2)] assms(4)
  by (simp add: verifyToken_def peerPubOf_def parses_before_iso)

lemma verifyToken_eq_Inr:
  "verifyToken L t now = Inr p \<longleftrightarrow>
     tok_v t = 1 \<and> verify L (tokenSignable t) (tok_sig t) (peer_ed (tok_from t)) = Inr True
     \<and> \<not> parses_before L (tok_expires t) now \<and> p = tok_from t"
  by (auto simp: verifyToken_def res_eq)

lemma openAccept_eq_Inr:
  "openAccept L i blobB64 = Inr a \<longleftrightarrow>
     (\<exists>b inner v. fromB64 L blobB64 = Inr b
        \<and> crypto_box_seal_open L b (boxPublicKey (x25519 i)) (privateKey (x25519 i)) = Some inner
        \<and> parse_bytes L inner = Inr v \<and> accept_of_json v = Inr a \<and> acc_v a = 1
        \<and> verify L (acceptSignable a) (acc_sig a) (peer_ed (acc_from a)) = Inr True)"
  by (auto simp: openAccept_def res_eq catch_as_eq_Inr split: if_splits)

lemma made_accept_opens:
  assumes "lib_ok L" "id_ok L i" "id_ok L j" "peer_x (tok_from t) = toB64 L (boxPublicKey (x25519 j))"
    and "toISOString now = Inr iss"
  obtains blob a where "makeAccept L r i lbl w t now = Inr blob" "openAccept L j blob = Inr a"
    "acc_from a = peerPubOf L i lbl w" "acc_ref a = tok_nonce t"
proof -
  define a0 where "a0 = \<lparr> acc_v = 1, acc_from = peerPubOf L i lbl w, acc_ref = tok_nonce t, acc_issued = iss,
     acc_sig = [] \<rparr>"
  have ok: "json_ok (JObj (acceptSignable a0))" unfolding signable_ok by (simp add: a0_def)
  obtain s where s: "sign L (acceptSignable a0) (secretKey (ed25519 i)) = Inr s"
    using sign_total [OF assms(1,2) ok] by blast
  define a where "a = a0\<lparr> acc_sig := s \<rparr>"
  obtain c where c:
    "crypto_box_seal L r (text_encode (json_stringify (accept_json a))) (boxPublicKey (x25519 j)) = Some c"
    "crypto_box_seal_open L c (boxPublicKey (x25519 j)) (privateKey (x25519 j))
     = Some (text_encode (json_stringify (accept_json a)))"
    using box_okD lib_okD(3) assms(1,3) by blast
  have parse: "parse_bytes L (text_encode (json_stringify (accept_json a))) = Inr (accept_json a)"
    unfolding accept_json_def by (rule parse_stringify) (simp add: a_def a0_def)
  have "verify L (acceptSignable a) (acc_sig a) (peer_ed (acc_from a)) = Inr True"
    using sign_verifies [OF assms(1,2) s]
    by (simp add: acceptSignable_def a_def a0_def peerPubOf_def)
  then have "openAccept L j (toB64 L c) = Inr a"
    using c(2) parse lib_okD(1) [OF assms(1)] by (simp add: openAccept_eq_Inr a_def a0_def)
  moreover have "makeAccept L r i lbl w t now = Inr (toB64 L c)"
    using assms(4,5) s c(1) lib_okD(1) [OF assms(1)]
    by (simp add: makeAccept_def Let_def a_def a0_def)
  moreover have "acc_from a = peerPubOf L i lbl w" "acc_ref a = tok_nonce t" by (simp_all add: a_def a0_def)
  ultimately show thesis using that by blast
qed

section \<open>The operations of the book as steps\<close>

inductive book_step :: "lib \<Rightarrow> book \<Rightarrow> book \<Rightarrow> bool" for L :: lib where
  Issue: "book_step L b (fst (issueToken L rnd ttl now b))"
| Receive: "book_step L b (fst (receive L t now b))"
| Accept: "book_step L b (fst (accept L r giver now b))"
| Confirm: "book_step L b (fst (confirm L blob now b))"
| Revoke: "book_step L b (fst (revoke peer b))"
| IssueRevoke: "book_step L b (fst (issueRevoke L rnd peer now b))"
| ReceiveRevoke: "book_step L b (fst (receiveRevoke L n b))"

definition book_init :: "identity \<Rightarrow> jsstr \<Rightarrow> jsstr \<Rightarrow> book \<Rightarrow> bool" where
  "book_init i lbl w b \<longleftrightarrow> b = book_new i lbl w"

definition own_offer :: "lib \<Rightarrow> book \<Rightarrow> friend_token \<Rightarrow> bool" where
  "own_offer L b t \<longleftrightarrow> (\<exists>rnd ttl now. makeToken L rnd (bk_id b) (bk_label b) (bk_wg0 b) ttl now = Inr t)"

definition by_token :: "lib \<Rightarrow> friend_record \<Rightarrow> bool" where
  \<comment> \<open>the peer's token was verified, with the nonce of the record\<close>
  "by_token L r \<longleftrightarrow> (\<exists>t now. verifyToken L t now = Inr (fr_peer r) \<and> tok_nonce t = fr_nonce r)"

definition by_accept :: "lib \<Rightarrow> book \<Rightarrow> friend_record \<Rightarrow> bool" where
  \<comment> \<open>an accept sealed to us and signed by the peer was opened, for an offer we made\<close>
  "by_accept L b r \<longleftrightarrow>
     (\<exists>blob a t. openAccept L (bk_id b) blob = Inr a \<and> acc_from a = fr_peer r \<and> acc_ref a = fr_nonce r
        \<and> own_offer L b t \<and> tok_nonce t = fr_nonce r)"

definition book_ok :: "lib \<Rightarrow> book \<Rightarrow> bool" where
  "book_ok L b \<longleftrightarrow>
     (\<forall>k t. map_get (bk_offered b) k = Some t \<longrightarrow> tok_nonce t = k \<and> own_offer L b t)
   \<and> (\<forall>k p. map_get (bk_pending b) k = Some p \<longrightarrow> k = peer_ed (tok_from (pend_token p))
        \<and> (\<exists>now. verifyToken L (pend_token p) now = Inr (tok_from (pend_token p))))
   \<and> (\<forall>k r. map_get (bk_friends b) k = Some r \<longrightarrow> k = peer_ed (fr_peer r) \<and> fr_state r = AreFriends
        \<and> fr_nonce r \<in> set (bk_consumed b) \<and> (by_token L r \<or> by_accept L b r))"

definition same_owner :: "book \<Rightarrow> book \<Rightarrow> bool" where
  "same_owner b b' \<longleftrightarrow> bk_id b' = bk_id b \<and> bk_label b' = bk_label b \<and> bk_wg0 b' = bk_wg0 b"

lemmas book_ops = issueToken_def receive_def accept_def confirm_def revoke_def issueRevoke_def receiveRevoke_def

lemma step_same_owner: "book_step L b b' \<Longrightarrow> same_owner b b'"
  by (induction rule: book_step.induct)
    (auto simp: same_owner_def book_ops Let_def split: option.splits sum.splits)

lemma step_consumed: "book_step L b b' \<Longrightarrow> set (bk_consumed b) \<subseteq> set (bk_consumed b')"
  by (induction rule: book_step.induct)
    (auto simp: book_ops Let_def split: option.splits sum.splits)

lemma own_offer_same: "same_owner b b' \<Longrightarrow> own_offer L b' t = own_offer L b t"
  by (simp add: same_owner_def own_offer_def)

lemma by_accept_same: "same_owner b b' \<Longrightarrow> by_accept L b' r = by_accept L b r"
  by (simp add: same_owner_def by_accept_def own_offer_def)


section \<open>The invariant\<close>

lemma book_ok_offer: "book_ok L b \<Longrightarrow> own_offer L b t \<Longrightarrow>
    book_ok L (b\<lparr> bk_offered := map_set (tok_nonce t) t (bk_offered b) \<rparr>)"
  by (simp add: book_ok_def own_offer_def by_accept_def)

lemma book_ok_pending: "book_ok L b \<Longrightarrow> verifyToken L t now = Inr (tok_from t) \<Longrightarrow>
    book_ok L (b\<lparr> bk_pending := map_set (peer_ed (tok_from t)) \<lparr> pend_token = t, pend_received = s \<rparr> (bk_pending b) \<rparr>)"
  by (auto simp: book_ok_def own_offer_def by_accept_def)

lemma book_ok_drop:
  assumes "book_ok L b" "set (bk_consumed b) \<subseteq> set c"
  shows "book_ok L (b\<lparr> bk_consumed := c, bk_friends := map_del k (bk_friends b) \<rparr>)"
    "book_ok L (b\<lparr> bk_offered := map_del k (bk_offered b), bk_consumed := c \<rparr>)"
    "book_ok L (b\<lparr> bk_pending := map_del k (bk_pending b), bk_consumed := c \<rparr>)"
  using assms by (auto simp: book_ok_def own_offer_def by_accept_def)

lemma book_ok_friend:
  assumes "book_ok L b" "k = peer_ed (fr_peer r)" "fr_state r = AreFriends" "fr_nonce r \<in> set (bk_consumed b)"
    and "by_token L r \<or> by_accept L b r"
  shows "book_ok L (b\<lparr> bk_friends := map_set k r (bk_friends b) \<rparr>)"
  using assms by (auto simp: book_ok_def own_offer_def by_accept_def)

lemma issue_ok: "book_ok L b \<Longrightarrow> book_ok L (fst (issueToken L rnd ttl now b))"
proof (cases "makeToken L rnd (bk_id b) (bk_label b) (bk_wg0 b) ttl now")
  case (Inr t)
  then have "own_offer L b t" by (auto simp: own_offer_def)
  then show "book_ok L b \<Longrightarrow> ?thesis" using Inr by (simp add: issueToken_def book_ok_offer)
qed (simp add: issueToken_def)

lemma receive_ok: "book_ok L b \<Longrightarrow> book_ok L (fst (receive L t now b))"
  by (auto simp: receive_def verifyToken_eq_Inr intro: book_ok_pending split: sum.splits)

lemma accept_ok:
  assumes "book_ok L b"
  shows "book_ok L (fst (accept L r giver now b))"
proof (cases "map_get (bk_pending b) giver")
  case (Some p)
  let ?t = "pend_token p" and ?c = "set_add (tok_nonce (pend_token p)) (bk_consumed b)"
  let ?b1 = "b\<lparr> bk_pending := map_del giver (bk_pending b), bk_consumed := ?c \<rparr>"
  have ok1: "book_ok L ?b1" by (rule book_ok_drop(3) [OF assms]) auto
  obtain n where pend: "giver = peer_ed (tok_from ?t)" "verifyToken L ?t n = Inr (tok_from ?t)"
    using assms Some unfolding book_ok_def by blast
  have "book_ok L (?b1\<lparr> bk_friends := map_set giver
      \<lparr> fr_peer = tok_from ?t, fr_state = AreFriends, fr_nonce = tok_nonce ?t, fr_since = s \<rparr> (bk_friends ?b1) \<rparr>)" for s
    using pend by (intro book_ok_friend [OF ok1]) (auto simp: by_token_def)
  then show ?thesis
    using Some assms ok1 by (auto simp: accept_def Let_def split: sum.splits)
qed (use assms in \<open>simp add: accept_def\<close>)

lemma confirm_ok:
  assumes "book_ok L b"
  shows "book_ok L (fst (confirm L blob now b))"
proof (cases "openAccept L (bk_id b) blob")
  case (Inr a)
  show ?thesis
  proof (cases "map_get (bk_offered b) (acc_ref a)")
    case (Some t)
    let ?b1 = "b\<lparr> bk_offered := map_del (acc_ref a) (bk_offered b), bk_consumed := set_add (acc_ref a) (bk_consumed b) \<rparr>"
    have ok1: "book_ok L ?b1" by (rule book_ok_drop(2) [OF assms]) auto
    have off: "tok_nonce t = acc_ref a" "own_offer L b t" using assms Some unfolding book_ok_def by blast+
    have "by_accept L ?b1 \<lparr> fr_peer = acc_from a, fr_state = AreFriends, fr_nonce = acc_ref a, fr_since = s \<rparr>" for s
    proof -
      have "own_offer L ?b1 t" using off(2) by (simp add: own_offer_def)
      then show ?thesis unfolding by_accept_def using Inr off(1)
        by (intro exI [of _ blob] exI [of _ a] exI [of _ t]) simp
    qed
    then have "book_ok L (?b1\<lparr> bk_friends := map_set (peer_ed (acc_from a))
        \<lparr> fr_peer = acc_from a, fr_state = AreFriends, fr_nonce = acc_ref a, fr_since = s \<rparr> (bk_friends ?b1) \<rparr>)" for s
      by (intro book_ok_friend [OF ok1]) auto
    then show ?thesis
      using Inr Some assms ok1 by (auto simp: confirm_def Let_def split: sum.splits)
  qed (use Inr assms in \<open>simp add: confirm_def\<close>)
qed (use assms in \<open>simp add: confirm_def\<close>)

lemma revoke_ok: "book_ok L b \<Longrightarrow> book_ok L (fst (revoke peer b))"
  using book_ok_drop(1) [of L b "bk_consumed b" peer] by (simp add: revoke_def)

lemma issueRevoke_ok: "book_ok L b \<Longrightarrow> book_ok L (fst (issueRevoke L rnd peer now b))"
  using book_ok_drop(1) [of L b "bk_consumed b" peer]
  by (auto simp: issueRevoke_def Let_def split: option.splits sum.splits)

lemma receiveRevoke_cases:
  "fst (receiveRevoke L n b) = b
   \<or> (\<exists>k c. fst (receiveRevoke L n b)
        = b\<lparr> bk_consumed := set_add c (bk_consumed b), bk_friends := map_del k (bk_friends b) \<rparr>)"
  by (auto simp: receiveRevoke_def split: sum.splits option.splits)

lemma receiveRevoke_ok: "book_ok L b \<Longrightarrow> book_ok L (fst (receiveRevoke L n b))"
  using receiveRevoke_cases [of L n b] book_ok_drop(1) [of L b] by (auto simp: subset_insertI)

lemma step_book_ok: "book_step L b b' \<Longrightarrow> book_ok L b \<Longrightarrow> book_ok L b'"
  by (induction rule: book_step.induct)
    (auto intro: issue_ok receive_ok accept_ok confirm_ok revoke_ok issueRevoke_ok receiveRevoke_ok)

interpretation book_machine: machine "book_init i lbl w" "book_step L" "book_ok L" for i lbl w L
proof unfold_locales
  show "book_init i lbl w b \<Longrightarrow> book_ok L b" for b
    by (simp add: book_init_def book_new_def book_ok_def)
qed (rule step_book_ok)

lemma steps_consumed: "steps (book_step L) b b' \<Longrightarrow> set (bk_consumed b) \<subseteq> set (bk_consumed b')"
  by (induction rule: steps.induct) (auto dest: step_consumed)

lemma steps_same_owner: "steps (book_step L) b b' \<Longrightarrow> same_owner b b'"
  by (induction rule: steps.induct) (auto simp: same_owner_def dest: step_same_owner)

definition book_wf :: "book \<Rightarrow> bool" where
  "book_wf b \<longleftrightarrow> wf_map (bk_offered b) \<and> wf_map (bk_pending b) \<and> wf_map (bk_friends b) \<and> distinct (bk_consumed b)
     \<and> list_all (\<lambda>(k, t). tok_v t = 1) (bk_offered b) \<and> list_all (\<lambda>(k, p). tok_v (pend_token p) = 1) (bk_pending b)"

section \<open>Addresses\<close>

lemma wg0_scan_found: "wg0_scan ip (Some r) rs = Some r' \<Longrightarrow>
    r' = r \<and> (\<forall>x \<in> set rs. peer_wg0 (fr_peer x) \<noteq> ip)"
  by (induction rs) (auto split: if_splits)

lemma wg0_scan_none:
  assumes "wg0_scan ip None rs = Some r"
  obtains as bs where "rs = as @ r # bs" "peer_wg0 (fr_peer r) = ip"
    "\<forall>x \<in> set as \<union> set bs. peer_wg0 (fr_peer x) \<noteq> ip"
  using assms
proof (induction rs arbitrary: thesis)
  case (Cons x rs)
  show ?case
  proof (cases "peer_wg0 (fr_peer x) = ip")
    case True
    then have "wg0_scan ip (Some x) rs = Some r" using Cons.prems(2) by simp
    from wg0_scan_found [OF this] show ?thesis using Cons.prems(1) [of "[]" rs] True by simp
  next
    case False
    then have "wg0_scan ip None rs = Some r" using Cons.prems(2) by simp
    then obtain as bs where "rs = as @ r # bs" "peer_wg0 (fr_peer r) = ip"
      "\<forall>y \<in> set as \<union> set bs. peer_wg0 (fr_peer y) \<noteq> ip"
      using Cons.IH by blast
    then show ?thesis using Cons.prems(1) [of "x # as" bs] False by simp
  qed
qed simp

lemma wg0_scan_complete:
  assumes "\<forall>x \<in> set as \<union> set bs. peer_wg0 (fr_peer x) \<noteq> ip" "peer_wg0 (fr_peer r) = ip"
  shows "wg0_scan ip None (as @ r # bs) = Some r"
proof -
  have tail: "\<forall>x \<in> set bs. peer_wg0 (fr_peer x) \<noteq> ip \<Longrightarrow> wg0_scan ip f bs = f" for f
    by (induction bs) auto
  then have "wg0_scan ip None (as @ r # bs) = wg0_scan ip None (r # bs)"
    using assms by (induction as) auto
  then show ?thesis using assms tail by simp
qed

lemma meshWg0_shape:
  assumes "meshWg0 a = Some ip"
  obtains h where "ip = js ''10.42.0.'' @ h" "a = ip \<or> a = js ''::ffff:'' @ ip" "list_all is_digit h"
    "1 \<le> nat_of_digits h" "nat_of_digits h \<le> 254"
proof -
  define q where "q = (if startsWith a (js ''::ffff:'') then drop 7 a else a)"
  have q: "a = q \<or> a = js ''::ffff:'' @ q"
  proof (cases "startsWith a (js ''::ffff:'')")
    case True
    then have "take 7 a = js ''::ffff:''" by (simp add: startsWith_def eval_nat_numeral)
    then show ?thesis using True append_take_drop_id [of 7 a] by (simp add: q_def)
  qed (simp add: q_def)
  have ip: "ip = q" "startsWith q (js ''10.42.0.'')" "list_all is_digit (drop 8 q)"
    "1 \<le> nat_of_digits (drop 8 q)" "nat_of_digits (drop 8 q) \<le> 254"
    using assms unfolding meshWg0_def Let_def q_def [symmetric] by (simp_all split: if_splits)
  have "take 8 q = js ''10.42.0.''" using ip(2) by (simp add: startsWith_def eval_nat_numeral)
  then have "q = js ''10.42.0.'' @ drop 8 q" using append_take_drop_id [of 8 q] by simp
  then show thesis using that [of "drop 8 q"] q ip by metis
qed

end
