(* ===== verification/FriendsProps.thy ===== *)
theory FriendsProps
  imports FriendsFacts
begin

text \<open>
  The properties of friending: a friendship exists only on evidence signed by the peer, the
  handshake makes it mutual, a nonce counts once, a notice ends exactly the friendship of its
  signer, and an address stands for at most one friend.
\<close>

section \<open>The handshake\<close>

lemma handshake_run:
  assumes L: "lib_ok L" and a: "id_ok L (bk_id a)" and b: "id_ok L (bk_id b)"
    and distinct: "selfEd L a \<noteq> selfEd L b"
    and fresh: "toB64 L rnd \<notin> set (bk_consumed a)" "toB64 L rnd \<notin> set (bk_consumed b)"
    and times: "\<forall>t \<in> {t0, t1, t2, t3}. - max_time \<le> t \<and> t \<le> t0 + ttl * 1000" "t0 + ttl * 1000 \<le> max_time"
  obtains tok blob a1 b1 b2 a2 ra rb where
    "issueToken L rnd ttl t0 a = (a1, Inr tok)"
    "receive L tok t1 b = (b1, Inr (peerPubOf L (bk_id a) (bk_label a) (bk_wg0 a)))"
    "accept L r (selfEd L a) t2 b1 = (b2, Inr blob)"
    "confirm L blob t3 a1 = (a2, Inr ra)"
    "friend (selfEd L b) a2 = Some ra" "fr_peer ra = peerPubOf L (bk_id b) (bk_label b) (bk_wg0 b)"
    "friend (selfEd L a) b2 = Some rb" "fr_peer rb = peerPubOf L (bk_id a) (bk_label a) (bk_wg0 a)"
    "fr_nonce ra = fr_nonce rb"
    "fr_since rb = iso_str t2" "bk_consumed b2 = set_add (toB64 L rnd) (bk_consumed b)" "bk_id a2 = bk_id a"
    "bk_id b2 = bk_id b"
proof -
  have iso: "toISOString t = Inr (iso_str t)" if "t \<in> {t0, t1, t2, t3}" for t
    using times that by (intro iffD2 [OF toISOString_eq]) force
  have iso_ex: "toISOString (t0 + ttl * 1000) = Inr (iso_str (t0 + ttl * 1000))"
    using times by (intro iffD2 [OF toISOString_eq]) force
  obtain tok where tok: "makeToken L rnd (bk_id a) (bk_label a) (bk_wg0 a) ttl t0 = Inr tok"
  proof -
    let ?body = "\<lparr> tok_v = 1, tok_from = peerPubOf L (bk_id a) (bk_label a) (bk_wg0 a), tok_nonce = toB64 L rnd,
      tok_issued = iso_str t0, tok_expires = iso_str (t0 + ttl * 1000), tok_sig = [] \<rparr>"
    have "json_ok (JObj (tokenSignable ?body))" unfolding signable_ok by simp
    from sign_total [OF L a this] obtain s where "sign L (tokenSignable ?body) (secretKey (ed25519 (bk_id a))) = Inr s" .
    then show thesis using iso [of t0] iso_ex that by (simp add: makeToken_def Let_def)
  qed
  note f = makeToken_fields [OF tok]
  let ?pa = "peerPubOf L (bk_id a) (bk_label a) (bk_wg0 a)"
  have pa: "peer_ed ?pa = selfEd L a" "peer_x ?pa = toB64 L (boxPublicKey (x25519 (bk_id a)))"
    by (simp_all add: peerPubOf_def selfEd_def)
  define a1 where "a1 = a\<lparr> bk_offered := map_set (tok_nonce tok) tok (bk_offered a) \<rparr>"
  have 1: "issueToken L rnd ttl t0 a = (a1, Inr tok)" by (simp add: issueToken_def tok a1_def)
  have ver: "verifyToken L tok t1 = Inr ?pa" using made_token_verifies [OF L a tok] times by auto
  define b1 where "b1 = b\<lparr> bk_pending := map_set (selfEd L a)
    \<lparr> pend_token = tok, pend_received = iso_str t1 \<rparr> (bk_pending b) \<rparr>"
  have 2: "receive L tok t1 b = (b1, Inr ?pa)"
    using ver fresh(2) distinct f(3) iso [of t1] by (simp add: receive_def pa b1_def)
  have live: "\<not> parses_before L (tok_expires tok) t2" "\<not> parses_before L (tok_expires tok) t3"
    using times by (simp_all add: parses_before_iso [OF f(4)])
  obtain blob ac where acc: "makeAccept L r (bk_id b) (bk_label b) (bk_wg0 b) tok t2 = Inr blob"
    "openAccept L (bk_id a) blob = Inr ac" "acc_from ac = peerPubOf L (bk_id b) (bk_label b) (bk_wg0 b)"
    "acc_ref ac = tok_nonce tok"
    by (rule made_accept_opens [OF L b a, of tok t2 "iso_str t2" r "bk_label b" "bk_wg0 b"])
      (use f(2) pa iso [of t2] in auto)
  define rb where "rb = \<lparr> fr_peer = ?pa, fr_state = AreFriends, fr_nonce = tok_nonce tok, fr_since = iso_str t2 \<rparr>"
  define b2 where "b2 = b1\<lparr> bk_pending := map_del (selfEd L a) (bk_pending b1),
    bk_consumed := set_add (tok_nonce tok) (bk_consumed b1), bk_friends := map_set (selfEd L a) rb (bk_friends b1) \<rparr>"
  have 3: "accept L r (selfEd L a) t2 b1 = (b2, Inr blob)"
    using live acc(1) f(2) iso [of t2] by (simp add: accept_def b1_def b2_def Let_def rb_def)
  define ra where "ra = \<lparr> fr_peer = acc_from ac, fr_state = AreFriends, fr_nonce = acc_ref ac, fr_since = iso_str t3 \<rparr>"
  have 4: "confirm L blob t3 a1 = (fst (confirm L blob t3 a1), Inr ra)"
    "friend (selfEd L b) (fst (confirm L blob t3 a1)) = Some ra"
    using live acc(2-4) fresh(1) f(3) iso [of t3]
    by (simp_all add: confirm_def a1_def Let_def ra_def friend_def peerPubOf_def selfEd_def)
  show thesis
  proof (rule that [OF 1 2 3 4])
    show "fr_peer ra = peerPubOf L (bk_id b) (bk_label b) (bk_wg0 b)" by (simp add: ra_def acc(3))
    show "friend (selfEd L a) b2 = Some rb" by (simp add: friend_def b2_def)
    show "fr_peer rb = ?pa" unfolding rb_def by simp
    show "fr_nonce ra = fr_nonce rb" by (simp add: ra_def rb_def acc(4))
    show "fr_since rb = iso_str t2" unfolding rb_def by simp
    show "bk_consumed b2 = set_add (toB64 L rnd) (bk_consumed b)" by (simp add: b2_def b1_def f(3))
    show "bk_id b2 = bk_id b" by (simp add: b2_def b1_def)
    show "bk_id (fst (confirm L blob t3 a1)) = bk_id a"
      using step_same_owner [OF book_step.Confirm [of L a1 blob t3]] by (simp add: same_owner_def a1_def)
  qed
qed

definition demo_book :: "byte \<Rightarrow> book" where
  "demo_book k = book_new (demo_id k) (js ''node'') (js ''10.42.0.5'')"

lemma demo_book_self: "selfEd demo_lib (demo_book j) = selfEd demo_lib (demo_book k) \<longleftrightarrow> j = k"
  by (simp add: selfEd_def demo_book_def book_new_def)

lemma demo_book_simps [simp]:
  "bk_id (demo_book k) = demo_id k" "bk_consumed (demo_book k) = []" "bk_label (demo_book k) = js ''node''"
  "bk_wg0 (demo_book k) = js ''10.42.0.5''"
  by (simp_all add: demo_book_def book_new_def)

lemma demo_handshake:
  obtains tok blob a1 b1 b2 a2 ra rb where
    "issueToken demo_lib [7] 60 0 (demo_book 1) = (a1, Inr tok)"
    "receive demo_lib tok 0 (demo_book 2) = (b1, Inr (peerPubOf demo_lib (demo_id 1) (js ''node'') (js ''10.42.0.5'')))"
    "accept demo_lib [] (selfEd demo_lib (demo_book 1)) 0 b1 = (b2, Inr blob)"
    "confirm demo_lib blob 0 a1 = (a2, Inr ra)"
    "friend (selfEd demo_lib (demo_book 2)) a2 = Some ra"
    "friend (selfEd demo_lib (demo_book 1)) b2 = Some rb"
    "fr_peer rb = peerPubOf demo_lib (demo_id 1) (js ''node'') (js ''10.42.0.5'')"
    "fr_since rb = iso_str 0" "bk_consumed b2 = [toB64 demo_lib [7]]" "bk_id a2 = demo_id 1" "bk_id b2 = demo_id 2"
  by (rule handshake_run [where L = demo_lib and a = "demo_book 1" and b = "demo_book 2" and rnd = "[7]" and r = "[]"
      and ?t0.0 = 0 and ?t1.0 = 0 and ?t2.0 = 0 and ?t3.0 = 0 and ttl = 60])
    (simp_all add: demo_lib_ok demo_book_self max_time_def set_add_def)

lemma demo_friend:
  obtains b r where "reachable (book_init (demo_id 2) (js ''node'') (js ''10.42.0.5'')) (book_step demo_lib) b"
    "friend (selfEd demo_lib (demo_book 1)) b = Some r" "fr_since r = iso_str 0"
    "fr_peer r = peerPubOf demo_lib (demo_id 1) (js ''node'') (js ''10.42.0.5'')"
    "bk_consumed b = [toB64 demo_lib [7]]"
proof -
  obtain tok blob b1 b2 rb p where run: "receive demo_lib tok 0 (demo_book 2) = (b1, Inr p)"
    "accept demo_lib [] (selfEd demo_lib (demo_book 1)) 0 b1 = (b2, Inr blob)"
    "friend (selfEd demo_lib (demo_book 1)) b2 = Some rb"
    "fr_peer rb = peerPubOf demo_lib (demo_id 1) (js ''node'') (js ''10.42.0.5'')"
    "fr_since rb = iso_str 0" "bk_consumed b2 = [toB64 demo_lib [7]]"
    by (rule demo_handshake)
  have "reachable (book_init (demo_id 2) (js ''node'') (js ''10.42.0.5'')) (book_step demo_lib) (demo_book 2)"
    by (rule reachable.start) (simp add: book_init_def demo_book_def)
  moreover have "book_step demo_lib (demo_book 2) b1"
    using book_step.Receive [of demo_lib "demo_book 2" tok 0] run(1) by simp
  moreover have "book_step demo_lib b1 b2"
    using book_step.Accept [of demo_lib b1 "[]" "selfEd demo_lib (demo_book 1)" 0] run(2) by simp
  ultimately have "reachable (book_init (demo_id 2) (js ''node'') (js ''10.42.0.5'')) (book_step demo_lib) b2"
    by (rule reachable.next_step [OF reachable.next_step])
  then show thesis using run(3,5,4,6) by (rule that)
qed

text \<open>
  the full handshake makes a friendship mutual: a token issued by one node, received and
  accepted by another within its lifetime, and the accept confirmed by the first, leaves each with a
  record of the other, under the other's signing key, with the other's keys, label and address, and
  with the same nonce.
\<close>

theorem handshake_mutual:
  assumes "lib_ok L" "id_ok L (bk_id a)" "id_ok L (bk_id b)" "selfEd L a \<noteq> selfEd L b"
    and "toB64 L rnd \<notin> set (bk_consumed a)" "toB64 L rnd \<notin> set (bk_consumed b)"
    and "\<forall>t \<in> {t0, t1, t2, t3}. - max_time \<le> t \<and> t \<le> t0 + ttl * 1000" "t0 + ttl * 1000 \<le> max_time"
  shows "\<exists>tok blob a1 b1 b2 a2 ra rb.
      issueToken L rnd ttl t0 a = (a1, Inr tok)
    \<and> receive L tok t1 b = (b1, Inr (peerPubOf L (bk_id a) (bk_label a) (bk_wg0 a)))
    \<and> accept L r (selfEd L a) t2 b1 = (b2, Inr blob)
    \<and> confirm L blob t3 a1 = (a2, Inr ra)
    \<and> friend (selfEd L b) a2 = Some ra \<and> fr_peer ra = peerPubOf L (bk_id b) (bk_label b) (bk_wg0 b)
    \<and> friend (selfEd L a) b2 = Some rb \<and> fr_peer rb = peerPubOf L (bk_id a) (bk_label a) (bk_wg0 a)
    \<and> fr_nonce ra = fr_nonce rb"
proof (rule handshake_run [OF assms, of r])
  fix tok blob a1 b1 b2 a2 ra rb
  assume "issueToken L rnd ttl t0 a = (a1, Inr tok)"
    "receive L tok t1 b = (b1, Inr (peerPubOf L (bk_id a) (bk_label a) (bk_wg0 a)))"
    "accept L r (selfEd L a) t2 b1 = (b2, Inr blob)" "confirm L blob t3 a1 = (a2, Inr ra)"
    "friend (selfEd L b) a2 = Some ra" "fr_peer ra = peerPubOf L (bk_id b) (bk_label b) (bk_wg0 b)"
    "friend (selfEd L a) b2 = Some rb" "fr_peer rb = peerPubOf L (bk_id a) (bk_label a) (bk_wg0 a)"
    "fr_nonce ra = fr_nonce rb"
  then show ?thesis by (intro exI conjI)
qed

theorem handshake_mutual_witness:
  "\<exists>tok a1. issueToken demo_lib [7] 60 0 (demo_book 1) = (a1, Inr tok)
     \<and> (\<exists>b1 p. receive demo_lib tok 59000 (demo_book 2) = (b1, Inr p))"
  using handshake_mutual [of demo_lib "demo_book 1" "demo_book 2" "[7]" 0 59000 59500 60000 60 "[]"] demo_book_self [of 1 2]
  by (force simp: demo_lib_ok max_time_def)

text \<open>
  C21: every friend of a reachable book is there on evidence: the record is kept under the peer's
  own signing key, and a signature that verifies under that key covers the peer's keys, label and
  address, in a token with the nonce of the record, or in an accept for an offer this node made
  with that nonce.
\<close>

theorem friendship_has_evidence:
  assumes "reachable (book_init i lbl w) (book_step L) b" "friend k b = Some r"
  shows "k = peer_ed (fr_peer r) \<and> fr_nonce r \<in> set (bk_consumed b)
    \<and> ((\<exists>t. tok_from t = fr_peer r \<and> tok_nonce t = fr_nonce r \<and> verify L (tokenSignable t) (tok_sig t) k = Inr True)
     \<or> (\<exists>ac t. acc_from ac = fr_peer r \<and> acc_ref ac = fr_nonce r \<and> verify L (acceptSignable ac) (acc_sig ac) k = Inr True
          \<and> own_offer L b t \<and> tok_nonce t = fr_nonce r))"
proof -
  have k: "k = peer_ed (fr_peer r)" "fr_nonce r \<in> set (bk_consumed b)" "by_token L r \<or> by_accept L b r"
    using book_machine.reachable_inv [OF assms(1)] assms(2) unfolding book_ok_def friend_def by blast+
  from k(3) show ?thesis
  proof
    assume "by_token L r"
    then obtain t now where "verifyToken L t now = Inr (fr_peer r)" "tok_nonce t = fr_nonce r"
      unfolding by_token_def by blast
    then have "tok_from t = fr_peer r \<and> tok_nonce t = fr_nonce r \<and> verify L (tokenSignable t) (tok_sig t) k = Inr True"
      by (auto simp: verifyToken_eq_Inr k(1))
    then show ?thesis using k by blast
  next
    assume "by_accept L b r"
    then obtain blob ac t where ac: "openAccept L (bk_id b) blob = Inr ac" "acc_from ac = fr_peer r"
      "acc_ref ac = fr_nonce r" "own_offer L b t" "tok_nonce t = fr_nonce r" unfolding by_accept_def by blast
    then have "verify L (acceptSignable ac) (acc_sig ac) k = Inr True" by (auto simp: openAccept_eq_Inr k(1))
    then show ?thesis using k ac by blast
  qed
qed

theorem friendship_has_evidence_witness:
  "\<exists>b k r. friend k b = Some r \<and> k = peer_ed (fr_peer r) \<and> fr_nonce r \<in> set (bk_consumed b)"
proof (rule demo_friend)
  fix b r assume "reachable (book_init (demo_id 2) (js ''node'') (js ''10.42.0.5'')) (book_step demo_lib) b"
    "friend (selfEd demo_lib (demo_book 1)) b = Some r"
  from friendship_has_evidence [OF this] this(2) show ?thesis by blast
qed


text \<open>
  C3: nobody can make a node a friend of a key whose holder did not sign for it: if every message
  that verifies under a key belongs to a set with no token and no accept in it, then no sequence of
  calls of the book, with whatever arguments, makes that key a friend.
\<close>

theorem friendship_not_forgeable:
  assumes "base64_ok L" "reachable (book_init i lbl w) (book_step L) b"
    and "\<And>sig m. crypto_sign_verify_detached L sig m pk = Some True \<Longrightarrow> m \<in> Signed"
    and "\<And>t m. canonicalBytes (JObj (tokenSignable t)) = Inr m \<Longrightarrow> m \<notin> Signed"
    and "\<And>a m. canonicalBytes (JObj (acceptSignable a)) = Inr m \<Longrightarrow> m \<notin> Signed"
  shows "\<not> isFriend (toB64 L pk) b"
proof
  assume "isFriend (toB64 L pk) b"
  then obtain r where r: "friend (toB64 L pk) b = Some r"
    by (auto simp: isFriend_def friend_def map_has_get)
  have ok: "book_ok L b" by (rule book_machine.reachable_inv [OF assms(2)])
  have signed: "\<exists>m. canonicalBytes (JObj p) = Inr m \<and> m \<in> Signed" if "verify L p s (toB64 L pk) = Inr True" for p s
    using that assms(1,3) by (auto simp: verify_def res_eq)
  have "by_token L r \<or> by_accept L b r" "toB64 L pk = peer_ed (fr_peer r)"
    using ok r unfolding book_ok_def friend_def by blast+
  then show False
    using signed assms(4,5) by (fastforce simp: by_token_def by_accept_def verifyToken_eq_Inr openAccept_eq_Inr)
qed

definition picky_lib :: lib where
  \<comment> \<open>the concrete library, except that nothing verifies under one key\<close>
  "picky_lib = demo_lib\<lparr> crypto_sign_verify_detached := \<lambda>sig m pk.
     if pk = replicate 32 9 then Some False else crypto_sign_verify_detached demo_lib sig m pk \<rparr>"

theorem friendship_not_forgeable_witness:
  "\<not> isFriend (toB64 picky_lib (replicate 32 9)) (fst (issueToken picky_lib [7] 60 0 (demo_book 1)))"
proof (rule friendship_not_forgeable [where Signed = "{}" and i = "demo_id 1" and lbl = "js ''node''" and w = "js ''10.42.0.5''"])
  show "base64_ok picky_lib" using demo_base64 by (simp add: base64_ok_def picky_lib_def)
  show "reachable (book_init (demo_id 1) (js ''node'') (js ''10.42.0.5'')) (book_step picky_lib)
      (fst (issueToken picky_lib [7] 60 0 (demo_book 1)))"
    by (rule reachable.next_step [where s = "demo_book 1"], rule reachable.start)
      (simp_all add: book_init_def demo_book_def book_step.Issue)
qed (simp_all add: picky_lib_def)

section \<open>Single use\<close>

lemma confirm_spends:
  "confirm L blob now b = (b', Inr r) \<Longrightarrow>
   \<exists>a. openAccept L (bk_id b) blob = Inr a \<and> acc_ref a \<in> set (bk_consumed b')"
  by (auto simp: confirm_def Let_def split: sum.splits option.splits if_splits)

text \<open>
  an offer is confirmed at most once: after a confirmation, and any later calls of the book,
  the same accept blob is refused with a friend error and changes nothing.
\<close>

theorem confirm_once:
  assumes "confirm L blob now b = (b1, Inr r)" "steps (book_step L) b1 b2"
  shows "\<exists>msg. confirm L blob now' b2 = (b2, throw FriendError msg)"
proof -
  obtain a where a: "openAccept L (bk_id b) blob = Inr a" "acc_ref a \<in> set (bk_consumed b1)"
    using confirm_spends [OF assms(1)] by blast
  have "same_owner b b1" using step_same_owner [OF book_step.Confirm [of L b blob now]] assms(1) by simp
  then have "bk_id b2 = bk_id b" using steps_same_owner [OF assms(2)] by (simp add: same_owner_def)
  moreover have "acc_ref a \<in> set (bk_consumed b2)" using a(2) steps_consumed [OF assms(2)] by blast
  ultimately show ?thesis using a(1) by (cases "map_get (bk_offered b2) (acc_ref a)") (auto simp: confirm_def)
qed

theorem confirm_once_witness:
  "\<exists>blob b1 r msg. confirm demo_lib blob 0 (fst (issueToken demo_lib [7] 60 0 (demo_book 1))) = (b1, Inr r)
     \<and> confirm demo_lib blob 0 b1 = (b1, throw FriendError msg)"
proof -
  obtain tok blob a1 a2 ra where run: "issueToken demo_lib [7] 60 0 (demo_book 1) = (a1, Inr tok)"
    "confirm demo_lib blob 0 a1 = (a2, Inr ra)"
    by (rule demo_handshake)
  obtain msg where "confirm demo_lib blob 0 a2 = (a2, throw FriendError msg)"
    using confirm_once [OF run(2) steps.refl, of 0] by blast
  with run show ?thesis by auto
qed

text \<open>
  C22: a token accepted once is refused when it comes back: after an accept, and any later calls,
  receiving the same token again is an error and changes nothing. The tokens are those of the declared
  type, with strings for fields, as every invite code decodes to; the two routes that take a raw token
  do not check its fields, and a nonce that is an array is never found among the spent ones.
\<close>

theorem token_once:
  assumes "map_get (bk_pending b) giver = Some p" "accept L r giver now b = (b1, Inr blob)" "steps (book_step L) b1 b2"
  shows "\<exists>e. receive L (pend_token p) now' b2 = (b2, Inl e)"
proof -
  have "tok_nonce (pend_token p) \<in> set (bk_consumed b1)"
    using assms(1,2) by (auto simp: accept_def Let_def split: sum.splits if_splits)
  then have "tok_nonce (pend_token p) \<in> set (bk_consumed b2)" using steps_consumed [OF assms(3)] by blast
  then show ?thesis
    by (cases "verifyToken L (pend_token p) now'") (auto simp: receive_def throw_def)
qed

theorem token_once_witness:
  "\<exists>tok b1 b2 blob e. accept demo_lib [] (selfEd demo_lib (demo_book 1)) 0 b1 = (b2, Inr blob)
     \<and> map_get (bk_pending b1) (selfEd demo_lib (demo_book 1)) = Some tok
     \<and> receive demo_lib (pend_token tok) 0 b2 = (b2, Inl e)"
proof -
  obtain b1 b2 blob where acc: "accept demo_lib [] (selfEd demo_lib (demo_book 1)) 0 b1 = (b2, Inr blob)"
    by (rule demo_handshake)
  then obtain p where p: "map_get (bk_pending b1) (selfEd demo_lib (demo_book 1)) = Some p"
    by (auto simp: accept_def split: option.splits)
  obtain e where "receive demo_lib (pend_token p) 0 b2 = (b2, Inl e)"
    using token_once [OF p acc steps.refl, of 0] by blast
  with acc p show ?thesis by blast
qed

section \<open>Revoking\<close>

lemma receiveRevoke_eq_Inr:
  "receiveRevoke L notice b = (b', Inr rec) \<longleftrightarrow>
     (\<exists>n at. revoke_of_json notice = Inr n \<and> rev_target n = selfEd L b \<and> map_get (bk_friends b) (rev_from n) = Some rec
        \<and> rev_nonce n \<notin> set (bk_consumed b)
        \<and> verify L (revokeSignable n) (rev_sig n) (peer_ed (fr_peer rec)) = Inr True
        \<and> dateParse L (rev_at n) = Some at \<and> \<not> before_era L at (fr_since rec)
        \<and> b' = b\<lparr> bk_consumed := set_add (rev_nonce n) (bk_consumed b),
                  bk_friends := map_del (rev_from n) (bk_friends b) \<rparr>)"
  by (auto simp: receiveRevoke_def split: sum.splits option.splits)

lemma revoke_json_back:
  "rev_v n = 1 \<Longrightarrow> revoke_of_json (Some (JObj (revokeSignable n @ [(js ''sig'', JStr (rev_sig n))]))) = Inr n"
  by (simp add: revoke_of_json_def revokeSignable_def)

lemma receive_signed_notice:
  assumes "lib_ok L" "id_ok L i" "sign L (revokeSignable n) (secretKey (ed25519 i)) = Inr (rev_sig n)"
    and "rev_v n = 1" "rev_target n = selfEd L b" "friend (rev_from n) b = Some rb"
    and "peer_ed (fr_peer rb) = toB64 L (publicKey (ed25519 i))" "rev_nonce n \<notin> set (bk_consumed b)"
    and "toISOString now = Inr (rev_at n)" "\<not> before_era L now (fr_since rb)"
  shows "receiveRevoke L (Some (JObj (revokeSignable n @ [(js ''sig'', JStr (rev_sig n))]))) b
    = (b\<lparr> bk_consumed := set_add (rev_nonce n) (bk_consumed b), bk_friends := map_del (rev_from n) (bk_friends b) \<rparr>, Inr rb)"
  unfolding receiveRevoke_eq_Inr
  using revoke_json_back [OF assms(4)] sign_verifies [OF assms(1-3)] assms(5-10) dateParse_toISOString [OF assms(9), of L]
  by (auto simp: friend_def)

lemma sign_demo_notice:
  obtains g where "sign demo_lib (revokeSignable \<lparr> rev_v = 1, rev_from = x, rev_target = y, rev_nonce = z, rev_at = at,
    rev_sig = [] \<rparr>) (secretKey (ed25519 (demo_id k))) = Inr g"
proof -
  have "json_ok (JObj (revokeSignable \<lparr> rev_v = 1, rev_from = x, rev_target = y, rev_nonce = z, rev_at = at, rev_sig = [] \<rparr>))"
    unfolding signable_ok by simp
  from sign_total [OF demo_lib_ok demo_id_ok this] that show thesis by blast
qed

lemma demo_iso_now: "toISOString 0 = Inr (iso_str 0)"
  by (simp add: toISOString_eq max_time_def)

lemma demo_era: "\<not> before_era demo_lib 0 (iso_str 0)"
  by (simp add: before_era_def dateParse_toISOString [OF demo_iso_now] REVOKE_SKEW_MS_def)

lemma receiveRevoke_refused: "receiveRevoke L notice b = (b', Inl e) \<Longrightarrow> b' = b"
  by (auto simp: receiveRevoke_def split: sum.splits option.splits if_splits)

text \<open>
  C23: a revoke notice that is accepted names this node, is signed under the key the stored
  friendship established, is not older than that friendship, and removes that friend and no other. It
  counts once: after any later calls, becoming friends again among them, a notice with its nonce, in
  particular the same one, is refused and changes nothing.
\<close>

theorem revoke_authentic:
  assumes "reachable (book_init i lbl w) (book_step L) b" "receiveRevoke L notice b = (b', Inr rec)"
  shows "\<exists>n at. revoke_of_json notice = Inr n \<and> rev_target n = selfEd L b \<and> friend (rev_from n) b = Some rec
    \<and> verify L (revokeSignable n) (rev_sig n) (rev_from n) = Inr True
    \<and> dateParse L (rev_at n) = Some at \<and> \<not> before_era L at (fr_since rec)
    \<and> (\<forall>k. friend k b' = (if k = rev_from n then None else friend k b))
    \<and> (\<forall>b2 notice' n'. steps (book_step L) b' b2 \<longrightarrow> revoke_of_json notice' = Inr n' \<longrightarrow> rev_nonce n' = rev_nonce n
         \<longrightarrow> (\<exists>e. receiveRevoke L notice' b2 = (b2, Inl e)))"
proof -
  obtain n at where n: "revoke_of_json notice = Inr n" "rev_target n = selfEd L b"
    "map_get (bk_friends b) (rev_from n) = Some rec"
    "verify L (revokeSignable n) (rev_sig n) (peer_ed (fr_peer rec)) = Inr True"
    "dateParse L (rev_at n) = Some at" "\<not> before_era L at (fr_since rec)"
    "b' = b\<lparr> bk_consumed := set_add (rev_nonce n) (bk_consumed b), bk_friends := map_del (rev_from n) (bk_friends b) \<rparr>"
    using assms(2) unfolding receiveRevoke_eq_Inr by blast
  have "rev_from n = peer_ed (fr_peer rec)"
    using book_machine.reachable_inv [OF assms(1)] n(3) unfolding book_ok_def by blast
  moreover have "\<exists>e. receiveRevoke L notice' b2 = (b2, Inl e)"
    if later: "steps (book_step L) b' b2" and n': "revoke_of_json notice' = Inr n'" "rev_nonce n' = rev_nonce n" for b2 notice' n'
  proof -
    have spent: "rev_nonce n' \<in> set (bk_consumed b2)" using steps_consumed [OF later] n(7) n'(2) by auto
    show ?thesis
    proof (cases "receiveRevoke L notice' b2")
      case (Pair b3 r)
      then show ?thesis
      proof (cases r)
        case (Inl e)
        then show ?thesis using Pair receiveRevoke_refused by metis
      next
        case (Inr rec')
        then have "receiveRevoke L notice' b2 = (b3, Inr rec')" using Pair by simp
        then show ?thesis using spent n'(1) unfolding receiveRevoke_eq_Inr by auto
      qed
    qed
  qed
  ultimately show ?thesis using n by (auto simp: friend_def)
qed

theorem revoke_authentic_witness:
  "\<exists>b b' notice r n. receiveRevoke demo_lib notice b = (b', Inr r)
     \<and> revoke_of_json notice = Inr n \<and> friend (rev_from n) b = Some r \<and> friend (rev_from n) b' = None"
proof (rule demo_friend)
  fix b r
  assume b: "reachable (book_init (demo_id 2) (js ''node'') (js ''10.42.0.5'')) (book_step demo_lib) b"
    "friend (selfEd demo_lib (demo_book 1)) b = Some r" "fr_since r = iso_str 0"
    "fr_peer r = peerPubOf demo_lib (demo_id 1) (js ''node'') (js ''10.42.0.5'')"
    "bk_consumed b = [toB64 demo_lib [7]]"
  let ?n = "\<lambda>g. \<lparr> rev_v = 1, rev_from = selfEd demo_lib (demo_book 1), rev_target = selfEd demo_lib b,
    rev_nonce = toB64 demo_lib [8], rev_at = iso_str 0, rev_sig = g \<rparr>"
  obtain g where "sign demo_lib (revokeSignable (?n [])) (secretKey (ed25519 (demo_id 1))) = Inr g"
    by (rule sign_demo_notice)
  then have "sign demo_lib (revokeSignable (?n g)) (secretKey (ed25519 (demo_id 1))) = Inr g"
    by (simp add: revokeSignable_def)
  then obtain b' where recv:
    "receiveRevoke demo_lib (Some (JObj (revokeSignable (?n g) @ [(js ''sig'', JStr g)]))) b = (b', Inr r)"
    using receive_signed_notice [OF demo_lib_ok demo_id_ok, of "?n g" 1 b r 0] b demo_iso_now demo_era
    by (simp add: peerPubOf_def)
  from revoke_authentic [OF b(1) recv] recv show ?thesis by metis
qed

text \<open>
  C24: ending a friendship is mutual once the notice arrives: the notice one node issues for a
  friend, as JSON, makes that friend drop the issuer too, if it still has it as a friend and the
  nonce is new to it, and the issuer's clock is not more than the allowed skew behind the start of
  the friendship.
\<close>

theorem revoke_mutual:
  assumes "lib_ok L" "id_ok L (bk_id a)" "issueRevoke L rnd (selfEd L b) now a = (a', Inr (Some (n, addr)))"
    and "friend (selfEd L a) b = Some rb" "peer_ed (fr_peer rb) = selfEd L a"
    and "toB64 L rnd \<notin> set (bk_consumed b)" "\<not> before_era L now (fr_since rb)"
  shows "friend (selfEd L b) a' = None
    \<and> (\<exists>b'. receiveRevoke L (Some (JObj (revokeSignable n @ [(js ''sig'', JStr (rev_sig n))]))) b = (b', Inr rb)
         \<and> friend (selfEd L a) b' = None)"
proof -
  obtain ra s g where r: "map_get (bk_friends a) (selfEd L b) = Some ra" "toISOString now = Inr s"
    "n = \<lparr> rev_v = 1, rev_from = selfEd L a, rev_target = selfEd L b, rev_nonce = toB64 L rnd, rev_at = s, rev_sig = g \<rparr>"
    "a' = a\<lparr> bk_friends := map_del (selfEd L b) (bk_friends a) \<rparr>"
    "sign L (revokeSignable n) (secretKey (ed25519 (bk_id a))) = Inr g"
    using assms(3) by (auto simp: issueRevoke_def Let_def revokeSignable_def split: option.splits sum.splits)
  have sig: "sign L (revokeSignable n) (secretKey (ed25519 (bk_id a))) = Inr (rev_sig n)"
    using r(5) by (simp add: r(3))
  have "receiveRevoke L (Some (JObj (revokeSignable n @ [(js ''sig'', JStr (rev_sig n))]))) b
      = (b\<lparr> bk_consumed := set_add (toB64 L rnd) (bk_consumed b), bk_friends := map_del (selfEd L a) (bk_friends b) \<rparr>, Inr rb)"
    using receive_signed_notice [OF assms(1,2) sig, of b rb now] assms(4-7) r(2) by (simp add: r(3) selfEd_def)
  then show ?thesis using r(4) by (simp add: friend_def)
qed

theorem revoke_mutual_witness:
  "\<exists>a b a' b' n addr r. issueRevoke demo_lib [8] (selfEd demo_lib b) 0 a = (a', Inr (Some (n, addr)))
     \<and> friend (selfEd demo_lib a) b = Some r
     \<and> receiveRevoke demo_lib (Some (JObj (revokeSignable n @ [(js ''sig'', JStr (rev_sig n))]))) b = (b', Inr r)
     \<and> friend (selfEd demo_lib a) b' = None"
proof -
  obtain ra rb a2 b2 where run: "friend (selfEd demo_lib (demo_book 2)) a2 = Some ra"
    "friend (selfEd demo_lib (demo_book 1)) b2 = Some rb"
    "fr_peer rb = peerPubOf demo_lib (demo_id 1) (js ''node'') (js ''10.42.0.5'')"
    "fr_since rb = iso_str 0" "bk_consumed b2 = [toB64 demo_lib [7]]" "bk_id a2 = demo_id 1" "bk_id b2 = demo_id 2"
    by (rule demo_handshake)
  have self: "selfEd demo_lib a2 = selfEd demo_lib (demo_book 1)" "selfEd demo_lib b2 = selfEd demo_lib (demo_book 2)"
    by (simp_all add: selfEd_def run(6,7))
  obtain g where "sign demo_lib (revokeSignable \<lparr> rev_v = 1, rev_from = selfEd demo_lib a2, rev_target = selfEd demo_lib b2,
      rev_nonce = toB64 demo_lib [8], rev_at = iso_str 0, rev_sig = [] \<rparr>) (secretKey (ed25519 (demo_id 1))) = Inr g"
    by (rule sign_demo_notice)
  then obtain n addr a' where issue: "issueRevoke demo_lib [8] (selfEd demo_lib b2) 0 a2 = (a', Inr (Some (n, addr)))"
    using run(1) demo_iso_now by (simp add: issueRevoke_def self friend_def Let_def run(6))
  have id: "id_ok demo_lib (bk_id a2)" by (simp add: run(6))
  from revoke_mutual [OF demo_lib_ok id issue, of rb] run self demo_era obtain b' where
    "receiveRevoke demo_lib (Some (JObj (revokeSignable n @ [(js ''sig'', JStr (rev_sig n))]))) b2 = (b', Inr rb)"
    "friend (selfEd demo_lib a2) b' = None" by (auto simp: peerPubOf_def selfEd_def)
  moreover have "friend (selfEd demo_lib a2) b2 = Some rb" using run(2) self by simp
  ultimately show ?thesis using issue by blast
qed

section \<open>Addresses\<close>

text \<open>
  C25: resolving an address fails closed: the friend found is the only one that claims the address,
  the address is a host of the mesh and not this node's own, and it is the caller's address or its
  IPv4-mapped form. Where two friends claim it, nobody is found.
\<close>

theorem friendByWg0_fail_closed:
  "friendByWg0 a b = Some r \<longleftrightarrow>
     (\<exists>ip as bs. meshWg0 a = Some ip \<and> (a = ip \<or> a = js ''::ffff:'' @ ip) \<and> ip \<noteq> bk_wg0 b
        \<and> listFriends b = as @ r # bs \<and> peer_wg0 (fr_peer r) = ip
        \<and> (\<forall>x \<in> set as \<union> set bs. peer_wg0 (fr_peer x) \<noteq> ip))"
proof
  assume "friendByWg0 a b = Some r"
  then obtain ip where ip: "meshWg0 a = Some ip" "ip \<noteq> bk_wg0 b" "wg0_scan ip None (listFriends b) = Some r"
    by (auto simp: friendByWg0_def split: option.splits if_splits)
  have "a = ip \<or> a = js ''::ffff:'' @ ip" by (rule meshWg0_shape [OF ip(1)])
  moreover obtain as bs where "listFriends b = as @ r # bs" "peer_wg0 (fr_peer r) = ip"
    "\<forall>x \<in> set as \<union> set bs. peer_wg0 (fr_peer x) \<noteq> ip" by (rule wg0_scan_none [OF ip(3)])
  ultimately show "\<exists>ip as bs. meshWg0 a = Some ip \<and> (a = ip \<or> a = js ''::ffff:'' @ ip) \<and> ip \<noteq> bk_wg0 b
        \<and> listFriends b = as @ r # bs \<and> peer_wg0 (fr_peer r) = ip
        \<and> (\<forall>x \<in> set as \<union> set bs. peer_wg0 (fr_peer x) \<noteq> ip)" using ip by blast
next
  assume "\<exists>ip as bs. meshWg0 a = Some ip \<and> (a = ip \<or> a = js ''::ffff:'' @ ip) \<and> ip \<noteq> bk_wg0 b
        \<and> listFriends b = as @ r # bs \<and> peer_wg0 (fr_peer r) = ip
        \<and> (\<forall>x \<in> set as \<union> set bs. peer_wg0 (fr_peer x) \<noteq> ip)"
  then show "friendByWg0 a b = Some r" by (auto simp: friendByWg0_def wg0_scan_complete)
qed

theorem friendByWg0_fail_closed_witness:
  "\<exists>b r. friendByWg0 (js ''::ffff:10.42.0.7'') b = Some r \<and> peer_wg0 (fr_peer r) = js ''10.42.0.7''"
proof -
  define r where "r = \<lparr> fr_peer = \<lparr> peer_ed = [], peer_x = [], peer_label = [], peer_wg0 = js ''10.42.0.7'' \<rparr>,
    fr_state = AreFriends, fr_nonce = [], fr_since = [] \<rparr>"
  have "meshWg0 (js ''::ffff:10.42.0.7'') = Some (js ''10.42.0.7'')" by code_simp
  then have "friendByWg0 (js ''::ffff:10.42.0.7'') ((demo_book 1)\<lparr> bk_friends := [([], r)] \<rparr>) = Some r"
    unfolding friendByWg0_fail_closed
    by (intro exI [of _ "js ''10.42.0.7''"] exI [of _ "[]"]) (auto simp: js_def r_def listFriends_def)
  moreover have "peer_wg0 (fr_peer r) = js ''10.42.0.7''" by (simp add: r_def)
  ultimately show ?thesis by blast
qed

section \<open>Saving the book\<close>

lemma wf_entries [simp]: "map (fst \<circ> (\<lambda>(k, v). (k, f v))) m = map fst m"
  by (induction m) auto

lemma all_map_set: "list_all P m \<Longrightarrow> P (k, v) \<Longrightarrow> list_all P (map_set k v m)"
  using set_map_set [of k v m] by (auto simp: list_all_iff)

lemma all_map_del: "list_all P m \<Longrightarrow> list_all P (map_del k m)"
  using set_map_del [of k m] by (auto simp: list_all_iff)

lemma step_book_wf: "book_step L b b' \<Longrightarrow> book_wf b \<Longrightarrow> book_wf b'"
  by (induction rule: book_step.induct)
    (auto simp: book_wf_def book_ops Let_def verifyToken_eq_Inr makeToken_fields
      intro!: all_map_set all_map_del split: option.splits sum.splits)

interpretation book_wf_machine: machine "book_init i lbl w" "book_step L" book_wf for i lbl w L
proof unfold_locales
  show "book_init i lbl w b \<Longrightarrow> book_wf b" for b by (simp add: book_init_def book_new_def book_wf_def)
qed (rule step_book_wf)

lemma book_json_ok: "book_wf b \<Longrightarrow> json_ok (book_toJSON b)"
  by (auto simp: book_wf_def book_toJSON_def from_entries_def token_json_def pending_json_def record_json_def
      list_all_iff peerPubJson_def)

text \<open>
  a restart restores the book: what a reachable book is saved as, parsed and loaded for the
  same identity, label and address, is that book.
\<close>

theorem book_survives_restart:
  assumes "reachable (book_init i lbl w) (book_step L) b"
  shows "\<exists>d. json_parse num_of (json_stringify (book_toJSON b)) = Some d
    \<and> book_fromJSON (bk_id b) (bk_label b) (bk_wg0 b) d = Inr b"
proof -
  have wf: "book_wf b" by (rule book_wf_machine.reachable_inv [OF assms])
  have "json_parse num_of (json_stringify (book_toJSON b)) = Some (book_toJSON b)"
    unfolding json_stringify_def by (rule json_parse_print [OF quote_json_ok book_json_ok [OF wf]])
  moreover have "set_of_json (Some (JArr (map JStr (bk_consumed b)))) = Inr (bk_consumed b)"
    using wf by (intro set_of_strings) (simp add: book_wf_def)
  then have "book_fromJSON (bk_id b) (bk_label b) (bk_wg0 b) (book_toJSON b) = Inr b"
    by (simp add: book_fromJSON_def book_toJSON_def book_new_def)
  ultimately show ?thesis by blast
qed

theorem book_survives_restart_witness:
  "\<exists>b d r. json_parse (number_of_token demo_lib) (json_stringify (book_toJSON b)) = Some d
     \<and> book_fromJSON (bk_id b) (bk_label b) (bk_wg0 b) d = Inr b \<and> friend (selfEd demo_lib (demo_book 1)) b = Some r"
proof (rule demo_friend)
  fix b r assume "reachable (book_init (demo_id 2) (js ''node'') (js ''10.42.0.5'')) (book_step demo_lib) b"
    "friend (selfEd demo_lib (demo_book 1)) b = Some r"
  with book_survives_restart [OF this(1), of "number_of_token demo_lib"] show ?thesis by blast
qed

section \<open>Where the code falls short\<close>

lemma iso_str_start:
  obtains c s where "iso_str t = c # s" "is_digit c \<or> c = 0x2d \<or> c = 0x2b"
proof -
  obtain y s where iso: "iso_str t = year_str y @ s" by (auto simp: iso_str_def Let_def)
  have pad: "\<exists>c s. pad n k = c # s \<and> is_digit c" for n k
  proof -
    have "list_all is_digit (pad n k)"
      using radix_10_digits [of _ k] by (auto simp: pad_def padStart_def list_all_iff is_digit_def)
    moreover have "pad n k \<noteq> []" by (simp add: pad_def padStart_def radix_str_not_Nil)
    ultimately show ?thesis by (cases "pad n k") auto
  qed
  show thesis
    using pad [of 4 "nat y"] that iso unfolding year_str_def by (auto split: if_splits)
qed

text \<open>
  expiry fails open: a correctly signed token whose expiry does not parse as a date verifies
  at every time, because a comparison with NaN is false.
\<close>

theorem unparsable_expiry_never_expires:
  "\<exists>t. dateParse demo_lib (tok_expires t) = None
     \<and> (\<forall>now. verifyToken demo_lib t now = Inr (peerPubOf demo_lib (demo_id 1) [] []))"
proof -
  define t where "t = \<lparr> tok_v = 1, tok_from = peerPubOf demo_lib (demo_id 1) [] [], tok_nonce = [], tok_issued = [],
    tok_expires = js ''never'', tok_sig = [] \<rparr>"
  have "json_ok (JObj (tokenSignable t))" unfolding signable_ok by (simp add: t_def)
  then obtain s where s: "sign demo_lib (tokenSignable t) (secretKey (ed25519 (demo_id 1))) = Inr s"
    using sign_total [OF demo_lib_ok demo_id_ok] by blast
  have "iso_str (iso_read (js ''never'')) \<noteq> js ''never''"
    by (rule iso_str_start [of "iso_read (js ''never'')"]) (auto simp: js_def is_digit_def)
  then have "dateParse demo_lib (js ''never'') = None"
    by (auto simp: dateParse_def date_parse_def toISOString_eq demo_lib_def)
  then show ?thesis
    using sign_verifies [OF demo_lib_ok demo_id_ok s]
    by (intro exI [of _ "t\<lparr> tok_sig := s \<rparr>"])
      (simp add: verifyToken_def parses_before_def t_def peerPubOf_def tokenSignable_def)
qed

end
