(* ===== verification/MessagesFacts.thy ===== *)
theory MessagesFacts
  imports Messages FriendsProps
begin

text \<open>
  The replay guard as an interface and the message book as its provider; the bounds of the book;
  threads as sorted permutations of the logs; and the properties of messages.
\<close>

section \<open>The replay guard\<close>

locale seen_ids =
  fixes mark :: "jsstr \<Rightarrow> int \<Rightarrow> 's \<Rightarrow> 's \<times> bool" and has :: "'s \<Rightarrow> jsstr \<Rightarrow> bool"
  assumes mark_fresh: "\<not> has s i \<Longrightarrow> \<exists>s'. mark i t s = (s', True) \<and> has s' i"
    and mark_seen: "has s i \<Longrightarrow> mark i t s = (s, False)"
begin

lemma mark_true: "mark i t s = (s', True) \<Longrightarrow> \<not> has s i \<and> has s' i"
  by (metis Pair_inject mark_fresh mark_seen)

lemma check_seen_marks:
  assumes "check_seen L p now (Some mark) s = (s', Inr u)"
  obtains i t where "map_get p (js ''id'') = Some (JStr i)" "i \<noteq> []" "\<not> has s i" "has s' i"
    "js_string_opt (map_get p (js ''ts'')) = Inr t"
    "\<exists>ms. dateParse L t = Some ms \<and> now - ms \<le> MAX_MSG_AGE_MS \<and> - MAX_MSG_SKEW_MS \<le> now - ms
       \<and> mark i ms s = (s', True)"
proof -
  obtain t where t: "js_string_opt (map_get p (js ''ts'')) = Inr t"
    using assms by (cases "js_string_opt (map_get p (js ''ts''))") (auto simp: check_seen_def)
  obtain ms where ms: "dateParse L t = Some ms" "\<not> now - ms > MAX_MSG_AGE_MS" "\<not> now - ms < - MAX_MSG_SKEW_MS"
    using assms t by (cases "dateParse L t") (auto simp: check_seen_def split: if_splits)
  obtain i where i: "map_get p (js ''id'') = Some (JStr i)" "i \<noteq> []"
    using assms t ms by (auto simp: check_seen_def split: option.splits json.splits if_splits)
  have "mark i ms s = (s', True)"
    using assms t ms i by (auto simp: check_seen_def split: prod.splits if_splits)
  then show thesis using that [OF i _ _ t] mark_true [of i ms s s'] ms by auto
qed

lemma check_seen_rejects:
  assumes "map_get p (js ''id'') = Some (JStr i)" "has s i"
  shows "\<exists>e. check_seen L p now (Some mark) s = (s, Inl e)"
  using assms mark_seen [OF assms(2)]
  by (cases "js_string_opt (map_get p (js ''ts''))")
    (auto simp: check_seen_def throw_def split: option.splits)

end

lemma evict_suffix: "\<exists>n. evict m = drop n m"
proof (induction m)
  case (Cons e m)
  then obtain n where "evict m = drop n m" by blast
  then have "evict (e # m) = drop (Suc n) (e # m) \<or> evict (e # m) = drop 0 (e # m)" by simp
  then show ?case by blast
qed simp

lemma evict_drop: "evict m = drop (length m + 1 - MAX_SEEN_IDS) m"
proof (induction m)
  case (Cons e m)
  show ?case
  proof (cases "length (e # m) \<ge> MAX_SEEN_IDS")
    case True
    then have "length (e # m) + 1 - MAX_SEEN_IDS = Suc (length m + 1 - MAX_SEEN_IDS)" by simp
    then show ?thesis using Cons True by simp
  qed simp
qed (simp add: MAX_SEEN_IDS_def)

lemma evict_absent:
  assumes "\<not> map_has m j"
  shows "\<not> map_has (evict (filter P m)) j"
proof -
  have "set (evict (filter P m)) \<subseteq> set m"
    unfolding evict_drop using set_drop_subset [of _ "filter P m"] by auto
  then show ?thesis using assms by auto
qed

lemma length_evict: "length (evict m) < MAX_SEEN_IDS"
  by (auto simp: evict_drop MAX_SEEN_IDS_def)

lemma wf_map_drop: "wf_map m \<Longrightarrow> wf_map (drop n m)"
  by (simp add: drop_map [symmetric])

lemma wf_map_filter: "wf_map m \<Longrightarrow> wf_map (filter P m)"
  by (auto simp: distinct_map intro: inj_on_subset)

interpretation seen: seen_ids "markSeen now" "\<lambda>b i. map_has (mb_seen b) i" for now
proof
  show "\<exists>b'. markSeen now i t b = (b', True) \<and> map_has (mb_seen b') i" if "\<not> map_has (mb_seen b) i" for b i t
    using that by (simp add: markSeen_def Let_def)
qed (simp add: markSeen_def)

section \<open>Bounds of the book\<close>

definition messages_ok :: "message_book \<Rightarrow> bool" where
  "messages_ok b \<longleftrightarrow> length (mb_seen b) \<le> MAX_SEEN_IDS \<and> wf_map (mb_seen b) \<and> wf_map (mb_logs b)
     \<and> (\<forall>peer. length (log_of peer b) \<le> MAX_PER_PEER)"

lemma log_of_new [simp]: "log_of p message_book_new = []"
  by (simp add: log_of_def message_book_new_def)

lemma log_of_append:
  "log_of p (append_msg peer m b) =
     (if p = peer then drop (length (log_of peer b) + 1 - MAX_PER_PEER) (log_of peer b @ [m]) else log_of p b)"
  by (auto simp: append_msg_def log_of_def Let_def)

lemma append_ok: "messages_ok b \<Longrightarrow> messages_ok (append_msg peer m b)"
proof -
  assume ok: "messages_ok b"
  have "mb_seen (append_msg peer m b) = mb_seen b" "wf_map (mb_logs (append_msg peer m b)) = wf_map (mb_logs b)"
    by (simp_all add: append_msg_def Let_def)
  then show ?thesis using ok by (auto simp: messages_ok_def log_of_append MAX_PER_PEER_def)
qed

lemma length_map_set: "length (map_set k v m) = (if map_has m k then length m else Suc (length m))"
  by (induction m) auto

lemma mark_ok: "messages_ok b \<Longrightarrow> messages_ok (fst (markSeen now i t b))"
proof -
  assume ok: "messages_ok b"
  have "length (map_set i t (evict m)) \<le> MAX_SEEN_IDS" for m
    using length_evict [of m] by (simp add: length_map_set)
  moreover have "wf_map (evict (filter P (mb_seen b)))" for P
    using ok by (simp add: messages_ok_def evict_drop wf_map_drop wf_map_filter)
  ultimately show ?thesis using ok by (simp add: messages_ok_def markSeen_def Let_def log_of_def)
qed

section \<open>How long an id is remembered\<close>

fun marks :: "(jsstr \<times> int \<times> int) list \<Rightarrow> message_book \<Rightarrow> message_book" where
  \<comment> \<open>a series of \<open>markSeen\<close> calls: id, time of the message, reading of the clock\<close>
  "marks [] b = b"
| "marks ((i, ts, now) # cs) b = marks cs (fst (markSeen now i ts b))"

definition remembered :: "nat \<Rightarrow> jsstr \<Rightarrow> int \<Rightarrow> message_book \<Rightarrow> bool" where
  \<comment> \<open>the id is in the set, and at most \<open>n\<close> entries are younger\<close>
  "remembered n i ts b \<longleftrightarrow> (\<exists>old young. mb_seen b = old @ (i, ts) # young \<and> length young \<le> n)"

lemma drop_keeps:
  assumes "length young < k" "n + k \<le> length old + 1 + length young"
  shows "\<exists>old'. drop n (old @ x # young) = old' @ x # young"
proof -
  have "n \<le> length old" using assms by linarith
  then show ?thesis by (intro exI [of _ "drop n old"]) simp
qed

lemma mark_remembers:
  assumes "remembered n i ts b" "n + 1 < MAX_SEEN_IDS" "now - MAX_MSG_AGE_MS - MAX_MSG_SKEW_MS \<le> ts"
  shows "remembered (n + 1) i ts (fst (markSeen now j t b))"
proof (cases "map_has (mb_seen b) j")
  case True
  then show ?thesis using assms(1) unfolding remembered_def by (simp add: markSeen_def) (meson le_SucI)
next
  case False
  obtain old young where s: "mb_seen b = old @ (i, ts) # young" "length young \<le> n"
    using assms(1) unfolding remembered_def by blast
  let ?f = "filter (\<lambda>(old, ts). \<not> ts < now - MAX_MSG_AGE_MS - MAX_MSG_SKEW_MS)"
  have f: "?f (mb_seen b) = ?f old @ (i, ts) # ?f young" using s assms(3) by simp
  have len: "length (?f young) \<le> n" using s(2) by (meson length_filter_le order_trans)
  obtain old' where "evict (?f (mb_seen b)) = old' @ (i, ts) # ?f young"
    unfolding evict_drop f using len assms(2)
    by (cases "length (?f old @ (i, ts) # ?f young) + 1 \<le> MAX_SEEN_IDS")
      (auto intro: drop_keeps [where k = "MAX_SEEN_IDS - 1"])
  moreover have "\<not> map_has (evict (?f (mb_seen b))) j"
    by (rule evict_absent [OF False])
  ultimately have "mb_seen (fst (markSeen now j t b)) = old' @ (i, ts) # (?f young @ [(j, t)])"
    using False by (simp add: markSeen_def Let_def update_fresh)
  then show ?thesis using len unfolding remembered_def by (intro exI) auto
qed

lemma marks_remember:
  assumes "remembered n i ts b" "n + length cs < MAX_SEEN_IDS"
    and "\<forall>(j, t, now) \<in> set cs. now - MAX_MSG_AGE_MS - MAX_MSG_SKEW_MS \<le> ts"
  shows "remembered (n + length cs) i ts (marks cs b)"
  using assms
proof (induction cs arbitrary: b n)
  case (Cons c cs)
  obtain j t now where c: "c = (j, t, now)" by (cases c)
  have "remembered (n + 1) i ts (fst (markSeen now j t b))"
    using Cons.prems c by (intro mark_remembers) auto
  from Cons.IH [OF this] Cons.prems c show ?case by simp
qed simp

lemma mark_new_remembered:
  assumes "markSeen now i ts b = (b', True)"
  shows "remembered 0 i ts b'"
proof -
  have new: "\<not> map_has (mb_seen b) i" using assms by (auto simp: markSeen_def split: if_splits)
  then have "\<not> map_has (evict (filter (\<lambda>(old, ts). \<not> ts < now - MAX_MSG_AGE_MS - MAX_MSG_SKEW_MS) (mb_seen b))) i"
    by (rule evict_absent)
  then show ?thesis using assms new by (auto simp: markSeen_def Let_def update_fresh remembered_def)
qed

lemma remembered_has: "remembered n i ts b \<Longrightarrow> map_has (mb_seen b) i"
  by (auto simp: remembered_def)

section \<open>Threads\<close>

lemma mset_sort_by [simp]: "mset (sort_by le xs) = mset xs"
proof -
  have "mset (insert_by le x ys) = add_mset x (mset ys)" for x :: 'a and ys by (induction ys) auto
  then show ?thesis unfolding sort_by_def by (induction xs) auto
qed

lemma sorted_sort_by:
  assumes total: "\<And>x y. le x y \<or> le y x" and trans: "\<And>x y z. le x y \<Longrightarrow> le y z \<Longrightarrow> le x z"
  shows "sorted_wrt le (sort_by le xs)"
proof -
  have set: "set (insert_by le x ys) = insert x (set ys)" for x ys by (induction ys) auto
  have "sorted_wrt le ys \<Longrightarrow> sorted_wrt le (insert_by le x ys)" for x ys
    using total trans by (induction ys) (fastforce simp: set)+
  then show ?thesis unfolding sort_by_def by (induction xs) auto
qed

lemma stable_sort_by:
  assumes "\<And>x y. P x \<Longrightarrow> P y \<Longrightarrow> le x y"
  shows "filter P (sort_by le xs) = filter P xs"
proof -
  have "filter P (insert_by le x ys) = filter P (x # ys)" for x ys
    using assms by (induction ys) auto
  then show ?thesis unfolding sort_by_def by (induction xs) auto
qed

section \<open>The verify-key resolver of the book\<close>

lemma resolver_keys_get:
  assumes "resolver_keys L rs keys = Inr keys'" "map_get keys' n = Some k"
  shows "map_get keys n = Some k \<or> (\<exists>r \<in> set rs. peer_ed (fr_peer r) = n \<and> fromB64 L n = Inr k)"
  using assms
proof (induction rs arbitrary: keys)
  case (Cons r rs)
  then obtain k' where k': "fromB64 L (peer_ed (fr_peer r)) = Inr k'"
    "resolver_keys L rs (map_set (peer_ed (fr_peer r)) k' keys) = Inr keys'"
    by (auto simp: res_eq)
  from Cons.IH [OF k'(2)] Cons.prems(2) k'(1) show ?case by (auto split: if_splits)
qed simp

lemma resolver_friend:
  assumes "verifyKeyResolver L b = Inr keyFor" "keyFor n = Some k"
  obtains r where "r \<in> set (listFriends b)" "peer_ed (fr_peer r) = n" "fromB64 L n = Inr k"
proof -
  obtain keys where keys: "resolver_keys L (listFriends b) [] = Inr keys" "map_get keys n = Some k"
    using assms by (auto simp: verifyKeyResolver_def res_eq)
  from resolver_keys_get [OF keys] that show thesis by auto
qed

lemma resolver_complete:
  assumes "\<forall>r \<in> set rs. \<exists>k. fromB64 L (peer_ed (fr_peer r)) = Inr k"
  shows "\<exists>keys'. resolver_keys L rs keys = Inr keys' \<and>
    (\<forall>n k. fromB64 L n = Inr k \<longrightarrow> (n \<in> (\<lambda>r. peer_ed (fr_peer r)) ` set rs \<or> map_get keys n = Some k) \<longrightarrow> map_get keys' n = Some k)"
  using assms
proof (induction rs arbitrary: keys)
  case (Cons r rs)
  obtain k where k: "fromB64 L (peer_ed (fr_peer r)) = Inr k" using Cons.prems by auto
  have "\<forall>r \<in> set rs. \<exists>k. fromB64 L (peer_ed (fr_peer r)) = Inr k" using Cons.prems by simp
  from Cons.IH [OF this, of "map_set (peer_ed (fr_peer r)) k keys"] obtain keys' where
    IH1: "resolver_keys L rs (map_set (peer_ed (fr_peer r)) k keys) = Inr keys'" and
    IH: "\<forall>n j. fromB64 L n = Inr j \<longrightarrow>
       (n \<in> (\<lambda>r. peer_ed (fr_peer r)) ` set rs \<or> map_get (map_set (peer_ed (fr_peer r)) k keys) n = Some j) \<longrightarrow>
       map_get keys' n = Some j" by blast
  have "map_get keys' n = Some j" if "fromB64 L n = Inr j"
    "n \<in> (\<lambda>r. peer_ed (fr_peer r)) ` set (r # rs) \<or> map_get keys n = Some j" for n j
    using IH that k by (cases "n = peer_ed (fr_peer r)") auto
  then show ?case using IH1 k by simp
qed simp

end
