(* ===== verification/MessagesProps.thy ===== *)
theory MessagesProps
  imports MessagesFacts
begin

text \<open>
  The properties of messaging: a friend's message arrives, only a friend's message is accepted, a
  captured message is not accepted twice while the replay set remembers it, and the book is bounded.
\<close>

section \<open>Opening what was sealed\<close>

lemma message_payload_ok: "json_ok (JObj (message_payload L uuid self rcpt body ts))"
  by (simp add: message_payload_def)

lemma openMessage_payload:
  assumes "openMessage L self blob keyFor seen now s = (s', Inr m)"
  obtains b p u where "fromB64 L blob = Inr b"
    "openVerify L b (boxPublicKey (x25519 self)) (privateKey (x25519 self)) keyFor = Inr p"
    "map_get p (js ''typ'') = Some (JStr (js ''message''))"
    "map_get p (js ''to'') = Some (JStr (toB64 L (publicKey (ed25519 self))))"
    "check_seen L p now seen s = (s', Inr u)" "message_of p = Inr m"
  using assms unfolding openMessage_def
  by (auto simp: rbind_eq_Inr split: sum.splits if_splits prod.splits)

lemma deliver_message:
  assumes "lib_ok L" "id_ok L sender" "id_ok L self"
    and "keyFor (toB64 L (publicKey (ed25519 sender))) = Some (publicKey (ed25519 sender))"
    and "peer_ed rcpt = toB64 L (publicKey (ed25519 self))" "peer_x rcpt = toB64 L (boxPublicKey (x25519 self))"
    and "toISOString t = Inr ts" "- MAX_MSG_SKEW_MS \<le> now - t" "now - t \<le> MAX_MSG_AGE_MS"
    and "uuid \<noteq> []" "\<not> map_has (mb_seen mb) uuid"
  obtains blob mb' where "sealMessage L uuid r sender rcpt body t = Inr blob"
    "openMessage L self blob keyFor (Some (markSeen now')) now mb
     = (mb', Inr \<lparr> msg_id = Some uuid, msg_from = toB64 L (publicKey (ed25519 sender)), msg_to = peer_ed rcpt,
                 msg_body = body, msg_ts = ts \<rparr>)"
    "markSeen now' uuid t mb = (mb', True)"
proof -
  let ?p = "message_payload L uuid sender (peer_ed rcpt) body ts"
  have node: "map_get ?p (js ''node'') = Some (JStr (toB64 L (publicKey (ed25519 sender))))"
    by (simp add: message_payload_def)
  obtain c where c: "sealSign L r ?p (secretKey (ed25519 sender)) (boxPublicKey (x25519 self)) = Inr c"
    "openVerify L c (boxPublicKey (x25519 self)) (privateKey (x25519 self)) keyFor = Inr (norm_payload ?p)"
    using seal_sign_ok [OF assms(1-3) message_payload_ok node] assms(4) by metis
  have get: "map_get (norm_payload ?p) (js k) = map_option norm_json (map_get ?p (js k))" for k
    by (rule get_norm_payload [OF message_payload_ok])
  have fields: "map_get (norm_payload ?p) (js ''typ'') = Some (JStr (js ''message''))"
    "map_get (norm_payload ?p) (js ''id'') = Some (JStr uuid)"
    "map_get (norm_payload ?p) (js ''node'') = Some (JStr (toB64 L (publicKey (ed25519 sender))))"
    "map_get (norm_payload ?p) (js ''to'') = Some (JStr (peer_ed rcpt))"
    "map_get (norm_payload ?p) (js ''body'') = Some (JStr body)" "map_get (norm_payload ?p) (js ''ts'') = Some (JStr ts)"
    unfolding get by (simp_all add: message_payload_def)
  obtain mb' where mb': "markSeen now' uuid t mb = (mb', True)"
    using assms(11) by (simp add: markSeen_def Let_def)
  have "check_seen L (norm_payload ?p) now (Some (markSeen now')) mb = (mb', Inr ())"
    using assms(8-10) mb' dateParse_toISOString [OF assms(7), of L]
    by (simp add: check_seen_def fields)
  moreover have "message_of (norm_payload ?p) = Inr \<lparr> msg_id = Some uuid, msg_from = toB64 L (publicKey (ed25519 sender)),
      msg_to = peer_ed rcpt, msg_body = body, msg_ts = ts \<rparr>"
    by (simp add: message_of_def fields)
  ultimately have "openMessage L self (toB64 L c) keyFor (Some (markSeen now')) now mb
     = (mb', Inr \<lparr> msg_id = Some uuid, msg_from = toB64 L (publicKey (ed25519 sender)), msg_to = peer_ed rcpt,
                 msg_body = body, msg_ts = ts \<rparr>)"
    using c(2) lib_okD(1) [OF assms(1)] by (simp add: openMessage_def fields [unfolded assms(5)] assms(5))
  moreover have "sealMessage L uuid r sender rcpt body t = Inr (toB64 L c)"
    using c(1) assms(6,7) lib_okD(1) [OF assms(1)] by (simp add: sealMessage_def)
  ultimately show thesis using that mb' by blast
qed

lemma evidence_verifies:
  assumes "by_token L r \<or> by_accept L b r"
  shows "\<exists>p s. verify L p s (peer_ed (fr_peer r)) = Inr True"
  using assms
proof
  assume "by_token L r"
  then obtain t now where "verifyToken L t now = Inr (fr_peer r)" unfolding by_token_def by blast
  then show ?thesis by (auto simp: verifyToken_eq_Inr)
next
  assume "by_accept L b r"
  then obtain blob a where "openAccept L (bk_id b) blob = Inr a" "acc_from a = fr_peer r" unfolding by_accept_def by blast
  then show ?thesis by (auto simp: openAccept_eq_Inr)
qed

lemma friend_key_decodes:
  assumes "book_ok L b" "book_wf b" "r \<in> set (listFriends b)"
  shows "\<exists>k. fromB64 L (peer_ed (fr_peer r)) = Inr k" "friend (peer_ed (fr_peer r)) b = Some r"
proof -
  obtain k where k: "(k, r) \<in> set (bk_friends b)" using assms(3) by (auto simp: listFriends_def)
  have wf: "wf_map (bk_friends b)" using assms(2) by (simp add: book_wf_def)
  have get: "map_get (bk_friends b) k = Some r" by (rule wf_map_in [THEN iffD1, OF wf k])
  then have ok: "k = peer_ed (fr_peer r)" "by_token L r \<or> by_accept L b r"
    using assms(1) by (simp_all add: book_ok_def)
  then show "friend (peer_ed (fr_peer r)) b = Some r" using get by (simp add: friend_def)
  have "\<exists>p s. verify L p s (peer_ed (fr_peer r)) = Inr True"
    by (rule evidence_verifies [OF ok(2)])
  then show "\<exists>k. fromB64 L (peer_ed (fr_peer r)) = Inr k"
    by (auto simp: verify_def res_eq)
qed

lemma friend_resolves:
  assumes "base64_ok L" "book_ok L b" "book_wf b" "friend (toB64 L pk) b = Some r"
  obtains keyFor where "verifyKeyResolver L b = Inr keyFor" "keyFor (toB64 L pk) = Some pk"
proof -
  have in_list: "r \<in> set (listFriends b)"
    using map_of_SomeD [OF assms(4) [unfolded friend_def]] by (force simp: listFriends_def)
  have ed: "peer_ed (fr_peer r) = toB64 L pk" using assms(2,4) unfolding book_ok_def friend_def by metis
  have "\<forall>r \<in> set (listFriends b). \<exists>k. fromB64 L (peer_ed (fr_peer r)) = Inr k"
    using friend_key_decodes(1) [OF assms(2,3)] by blast
  from resolver_complete [OF this, of "[]"] obtain keys where keys: "resolver_keys L (listFriends b) [] = Inr keys"
    "\<forall>n k. fromB64 L n = Inr k \<longrightarrow> n \<in> (\<lambda>r. peer_ed (fr_peer r)) ` set (listFriends b) \<or> map_get [] n = Some k
       \<longrightarrow> map_get keys n = Some k" by blast
  have "toB64 L pk \<in> (\<lambda>r. peer_ed (fr_peer r)) ` set (listFriends b)" using in_list ed by force
  then have "map_get keys (toB64 L pk) = Some pk" using keys(2) fromB64_toB64 [OF assms(1), of pk] by blast
  then show thesis using that keys(1) by (simp add: verifyKeyResolver_def)
qed

text \<open>
  a friend's message arrives: a message sealed by a node that is a friend of the recipient's
  reachable book is accepted by the inbound path inside the freshness window when its id is new, with
  the sender, recipient, body and time it was sent with, and its id is then remembered.
\<close>

theorem message_delivered:
  assumes "lib_ok L" "id_ok L sender" "id_ok L self"
    and "reachable (book_init i lbl w) (book_step L) b" "friend (toB64 L (publicKey (ed25519 sender))) b = Some fr"
    and "rcpt = peerPubOf L self lbl' w'" "toISOString t = Inr ts"
    and "- MAX_MSG_SKEW_MS \<le> now - t" "now - t \<le> MAX_MSG_AGE_MS" "uuid \<noteq> []" "\<not> map_has (mb_seen mb) uuid"
  shows "\<exists>keyFor blob mb'. verifyKeyResolver L b = Inr keyFor \<and> sealMessage L uuid r sender rcpt body t = Inr blob
    \<and> openMessage L self blob keyFor (Some (markSeen now')) now mb
      = (mb', Inr \<lparr> msg_id = Some uuid, msg_from = toB64 L (publicKey (ed25519 sender)), msg_to = peer_ed rcpt,
                  msg_body = body, msg_ts = ts \<rparr>)
    \<and> map_has (mb_seen mb') uuid"
proof -
  have ok: "book_ok L b" "book_wf b"
    by (rule book_machine.reachable_inv [OF assms(4)], rule book_wf_machine.reachable_inv [OF assms(4)])
  obtain keyFor where kf: "verifyKeyResolver L b = Inr keyFor"
    "keyFor (toB64 L (publicKey (ed25519 sender))) = Some (publicKey (ed25519 sender))"
    by (rule friend_resolves [OF lib_okD(1) [OF assms(1)] ok assms(5)])
  have rc: "peer_ed rcpt = toB64 L (publicKey (ed25519 self))" "peer_x rcpt = toB64 L (boxPublicKey (x25519 self))"
    by (simp_all add: assms(6) peerPubOf_def)
  show ?thesis
    by (rule deliver_message [where keyFor = keyFor and r = r and body = body and now' = now',
        OF assms(1-3) kf(2) rc assms(7-11)])
      (use kf(1) seen.mark_true in blast)
qed

lemma demo_delivery:
  obtains keyFor blob mb' m where
    "openMessage demo_lib (demo_id 2) blob keyFor (Some (markSeen 0)) 0 message_book_new = (mb', Inr m)"
    "markSeen 0 (js ''u'') 0 message_book_new = (mb', True)"
    "keyFor = (\<lambda>_. Some (publicKey (ed25519 (demo_id 1))))"
proof -
  let ?kf = "\<lambda>_. Some (publicKey (ed25519 (demo_id 1)))"
  have kf: "?kf (toB64 demo_lib (publicKey (ed25519 (demo_id 1)))) = Some (publicKey (ed25519 (demo_id 1)))" by simp
  have rc: "peer_ed (peerPubOf demo_lib (demo_id 2) [] []) = toB64 demo_lib (publicKey (ed25519 (demo_id 2)))"
    "peer_x (peerPubOf demo_lib (demo_id 2) [] []) = toB64 demo_lib (boxPublicKey (x25519 (demo_id 2)))"
    by (simp_all add: peerPubOf_def)
  show thesis
    by (rule deliver_message [where keyFor = ?kf and now = 0 and r = "[]" and body = "[]" and now' = 0 and mb = message_book_new and uuid = "js ''u''",
        OF demo_lib_ok demo_id_ok demo_id_ok kf rc demo_iso_now])
      (simp_all add: MAX_MSG_SKEW_MS_def MAX_MSG_AGE_MS_def message_book_new_def that)
qed

theorem message_delivered_witness:
  "\<exists>b keyFor blob mb' m. verifyKeyResolver demo_lib b = Inr keyFor
     \<and> openMessage demo_lib (demo_id 2) blob keyFor (Some (markSeen 0)) 0 message_book_new = (mb', Inr m)
     \<and> msg_body m = js ''hello''"
proof (rule demo_friend)
  fix b r
  assume b: "reachable (book_init (demo_id 2) (js ''node'') (js ''10.42.0.5'')) (book_step demo_lib) b"
    "friend (selfEd demo_lib (demo_book 1)) b = Some r"
  then have fr: "friend (toB64 demo_lib (publicKey (ed25519 (demo_id 1)))) b = Some r" by (simp add: selfEd_def)
  have "- MAX_MSG_SKEW_MS \<le> 0 - 0" "0 - 0 \<le> MAX_MSG_AGE_MS" "js ''u'' \<noteq> []" "\<not> map_has (mb_seen message_book_new) (js ''u'')"
    by (simp_all add: MAX_MSG_SKEW_MS_def MAX_MSG_AGE_MS_def message_book_new_def)
  from message_delivered [OF demo_lib_ok demo_id_ok demo_id_ok b(1) fr HOL.refl demo_iso_now this,
      where body = "js ''hello''" and now' = 0 and lbl' = "[]" and w' = "[]" and r = "[]"]
  show ?thesis by force
qed

text \<open>
  C6: only friends are heard: a message the inbound path accepts was signed, over the payload it was
  read from, under the key of a current friend, is stamped as a message, and is addressed to this
  node.
\<close>

theorem message_authentic:
  assumes "reachable (book_init i lbl w) (book_step L) b" "verifyKeyResolver L b = Inr keyFor"
    and "openMessage L self blob keyFor seen now s = (s', Inr m)"
  shows "\<exists>p fr vk sig msg. friend (msg_from m) b = Some fr \<and> fromB64 L (peer_ed (fr_peer fr)) = Inr vk
    \<and> peer_ed (fr_peer fr) = msg_from m
    \<and> canonicalBytes (JObj p) = Inr msg \<and> crypto_sign_verify_detached L sig msg vk = Some True
    \<and> map_get p (js ''typ'') = Some (JStr (js ''message'')) \<and> message_of p = Inr m
    \<and> msg_to m = toB64 L (publicKey (ed25519 self))"
proof -
  have ok: "book_ok L b" "book_wf b"
    by (rule book_machine.reachable_inv [OF assms(1)], rule book_wf_machine.reachable_inv [OF assms(1)])
  obtain bs p u where p: "openVerify L bs (boxPublicKey (x25519 self)) (privateKey (x25519 self)) keyFor = Inr p"
    "map_get p (js ''typ'') = Some (JStr (js ''message''))"
    "map_get p (js ''to'') = Some (JStr (toB64 L (publicKey (ed25519 self))))" "message_of p = Inr m"
    by (rule openMessage_payload [OF assms(3)])
  obtain n vk msg sig where n: "map_get p (js ''node'') = Some (JStr n)" "keyFor n = Some vk"
    "canonicalBytes (JObj p) = Inr msg" "crypto_sign_verify_detached L sig msg vk = Some True"
    by (rule openVerify_authentic [OF p(1)])
  have m: "msg_from m = n" "msg_to m = toB64 L (publicKey (ed25519 self))"
    using p(3,4) n(1) by (auto simp: message_of_def res_eq)
  obtain fr where fr: "fr \<in> set (listFriends b)" "peer_ed (fr_peer fr) = n" "fromB64 L n = Inr vk"
    by (rule resolver_friend [OF assms(2) n(2)])
  then have "friend n b = Some fr" using friend_key_decodes(2) [OF ok fr(1)] by simp
  then show ?thesis
    using fr n p m
    by (intro exI [of _ p] exI [of _ fr] exI [of _ vk] exI [of _ sig] exI [of _ msg]) simp
qed

theorem message_authentic_witness:
  "\<exists>b keyFor blob mb' m fr. verifyKeyResolver demo_lib b = Inr keyFor
     \<and> openMessage demo_lib (demo_id 2) blob keyFor (Some (markSeen 0)) 0 message_book_new = (mb', Inr m)
     \<and> friend (msg_from m) b = Some fr"
proof (rule demo_friend)
  fix b r
  assume b: "reachable (book_init (demo_id 2) (js ''node'') (js ''10.42.0.5'')) (book_step demo_lib) b"
    "friend (selfEd demo_lib (demo_book 1)) b = Some r"
  then have fr: "friend (toB64 demo_lib (publicKey (ed25519 (demo_id 1)))) b = Some r" by (simp add: selfEd_def)
  have ok: "book_ok demo_lib b" "book_wf b"
    by (rule book_machine.reachable_inv [OF b(1)], rule book_wf_machine.reachable_inv [OF b(1)])
  obtain keyFor where kf: "verifyKeyResolver demo_lib b = Inr keyFor"
    "keyFor (toB64 demo_lib (publicKey (ed25519 (demo_id 1)))) = Some (publicKey (ed25519 (demo_id 1)))"
    by (rule friend_resolves [OF demo_base64 ok fr])
  have rc: "peer_ed (peerPubOf demo_lib (demo_id 2) [] []) = toB64 demo_lib (publicKey (ed25519 (demo_id 2)))"
    "peer_x (peerPubOf demo_lib (demo_id 2) [] []) = toB64 demo_lib (boxPublicKey (x25519 (demo_id 2)))"
    by (simp_all add: peerPubOf_def)
  obtain blob mb' m where opened: "openMessage demo_lib (demo_id 2) blob keyFor (Some (markSeen 0)) 0 message_book_new = (mb', Inr m)"
    by (rule deliver_message [where keyFor = keyFor and now = 0 and r = "[]" and body = "[]" and now' = 0 and mb = message_book_new and uuid = "js ''u''",
        OF demo_lib_ok demo_id_ok demo_id_ok kf(2) rc demo_iso_now])
      (simp_all add: MAX_MSG_SKEW_MS_def MAX_MSG_AGE_MS_def message_book_new_def)
  from message_authentic [OF b(1) kf(1) this] kf(1) this show ?thesis by blast
qed


section \<open>Replays\<close>

text \<open>
  C26: a captured message is not accepted twice: once the inbound path accepted a blob, the same blob
  is refused at every later time, whichever keys are trusted then and whatever messages came in
  between, as long as fewer than 4095 calls recorded ids since, and the state does not change.
\<close>

theorem message_no_replay:
  assumes "openMessage L self blob keyFor (Some (markSeen now1')) now1 mb = (mb1, Inr m)"
    and "length cs + 1 < MAX_SEEN_IDS" "\<forall>(j, t, now) \<in> set cs. now \<le> now2"
  shows "\<exists>e. openMessage L self blob keyFor' (Some (markSeen now2')) now2 (marks cs mb1) = (marks cs mb1, Inl e)"
proof -
  obtain b p u where p: "fromB64 L blob = Inr b"
    "openVerify L b (boxPublicKey (x25519 self)) (privateKey (x25519 self)) keyFor = Inr p"
    "check_seen L p now1 (Some (markSeen now1')) mb = (mb1, Inr u)" by (rule openMessage_payload [OF assms(1)])
  obtain i t where i: "map_get p (js ''id'') = Some (JStr i)" "js_string_opt (map_get p (js ''ts'')) = Inr t"
    and "\<exists>ms. dateParse L t = Some ms \<and> now1 - ms \<le> MAX_MSG_AGE_MS \<and> - MAX_MSG_SKEW_MS \<le> now1 - ms
       \<and> markSeen now1' i ms mb = (mb1, True)"
    by (rule seen.check_seen_marks [OF p(3)])
  then obtain ms where ms: "dateParse L t = Some ms" "markSeen now1' i ms mb = (mb1, True)" by blast
  have rej: "\<exists>e. check_seen L p now2 (Some (markSeen now2')) (marks cs mb1) = (marks cs mb1, Inl e)"
  proof (cases "now2 - ms > MAX_MSG_AGE_MS")
    case True
    then show ?thesis using i(2) ms(1) by (simp add: check_seen_def throw_def)
  next
    case False
    have "\<forall>(j, t, now) \<in> set cs. now - MAX_MSG_AGE_MS - MAX_MSG_SKEW_MS \<le> ms"
      using assms(3) False by (fastforce simp: MAX_MSG_SKEW_MS_def)
    then have "remembered (0 + length cs) i ms (marks cs mb1)"
      using assms(2) by (intro marks_remember mark_new_remembered [OF ms(2)]) auto
    then show ?thesis by (intro seen.check_seen_rejects [OF i(1)]) (rule remembered_has)
  qed
  show ?thesis
  proof (cases "openVerify L b (boxPublicKey (x25519 self)) (privateKey (x25519 self)) keyFor'")
    case (Inl e)
    then show ?thesis using p(1) by (simp add: openMessage_def)
  next
    case (Inr q)
    then have "q = p" using p(2) unfolding openVerify_eq_Inr by auto
    then show ?thesis using rej Inr p(1) by (auto simp: openMessage_def throw_def)
  qed
qed

theorem message_no_replay_witness:
  "\<exists>blob keyFor mb1 m e. openMessage demo_lib (demo_id 2) blob keyFor (Some (markSeen 0)) 0 message_book_new = (mb1, Inr m)
     \<and> openMessage demo_lib (demo_id 2) blob keyFor (Some (markSeen 7)) 6
         (marks [(js ''a'', 1, 2), (js ''b'', 3, 4)] mb1) = (marks [(js ''a'', 1, 2), (js ''b'', 3, 4)] mb1, Inl e)"
proof (rule demo_delivery)
  fix keyFor blob mb' m
  assume opened: "openMessage demo_lib (demo_id 2) blob keyFor (Some (markSeen 0)) 0 message_book_new = (mb', Inr m)"
  have "length [(js ''a'', 1::int, 2::int), (js ''b'', 3, 4)] + 1 < MAX_SEEN_IDS" by (simp add: MAX_SEEN_IDS_def)
  from message_no_replay [where ?now2.0 = 6 and keyFor' = keyFor and now2' = 7, OF opened this] opened
  show ?thesis by fastforce
qed

lemma marks_append: "marks (xs @ ys) b = marks ys (marks xs b)"
  by (induction xs b rule: marks.induct) auto

lemma mark_flood:
  assumes "mb_seen b = drop (length all - MAX_SEEN_IDS) all" "\<forall>e \<in> set all. snd e = 0" "\<not> map_has all x"
  shows "mb_seen (fst (markSeen 0 x 0 b)) = drop (length all + 1 - MAX_SEEN_IDS) all @ [(x, 0)]"
proof -
  have kept: "filter (\<lambda>(old, ts). \<not> ts < 0 - MAX_MSG_AGE_MS - MAX_MSG_SKEW_MS) (drop k all) = drop k all" for k
    by (rule filter_True, rule ballI, drule in_set_dropD, drule bspec [OF assms(2)])
      (simp add: MAX_MSG_AGE_MS_def MAX_MSG_SKEW_MS_def case_prod_unfold)
  have "length (drop (length all - MAX_SEEN_IDS) all) + 1 - MAX_SEEN_IDS + (length all - MAX_SEEN_IDS)
    = length all + 1 - MAX_SEEN_IDS"
    by (simp add: MAX_SEEN_IDS_def)
  then have ev: "evict (drop (length all - MAX_SEEN_IDS) all) = drop (length all + 1 - MAX_SEEN_IDS) all"
    by (simp only: evict_drop drop_drop)
  have "\<not> map_has (drop k all) x" for k using assms(3) set_drop_subset [of k all] by blast
  then show ?thesis by (simp add: markSeen_def Let_def assms(1) kept [unfolded diff_0] ev update_fresh)
qed

lemma flood:
  assumes "\<forall>e \<in> set (mb_seen b). snd e = 0" "length (mb_seen b) = 1" "distinct (map fst (mb_seen b) @ ids)"
  shows "mb_seen (marks (map (\<lambda>i. (i, 0, 0)) ids) b)
    = drop (1 + length ids - MAX_SEEN_IDS) (mb_seen b @ map (\<lambda>i. (i, 0)) ids)"
  using assms(3)
proof (induction ids rule: rev_induct)
  case (snoc x ids)
  let ?all = "mb_seen b @ map (\<lambda>i. (i, 0)) ids" and ?b = "marks (map (\<lambda>i. (i, 0, 0)) ids) b"
  have len: "length ?all = 1 + length ids" using assms(2) by simp
  have IH: "mb_seen ?b = drop (length ?all - MAX_SEEN_IDS) ?all" unfolding len using snoc by (intro snoc.IH) simp
  have zero: "\<forall>e \<in> set ?all. snd e = 0" using assms(1) by auto
  have "\<not> map_has ?all x" using snoc.prems by (auto simp: image_iff)
  from mark_flood [OF IH zero this] show ?case
    using len by (simp add: marks_append MAX_SEEN_IDS_def)
qed (use assms in \<open>simp add: MAX_SEEN_IDS_def\<close>)

text \<open>
  witness of a flaw: the cap on the replay set forgets ids inside the freshness window. There is
  a blob that the inbound path accepts, and accepts again at the same clock reading after 4096 other
  ids of the same age were recorded, though the same blob is refused while the set is smaller.
\<close>

theorem flood_reopens_replay:
  "\<exists>keyFor blob m mb1 mb2 ids. length ids = MAX_SEEN_IDS
     \<and> openMessage demo_lib (demo_id 2) blob keyFor (Some (markSeen 0)) 0 message_book_new = (mb1, Inr m)
     \<and> openMessage demo_lib (demo_id 2) blob keyFor (Some (markSeen 0)) 0
         (marks (map (\<lambda>i. (i, 0, 0)) ids) mb1) = (mb2, Inr m)"
proof -
  let ?kf = "\<lambda>_. Some (publicKey (ed25519 (demo_id 1)))" and ?peer = "peerPubOf demo_lib (demo_id 2) [] []"
  let ?ids = "map (\<lambda>n. replicate n 0) [0..<MAX_SEEN_IDS] :: jsstr list"
  have kf: "?kf (toB64 demo_lib (publicKey (ed25519 (demo_id 1)))) = Some (publicKey (ed25519 (demo_id 1)))" by simp
  have rc: "peer_ed ?peer = toB64 demo_lib (publicKey (ed25519 (demo_id 2)))"
    "peer_x ?peer = toB64 demo_lib (boxPublicKey (x25519 (demo_id 2)))"
    by (simp_all add: peerPubOf_def)
  note deliver = deliver_message [where keyFor = ?kf and now = 0 and r = "[]" and body = "[]" and now' = 0
      and uuid = "js ''u''", OF demo_lib_ok demo_id_ok demo_id_ok kf rc demo_iso_now]
  obtain blob mb1 m where sent: "sealMessage demo_lib (js ''u'') [] (demo_id 1) ?peer [] 0 = Inr blob"
    and opened: "openMessage demo_lib (demo_id 2) blob ?kf (Some (markSeen 0)) 0 message_book_new = (mb1, Inr m)"
    and marked: "markSeen 0 (js ''u'') 0 message_book_new = (mb1, True)"
    and m: "m = \<lparr> msg_id = Some (js ''u''), msg_from = toB64 demo_lib (publicKey (ed25519 (demo_id 1))),
                 msg_to = peer_ed ?peer, msg_body = [], msg_ts = iso_str 0 \<rparr>"
    by (rule deliver [where mb = message_book_new])
      (simp_all add: MAX_MSG_SKEW_MS_def MAX_MSG_AGE_MS_def message_book_new_def)
  have mb1: "mb_seen mb1 = [(js ''u'', 0)]" using marked by (auto simp: markSeen_def message_book_new_def)
  have u: "js ''u'' = [117]" by (simp add: js_def)
  have no: "replicate n (0 :: jschar) \<noteq> [117]" for n by (cases n) auto
  have "inj (\<lambda>n. replicate n (0 :: jschar))" by (rule injI) (metis length_replicate)
  then have dist: "distinct (map fst (mb_seen mb1) @ ?ids)"
    using no by (auto simp: mb1 u distinct_map inj_on_def inj_def) (metis no)
  have "mb_seen (marks (map (\<lambda>i. (i, 0, 0)) ?ids) mb1) = map (\<lambda>i. (i, 0)) ?ids"
    using flood [OF _ _ dist] by (simp add: mb1 MAX_SEEN_IDS_def del: map_map upt_rec_numeral)
  then have absent: "\<not> map_has (mb_seen (marks (map (\<lambda>i. (i, 0, 0)) ?ids) mb1)) (js ''u'')"
    using dist by (force simp: mb1)
  obtain blob' mb2 where again: "sealMessage demo_lib (js ''u'') [] (demo_id 1) ?peer [] 0 = Inr blob'"
    "openMessage demo_lib (demo_id 2) blob' ?kf (Some (markSeen 0)) 0 (marks (map (\<lambda>i. (i, 0, 0)) ?ids) mb1) = (mb2, Inr m)"
    by (rule deliver [where mb = "marks (map (\<lambda>i. (i, 0, 0)) ?ids) mb1"])
      (use absent in \<open>simp_all add: m MAX_MSG_SKEW_MS_def MAX_MSG_AGE_MS_def del: map_map\<close>)
  then have "blob' = blob" using sent by simp
  moreover have "length ?ids = MAX_SEEN_IDS" by simp
  ultimately show ?thesis using opened again(2) by blast
qed

section \<open>Bounds and order of the log\<close>

inductive message_step :: "message_book \<Rightarrow> message_book \<Rightarrow> bool" where
  append: "message_step b (append_msg peer m b)"
| mark: "message_step b (fst (markSeen now i t b))"

inductive_cases message_stepE: "message_step b b'"

interpretation message_machine: machine "\<lambda>b. b = message_book_new" message_step messages_ok
proof
  show "messages_ok b" if "b = message_book_new" for b
    using that by (simp add: messages_ok_def message_book_new_def log_of_def)
  show "messages_ok t" if "messages_ok s" "message_step s t" for s t
    using that(2) by (rule message_stepE) (use that(1) in \<open>auto simp: append_ok mark_ok\<close>)
qed

text \<open>
  the message book stays bounded: whatever is appended and marked, the replay set never holds
  more than 4096 ids and no peer's log more than 500 messages, each id and each peer once.
\<close>

theorem message_book_bounded:
  assumes "reachable (\<lambda>b. b = message_book_new) message_step b"
  shows "length (mb_seen b) \<le> 4096 \<and> length (log_of peer b) \<le> 500 \<and> distinct (peers b) \<and> distinct (map fst (mb_seen b))"
  using message_machine.reachable_inv [OF assms]
  unfolding messages_ok_def peers_def MAX_SEEN_IDS_def MAX_PER_PEER_def by blast

definition day :: "nat \<Rightarrow> stored_message" where
  "day d = \<lparr> msg_id = None, msg_from = [], msg_to = [], msg_body = [], msg_ts = radix_str 10 d, dir = DirIn \<rparr>"

theorem message_book_bounded_witness:
  "length (log_of [1] (append_msg [1] (day 2) message_book_new)) \<le> 500 \<and> log_of [1] (append_msg [1] (day 2) message_book_new) = [day 2]"
proof -
  have r: "reachable (\<lambda>b. b = message_book_new) message_step (append_msg [1] (day 2) message_book_new)"
    by (rule reachable.next_step, rule reachable.start, rule HOL.refl, rule message_step.append)
  show ?thesis
    using message_book_bounded [OF r, of "[1]"] by (simp add: log_of_append MAX_PER_PEER_def)
qed

text \<open>
  a thread is the log in time order: for any comparison of timestamps that is a total preorder,
  the thread is a permutation of the log, sorted by the comparison, in which messages with equal
  timestamps stay in the order of arrival.
\<close>

theorem thread_sorted:
  assumes "\<And>s t. cmp s t \<le> 0 \<or> cmp t s \<le> 0" "\<And>s t u. cmp s t \<le> 0 \<Longrightarrow> cmp t u \<le> 0 \<Longrightarrow> cmp s u \<le> 0"
  shows "mset (thread cmp peer b) = mset (log_of peer b)
    \<and> sorted_wrt (\<lambda>x y. cmp (msg_ts x) (msg_ts y) \<le> 0) (thread cmp peer b)
    \<and> filter (\<lambda>m. msg_ts m = t) (thread cmp peer b) = filter (\<lambda>m. msg_ts m = t) (log_of peer b)"
proof -
  have refl: "cmp s s \<le> 0" for s using assms(1) [of s s] by blast
  show ?thesis
    unfolding thread_def
    by (intro conjI mset_sort_by sorted_sort_by stable_sort_by)
      (use assms(1) refl in blast, rule assms(2), assumption+, use refl in simp)
qed

definition cmp_length :: "jsstr \<Rightarrow> jsstr \<Rightarrow> int" where
  "cmp_length s t = int (length s) - int (length t)"

theorem thread_sorted_witness:
  "mset (thread cmp_length [1] (append_msg [1] (day 2) (append_msg [1] (day 15) message_book_new))) = {# day 2, day 15 #}"
proof -
  have "cmp_length s t \<le> 0 \<or> cmp_length t s \<le> 0" for s t by (simp add: cmp_length_def linear)
  moreover have "cmp_length s t \<le> 0 \<Longrightarrow> cmp_length t u \<le> 0 \<Longrightarrow> cmp_length s u \<le> 0" for s t u
    by (simp add: cmp_length_def)
  ultimately have "mset (thread cmp_length [1] b) = mset (log_of [1] b)" for b
    using thread_sorted [of cmp_length "[1]" b] by blast
  then show ?thesis by (simp add: log_of_append MAX_PER_PEER_def)
qed

section \<open>The book on disk\<close>

lemma stored_roundtrip [simp]: "stored_of_json (stored_json m) = Inr m"
  by (cases m; cases "dir m")
    (auto simp: stored_of_json_def stored_json_def split: option.splits)

lemma log_roundtrip: "log_of_json (JArr (map stored_json l)) = Inr l"
proof -
  have "mapR stored_of_json (map stored_json l) = Inr l" by (induction l) auto
  then show ?thesis by (simp add: log_of_json_def)
qed

lemma message_book_fromJSON: "messages_fromJSON (messages_toJSON b) = Inr b"
  by (simp add: messages_fromJSON_def messages_toJSON_def log_roundtrip int_of_def)

text \<open>
  a restart keeps the conversations and the replay guard: a bounded book whose times are within
  the range of dates is read back, through JSON text, as the same book, so an id that was seen before
  the restart is refused after it.
\<close>

theorem messages_survive_restart:
  assumes "messages_ok b" "\<forall>(i, t) \<in> set (mb_seen b). \<bar>t\<bar> \<le> max_safe"
  shows "\<exists>d. json_parse num_of (json_stringify (messages_toJSON b)) = Some d \<and> messages_fromJSON d = Inr b
    \<and> (map_has (mb_seen b) i \<longrightarrow> (\<exists>b'. messages_fromJSON d = Inr b' \<and> markSeen now i t b' = (b', False)))"
proof -
  have "json_ok (messages_toJSON b)"
    using assms by (fastforce simp: messages_ok_def messages_toJSON_def from_entries_def stored_json_def safe_int_def
        list_all_iff split: option.splits)
  then have "json_parse num_of (json_stringify (messages_toJSON b)) = Some (messages_toJSON b)"
    unfolding json_stringify_def by (rule json_parse_print [OF quote_json_ok])
  then show ?thesis by (auto simp: message_book_fromJSON markSeen_def)
qed

theorem messages_survive_restart_witness:
  "\<exists>d b'. json_parse (\<lambda>_. JNull) (json_stringify (messages_toJSON (fst (markSeen 9 [7] 5 message_book_new)))) = Some d
     \<and> messages_fromJSON d = Inr b' \<and> markSeen 11 [7] 6 b' = (b', False)"
proof -
  let ?b = "fst (markSeen 9 [7] 5 message_book_new)"
  have "messages_ok ?b" by (rule mark_ok) (simp add: messages_ok_def message_book_new_def log_of_def)
  moreover have seen: "mb_seen ?b = [([7], 5)]" by (simp add: markSeen_def message_book_new_def)
  then have "\<forall>(i, t) \<in> set (mb_seen ?b). \<bar>t\<bar> \<le> max_safe" by (simp add: max_safe_def)
  ultimately show ?thesis
    using messages_survive_restart [of ?b "\<lambda>_. JNull" "[7]" 11 6] seen by (metis (no_types, lifting) image_eqI fst_conv list.set_intros(1))
qed

end
