(* ===== verification/RateLimit.thy ===== *)
theory RateLimit
  imports Prelude
begin

text \<open>
  ratelimit.ts: the sliding-window counter of failed attempts per source address, and its
  refinement of the abstract counter that keeps every failure since the last success. The readings
  of \<open>this.now()\<close> are arguments, in the order the code takes them.
\<close>

section \<open>The limiter\<close>

record limiter =
  lim_max :: nat
  lim_window :: int
  lim_hits :: "(jsstr, int list) jsmap"

definition limiter_new :: "nat \<Rightarrow> int \<Rightarrow> limiter" where
  "limiter_new mx window = \<lparr> lim_max = mx, lim_window = window, lim_hits = [] \<rparr>"

definition hits_of :: "jsstr \<Rightarrow> limiter \<Rightarrow> int list" where
  "hits_of key l = (case map_get (lim_hits l) key of None \<Rightarrow> [] | Some ts \<Rightarrow> ts)"

definition recent :: "int \<Rightarrow> jsstr \<Rightarrow> limiter \<Rightarrow> limiter \<times> int list" where
  "recent now key l =
     (let cutoff = now - lim_window l;
          kept = filter (\<lambda>t. t > cutoff) (hits_of key l)
      in (if kept \<noteq> [] then l\<lparr> lim_hits := map_set key kept (lim_hits l) \<rparr>
          else l\<lparr> lim_hits := map_del key (lim_hits l) \<rparr>, kept))"

definition locked :: "int \<Rightarrow> jsstr \<Rightarrow> limiter \<Rightarrow> limiter \<times> bool" where
  "locked now key l = (case recent now key l of (l', kept) \<Rightarrow> (l', length kept \<ge> lim_max l))"

definition fail :: "int \<Rightarrow> int \<Rightarrow> jsstr \<Rightarrow> limiter \<Rightarrow> limiter" where
  "fail now now' key l =
     (case recent now key l of (l', a) \<Rightarrow> l'\<lparr> lim_hits := map_set key (a @ [now']) (lim_hits l') \<rparr>)"

definition reset :: "jsstr \<Rightarrow> limiter \<Rightarrow> limiter" where
  "reset key l = l\<lparr> lim_hits := map_del key (lim_hits l) \<rparr>"

section \<open>Runs\<close>

datatype attempt =
    Check int jsstr \<comment> \<open>\<open>locked\<close> at this time\<close>
  | Failed int int jsstr \<comment> \<open>\<open>fail\<close>, with its two readings of the clock\<close>
  | Succeeded jsstr \<comment> \<open>\<open>reset\<close>\<close>

fun attempt_step :: "attempt \<Rightarrow> limiter \<Rightarrow> limiter" where
  "attempt_step (Check now key) l = fst (locked now key l)"
| "attempt_step (Failed now now' key) l = fail now now' key l"
| "attempt_step (Succeeded key) l = reset key l"

definition attempts :: "attempt list \<Rightarrow> limiter \<Rightarrow> limiter" where
  "attempts as l = foldl (\<lambda>l a. attempt_step a l) l as"

text \<open>The abstract counter: all failures of the key after its last success, never pruned.\<close>

fun failures :: "jsstr \<Rightarrow> int list \<Rightarrow> attempt \<Rightarrow> int list" where
  "failures key ts (Check now k) = ts"
| "failures key ts (Failed now now' k) = (if k = key then ts @ [now'] else ts)"
| "failures key ts (Succeeded k) = (if k = key then [] else ts)"

definition history :: "jsstr \<Rightarrow> attempt list \<Rightarrow> int list" where
  "history key as = foldl (failures key) [] as"

fun attempt_time :: "attempt \<Rightarrow> int option" where
  \<comment> \<open>the reading of the clock by which entries are dropped\<close>
  "attempt_time (Check now k) = Some now"
| "attempt_time (Failed now now' k) = Some now"
| "attempt_time (Succeeded k) = None"

lemma limiter_new_simps [simp]: "lim_max (limiter_new mx w) = mx" "lim_window (limiter_new mx w) = w"
  by (simp_all add: limiter_new_def)

lemma recent_simps [simp]:
  "lim_max (fst (recent now k l)) = lim_max l" "lim_window (fst (recent now k l)) = lim_window l"
  "snd (recent now k l) = filter (\<lambda>t. t > now - lim_window l) (hits_of k l)"
  "hits_of key (fst (recent now k l)) =
     (if key = k then filter (\<lambda>t. t > now - lim_window l) (hits_of k l) else hits_of key l)"
  by (auto simp: recent_def Let_def hits_of_def)

lemma step_simps [simp]:
  "lim_max (attempt_step a l) = lim_max l" "lim_window (attempt_step a l) = lim_window l"
  by (cases a; simp add: locked_def fail_def reset_def case_prod_unfold)+

lemma hits_of_step:
  "hits_of key (attempt_step (Check now k) l) =
     (if key = k then filter (\<lambda>t. t > now - lim_window l) (hits_of k l) else hits_of key l)"
  "hits_of key (attempt_step (Failed now now' k) l) =
     (if key = k then filter (\<lambda>t. t > now - lim_window l) (hits_of k l) @ [now'] else hits_of key l)"
  "hits_of key (attempt_step (Succeeded k) l) = (if key = k then [] else hits_of key l)"
proof -
  show "hits_of key (attempt_step (Check now k) l) =
     (if key = k then filter (\<lambda>t. t > now - lim_window l) (hits_of k l) else hits_of key l)"
    by (simp add: locked_def case_prod_unfold)
  have set: "hits_of key (m\<lparr> lim_hits := map_set k ts (lim_hits m) \<rparr>) = (if key = k then ts else hits_of key m)" for m ts
    by (simp add: hits_of_def)
  show "hits_of key (attempt_step (Failed now now' k) l) =
     (if key = k then filter (\<lambda>t. t > now - lim_window l) (hits_of k l) @ [now'] else hits_of key l)"
    by (simp add: fail_def case_prod_unfold set)
  show "hits_of key (attempt_step (Succeeded k) l) = (if key = k then [] else hits_of key l)"
    by (simp add: reset_def hits_of_def)
qed

lemma attempts_snoc [simp]: "attempts (as @ [a]) l = attempt_step a (attempts as l)"
  by (simp add: attempts_def)

lemma attempts_Nil [simp]: "attempts [] l = l"
  by (simp add: attempts_def)

lemma history_snoc [simp]: "history key (as @ [a]) = failures key (history key as) a"
  by (simp add: history_def)

lemma attempts_simps [simp]: "lim_max (attempts as l) = lim_max l" "lim_window (attempts as l) = lim_window l"
  by (induction as rule: rev_induct) simp_all

lemma filter_later:
  "t \<le> t' \<Longrightarrow> filter (\<lambda>x. x > t' - w) (filter (\<lambda>x. x > t - w) xs) = filter (\<lambda>x :: int. x > t' - w) xs"
  by (induction xs) auto

text \<open>What pruning drops never counts again: at any later time the two counters keep the same failures.\<close>

lemma limiter_refines:
  assumes "\<forall>a \<in> set as. \<forall>t. attempt_time a = Some t \<longrightarrow> t \<le> now"
  shows "filter (\<lambda>t. t > now - w) (hits_of key (attempts as (limiter_new mx w)))
    = filter (\<lambda>t. t > now - w) (history key as)"
  using assms
proof (induction as rule: rev_induct)
  case Nil
  show ?case by (simp add: hits_of_def limiter_new_def history_def)
next
  case (snoc a as)
  then have IH: "filter (\<lambda>t. t > now - w) (hits_of key (attempts as (limiter_new mx w)))
    = filter (\<lambda>t. t > now - w) (history key as)" by simp
  show ?case
  proof (cases a)
    case (Check t k)
    then have "t \<le> now" using snoc.prems by simp
    then show ?thesis using IH Check by (cases "key = k") (simp_all add: hits_of_step(1) filter_later del: attempt_step.simps filter_filter)
  next
    case (Failed t t' k)
    then have "t \<le> now" using snoc.prems by simp
    then show ?thesis using IH Failed by (cases "key = k") (simp_all add: hits_of_step(2) filter_later del: attempt_step.simps filter_filter)
  next
    case (Succeeded k)
    then show ?thesis using IH Succeeded by (cases "key = k") (simp_all add: hits_of_step(3) del: attempt_step.simps)
  qed
qed

lemma snd_locked: "snd (locked now key l) \<longleftrightarrow> lim_max l \<le> length (filter (\<lambda>t. t > now - lim_window l) (hits_of key l))"
  by (simp add: locked_def case_prod_unfold)

text \<open>
  C27: the limiter refines the plain counter: after any run of checks, failures and successes whose
  clock readings are not after \<open>now\<close>, a key is locked at \<open>now\<close> exactly when at least the configured
  number of its failures since its last success are inside the window, so pruning, and what happens
  to other keys, never changes an answer.
\<close>

theorem lockout_refines_counter:
  assumes "\<forall>a \<in> set as. \<forall>t. attempt_time a = Some t \<longrightarrow> t \<le> now"
  shows "snd (locked now key (attempts as (limiter_new mx window)))
    \<longleftrightarrow> mx \<le> length (filter (\<lambda>t. t > now - window) (history key as))"
  using limiter_refines [OF assms, of window key mx] by (simp add: snd_locked)

theorem lockout_refines_counter_witness:
  "snd (locked 9 [1] (attempts [Failed 1 1 [1], Failed 2 2 [2], Check 3 [1], Failed 8 8 [1]] (limiter_new 2 10)))
   \<and> \<not> snd (locked 12 [1] (attempts [Failed 1 1 [1], Failed 2 2 [2], Check 3 [1], Failed 8 8 [1]] (limiter_new 2 10)))"
proof -
  have r: "snd (locked now [1] (attempts [Failed 1 1 [1], Failed 2 2 [2], Check 3 [1], Failed 8 8 [1]] (limiter_new 2 10)))
     \<longleftrightarrow> 2 \<le> length (filter (\<lambda>t. t > now - 10)
            (history [1] [Failed 1 1 [1], Failed 2 2 [2], Check 3 [1], Failed 8 8 [1]]))" if "8 \<le> now" for now
    using that by (intro lockout_refines_counter) auto
  show ?thesis using r [of 9] r [of 12] by (simp add: history_def)
qed

end
