(* ===== verification/Auth.thy ===== *)
theory Auth
  imports Sodium
begin

text \<open>
  auth.ts: the two token checks of the management plane. \<open>sha\<close> is the SHA-256 of node:crypto on the
  UTF-8 bytes of the token; both digests have the same length, so \<open>timingSafeEqual\<close> does not throw
  and is equality. The comparison of digests relies on the two tokens at hand having different digests
  when they differ, which \<open>no_collision\<close> says.
\<close>

definition LOOPBACK :: "jsstr list" where
  "LOOPBACK = [js ''127.0.0.1'', js ''::1'', js ''::ffff:127.0.0.1'']"

definition sha256 :: "(bytes \<Rightarrow> bytes) \<Rightarrow> jsstr \<Rightarrow> bytes" where
  "sha256 sha s = sha (text_encode s)"

definition timingSafeEqual :: "bytes \<Rightarrow> bytes \<Rightarrow> bool" where
  "timingSafeEqual a b \<longleftrightarrow> a = b"

definition tokenOk :: "(bytes \<Rightarrow> bytes) \<Rightarrow> jsstr \<Rightarrow> jsstr \<Rightarrow> bool" where
  "tokenOk sha presented expected =
     (if expected = [] \<or> presented = [] then False
      else timingSafeEqual (sha256 sha presented) (sha256 sha expected))"

record auth_config =
  cfg_mock :: bool
  cfg_opToken :: jsstr
  cfg_adminToken :: jsstr

definition operatorOk :: "(bytes \<Rightarrow> bytes) \<Rightarrow> jsstr \<Rightarrow> jsstr \<Rightarrow> auth_config \<Rightarrow> bool" where
  "operatorOk sha ip presentedOpToken cfg =
     (if cfg_mock cfg then True
      else if ip \<in> set LOOPBACK then True
      else tokenOk sha presentedOpToken (cfg_opToken cfg))"

definition manageOk :: "(bytes \<Rightarrow> bytes) \<Rightarrow> jsstr \<Rightarrow> jsstr \<Rightarrow> jsstr \<Rightarrow> auth_config \<Rightarrow> bool" where
  "manageOk sha ip opTokenHeader adminTokenHeader cfg =
     (if operatorOk sha ip opTokenHeader cfg then True
      else cfg_adminToken cfg \<noteq> [] \<and> tokenOk sha adminTokenHeader (cfg_adminToken cfg))"

definition no_collision :: "(bytes \<Rightarrow> bytes) \<Rightarrow> jsstr \<Rightarrow> jsstr \<Rightarrow> bool" where
  \<comment> \<open>these two tokens do not collide\<close>
  "no_collision sha s t \<longleftrightarrow> (sha256 sha s = sha256 sha t \<longrightarrow> text_encode s = text_encode t)"

lemma tokenOk_iff:
  assumes "no_collision sha presented expected" "wf16 presented" "wf16 expected"
  shows "tokenOk sha presented expected \<longleftrightarrow> expected \<noteq> [] \<and> presented = expected"
  using assms by (auto simp: tokenOk_def timingSafeEqual_def no_collision_def text_encode_inject)

lemma tokenOk_empty [simp]: "\<not> tokenOk sha p []" "\<not> tokenOk sha [] e"
  by (simp_all add: tokenOk_def)

text \<open>
  the management check decides as documented: outside mock mode and off the loopback addresses a
  caller is an operator exactly when it presents the configured operator token or the configured
  admin token, and a token that is not configured lets nobody in. The digests of the tokens compared
  are assumed not to collide.
\<close>

theorem manage_ok_iff:
  assumes "no_collision sha op (cfg_opToken cfg)" "no_collision sha adm (cfg_adminToken cfg)"
    and "wf16 op" "wf16 adm" "wf16 (cfg_opToken cfg)" "wf16 (cfg_adminToken cfg)"
  shows "manageOk sha ip op adm cfg \<longleftrightarrow> cfg_mock cfg \<or> ip \<in> {js ''127.0.0.1'', js ''::1'', js ''::ffff:127.0.0.1''}
    \<or> cfg_opToken cfg \<noteq> [] \<and> op = cfg_opToken cfg \<or> cfg_adminToken cfg \<noteq> [] \<and> adm = cfg_adminToken cfg"
  using tokenOk_iff [OF assms(1)] tokenOk_iff [OF assms(2)] assms(3-6) by (auto simp: manageOk_def operatorOk_def LOOPBACK_def)

theorem manage_ok_iff_witness:
  "manageOk (\<lambda>b. b) (js ''10.42.0.5'') [] (js ''s3cret'') \<lparr> cfg_mock = False, cfg_opToken = [], cfg_adminToken = js ''s3cret'' \<rparr>
   \<and> \<not> manageOk (\<lambda>b. b) (js ''10.42.0.5'') [] [] \<lparr> cfg_mock = False, cfg_opToken = [], cfg_adminToken = [] \<rparr>"
proof -
  have sha: "no_collision (\<lambda>b. b) s t" for s t by (simp add: no_collision_def sha256_def)
  have wf: "wf16 (js ''s3cret'')" "wf16 []" by (simp_all add: js_def is_high_def is_low_def)
  show ?thesis
    using manage_ok_iff [OF sha sha wf(2,1), of "\<lparr> cfg_mock = False, cfg_opToken = [], cfg_adminToken = js ''s3cret'' \<rparr>"]
      manage_ok_iff [OF sha sha wf(2,2), of "\<lparr> cfg_mock = False, cfg_opToken = [], cfg_adminToken = [] \<rparr>"] wf
    by simp
qed

end
