(* ===== verification/Url.thy ===== *)
theory Url
  imports Wire
begin

text \<open>
  What the sources use of URLs and HTTP: the two percent-encoding functions of the language, and the
  outcome of a \<open>fetch\<close>. The network is a function from requests to responses, an argument of every
  definition that calls out; \<open>None\<close> is a rejected promise (refused, timed out).
\<close>

section \<open>Percent-encoding\<close>

definition uri_unreserved :: "byte \<Rightarrow> bool" where
  "uri_unreserved b \<longleftrightarrow> (48 \<le> b \<and> b \<le> 57) \<or> (65 \<le> b \<and> b \<le> 90) \<or> (97 \<le> b \<and> b \<le> 122)
     \<or> b \<in> {0x2d, 0x5f, 0x2e, 0x21, 0x7e, 0x2a, 0x27, 0x28, 0x29}"

definition hex_upper :: "nat \<Rightarrow> jschar" where
  "hex_upper d = of_nat (if d < 10 then 48 + d else 55 + d)"

definition percent_byte :: "byte \<Rightarrow> jsstr" where
  "percent_byte b = [0x25, hex_upper (unat b div 16), hex_upper (unat b mod 16)]"

definition encodeURIComponent :: "jsstr \<Rightarrow> jsstr res" where
  "encodeURIComponent s =
     (if wf16 s
      then Inr (concat (map (\<lambda>b. if uri_unreserved b then [of_nat (unat b)] else percent_byte b) (text_encode s)))
      else throw JsError ''URI error'')"

definition strict_utf8 :: "bytes \<Rightarrow> jsstr res" where
  "strict_utf8 bs =
     (let cps = utf8_cps (map unat bs)
      in if concat (map utf8_cp cps) = map unat bs then Inr (concat (map utf16_cp cps))
         else throw JsError ''URI error'')"

fun decode_uri :: "bytes \<Rightarrow> jsstr \<Rightarrow> jsstr res" where
  \<comment> \<open>the first argument: the bytes of the escapes directly before\<close>
  "decode_uri acc [] = strict_utf8 acc"
| "decode_uri acc (c # s) =
     (if c \<noteq> 0x25 then rbind (strict_utf8 acc) (\<lambda>p. rmap (\<lambda>r. p @ c # r) (decode_uri [] s))
      else (case s of
          h # l # r \<Rightarrow>
            (case (hex_val h, hex_val l) of
               (Some x, Some y) \<Rightarrow> decode_uri (acc @ [of_nat (x * 16 + y)]) r
             | _ \<Rightarrow> throw JsError ''URI error'')
        | _ \<Rightarrow> throw JsError ''URI error''))"

definition decodeURIComponent :: "jsstr \<Rightarrow> jsstr res" where
  "decodeURIComponent s = decode_uri [] s"

section \<open>HTTP\<close>

datatype http_method = GET | POST | DELETE | OtherMethod

record http_request =
  rq_method :: http_method
  rq_url :: jsstr
  rq_token :: jsstr \<comment> \<open>the header \<open>x-admin-token\<close>, empty when absent\<close>
  rq_body :: bytes
  rq_file :: "(jsstr \<times> jsstr \<times> bytes) option" \<comment> \<open>the multipart field \<open>file\<close>: name, type, content\<close>

record http_response =
  rs_status :: nat
  rs_type :: "jsstr option" \<comment> \<open>\<open>content-type\<close>\<close>
  rs_disposition :: "jsstr option" \<comment> \<open>\<open>content-disposition\<close>\<close>
  rs_body :: bytes

type_synonym network = "http_request \<Rightarrow> http_response option"

definition http_get :: "jsstr \<Rightarrow> http_request" where
  "http_get url = \<lparr> rq_method = GET, rq_url = url, rq_token = [], rq_body = [], rq_file = None \<rparr>"

definition http_post :: "jsstr \<Rightarrow> json \<Rightarrow> http_request" where
  "http_post url v = \<lparr> rq_method = POST, rq_url = url, rq_token = [], rq_body = text_encode (json_stringify v),
     rq_file = None \<rparr>"

definition header_ws :: "jschar \<Rightarrow> bool" where
  "header_ws k \<longleftrightarrow> k = 9 \<or> k = 10 \<or> k = 13 \<or> k = 32"

definition header_value :: "jsstr \<Rightarrow> jsstr res" where
  \<comment> \<open>a header's value as \<open>fetch\<close> takes it: white space around it goes, a byte string without NUL, CR and LF stays\<close>
  "header_value s =
     (let v = rev (dropWhile header_ws (rev (dropWhile header_ws s)))
      in if list_all (\<lambda>k. k \<le> 0xff \<and> k \<noteq> 0 \<and> k \<noteq> 10 \<and> k \<noteq> 13) v then Inr v
         else throw JsError ''Header has an invalid value'')"

lemma header_value_none [simp]: "header_value [] = Inr []"
  by (simp add: header_value_def)

definition fetch :: "network \<Rightarrow> http_request \<Rightarrow> http_response res" where
  "fetch net rq =
     rbind (header_value (rq_token rq)) (\<lambda>t. of_lib ''Unable to connect'' (net (rq\<lparr> rq_token := t \<rparr>)))"

lemma plain_requests [simp]: "rq_token (http_get url) = []" "rq_token (http_post url v) = []"
  by (simp_all add: http_get_def http_post_def)

lemma fetch_plain: "rq_token rq = [] \<Longrightarrow> fetch net rq = of_lib ''Unable to connect'' (net rq)"
  by (cases rq) (simp add: fetch_def)

definition http_ok :: "http_response \<Rightarrow> bool" where
  "http_ok r \<longleftrightarrow> 200 \<le> rs_status r \<and> rs_status r \<le> 299"

definition response_json :: "lib \<Rightarrow> http_response \<Rightarrow> json res" where
  "response_json L r = parse_bytes L (rs_body r)"

definition json_response :: "nat \<Rightarrow> json \<Rightarrow> http_response" where
  \<comment> \<open>\<open>Response.json(v, { status })\<close>\<close>
  "json_response status v = \<lparr> rs_status = status, rs_type = Some (js ''application/json''), rs_disposition = None,
     rs_body = text_encode (json_stringify v) \<rparr>"

definition text_response :: "nat \<Rightarrow> jsstr \<Rightarrow> http_response" where
  \<comment> \<open>\<open>new Response(text, { status })\<close>\<close>
  "text_response status s = \<lparr> rs_status = status, rs_type = Some (js ''text/plain;charset=UTF-8''), rs_disposition = None,
     rs_body = text_encode s \<rparr>"

lemma json_response_simps [simp]: "rs_status (json_response n v) = n" "rs_status (text_response n s) = n"
  by (simp_all add: json_response_def text_response_def)

lemma response_json_object: "json_ok (JObj kvs) \<Longrightarrow> response_json L (json_response n (JObj kvs)) = Inr (JObj kvs)"
  by (simp add: response_json_def json_response_def parse_stringify)

section \<open>Texts that need no escape\<close>

definition uri_plain :: "jschar \<Rightarrow> bool" where
  "uri_plain c \<longleftrightarrow> c < 0x80 \<and> uri_unreserved (of_nat (unat c))"

lemma encode_plain:
  assumes "list_all uri_plain s"
  shows "encodeURIComponent s = Inr s"
proof -
  have ascii: "\<forall>c \<in> set s. c < 0x80" using assms by (auto simp: list_all_iff uri_plain_def)
  have again: "of_nat (unat (of_nat (unat c) :: byte)) = c" if "c < 0x80" for c :: jschar
  proof -
    have "unat (of_nat (unat c) :: byte) = unat c"
      using that by (simp add: word_less_nat_alt unat_of_nat take_bit_nat_eq_self del: of_nat_unat)
    then show ?thesis by (simp del: of_nat_unat) simp
  qed
  have "concat (map (\<lambda>b. if uri_unreserved b then [of_nat (unat b)] else percent_byte b) (text_encode s)) = s"
    unfolding text_encode_ascii [OF ascii] using assms again
    by (induction s) (simp_all add: uri_plain_def)
  then show ?thesis by (simp add: encodeURIComponent_def ascii_wf16 ascii)
qed

lemma decode_plain:
  assumes "0x25 \<notin> set s"
  shows "decodeURIComponent s = Inr s"
proof -
  have "decode_uri [] s = Inr s" using assms by (induction s) (auto simp: strict_utf8_def Let_def)
  then show ?thesis by (simp add: decodeURIComponent_def)
qed

lemma plain_no_percent: "list_all uri_plain s \<Longrightarrow> 0x25 \<notin> set s"
  by (auto simp: list_all_iff uri_plain_def uri_unreserved_def)

end
