(* ===== verification/FriendCode.thy ===== *)
theory FriendCode
  imports FriendsFacts
begin

text \<open>
  friendcode.ts: the packed invite code, the fingerprint of an identity key, and the reply label. A
  \<open>Uint8Array\<close> is a list of bytes whose length never changes; writing past its end throws
  (\<open>set\<close>, \<open>setBigUint64\<close>) or is lost (an index), reading past it is \<open>undefined\<close> (\<open>None\<close>),
  and \<open>subarray\<close> is cut at the end.
\<close>

section \<open>Byte buffers\<close>

definition u8_put :: "bytes \<Rightarrow> nat \<Rightarrow> byte \<Rightarrow> bytes" where
  \<comment> \<open>\<open>buf[i] = b\<close>\<close>
  "u8_put buf i b = (if i < length buf then buf[i := b] else buf)"

definition u8_set :: "bytes \<Rightarrow> nat \<Rightarrow> bytes \<Rightarrow> bytes res" where
  \<comment> \<open>\<open>buf.set(bs, i)\<close>\<close>
  "u8_set buf i bs =
     (if i + length bs > length buf then throw JsError ''Range consisting of offset and length are out of bounds''
      else Inr (take i buf @ bs @ drop (i + length bs) buf))"

definition u64_bytes :: "int \<Rightarrow> bytes" where
  \<comment> \<open>the big-endian bytes of a \<open>BigInt\<close> modulo \<open>2^64\<close>\<close>
  "u64_bytes n = map (\<lambda>i. of_int (n div 256 ^ i)) (rev [0..<8])"

definition bytes_int :: "bytes \<Rightarrow> int" where
  "bytes_int bs = foldl (\<lambda>acc b. acc * 256 + uint b) 0 bs"

definition set_u64 :: "bytes \<Rightarrow> nat \<Rightarrow> int \<Rightarrow> bytes res" where
  "set_u64 buf i n = u8_set buf i (u64_bytes n)"

definition get_u64 :: "bytes \<Rightarrow> nat \<Rightarrow> int res" where
  "get_u64 buf i =
     (if i + 8 > length buf then throw JsError ''Out of bounds access''
      else Inr (bytes_int (take 8 (drop i buf))))"

definition u8_at :: "bytes \<Rightarrow> nat \<Rightarrow> byte option" where
  "u8_at buf i = (if i < length buf then Some (buf ! i) else None)"

definition subarray :: "bytes \<Rightarrow> nat \<Rightarrow> nat \<Rightarrow> bytes" where
  \<comment> \<open>\<open>buf.subarray(i, i + n)\<close>\<close>
  "subarray buf i n = take n (drop i buf)"

section \<open>Invites\<close>

definition INVITE_PREFIX :: jsstr where
  "INVITE_PREFIX = js ''island-invite1''"

definition REPLY_PREFIX :: jsstr where
  "REPLY_PREFIX = js ''island-reply1''"

definition INVITE_VERSION :: byte where
  "INVITE_VERSION = 1"

definition big_of_date :: "lib \<Rightarrow> jsstr \<Rightarrow> int res" where
  \<comment> \<open>\<open>BigInt(Date.parse(s))\<close>, which throws on NaN\<close>
  "big_of_date L s = of_lib ''Not an integer'' (dateParse L s)"

definition pack_invite :: "lib \<Rightarrow> friend_token \<Rightarrow> bytes \<Rightarrow> bytes \<Rightarrow> bytes \<Rightarrow> bytes \<Rightarrow> bytes \<Rightarrow> bytes \<Rightarrow> bytes res" where
  \<comment> \<open>the writes into \<open>buf\<close>\<close>
  "pack_invite L t ed x nonce sig lbl wg0 =
     rbind (u8_set (u8_put (replicate (1 + 32 + 32 + 16 + 8 + 8 + 64 + 1 + length lbl + 1 + length wg0) 0) 0 INVITE_VERSION) 1 ed) (\<lambda>b.
     rbind (u8_set b 33 x) (\<lambda>b.
     rbind (u8_set b 65 nonce) (\<lambda>b.
     rbind (big_of_date L (tok_issued t)) (\<lambda>n.
     rbind (set_u64 b 81 n) (\<lambda>b.
     rbind (big_of_date L (tok_expires t)) (\<lambda>n.
     rbind (set_u64 b 89 n) (\<lambda>b.
     rbind (u8_set b 97 sig) (\<lambda>b.
     rbind (u8_set (u8_put b 161 (of_nat (length lbl))) 162 lbl) (\<lambda>b.
       u8_set (u8_put b (162 + length lbl) (of_nat (length wg0))) (163 + length lbl) wg0)))))))))"

definition encodeInvite :: "lib \<Rightarrow> friend_token \<Rightarrow> jsstr res" where
  "encodeInvite L t =
     rbind (of_lib ''invalid input'' (from_base64 L ORIGINAL (peer_ed (tok_from t)))) (\<lambda>ed.
     rbind (of_lib ''invalid input'' (from_base64 L ORIGINAL (peer_x (tok_from t)))) (\<lambda>x.
     rbind (of_lib ''invalid input'' (from_base64 L ORIGINAL (tok_nonce t))) (\<lambda>nonce.
     rbind (of_lib ''invalid input'' (from_base64 L ORIGINAL (tok_sig t))) (\<lambda>sig.
       let lbl = text_encode (peer_label (tok_from t)); wg0 = text_encode (peer_wg0 (tok_from t))
       in if length lbl > 255 \<or> length wg0 > 255 then throw JsError ''label/wg0 too long for an invite''
          else rmap (\<lambda>buf. INVITE_PREFIX @ to_base64 L URLSAFE_NO_PADDING buf)
                 (pack_invite L t ed x nonce sig lbl wg0)))))"

definition unpack_names :: "bytes \<Rightarrow> jsstr \<times> jsstr" where
  \<comment> \<open>a length byte past the end is \<open>undefined\<close>: every later offset is NaN and every slice empty\<close>
  "unpack_names buf =
     (case u8_at buf 161 of
        None \<Rightarrow> (text_decode [], text_decode [])
      | Some n \<Rightarrow>
          (text_decode (subarray buf 162 (unat n)),
           (case u8_at buf (162 + unat n) of
              None \<Rightarrow> text_decode []
            | Some m \<Rightarrow> text_decode (subarray buf (163 + unat n) (unat m)))))"

definition decodeInvite :: "lib \<Rightarrow> jsstr \<Rightarrow> friend_token res" where
  "decodeInvite L code =
     (if \<not> startsWith code INVITE_PREFIX then throw JsError ''not an island invite code''
      else rbind (of_lib ''invalid input''
                   (from_base64 L URLSAFE_NO_PADDING (trim (drop (length INVITE_PREFIX) code)))) (\<lambda>buf.
        if u8_at buf 0 \<noteq> Some INVITE_VERSION then throw JsError ''unsupported invite version''
        else rbind (get_u64 buf 81) (\<lambda>issued.
          rbind (get_u64 buf 89) (\<lambda>expires.
            let (lbl, wg0) = unpack_names buf
            in rbind (toISOString issued) (\<lambda>iss.
               rbind (toISOString expires) (\<lambda>ex.
                 Inr \<lparr> tok_v = 1,
                       tok_from = \<lparr> peer_ed = to_base64 L ORIGINAL (subarray buf 1 32),
                                   peer_x = to_base64 L ORIGINAL (subarray buf 33 32),
                                   peer_label = lbl, peer_wg0 = wg0 \<rparr>,
                       tok_nonce = to_base64 L ORIGINAL (subarray buf 65 16), tok_issued = iss,
                       tok_expires = ex, tok_sig = to_base64 L ORIGINAL (subarray buf 97 64) \<rparr>))))))"

section \<open>Fingerprints\<close>

definition ALPHABET :: jsstr where
  "ALPHABET = js ''0123456789ABCDEFGHJKMNPQRSTVWXYZ''"

definition code_acc :: "bytes \<Rightarrow> nat" where
  \<comment> \<open>the first 50 bits of the hash\<close>
  "code_acc hash = foldl (\<lambda>acc b. acc * 256 + unat b) 0 (take 7 hash) div 64"

definition code_symbols :: "nat \<Rightarrow> jsstr" where
  "code_symbols acc = map (\<lambda>i. ALPHABET ! (acc div 32 ^ i mod 32)) [9, 8, 7, 6, 5, 4, 3, 2, 1, 0]"

definition fingerprint :: "lib \<Rightarrow> jsstr \<Rightarrow> jsstr res" where
  "fingerprint L ed25519B64 =
     rbind (of_lib ''invalid input'' (from_base64 L ORIGINAL ed25519B64)) (\<lambda>k.
     rbind (of_lib ''invalid hash length'' (crypto_generichash L 32 k)) (\<lambda>hash.
       if length hash < 7 then throw JsError ''Invalid argument type in ToBigInt operation''
       else let out = code_symbols (code_acc hash)
            in Inr (js ''ISL-'' @ take 5 out @ js ''-'' @ drop 5 out)))"

definition codeMatches :: "lib \<Rightarrow> jsstr \<Rightarrow> jsstr \<Rightarrow> bool res" where
  "codeMatches L ed25519B64 code =
     rmap (\<lambda>f. f = toUpperCase L (trim code)) (fingerprint L ed25519B64)"

section \<open>Replies\<close>

definition encodeReply :: "jsstr \<Rightarrow> jsstr" where
  "encodeReply acceptBlob = REPLY_PREFIX @ acceptBlob"

definition decodeReply :: "jsstr \<Rightarrow> jsstr res" where
  "decodeReply code =
     (if \<not> startsWith code REPLY_PREFIX then throw JsError ''not an island reply code''
      else Inr (trim (drop (length REPLY_PREFIX) code)))"

section \<open>Facts about the buffer\<close>

lemma u8_set_at:
  "i = length p \<Longrightarrow> length bs + m = n \<Longrightarrow> u8_set (p @ replicate n 0) i bs = Inr ((p @ bs) @ replicate m 0)"
  by (auto simp: u8_set_def)

lemma u8_put_at:
  "i = length p \<Longrightarrow> 1 + m = n \<Longrightarrow> u8_put (p @ replicate n 0) i b = (p @ [b]) @ replicate m 0"
  by (cases n) (simp_all add: u8_put_def)

lemma length_u64 [simp]: "length (u64_bytes n) = 8"
  by (simp add: u64_bytes_def)

lemma uint_byte: "uint (of_int n :: byte) = n mod 256"
  by (simp add: unsigned_of_int take_bit_eq_mod)

lemma bytes_int_u64:
  assumes "0 \<le> n" "n < 2 ^ 64"
  shows "bytes_int (u64_bytes n) = n"
proof -
  have "foldl (\<lambda>acc b. acc * 256 + uint b) acc (map (\<lambda>i. of_int (n div 256 ^ i) :: byte) (rev [0..<k]))
    = acc * 256 ^ k + n mod 256 ^ k" for acc k
  proof (induction k arbitrary: acc)
    case (Suc k)
    have "n mod 256 ^ Suc k = 256 ^ k * (n div 256 ^ k mod 256) + n mod 256 ^ k"
      using zmod_zmult2_eq [of 256 n "256 ^ k"] by (simp add: mult.commute)
    then show ?case using Suc by (simp add: uint_byte algebra_simps)
  qed simp
  from this [of 0 8] show ?thesis
    using assms by (simp add: bytes_int_def u64_bytes_def del: upt_rec_numeral)
qed

lemma pack_invite_eq:
  assumes len: "length ed = 32" "length x = 32" "length nonce = 16" "length sig = 64"
    and dates: "dateParse L (tok_issued t) = Some i" "dateParse L (tok_expires t) = Some e"
  shows "pack_invite L t ed x nonce sig lbl wg0 = Inr (INVITE_VERSION # ed @ x @ nonce @ u64_bytes i @ u64_bytes e
     @ sig @ of_nat (length lbl) # lbl @ of_nat (length wg0) # wg0)"
proof -
  let ?n = "length lbl + length wg0" and ?b = "of_nat (length lbl) :: byte" and ?c = "of_nat (length wg0) :: byte"
  let ?p0 = "[INVITE_VERSION]" let ?p1 = "?p0 @ ed" let ?p2 = "?p1 @ x" let ?p3 = "?p2 @ nonce"
  let ?p4 = "?p3 @ u64_bytes i" let ?p5 = "?p4 @ u64_bytes e" let ?p6 = "?p5 @ sig" let ?p7 = "?p6 @ [?b]"
  let ?p8 = "?p7 @ lbl" let ?p9 = "?p8 @ [?c]"
  have 0: "u8_put ([] @ replicate (163 + ?n) 0) 0 INVITE_VERSION = ([] @ ?p0) @ replicate (162 + ?n) 0"
    by (rule u8_put_at) simp_all
  have 1: "u8_set (?p0 @ replicate (162 + ?n) 0) 1 ed = Inr (?p1 @ replicate (130 + ?n) 0)"
    by (rule u8_set_at) (simp_all add: len)
  have 2: "u8_set (?p1 @ replicate (130 + ?n) 0) 33 x = Inr (?p2 @ replicate (98 + ?n) 0)"
    by (rule u8_set_at) (simp_all add: len)
  have 3: "u8_set (?p2 @ replicate (98 + ?n) 0) 65 nonce = Inr (?p3 @ replicate (82 + ?n) 0)"
    by (rule u8_set_at) (simp_all add: len)
  have 4: "set_u64 (?p3 @ replicate (82 + ?n) 0) 81 i = Inr (?p4 @ replicate (74 + ?n) 0)"
    unfolding set_u64_def by (rule u8_set_at) (simp_all add: len)
  have 5: "set_u64 (?p4 @ replicate (74 + ?n) 0) 89 e = Inr (?p5 @ replicate (66 + ?n) 0)"
    unfolding set_u64_def by (rule u8_set_at) (simp_all add: len)
  have 6: "u8_set (?p5 @ replicate (66 + ?n) 0) 97 sig = Inr (?p6 @ replicate (2 + ?n) 0)"
    by (rule u8_set_at) (simp_all add: len)
  have 7: "u8_put (?p6 @ replicate (2 + ?n) 0) 161 ?b = ?p7 @ replicate (1 + ?n) 0"
    by (rule u8_put_at) (simp_all add: len)
  have 8: "u8_set (?p7 @ replicate (1 + ?n) 0) 162 lbl = Inr (?p8 @ replicate (1 + length wg0) 0)"
    by (rule u8_set_at) (simp_all add: len)
  have 9: "u8_put (?p8 @ replicate (1 + length wg0) 0) (162 + length lbl) ?c = ?p9 @ replicate (length wg0) 0"
    by (rule u8_put_at) (simp_all add: len)
  have 10: "u8_set (?p9 @ replicate (length wg0) 0) (163 + length lbl) wg0 = Inr ((?p9 @ wg0) @ replicate 0 0)"
    by (rule u8_set_at) (simp_all add: len)
  have size: "1 + 32 + 32 + 16 + 8 + 8 + 64 + 1 + length lbl + 1 + length wg0 = 163 + ?n" by simp
  show ?thesis
    unfolding pack_invite_def size 0 [unfolded append_Nil] 1 rbind_simps 2 3 big_of_date_def dates of_lib_simps
      4 5 6 7 8 9 10
    by simp
qed

section \<open>Decoding an encoded invite\<close>

definition sizes_ok :: "lib \<Rightarrow> bool" where
  \<comment> \<open>libsodium's key and signature lengths\<close>
  "sizes_ok L \<longleftrightarrow> (\<forall>pk sk. sign_key L pk sk \<longrightarrow> length pk = 32) \<and> (\<forall>pub priv. box_key L pub priv \<longrightarrow> length pub = 32)
     \<and> (\<forall>m sk sig. crypto_sign_detached L m sk = Some sig \<longrightarrow> length sig = 64)"

definition short_name :: "jsstr \<Rightarrow> bool" where
  \<comment> \<open>survives UTF-8 and fits a length byte\<close>
  "short_name s \<longleftrightarrow> wf16 s \<and> (s \<noteq> [] \<longrightarrow> hd s \<noteq> 0xfeff) \<and> length (text_encode s) \<le> 255"

lemma short_name_decode: "short_name s \<Longrightarrow> text_decode (text_encode s) = s"
  by (auto simp: short_name_def text_decode_encode)

lemma unpack_packed:
  assumes "length p = 161" "length lbl \<le> 255" "length wg0 \<le> 255"
  shows "unpack_names (p @ of_nat (length lbl) # lbl @ of_nat (length wg0) # wg0) = (text_decode lbl, text_decode wg0)"
proof -
  have n: "unat (of_nat n :: byte) = n" if "n \<le> 255" for n
    using that by (simp add: unat_of_nat take_bit_nat_eq_self)
  have 1: "u8_at (p @ b # r) 161 = Some b" for b r using assms(1) by (simp add: u8_at_def nth_append)
  have 2: "u8_at (p @ b # lbl @ c # r) (162 + length lbl) = Some c" for b c r
    using assms(1) by (simp add: u8_at_def nth_append)
  show ?thesis
    using assms by (simp add: unpack_names_def 1 2 n) (simp add: subarray_def)
qed

lemma decode_packed:
  assumes "base64_ok L" and len: "length ed = 32" "length x = 32" "length nonce = 16" "length sig = 64"
    and names: "length lbl \<le> 255" "length wg0 \<le> 255"
    and dates: "0 \<le> i" "toISOString i = Inr iss" "0 \<le> e" "toISOString e = Inr ex"
  shows "decodeInvite L (INVITE_PREFIX @ to_base64 L URLSAFE_NO_PADDING (INVITE_VERSION # ed @ x @ nonce
       @ u64_bytes i @ u64_bytes e @ sig @ of_nat (length lbl) # lbl @ of_nat (length wg0) # wg0))
     = Inr \<lparr> tok_v = 1, tok_from = \<lparr> peer_ed = to_base64 L ORIGINAL ed, peer_x = to_base64 L ORIGINAL x,
               peer_label = text_decode lbl, peer_wg0 = text_decode wg0 \<rparr>, tok_nonce = to_base64 L ORIGINAL nonce,
             tok_issued = iss, tok_expires = ex, tok_sig = to_base64 L ORIGINAL sig \<rparr>"
proof -
  let ?r = "of_nat (length lbl) # lbl @ of_nat (length wg0) # wg0"
  let ?buf = "INVITE_VERSION # ed @ x @ nonce @ u64_bytes i @ u64_bytes e @ sig @ ?r"
  have cut: "subarray (p @ q @ r) k n = q" if "length p = k" "length q = n" for p q r :: bytes and k n
    using that by (auto simp: subarray_def)
  have parts: "subarray ?buf 1 32 = ed" "subarray ?buf 33 32 = x" "subarray ?buf 65 16 = nonce" "subarray ?buf 97 64 = sig"
    "subarray ?buf 81 8 = u64_bytes i" "subarray ?buf 89 8 = u64_bytes e"
    using cut [of "[INVITE_VERSION]"] cut [of "INVITE_VERSION # ed"] cut [of "INVITE_VERSION # ed @ x"]
      cut [of "INVITE_VERSION # ed @ x @ nonce"] cut [of "INVITE_VERSION # ed @ x @ nonce @ u64_bytes i"]
      cut [of "INVITE_VERSION # ed @ x @ nonce @ u64_bytes i @ u64_bytes e"] len by simp_all
  have time: "0 \<le> n \<Longrightarrow> toISOString n = Inr s \<Longrightarrow> n < 2 ^ 64" for n s
    by (simp add: toISOString_eq max_time_def)
  have u64: "get_u64 ?buf 81 = Inr i" "get_u64 ?buf 89 = Inr e"
    using parts(5,6) dates time len by (simp_all add: get_u64_def subarray_def bytes_int_u64)
  have names': "unpack_names ?buf = (text_decode lbl, text_decode wg0)"
    using unpack_packed [of "INVITE_VERSION # ed @ x @ nonce @ u64_bytes i @ u64_bytes e @ sig"] len names by simp
  have "decodeInvite L (INVITE_PREFIX @ to_base64 L URLSAFE_NO_PADDING buf)
    = (if u8_at buf 0 \<noteq> Some INVITE_VERSION then throw JsError ''unsupported invite version''
       else rbind (get_u64 buf 81) (\<lambda>issued. rbind (get_u64 buf 89) (\<lambda>expires.
            let (lbl, wg0) = unpack_names buf
            in rbind (toISOString issued) (\<lambda>iss.
               rbind (toISOString expires) (\<lambda>ex.
                 Inr \<lparr> tok_v = 1,
                       tok_from = \<lparr> peer_ed = to_base64 L ORIGINAL (subarray buf 1 32),
                                   peer_x = to_base64 L ORIGINAL (subarray buf 33 32),
                                   peer_label = lbl, peer_wg0 = wg0 \<rparr>,
                       tok_nonce = to_base64 L ORIGINAL (subarray buf 65 16), tok_issued = iss,
                       tok_expires = ex, tok_sig = to_base64 L ORIGINAL (subarray buf 97 64) \<rparr>)))))" for buf
    using assms(1) by (simp add: decodeInvite_def trim_b64 base64D(1))
  moreover have "u8_at ?buf 0 = Some INVITE_VERSION" by (simp add: u8_at_def)
  ultimately show ?thesis by (simp only: u64 parts names' dates rbind_simps if_False simp_thms Let_def prod.case)
qed

lemma encode_packed:
  assumes "base64_ok L" "peer_ed (tok_from t) = to_base64 L ORIGINAL ed" "peer_x (tok_from t) = to_base64 L ORIGINAL x"
    "tok_nonce t = to_base64 L ORIGINAL nonce" "tok_sig t = to_base64 L ORIGINAL sig"
    and len: "length ed = 32" "length x = 32" "length nonce = 16" "length sig = 64"
    and "toISOString i = Inr (tok_issued t)" "toISOString e = Inr (tok_expires t)"
    and names: "length (text_encode (peer_label (tok_from t))) \<le> 255" "length (text_encode (peer_wg0 (tok_from t))) \<le> 255"
  shows "encodeInvite L t = Inr (INVITE_PREFIX @ to_base64 L URLSAFE_NO_PADDING (INVITE_VERSION # ed @ x @ nonce
       @ u64_bytes i @ u64_bytes e @ sig @ of_nat (length (text_encode (peer_label (tok_from t)))) # text_encode (peer_label (tok_from t))
       @ of_nat (length (text_encode (peer_wg0 (tok_from t)))) # text_encode (peer_wg0 (tok_from t))))"
  using assms(1-5) names pack_invite_eq [OF len, of L t i e] assms(10,11)
  by (simp add: encodeInvite_def base64D(1) Let_def dateParse_toISOString)

lemma token_invite:
  assumes "base64_ok L" "sizes_ok L" "id_ok L i" "makeToken L rnd i lbl w ttl now = Inr t" "length rnd = 16"
    and "0 \<le> now" "0 \<le> now + ttl * 1000" "short_name lbl" "short_name w"
  obtains c where "encodeInvite L t = Inr c" "decodeInvite L c = Inr t" "startsWith c INVITE_PREFIX"
proof -
  obtain iss ex where iss: "toISOString now = Inr iss" and ex: "toISOString (now + ttl * 1000) = Inr ex"
    and t: "t = \<lparr> tok_v = 1, tok_from = peerPubOf L i lbl w, tok_nonce = toB64 L rnd, tok_issued = iss,
                   tok_expires = ex, tok_sig = tok_sig t \<rparr>"
    using assms(4) by (auto simp: makeToken_def res_eq Let_def)
  obtain sig where sig: "tok_sig t = toB64 L sig" "length sig = 64"
    using makeToken_fields(5) [OF assms(4)] assms(2) by (auto simp: sign_def res_eq sizes_ok_def)
  have len: "length (publicKey (ed25519 i)) = 32" "length (boxPublicKey (x25519 i)) = 32"
    using assms(2,3) by (auto simp: sizes_ok_def id_ok_def)
  have p: "peerPubOf L i lbl w = \<lparr> peer_ed = to_base64 L ORIGINAL (publicKey (ed25519 i)),
      peer_x = to_base64 L ORIGINAL (boxPublicKey (x25519 i)), peer_label = lbl, peer_wg0 = w \<rparr>"
    by (simp add: peerPubOf_def toB64_def)
  have f: "tok_from t = peerPubOf L i lbl w" "tok_nonce t = to_base64 L ORIGINAL rnd" "tok_issued t = iss" "tok_expires t = ex"
    using t by (metis friend_token.select_convs(2-5) toB64_def)+
  have names: "length (text_encode lbl) \<le> 255" "length (text_encode w) \<le> 255"
    using assms(8,9) by (simp_all add: short_name_def)
  have "encodeInvite L t = Inr (INVITE_PREFIX @ to_base64 L URLSAFE_NO_PADDING (INVITE_VERSION # publicKey (ed25519 i)
       @ boxPublicKey (x25519 i) @ rnd @ u64_bytes now @ u64_bytes (now + ttl * 1000) @ sig
       @ of_nat (length (text_encode lbl)) # text_encode lbl @ of_nat (length (text_encode w)) # text_encode w))"
    using encode_packed [OF assms(1) _ _ f(2) _ len assms(5) sig(2), where i = now and e = "now + ttl * 1000"]
      names iss ex sig(1) by (simp add: f p toB64_def)
  moreover have "decodeInvite L (INVITE_PREFIX @ to_base64 L URLSAFE_NO_PADDING (INVITE_VERSION # publicKey (ed25519 i)
       @ boxPublicKey (x25519 i) @ rnd @ u64_bytes now @ u64_bytes (now + ttl * 1000) @ sig
       @ of_nat (length (text_encode lbl)) # text_encode lbl @ of_nat (length (text_encode w)) # text_encode w)) = Inr t"
    unfolding decode_packed [OF assms(1) len assms(5) sig(2) names assms(6) iss assms(7) ex]
    using assms(8,9) by (subst t) (simp add: short_name_decode p toB64_def sig)
  ultimately show thesis using that by simp
qed

end
