(* ===== verification/FriendCodeProps.thy ===== *)
theory FriendCodeProps
  imports FriendCode FriendsProps
begin

text \<open>
  The properties of friendcode.ts: an invite decodes to the token it was made from, and a friend code
  commits to the first 50 bits of the hash of the identity key.
\<close>

section \<open>Invites\<close>

lemma demo_sizes_ok: "sizes_ok demo_lib"
  by (auto simp: sizes_ok_def sign_key_def box_key_def demo_lib_def split: if_splits)

text \<open>
  C28: an invite round trip: the token a node issues (with a clock and a lifetime not before 1970 and a
  label and address of at most 255 bytes of well-formed text) encodes to an invite code, and the code
  decodes to that very token, so its signature still verifies until it expires.
\<close>

theorem invite_roundtrip:
  assumes "lib_ok L" "sizes_ok L" "id_ok L (bk_id b)" "issueToken L rnd ttl now b = (b', Inr t)" "length rnd = 16"
    and "0 \<le> now" "0 \<le> ttl" "short_name (bk_label b)" "short_name (bk_wg0 b)"
  shows "\<exists>c. encodeInvite L t = Inr c \<and> decodeInvite L c = Inr t \<and> startsWith c (js ''island-invite1'')
    \<and> (now' \<le> now + ttl * 1000 \<longrightarrow> rbind (decodeInvite L c) (\<lambda>t. verifyToken L t now') = Inr (tok_from t))"
proof -
  have made: "makeToken L rnd (bk_id b) (bk_label b) (bk_wg0 b) ttl now = Inr t"
    using assms(4) by (auto simp: issueToken_def split: sum.splits)
  obtain c where "encodeInvite L t = Inr c" "decodeInvite L c = Inr t" "startsWith c INVITE_PREFIX"
    by (rule token_invite [OF lib_okD(1) [OF assms(1)] assms(2,3) made assms(5,6) _ assms(8,9)])
      (use assms(6,7) in simp)
  then show ?thesis
    using made_token_verifies [OF assms(1,3) made, of now'] makeToken_fields(2) [OF made] by (simp add: INVITE_PREFIX_def)
qed

lemma demo_book_names: "short_name (bk_label (demo_book k))" "short_name (bk_wg0 (demo_book k))"
proof -
  have "short_name (js s)" if "\<forall>c \<in> set s. of_char c < (128::nat)" "length s \<le> 255" for s
  proof -
    have lt: "\<forall>c \<in> set (js s). c < 0x80"
      using that(1) by (auto simp: js_def word_less_nat_alt unat_of_nat take_bit_nat_eq_self)
    then have "length (text_encode (js s)) \<le> 255" using that(2) by (simp add: text_encode_ascii)
    moreover have "js s \<noteq> [] \<longrightarrow> hd (js s) \<noteq> 0xfeff" using lt by (cases "js s") auto
    ultimately show ?thesis using lt by (simp add: short_name_def ascii_wf16)
  qed
  then show "short_name (bk_label (demo_book k))" "short_name (bk_wg0 (demo_book k))"
    by (simp_all add: demo_book_def book_new_def)
qed

lemma demo_issue:
  obtains b' t where "issueToken demo_lib (replicate 16 7) 60 0 (demo_book 1) = (b', Inr t)"
proof -
  have iso: "toISOString 0 = Inr (iso_str 0)" "toISOString 60000 = Inr (iso_str 60000)"
    by (simp_all add: toISOString_def max_time_def)
  let ?t = "\<lparr> tok_v = 1, tok_from = peerPubOf demo_lib (demo_id 1) (js ''node'') (js ''10.42.0.5''),
    tok_nonce = toB64 demo_lib (replicate 16 7), tok_issued = iso_str 0, tok_expires = iso_str 60000, tok_sig = [] \<rparr>"
  have "json_ok (JObj (tokenSignable ?t))" unfolding signable_ok by simp
  then obtain s where "sign demo_lib (tokenSignable ?t) (secretKey (ed25519 (demo_id 1))) = Inr s"
    by (rule sign_total [OF demo_lib_ok demo_id_ok])
  then show thesis using that iso by (simp add: issueToken_def makeToken_def)
qed

theorem invite_roundtrip_witness:
  "\<exists>b' t c. issueToken demo_lib (replicate 16 7) 60 0 (demo_book 1) = (b', Inr t) \<and> encodeInvite demo_lib t = Inr c
     \<and> decodeInvite demo_lib c = Inr t"
proof -
  have id: "id_ok demo_lib (bk_id (demo_book 1))" by (simp add: demo_book_def book_new_def)
  obtain b' t where t: "issueToken demo_lib (replicate 16 7) 60 0 (demo_book 1) = (b', Inr t)"
    by (rule demo_issue)
  from invite_roundtrip [OF demo_lib_ok demo_sizes_ok id t _ _ _ demo_book_names, of 0] t show ?thesis by auto
qed

section \<open>Codes\<close>

lemma unat_byte: "unat (b :: byte) < 256"
  using unsigned_less [of b, where 'a = nat] by simp

lemma foldl_bytes_bound:
  "foldl (\<lambda>acc b. acc * 256 + unat b) a (bs :: bytes) < (a + 1) * 256 ^ length bs"
proof (induction bs arbitrary: a)
  case (Cons b bs)
  have "(a * 256 + unat b + 1) * 256 ^ length bs \<le> ((a + 1) * 256) * 256 ^ length bs"
    using unat_byte [of b] by (intro mult_right_mono) simp_all
  with Cons [of "a * 256 + unat b"] have
    "foldl (\<lambda>acc b. acc * 256 + unat b) (a * 256 + unat b) bs < ((a + 1) * 256) * 256 ^ length bs"
    by (rule order_less_le_trans)
  then show ?case by (simp only: foldl_Cons length_Cons power_Suc mult.assoc)
qed simp

lemma code_acc_bound: "length h \<ge> 7 \<Longrightarrow> code_acc h < 32 ^ 10"
  using foldl_bytes_bound [of 0 "take 7 h"] by (simp add: code_acc_def less_mult_imp_div_less)

lemma mixed_radix:
  fixes k m n x y :: nat
  assumes "m < k" "n < k"
  shows "x * k + m = y * k + n \<longleftrightarrow> x = y \<and> m = n"
proof -
  have "(x * k + m) div k = x" "(y * k + n) div k = y" "(x * k + m) mod k = m" "(y * k + n) mod k = n"
    using assms by simp_all
  then show ?thesis by metis
qed

lemma foldl_bytes_inject:
  "length bs = length cs \<Longrightarrow> foldl (\<lambda>acc b. acc * 256 + unat b) a (bs :: bytes) = foldl (\<lambda>acc b. acc * 256 + unat b) a' cs
    \<longleftrightarrow> a = a' \<and> bs = cs"
proof (induction bs arbitrary: cs rule: rev_induct)
  case (snoc b bs)
  obtain ds d where cs: "cs = ds @ [d]" using snoc.prems by (cases cs rule: rev_cases) auto
  have "x * 256 + unat b = y * 256 + unat d \<longleftrightarrow> x = y \<and> b = d" for x y
    using mixed_radix [OF unat_byte unat_byte] by (simp add: word_unat_eq_iff)
  then show ?case using snoc by (auto simp: cs)
qed simp

lemma code_acc_split:
  assumes "length h \<ge> 7"
  shows "code_acc h = foldl (\<lambda>acc b. acc * 256 + unat b) 0 (take 6 h) * 4 + unat (h ! 6) div 64"
proof -
  have "take 7 h = take 6 h @ [h ! 6]" using assms take_Suc_conv_app_nth [of 6 h] by simp
  then show ?thesis by (simp add: code_acc_def)
qed

lemma code_acc_inject:
  assumes "length h \<ge> 7" "length h' \<ge> 7"
  shows "code_acc h = code_acc h' \<longleftrightarrow> take 6 h = take 6 h' \<and> unat (h ! 6) div 64 = unat (h' ! 6) div 64"
proof -
  have "unat (h ! 6) div 64 < 4" "unat (h' ! 6) div 64 < 4"
    using unat_byte [of "h ! 6"] unat_byte [of "h' ! 6"] by (simp_all add: less_mult_imp_div_less)
  then show ?thesis using assms by (simp add: code_acc_split foldl_bytes_inject mixed_radix)
qed

lemma alphabet_inject:
  assumes "i < 32" "j < 32" "ALPHABET ! i = ALPHABET ! j"
  shows "i = j"
proof -
  have "distinct ALPHABET" "length ALPHABET = 32" by (simp_all add: ALPHABET_def js_def)
  then show ?thesis using assms nth_eq_iff_index_eq by metis
qed

lemma digits_inject:
  fixes a b :: nat
  assumes "\<forall>i < k. a div 32 ^ i mod 32 = b div 32 ^ i mod 32"
  shows "a mod 32 ^ k = b mod 32 ^ k"
  using assms
proof (induction k)
  case (Suc k)
  have "n mod 32 ^ Suc k = 32 ^ k * (n div 32 ^ k mod 32) + n mod 32 ^ k" for n :: nat
    using mod_mult2_eq [of n "32 ^ k" 32] by (simp add: mult.commute)
  then show ?case using Suc by simp
qed simp

lemma code_symbols_inject:
  assumes "a < 32 ^ 10" "b < 32 ^ 10" "code_symbols a = code_symbols b"
  shows "a = b"
proof -
  have eq: "\<forall>i \<in> set [9, 8, 7, 6, 5, 4, 3, 2, 1, 0 :: nat]. ALPHABET ! (a div 32 ^ i mod 32) = ALPHABET ! (b div 32 ^ i mod 32)"
    using assms(3) unfolding code_symbols_def by (rule map_eq_conv [THEN iffD1])
  have "a div 32 ^ i mod 32 = b div 32 ^ i mod 32" if "i < 10" for i
  proof (rule alphabet_inject)
    have "i \<in> set [9, 8, 7, 6, 5, 4, 3, 2, 1, 0]" using that by auto
    then show "ALPHABET ! (a div 32 ^ i mod 32) = ALPHABET ! (b div 32 ^ i mod 32)" using eq by blast
  qed simp_all
  then have "a mod 32 ^ 10 = b mod 32 ^ 10" by (intro digits_inject) simp
  then show ?thesis using assms(1,2) by simp
qed

definition lower_ascii :: "jschar \<Rightarrow> jschar" where
  "lower_ascii c = (if 0x41 \<le> c \<and> c \<le> 0x5a then c + 0x20 else c)"

definition code_char :: "jschar \<Rightarrow> bool" where
  "code_char c \<longleftrightarrow> is_digit c \<or> c = 0x2d \<or> (0x41 \<le> c \<and> c \<le> 0x5a)"

lemma code_chars: "list_all code_char (js ''ISL-'' @ take 5 (code_symbols a) @ js ''-'' @ drop 5 (code_symbols a))"
proof -
  have "list_all code_char ALPHABET" "length ALPHABET = 32" "list_all code_char (js ''ISL-'')" "list_all code_char (js ''-'')"
    by (simp_all add: ALPHABET_def js_def code_char_def is_digit_def)
  moreover from this have "list_all code_char (code_symbols a)"
    by (auto simp: code_symbols_def list_all_iff)
  ultimately show ?thesis by (auto simp: list_all_iff dest: in_set_takeD in_set_dropD)
qed

lemma fingerprint_eq_Inr:
  "fingerprint L k = Inr f \<longleftrightarrow> (\<exists>b h. from_base64 L ORIGINAL k = Some b \<and> crypto_generichash L 32 b = Some h \<and> 7 \<le> length h
     \<and> f = js ''ISL-'' @ take 5 (code_symbols (code_acc h)) @ js ''-'' @ drop 5 (code_symbols (code_acc h)))"
proof -
  have "fingerprint L k = Inr f \<longleftrightarrow> (\<exists>b. from_base64 L ORIGINAL k = Some b \<and> (\<exists>h. crypto_generichash L 32 b = Some h
     \<and> (if length h < 7 then throw JsError ''Invalid argument type in ToBigInt operation''
        else Inr (js ''ISL-'' @ take 5 (code_symbols (code_acc h)) @ js ''-'' @ drop 5 (code_symbols (code_acc h)))) = Inr f))"
    by (simp only: fingerprint_def rbind_eq_Inr of_lib_eq_Inr Let_def)
  then show ?thesis by (auto simp: not_less)
qed

lemma lower_code_char: "code_char c \<Longrightarrow> upper_ascii (lower_ascii c) = c \<and> lower_ascii c < 0x80 \<and> \<not> is_js_ws (lower_ascii c)"
proof -
  assume "code_char c"
  then have "unat c < 128" by (auto simp: code_char_def is_digit_def word_le_nat_alt)
  then have "unat c \<in> set [0..<128]" by simp
  moreover have "list_all (\<lambda>n. let c = of_nat n :: jschar in code_char c \<longrightarrow>
      upper_ascii (lower_ascii c) = c \<and> lower_ascii c < 0x80 \<and> \<not> is_js_ws (lower_ascii c)) [0..<128]" by code_simp
  ultimately have "let c = of_nat (unat c) :: jschar in code_char c \<longrightarrow>
      upper_ascii (lower_ascii c) = c \<and> lower_ascii c < 0x80 \<and> \<not> is_js_ws (lower_ascii c)"
    by (simp only: list_all_iff)
  then show ?thesis using \<open>code_char c\<close> by (simp add: Let_def)
qed

lemma fingerprint_lower:
  assumes "fingerprint L k = Inr f"
  shows "toUpperCase L (trim (map lower_ascii f)) = f" "toUpperCase L (trim f) = f" "toUpperCase L f = f"
proof -
  have f: "\<forall>c \<in> set f. code_char c"
    using assms code_chars by (auto simp: fingerprint_eq_Inr list_all_iff)
  then have "trim (map lower_ascii f) = map lower_ascii f"
    using lower_code_char by (intro trim_noop) auto
  moreover have "toUpperCase L (map lower_ascii f) = map upper_ascii (map lower_ascii f)"
    using f lower_code_char by (intro toUpperCase_ascii) auto
  moreover have "map upper_ascii (map lower_ascii f) = f"
    unfolding map_map using f lower_code_char by (intro map_idI) auto
  ultimately show "toUpperCase L (trim (map lower_ascii f)) = f" by simp
  have "code_char c \<Longrightarrow> upper_ascii c = c \<and> c < 0x80 \<and> \<not> is_js_ws c" for c
    by (auto simp: code_char_def is_digit_def upper_ascii_def is_js_ws_def word_le_nat_alt word_less_nat_alt)
  note up = this
  have "trim f = f" using f up by (intro trim_noop) auto
  moreover have "toUpperCase L f = map upper_ascii f" using f up by (intro toUpperCase_ascii) auto
  moreover have "map upper_ascii f = f" using f up by (intro map_idI) auto
  ultimately show "toUpperCase L (trim f) = f" "toUpperCase L f = f" by simp_all
qed

text \<open>
  C29: a friend code commits to the key: two keys have the same code exactly when their hashes agree
  on the first 50 bits (six bytes and the top two bits of the seventh), and a key matches its own
  code in either case.
\<close>

theorem fingerprint_commits:
  assumes "from_base64 L ORIGINAL k = Some b" "crypto_generichash L 32 b = Some h" "length h = 32"
    and "from_base64 L ORIGINAL k' = Some b'" "crypto_generichash L 32 b' = Some h'" "length h' = 32"
  shows "(fingerprint L k = fingerprint L k' \<longleftrightarrow> take 6 h = take 6 h' \<and> unat (h ! 6) div 64 = unat (h' ! 6) div 64)
    \<and> rbind (fingerprint L k) (codeMatches L k) = Inr True
    \<and> rbind (fingerprint L k) (\<lambda>f. codeMatches L k (map lower_ascii f)) = Inr True"
proof -
  let ?s = "\<lambda>h. code_symbols (code_acc h)"
  let ?code = "\<lambda>h. js ''ISL-'' @ take 5 (?s h) @ js ''-'' @ drop 5 (?s h)"
  have f: "fingerprint L k = Inr (?code h)" and f': "fingerprint L k' = Inr (?code h')"
    unfolding fingerprint_eq_Inr using assms by (intro exI conjI; simp)+
  have len: "length (?s h) = length (?s h')" by (simp add: code_symbols_def)
  have "?code h = ?code h' \<longleftrightarrow> take 5 (?s h) = take 5 (?s h') \<and> drop 5 (?s h) = drop 5 (?s h')"
    using len by simp
  also have "\<dots> \<longleftrightarrow> ?s h = ?s h'" by (metis append_take_drop_id)
  finally have "fingerprint L k = fingerprint L k' \<longleftrightarrow> ?s h = ?s h'" unfolding f f' by blast
  also have "\<dots> \<longleftrightarrow> code_acc h = code_acc h'"
    using code_symbols_inject code_acc_bound assms(3,6) by auto
  also have "\<dots> \<longleftrightarrow> take 6 h = take 6 h' \<and> unat (h ! 6) div 64 = unat (h' ! 6) div 64"
    using assms(3,6) by (intro code_acc_inject) simp_all
  finally show ?thesis
    using fingerprint_lower [of L k] f by (simp add: codeMatches_def)
qed

theorem fingerprint_commits_witness:
  "fingerprint demo_lib (demo_b64 [1, 2]) \<noteq> fingerprint demo_lib (demo_b64 [1, 3])
   \<and> fingerprint demo_lib (demo_b64 [1, 2, 0, 0, 0, 0, 1]) = fingerprint demo_lib (demo_b64 [1, 2])"
proof -
  let ?h = "\<lambda>b. take 32 (b @ replicate 32 0) :: bytes"
  have lib: "from_base64 demo_lib ORIGINAL (demo_b64 b) = Some b" "crypto_generichash demo_lib 32 b = Some (?h b)"
    "length (?h b) = 32" for b by (simp_all add: demo_lib_def demo_b64_ok)
  have "fingerprint demo_lib (demo_b64 b) = fingerprint demo_lib (demo_b64 c) \<longleftrightarrow>
      take 6 (?h b) = take 6 (?h c) \<and> unat (?h b ! 6) div 64 = unat (?h c ! 6) div 64" for b c
    using fingerprint_commits [OF lib lib] by blast
  moreover have "take 6 (?h [1, 2]) = [1, 2, 0, 0, 0, 0]" "take 6 (?h [1, 3]) = [1, 3, 0, 0, 0, 0]"
    "take 6 (?h [1, 2, 0, 0, 0, 0, 1]) = [1, 2, 0, 0, 0, 0]" "?h [1, 2, 0, 0, 0, 0, 1] ! 6 = 1" "?h [1, 2] ! 6 = 0"
    by (simp_all add: numeral_eq_Suc)
  ultimately show ?thesis by simp
qed

end
