(* ===== verification/Registry.thy ===== *)
theory Registry
  imports Url FriendCodeProps
begin

text \<open>
  registry.ts: signed directory records, the store of the registry node (a table keyed by the code),
  and the two client calls, which talk to a registry that need not be honest: the network is an
  argument. A record has the types the interface declares. The registry does not check them: what it
  does with an announce of other types is \<open>announce_untyped\<close>. The client is modelled for answers of
  the declared types; on any other \<open>checked_record\<close> is an exception, where the code would return the
  record if its signature holds.
\<close>

section \<open>Records\<close>

record registry_record =
  reg_ed :: jsstr
  reg_x :: jsstr
  reg_wg0 :: jsstr
  reg_label :: jsstr

definition registrySignable :: "registry_record \<Rightarrow> payload" where
  "registrySignable r = [(js ''ed25519'', JStr (reg_ed r)), (js ''label'', JStr (reg_label r)),
     (js ''wg0'', JStr (reg_wg0 r)), (js ''x25519'', JStr (reg_x r))]"

definition signRecord :: "lib \<Rightarrow> identity \<Rightarrow> jsstr \<Rightarrow> jsstr \<Rightarrow> (registry_record \<times> jsstr) res" where
  "signRecord L i wg0 lbl =
     (let r = \<lparr> reg_ed = toB64 L (publicKey (ed25519 i)), reg_x = toB64 L (boxPublicKey (x25519 i)),
               reg_wg0 = wg0, reg_label = lbl \<rparr>
      in rmap (\<lambda>sig. (r, sig)) (sign L (registrySignable r) (secretKey (ed25519 i))))"

definition verifyAnnounce :: "lib \<Rightarrow> registry_record \<Rightarrow> jsstr \<Rightarrow> bool" where
  "verifyAnnounce L r sig =
     (case verify L (registrySignable r) sig (reg_ed r) of Inl _ \<Rightarrow> False | Inr ok \<Rightarrow> ok)"

definition assertCodeCommits :: "lib \<Rightarrow> registry_record \<Rightarrow> jsstr \<Rightarrow> unit res" where
  "assertCodeCommits L r code =
     rbind (fingerprint L (reg_ed r)) (\<lambda>f.
       if f \<noteq> toUpperCase L (trim code)
       then throw RegistryError ''registry returned a key that does not match the code'' else Inr ())"

section \<open>The store\<close>

record registry_row = registry_record +
  row_sig :: jsstr
  row_announced :: jsstr

type_synonym registry_store = "(jsstr, registry_row) jsmap"

definition registry_upsert :: "jsstr \<Rightarrow> registry_record \<Rightarrow> jsstr \<Rightarrow> jsstr \<Rightarrow> registry_store \<Rightarrow> registry_store" where
  "registry_upsert code r sig announced s =
     map_set code \<lparr> reg_ed = reg_ed r, reg_x = reg_x r, reg_wg0 = reg_wg0 r, reg_label = reg_label r,
                    row_sig = sig, row_announced = announced \<rparr> s"

definition registry_get :: "jsstr \<Rightarrow> registry_store \<Rightarrow> (registry_record \<times> jsstr) option" where
  "registry_get code s =
     map_option (\<lambda>row. (\<lparr> reg_ed = reg_ed row, reg_x = reg_x row, reg_wg0 = reg_wg0 row, reg_label = reg_label row \<rparr>,
                        row_sig row)) (map_get s code)"

definition registerAnnounce ::
  "lib \<Rightarrow> registry_record \<Rightarrow> jsstr \<Rightarrow> int \<Rightarrow> registry_store \<Rightarrow> registry_store \<times> jsstr res" where
  "registerAnnounce L r sig now s =
     (if \<not> verifyAnnounce L r sig then (s, throw RegistryError ''bad self-signature'')
      else case rbind (fingerprint L (reg_ed r)) (\<lambda>code. rmap (Pair code) (toISOString now)) of
             Inl e \<Rightarrow> (s, Inl e)
           | Inr (code, announced) \<Rightarrow> (registry_upsert code r sig announced s, Inr code))"

section \<open>The client\<close>

definition registry_json :: "registry_record \<Rightarrow> json" where
  "registry_json r = JObj [(js ''ed25519'', JStr (reg_ed r)), (js ''x25519'', JStr (reg_x r)),
     (js ''wg0'', JStr (reg_wg0 r)), (js ''label'', JStr (reg_label r))]"

definition registry_row_json :: "registry_record \<times> jsstr \<Rightarrow> json" where
  \<comment> \<open>what the resolve route returns\<close>
  "registry_row_json = (\<lambda>(r, sig). JObj [(js ''ed25519'', JStr (reg_ed r)), (js ''x25519'', JStr (reg_x r)),
     (js ''wg0'', JStr (reg_wg0 r)), (js ''label'', JStr (reg_label r)), (js ''sig'', JStr sig)])"

definition registry_of_json :: "payload \<Rightarrow> registry_record res" where
  "registry_of_json kv =
     rbind (str_of (map_get kv (js ''ed25519''))) (\<lambda>e.
     rbind (str_of (map_get kv (js ''x25519''))) (\<lambda>x.
     rbind (str_of (map_get kv (js ''wg0''))) (\<lambda>w.
     rbind (str_of (map_get kv (js ''label''))) (\<lambda>l.
       Inr \<lparr> reg_ed = e, reg_x = x, reg_wg0 = w, reg_label = l \<rparr>))))"

definition announce :: "lib \<Rightarrow> network \<Rightarrow> jsstr \<Rightarrow> identity \<Rightarrow> jsstr \<Rightarrow> jsstr \<Rightarrow> jsstr res" where
  "announce L net baseUrl i wg0 lbl =
     rbind (signRecord L i wg0 lbl) (\<lambda>(r, sig).
     rbind (fetch net (http_post (baseUrl @ js ''/registry/announce'')
                         (JObj [(js ''record'', registry_json r), (js ''sig'', JStr sig)]))) (\<lambda>rs.
       if \<not> http_ok rs then errs RegistryError ''announce failed: '' (radix_str 10 (rs_status rs))
       else rbind (response_json L rs) (\<lambda>v. rbind (field v (js ''code'')) str_of)))"

definition checked_record :: "lib \<Rightarrow> jsstr \<Rightarrow> json \<Rightarrow> registry_record res" where
  \<comment> \<open>the two checks on what the registry returned\<close>
  "checked_record L norm v =
     rbind (obj_of (Some v)) (\<lambda>kv.
     rbind (registry_of_json kv) (\<lambda>r.
     rbind (assertCodeCommits L r norm) (\<lambda>_.
       (case map_get kv (js ''sig'') of
          Some (JStr sig) \<Rightarrow>
            if sig = [] \<or> \<not> verifyAnnounce L r sig
            then throw RegistryError ''registry record fails its self-signature (tampered record?)''
            else Inr r
        | _ \<Rightarrow> throw RegistryError ''registry record fails its self-signature (tampered record?)''))))"

definition resolve :: "lib \<Rightarrow> network \<Rightarrow> jsstr \<Rightarrow> jsstr \<Rightarrow> registry_record res" where
  "resolve L net baseUrl code =
     (let norm = toUpperCase L (trim code)
      in rbind (encodeURIComponent norm) (\<lambda>u.
         rbind (fetch net (http_get (baseUrl @ js ''/registry/resolve/'' @ u))) (\<lambda>rs.
           if rs_status rs = 404 then throw RegistryError ''code not found''
           else if \<not> http_ok rs then errs RegistryError ''resolve failed: '' (radix_str 10 (rs_status rs))
           else rbind (response_json L rs) (checked_record L norm))))"

section \<open>The two routes of main.ts that serve the registry\<close>

definition column :: "lib \<Rightarrow> json \<Rightarrow> jsstr res" where
  \<comment> \<open>what a text column keeps of a value; a string is taken to be kept as it is\<close>
  "column L v = (case v of JStr t \<Rightarrow> Inr t | _ \<Rightarrow> of_lib ''cannot bind'' (column_text L v))"

definition untyped_signable :: "payload \<Rightarrow> payload option" where
  \<comment> \<open>\<open>signable\<close>; \<open>canonicalBytes\<close> throws on a field that is missing\<close>
  "untyped_signable kv =
     (case (map_get kv (js ''ed25519''), map_get kv (js ''label''), map_get kv (js ''wg0''), map_get kv (js ''x25519'')) of
        (Some e, Some l, Some w, Some x) \<Rightarrow> Some [(js ''ed25519'', e), (js ''label'', l), (js ''wg0'', w), (js ''x25519'', x)]
      | _ \<Rightarrow> None)"

definition announce_untyped :: "lib \<Rightarrow> payload \<Rightarrow> jsstr \<Rightarrow> int \<Rightarrow> registry_store \<Rightarrow> registry_store \<times> jsstr res" where
  \<comment> \<open>\<open>registerAnnounce\<close> on a record with a field that is missing or no string: the key has to be a
      string for its signature to verify, the other fields are stored as the columns keep them\<close>
  "announce_untyped L kv sig now s =
     (case (untyped_signable kv, map_get kv (js ''ed25519'')) of
        (Some p, Some (JStr e)) \<Rightarrow>
          if verify L p sig e \<noteq> Inr True then (s, throw RegistryError ''bad self-signature'')
          else (case rbind (fingerprint L e) (\<lambda>code. rbind (toISOString now) (\<lambda>announced.
                  rbind (column L (the (map_get kv (js ''x25519'')))) (\<lambda>x.
                  rbind (column L (the (map_get kv (js ''wg0'')))) (\<lambda>w.
                  rbind (column L (the (map_get kv (js ''label'')))) (\<lambda>l.
                    Inr (code, announced, \<lparr> reg_ed = e, reg_x = x, reg_wg0 = w, reg_label = l \<rparr>)))))) of
                  Inl err \<Rightarrow> (s, Inl err)
                | Inr (code, announced, r) \<Rightarrow> (registry_upsert code r sig announced s, Inr code))
      | _ \<Rightarrow> (s, throw RegistryError ''bad self-signature''))"

definition announce_route :: "lib \<Rightarrow> payload \<Rightarrow> int \<Rightarrow> registry_store \<Rightarrow> registry_store \<times> json res" where
  \<comment> \<open>\<open>POST /registry/announce\<close> on its parsed body\<close>
  "announce_route L body now s =
     (case (map_get body (js ''record''), map_get body (js ''sig'')) of
        (Some (JObj kv), Some (JStr sig)) \<Rightarrow>
          (case registry_of_json kv of
             Inl e \<Rightarrow> apsnd (rmap (\<lambda>code. JObj [(js ''code'', JStr code)])) (announce_untyped L kv sig now s)
           | Inr r \<Rightarrow> apsnd (rmap (\<lambda>code. JObj [(js ''code'', JStr code)])) (registerAnnounce L r sig now s))
      | (Some (JArr vs), Some (JStr sig)) \<Rightarrow> (s, throw RegistryError ''bad self-signature'')
      | _ \<Rightarrow> (s, throw RegistryError ''malformed announce''))"

definition resolve_route :: "lib \<Rightarrow> registry_store \<Rightarrow> jsstr \<Rightarrow> http_response res" where
  \<comment> \<open>\<open>GET /registry/resolve/...\<close> on the rest of the path\<close>
  "resolve_route L s seg =
     rmap (\<lambda>code. case registry_get (toUpperCase L code) s of
             None \<Rightarrow> text_response 404 (js ''code not found'')
           | Some row \<Rightarrow> json_response 200 (registry_row_json row))
       (decodeURIComponent seg)"

section \<open>Facts\<close>

lemma registry_of_json_row [simp]:
  "registry_row_json (r, sig) = JObj kv \<Longrightarrow> registry_of_json kv = Inr r \<and> map_get kv (js ''sig'') = Some (JStr sig)"
  by (auto simp: registry_row_json_def registry_of_json_def)

lemma registrySignable_ok: "json_ok (JObj (registrySignable r))"
  by (simp add: registrySignable_def)

lemma rbind_unit: "rbind (m :: unit res) f = Inr y \<longleftrightarrow> m = Inr () \<and> f () = Inr y"
  by (cases m) auto

lemma checked_record_eq_Inr:
  "checked_record L norm v = Inr r \<longleftrightarrow> (\<exists>kv sig. v = JObj kv \<and> registry_of_json kv = Inr r
     \<and> assertCodeCommits L r norm = Inr () \<and> map_get kv (js ''sig'') = Some (JStr sig) \<and> sig \<noteq> [] \<and> verifyAnnounce L r sig)"
proof -
  have sig: "(case x of
          Some (JStr sig) \<Rightarrow>
            if sig = [] \<or> \<not> verifyAnnounce L r' sig
            then throw RegistryError ''registry record fails its self-signature (tampered record?)''
            else Inr r'
        | _ \<Rightarrow> throw RegistryError ''registry record fails its self-signature (tampered record?)'') = Inr r
     \<longleftrightarrow> (\<exists>sig. x = Some (JStr sig) \<and> sig \<noteq> [] \<and> verifyAnnounce L r' sig \<and> r' = r)" for x r'
    by (cases x; cases "the x") auto
  show ?thesis
    unfolding checked_record_def rbind_unit rbind_eq_Inr sig obj_of_eq_Inr option.inject by (cases v) auto
qed

lemma verifyAnnounce_iff: "verifyAnnounce L r sig \<longleftrightarrow> verify L (registrySignable r) sig (reg_ed r) = Inr True"
  by (auto simp: verifyAnnounce_def split: sum.splits)

lemma registry_get_upsert:
  "registry_get c (registry_upsert code r sig t s) =
     (if c = code then Some (\<lparr> reg_ed = reg_ed r, reg_x = reg_x r, reg_wg0 = reg_wg0 r, reg_label = reg_label r \<rparr>, sig)
      else registry_get c s)"
  by (simp add: registry_get_def registry_upsert_def)

lemma registerAnnounce_eq_Inr:
  "registerAnnounce L r sig now s = (s', Inr code) \<longleftrightarrow>
     verifyAnnounce L r sig \<and> fingerprint L (reg_ed r) = Inr code
     \<and> (\<exists>t. toISOString now = Inr t \<and> s' = registry_upsert code r sig t s)"
  by (auto simp: registerAnnounce_def res_eq throw_def split: sum.splits prod.splits)

text \<open>On the declared types the two ways to announce are one.\<close>

lemma untyped_typed:
  assumes "registry_of_json kv = Inr r"
  shows "announce_untyped L kv sig now s = registerAnnounce L r sig now s"
proof -
  have get: "map_get kv (js ''ed25519'') = Some (JStr (reg_ed r))" "map_get kv (js ''x25519'') = Some (JStr (reg_x r))"
    "map_get kv (js ''wg0'') = Some (JStr (reg_wg0 r))" "map_get kv (js ''label'') = Some (JStr (reg_label r))"
    using assms by (auto simp: registry_of_json_def res_eq str_of_eq_Inr)
  then have p: "untyped_signable kv = Some (registrySignable r)"
    by (simp add: untyped_signable_def registrySignable_def)
  show ?thesis
    by (cases "fingerprint L (reg_ed r)"; cases "toISOString now")
      (auto simp: announce_untyped_def registerAnnounce_def verifyAnnounce_iff p get column_def rmap_def registry_upsert_def)
qed

lemma announce_untyped_refused: "snd (announce_untyped L kv sig now s) = Inl e \<Longrightarrow> fst (announce_untyped L kv sig now s) = s"
  by (auto simp: announce_untyped_def split: option.splits json.splits sum.splits prod.splits if_splits)

section \<open>The registry as a state machine\<close>

text \<open>For announces of the declared types.\<close>

inductive registry_step :: "lib \<Rightarrow> registry_store \<Rightarrow> registry_store \<Rightarrow> bool" for L :: lib where
  Announce: "registry_step L s (fst (registerAnnounce L r sig now s))"

inductive_simps registry_step_simps: "registry_step L s s'"

definition registry_sound :: "lib \<Rightarrow> registry_store \<Rightarrow> bool" where
  "registry_sound L s \<longleftrightarrow> (\<forall>code r sig. registry_get code s = Some (r, sig)
     \<longrightarrow> fingerprint L (reg_ed r) = Inr code \<and> verify L (registrySignable r) sig (reg_ed r) = Inr True)"

lemma registerAnnounce_cases:
  "fst (registerAnnounce L r sig now s) = s \<or> (\<exists>code t. fst (registerAnnounce L r sig now s) = registry_upsert code r sig t s
     \<and> verifyAnnounce L r sig \<and> fingerprint L (reg_ed r) = Inr code)"
proof (cases "snd (registerAnnounce L r sig now s)")
  case (Inl e)
  then have "fst (registerAnnounce L r sig now s) = s"
    by (auto simp: registerAnnounce_def split: sum.splits prod.splits if_splits)
  then show ?thesis ..
next
  case (Inr code)
  then have "registerAnnounce L r sig now s = (fst (registerAnnounce L r sig now s), Inr code)"
    by (metis prod.collapse)
  then show ?thesis unfolding registerAnnounce_eq_Inr by metis
qed

interpretation registry_machine: machine "\<lambda>s. s = []" "registry_step L" "registry_sound L" for L
proof
  show "registry_sound L s" if "s = []" for s
    using that by (simp add: registry_sound_def registry_get_def)
  show "registry_sound L s'" if inv: "registry_sound L s" and step: "registry_step L s s'" for s s'
  proof -
    obtain r sig now where s': "s' = fst (registerAnnounce L r sig now s)"
      using step unfolding registry_step_simps by blast
    show ?thesis
      using registerAnnounce_cases [of L r sig now s] inv s'
      by (auto simp: registry_sound_def registry_get_upsert verifyAnnounce_iff registrySignable_def split: if_splits)
  qed
qed

end
