(* ===== verification/RegistryProps.thy ===== *)
theory RegistryProps
  imports Registry
begin

text \<open>
  The properties of the friend-code registry: it cannot substitute a key or the fields under it, it
  cannot be squatted, and an honest registry returns what was announced.
\<close>

lemma resolve_eq_Inr:
  assumes "resolve L net baseUrl code = Inr r"
  obtains sig where "fingerprint L (reg_ed r) = Inr (toUpperCase L (trim (toUpperCase L (trim code))))"
    "sig \<noteq> []" "verify L (registrySignable r) sig (reg_ed r) = Inr True"
proof -
  have "\<exists>v. checked_record L (toUpperCase L (trim code)) v = Inr r"
    using assms unfolding resolve_def Let_def by (auto simp: rbind_eq_Inr split: if_splits)
  then obtain kv sig where "assertCodeCommits L r (toUpperCase L (trim code)) = Inr ()" "map_get kv (js ''sig'') = Some (JStr sig)"
    "sig \<noteq> []" "verifyAnnounce L r sig"
    unfolding checked_record_eq_Inr by blast
  then show thesis using that by (auto simp: assertCodeCommits_def verifyAnnounce_iff res_eq split: if_splits)
qed

text \<open>
  C30: the registry cannot impersonate: whatever the network answers, a resolved record carries a key
  whose fingerprint is the requested code and a signature under that very key over all four fields,
  so a record with another sealing key, address or label than a holder of the key signed is refused.
\<close>

theorem resolve_authentic:
  assumes "resolve L net baseUrl code = Inr r"
  shows "\<exists>sig vk m. fingerprint L (reg_ed r) = Inr (toUpperCase L (trim (toUpperCase L (trim code))))
    \<and> fromB64 L (reg_ed r) = Inr vk \<and> canonicalBytes (JObj (registrySignable r)) = Inr m
    \<and> (\<exists>s. fromB64 L sig = Inr s \<and> crypto_sign_verify_detached L s m vk = Some True)
    \<and> (\<forall>r'. canonicalBytes (JObj (registrySignable r')) = Inr m \<longrightarrow> registrySignable r' = registrySignable r)"
proof -
  obtain sig where sig: "fingerprint L (reg_ed r) = Inr (toUpperCase L (trim (toUpperCase L (trim code))))"
    "verify L (registrySignable r) sig (reg_ed r) = Inr True" by (rule resolve_eq_Inr [OF assms])
  then obtain s m vk where v: "fromB64 L sig = Inr s" "canonicalBytes (JObj (registrySignable r)) = Inr m"
    "fromB64 L (reg_ed r) = Inr vk" "crypto_sign_verify_detached L s m vk = Some True"
    by (auto simp: verify_def res_eq)
  have "registrySignable r' = registrySignable r" if "canonicalBytes (JObj (registrySignable r')) = Inr m" for r'
  proof -
    have "norm_json (JObj (registrySignable r')) = norm_json (JObj (registrySignable r))"
      using that v(2) by (intro canonicalBytes_inject registrySignable_ok) simp
    from norm_json_eq_obj [OF registrySignable_ok registrySignable_ok this]
    have "map_option norm_json (map_get (registrySignable r') k) = map_option norm_json (map_get (registrySignable r) k)" for k .
    from this [of "js ''ed25519''"] this [of "js ''x25519''"] this [of "js ''wg0''"] this [of "js ''label''"]
    show ?thesis by (simp add: registrySignable_def)
  qed
  then show ?thesis using sig(1) v by blast
qed

lemma signed_record:
  assumes "lib_ok L" "id_ok L i"
  obtains sig where "signRecord L i wg0 lbl = Inr (\<lparr> reg_ed = toB64 L (publicKey (ed25519 i)),
      reg_x = toB64 L (boxPublicKey (x25519 i)), reg_wg0 = wg0, reg_label = lbl \<rparr>, sig)"
    "verifyAnnounce L \<lparr> reg_ed = toB64 L (publicKey (ed25519 i)),
      reg_x = toB64 L (boxPublicKey (x25519 i)), reg_wg0 = wg0, reg_label = lbl \<rparr> sig"
proof -
  let ?r = "\<lparr> reg_ed = toB64 L (publicKey (ed25519 i)), reg_x = toB64 L (boxPublicKey (x25519 i)), reg_wg0 = wg0, reg_label = lbl \<rparr>"
  obtain sig where sig: "sign L (registrySignable ?r) (secretKey (ed25519 i)) = Inr sig"
    by (rule sign_total [OF assms registrySignable_ok])
  then have "signRecord L i wg0 lbl = Inr (?r, sig)" by (simp add: signRecord_def)
  moreover have "verifyAnnounce L ?r sig"
    using sign_verifies [OF assms sig] by (simp add: verifyAnnounce_iff)
  ultimately show thesis using that by blast
qed

lemma code_char_plain: "code_char c \<Longrightarrow> uri_plain c"
proof -
  assume "code_char c"
  then have "unat c < 128" by (auto simp: code_char_def is_digit_def word_le_nat_alt)
  then have "unat c \<in> set [0..<128]" by simp
  moreover have "list_all (\<lambda>n. let c = of_nat n :: jschar in code_char c \<longrightarrow> uri_plain c) [0..<128]" by code_simp
  ultimately have "let c = of_nat (unat c) :: jschar in code_char c \<longrightarrow> uri_plain c" by (simp only: list_all_iff)
  then show ?thesis using \<open>code_char c\<close> by (simp add: Let_def)
qed

lemma fingerprint_plain: "fingerprint L k = Inr f \<Longrightarrow> list_all uri_plain f"
  using code_chars code_char_plain by (auto simp: fingerprint_eq_Inr list_all_iff)

lemma registry_row_wf: "json_ok (registry_row_json row)"
  by (cases row) (simp add: registry_row_json_def)

lemma resolve_honest:
  assumes f: "fingerprint L (reg_ed r) = Inr c" and sig: "verifyAnnounce L r sig" "sig \<noteq> []"
    and row: "registry_get c s = Some (r, sig)"
    and net: "\<And>seg. net (http_get (baseUrl @ js ''/registry/resolve/'' @ seg))
        = (case resolve_route L s seg of Inl _ \<Rightarrow> None | Inr rs \<Rightarrow> Some rs)"
    and code: "toUpperCase L (trim code) = c"
  shows "resolve L net baseUrl code = Inr r"
proof -
  have plain: "list_all uri_plain c" by (rule fingerprint_plain [OF f])
  have rs: "resolve_route L s c = Inr (json_response 200 (registry_row_json (r, sig)))"
    by (simp add: resolve_route_def decode_plain [OF plain_no_percent [OF plain]] fingerprint_lower(3) [OF f] row)
  obtain kv where kv: "registry_row_json (r, sig) = JObj kv" by (simp add: registry_row_json_def)
  have json: "response_json L (json_response 200 (JObj kv)) = Inr (JObj kv)"
    using registry_row_wf [of "(r, sig)"] unfolding kv by (rule response_json_object)
  show ?thesis
    using encode_plain [OF plain] f sig registry_of_json_row [OF kv]
    by (simp add: resolve_def code fetch_plain net rs http_ok_def json kv checked_record_def assertCodeCommits_def
        fingerprint_lower(2) [OF f])
qed

text \<open>
  C31: an honest registry works: what a node announces is registered under the fingerprint of its key
  without touching any other code, and every node that then resolves that code, in upper or lower
  case, gets exactly the announced record.
\<close>

theorem registry_lookup:
  assumes "lib_ok L" "id_ok L i" "fingerprint L (toB64 L (publicKey (ed25519 i))) = Inr c" "toISOString now = Inr t"
    and "signRecord L i wg0 lbl = Inr (r, sig)" "sig \<noteq> []"
    and "\<And>s seg. net s (http_get (baseUrl @ js ''/registry/resolve/'' @ seg))
        = (case resolve_route L s seg of Inl _ \<Rightarrow> None | Inr rs \<Rightarrow> Some rs)"
  shows "\<exists>s'. registerAnnounce L r sig now s = (s', Inr c)
    \<and> (\<forall>c'. c' \<noteq> c \<longrightarrow> registry_get c' s' = registry_get c' s)
    \<and> resolve L (net s') baseUrl c = Inr r \<and> resolve L (net s') baseUrl (map lower_ascii c) = Inr r
    \<and> reg_wg0 r = wg0 \<and> reg_label r = lbl \<and> reg_x r = toB64 L (boxPublicKey (x25519 i))"
proof -
  obtain sig' where sig': "signRecord L i wg0 lbl = Inr (\<lparr> reg_ed = toB64 L (publicKey (ed25519 i)),
      reg_x = toB64 L (boxPublicKey (x25519 i)), reg_wg0 = wg0, reg_label = lbl \<rparr>, sig')"
    "verifyAnnounce L \<lparr> reg_ed = toB64 L (publicKey (ed25519 i)),
      reg_x = toB64 L (boxPublicKey (x25519 i)), reg_wg0 = wg0, reg_label = lbl \<rparr> sig'"
    by (rule signed_record [OF assms(1,2)])
  then have r: "r = \<lparr> reg_ed = toB64 L (publicKey (ed25519 i)), reg_x = toB64 L (boxPublicKey (x25519 i)),
      reg_wg0 = wg0, reg_label = lbl \<rparr>" and v: "verifyAnnounce L r sig" using assms(5) by auto
  have f: "fingerprint L (reg_ed r) = Inr c" using assms(3) by (simp add: r)
  let ?s' = "registry_upsert c r sig t s"
  have "registerAnnounce L r sig now s = (?s', Inr c)"
    unfolding registerAnnounce_eq_Inr using v f assms(4) by blast
  moreover have row: "registry_get c ?s' = Some (r, sig)" by (simp add: registry_get_upsert r)
  have "resolve L (net ?s') baseUrl c = Inr r" "resolve L (net ?s') baseUrl (map lower_ascii c) = Inr r"
    using resolve_honest [OF f v assms(6) row assms(7)] fingerprint_lower [OF f] by simp_all
  ultimately show ?thesis by (intro exI [of _ ?s']) (simp add: registry_get_upsert r)
qed

definition registry_net :: "lib \<Rightarrow> registry_store \<Rightarrow> network" where
  \<comment> \<open>a network with an honest registry at the empty base URL\<close>
  "registry_net L s rq =
     (case resolve_route L s (drop 18 (rq_url rq)) of Inl _ \<Rightarrow> None | Inr rs \<Rightarrow> Some rs)"

lemma demo_sig_not_Nil: "sign demo_lib p k = Inr s \<Longrightarrow> s \<noteq> []"
  by (auto simp: sign_def res_eq toB64_def demo_lib_def demo_b64_def demo_sig_def split: if_splits)

lemma demo_fingerprint: "\<exists>c. fingerprint demo_lib (toB64 demo_lib b) = Inr c"
  by (simp add: fingerprint_eq_Inr toB64_def demo_lib_def demo_b64_ok)

theorem registry_lookup_witness:
  "\<exists>r c sig s'. registerAnnounce demo_lib r sig 0 [] = (s', Inr c) \<and> resolve demo_lib (registry_net demo_lib s') [] c = Inr r
     \<and> reg_wg0 r = js ''10.42.0.5''"
proof -
  obtain r sig where sig: "signRecord demo_lib (demo_id 1) (js ''10.42.0.5'') [] = Inr (r, sig)"
    using signed_record [OF demo_lib_ok demo_id_ok] by blast
  then have ne: "sig \<noteq> []" by (auto simp: signRecord_def Let_def rmap_eq_Inr dest: demo_sig_not_Nil)
  obtain c where c: "fingerprint demo_lib (toB64 demo_lib (publicKey (ed25519 (demo_id 1)))) = Inr c"
    using demo_fingerprint by blast
  have net: "registry_net demo_lib s (http_get ([] @ js ''/registry/resolve/'' @ seg))
      = (case resolve_route demo_lib s seg of Inl _ \<Rightarrow> None | Inr rs \<Rightarrow> Some rs)" for s seg
    by (simp add: registry_net_def http_get_def)
  from registry_lookup [OF demo_lib_ok demo_id_ok c demo_iso_now sig ne net, of "[]"] show ?thesis by blast
qed

theorem resolve_authentic_witness:
  "\<exists>net code r c. resolve demo_lib net [] code = Inr r \<and> fingerprint demo_lib (reg_ed r) = Inr c
     \<and> (\<exists>vk. fromB64 demo_lib (reg_ed r) = Inr vk)"
proof -
  obtain r sig where sig: "signRecord demo_lib (demo_id 1) (js ''10.42.0.5'') [] = Inr (r, sig)" "verifyAnnounce demo_lib r sig"
    using signed_record [OF demo_lib_ok demo_id_ok] by blast
  then have ne: "sig \<noteq> []" by (auto simp: signRecord_def Let_def rmap_eq_Inr dest: demo_sig_not_Nil)
  have "reg_ed r = toB64 demo_lib (publicKey (ed25519 (demo_id 1)))" using sig(1) by (auto simp: signRecord_def Let_def rmap_eq_Inr)
  then obtain c where c: "fingerprint demo_lib (reg_ed r) = Inr c" using demo_fingerprint by metis
  have net: "registry_net demo_lib s (http_get ([] @ js ''/registry/resolve/'' @ seg))
      = (case resolve_route demo_lib s seg of Inl _ \<Rightarrow> None | Inr rs \<Rightarrow> Some rs)" for s seg
    by (simp add: registry_net_def http_get_def)
  have row: "registry_get c (registry_upsert c r sig [] []) = Some (r, sig)" by (simp add: registry_get_upsert)
  have "resolve demo_lib (registry_net demo_lib (registry_upsert c r sig [] [])) [] c = Inr r"
    by (rule resolve_honest [OF c sig(2) ne row net fingerprint_lower(2) [OF c]])
  from resolve_authentic [OF this] this c show ?thesis by blast
qed

text \<open>
  the registry cannot be squatted: in every store that announces of the declared types lead to,
  whoever announced, each code maps to a record whose key has that fingerprint and which is signed
  under that key.
\<close>

theorem registry_not_squatted:
  assumes "reachable (\<lambda>s. s = []) (registry_step L) s" "registry_get code s = Some (r, sig)"
  shows "fingerprint L (reg_ed r) = Inr code \<and> verify L (registrySignable r) sig (reg_ed r) = Inr True"
  using registry_machine.reachable_inv [OF assms(1)] assms(2) unfolding registry_sound_def by blast

theorem registry_not_squatted_witness:
  "\<exists>s code r sig. registry_get code s = Some (r, sig) \<and> fingerprint demo_lib (reg_ed r) = Inr code"
proof -
  obtain r sig where sig: "signRecord demo_lib (demo_id 1) [] [] = Inr (r, sig)" "verifyAnnounce demo_lib r sig"
    using signed_record [OF demo_lib_ok demo_id_ok] by blast
  have "reg_ed r = toB64 demo_lib (publicKey (ed25519 (demo_id 1)))" using sig(1) by (auto simp: signRecord_def Let_def rmap_eq_Inr)
  then obtain c where c: "fingerprint demo_lib (reg_ed r) = Inr c" using demo_fingerprint by metis
  let ?s = "registry_upsert c r sig (iso_str 0) []"
  have "registerAnnounce demo_lib r sig 0 [] = (?s, Inr c)"
    unfolding registerAnnounce_eq_Inr using sig(2) c demo_iso_now by blast
  then have step: "registry_step demo_lib [] ?s" using registry_step.Announce [of demo_lib "[]" r sig 0] by simp
  have "reachable (\<lambda>s. s = []) (registry_step demo_lib) ?s"
    by (rule reachable.next_step, rule reachable.start) (rule HOL.refl, rule step)
  moreover have row: "registry_get c ?s = Some (r, sig)" by (simp add: registry_get_upsert)
  ultimately show ?thesis using registry_not_squatted [of demo_lib ?s c r sig] by blast
qed

text \<open>
  a record whose label is a number passes the route, and the row no longer says what was signed.
\<close>

theorem untyped_record_altered:
  "\<exists>L kv sig s' c r. map_get kv (js ''label'') = Some (JNum 5)
     \<and> announce_route L [(js ''record'', JObj kv), (js ''sig'', JStr sig)] 0 [] = (s', Inr (JObj [(js ''code'', JStr c)]))
     \<and> registry_get c s' = Some (r, sig) \<and> reg_label r = js ''5.0''"
proof -
  let ?L = "demo_lib\<lparr> column_text := (\<lambda>v. Some (js ''5.0'')) \<rparr>" and ?i = "demo_id 1"
  let ?ed = "toB64 demo_lib (publicKey (ed25519 ?i))"
  let ?p = "[(js ''ed25519'', JStr ?ed), (js ''label'', JNum 5), (js ''wg0'', JStr []), (js ''x25519'', JStr [])]"
  have same: "verify ?L = verify demo_lib" "fingerprint ?L = fingerprint demo_lib"
    by (simp_all add: fun_eq_iff verify_def fingerprint_def fromB64_def)
  have ok: "json_ok (JObj ?p)" by (simp add: js_def safe_int_def max_safe_def)
  obtain sig where sig: "sign demo_lib ?p (secretKey (ed25519 ?i)) = Inr sig"
    using sign_total [OF demo_lib_ok demo_id_ok ok] by blast
  have v: "verify ?L ?p sig ?ed = Inr True"
    unfolding same(1) by (rule sign_verifies [OF demo_lib_ok demo_id_ok sig])
  obtain c where c: "fingerprint ?L ?ed = Inr c" unfolding same(2) using demo_fingerprint by blast
  have fields: "untyped_signable ?p = Some ?p" "registry_of_json ?p = Inl (Err JsError (js ''not a string''))"
    by (simp_all add: untyped_signable_def registry_of_json_def str_of_def throw_def js_def)
  have "map_get ?p (js ''ed25519'') = Some (JStr ?ed)" "map_get ?p (js ''label'') = Some (JNum 5)"
    "map_get ?p (js ''wg0'') = Some (JStr [])" "map_get ?p (js ''x25519'') = Some (JStr [])" by (simp_all add: js_def)
  then have "announce_untyped ?L ?p sig 0 [] = (registry_upsert c \<lparr> reg_ed = ?ed, reg_x = [], reg_wg0 = [], reg_label = js ''5.0'' \<rparr>
      sig (iso_str 0) [], Inr c)"
    using v c demo_iso_now fields(1) by (simp add: announce_untyped_def column_def of_lib_def)
  moreover have "map_get [(js ''record'', JObj ?p), (js ''sig'', JStr sig)] (js ''record'') = Some (JObj ?p)"
    "map_get [(js ''record'', JObj ?p), (js ''sig'', JStr sig)] (js ''sig'') = Some (JStr sig)" by (simp_all add: js_def)
  ultimately show ?thesis
    using fields(2)
    by (intro exI [of _ ?L] exI [of _ ?p] exI [of _ sig]
        exI [of _ "registry_upsert c \<lparr> reg_ed = ?ed, reg_x = [], reg_wg0 = [], reg_label = js ''5.0'' \<rparr> sig (iso_str 0) []"]
        exI [of _ c] exI [of _ "\<lparr> reg_ed = ?ed, reg_x = [], reg_wg0 = [], reg_label = js ''5.0'' \<rparr>"])
      (simp add: announce_route_def registry_get_upsert \<open>map_get ?p (js ''label'') = Some (JNum 5)\<close>)
qed

end
