(* ===== verification/Share.thy ===== *)
theory Share
  imports Url Messages
begin

text \<open>
  share.ts: the file share with its three implementations, in memory, on SQLite and remote, as state
  machines over one list of operations and results, and the contract they share as a locale: an
  abstract share is a finite map from ids to rows, the next id and the quota. Times are the readings
  of the clock, sizes are byte counts.
\<close>

section \<open>Names\<close>

fun split_path :: "jsstr \<Rightarrow> jsstr list" where
  \<comment> \<open>\<open>split(/[/\\]/)\<close>\<close>
  "split_path [] = [[]]"
| "split_path (c # s) =
     (if c = 0x2f \<or> c = 0x5c then [] # split_path s
      else (case split_path s of [] \<Rightarrow> [[c]] | w # ws \<Rightarrow> (c # w) # ws))"

definition unsafe_char :: "jschar \<Rightarrow> bool" where
  \<comment> \<open>the class of the replacement: controls and the double quote\<close>
  "unsafe_char c \<longleftrightarrow> c \<le> 0x1f \<or> c = 0x7f \<or> c = 0x22"

definition sanitizeFileName :: "jsstr \<Rightarrow> jsstr" where
  "sanitizeFileName raw =
     (let base = last (split_path raw);
          clean = take 160 (trim (map (\<lambda>c. if unsafe_char c then 0x5f else c) base))
      in if clean \<noteq> [] \<and> clean \<noteq> js ''.'' \<and> clean \<noteq> js ''..'' then clean else js ''unnamed'')"

section \<open>Rows and answers\<close>

record shared_file =
  sf_id :: nat
  sf_name :: jsstr
  sf_size :: nat
  sf_node :: jsstr
  sf_modified :: jsstr

record file_row = shared_file +
  row_type :: "jsstr option"
  row_content :: bytes

record file_content =
  fc_name :: jsstr
  fc_type :: "jsstr option"
  fc_content :: bytes

record files_snapshot =
  snap_root :: jsstr
  snap_bind :: jsstr
  snap_files :: "shared_file list"

definition file_info :: "file_row \<Rightarrow> shared_file" where
  "file_info r = \<lparr> sf_id = sf_id r, sf_name = sf_name r, sf_size = sf_size r, sf_node = sf_node r,
     sf_modified = sf_modified r \<rparr>"

definition content_of :: "file_row \<Rightarrow> file_content" where
  "content_of r = \<lparr> fc_name = sf_name r, fc_type = row_type r, fc_content = row_content r \<rparr>"

definition nowIso :: "int \<Rightarrow> jsstr" where
  \<comment> \<open>the clock is within the range of dates\<close>
  "nowIso now = iso_str now"

definition new_row :: "nat \<Rightarrow> jsstr \<Rightarrow> bytes \<Rightarrow> jsstr \<Rightarrow> jsstr option \<Rightarrow> int \<Rightarrow> file_row" where
  "new_row i name content node ctype now =
     \<lparr> sf_id = i, sf_name = sanitizeFileName name, sf_size = length content, sf_node = node,
       sf_modified = nowIso now, row_type = ctype, row_content = content \<rparr>"

definition no_file :: "nat \<Rightarrow> 'a res" where
  "no_file i = errs FileNotFound ''no file '' (radix_str 10 i)"

definition DEFAULT_SHARE_MAX_BYTES :: nat where
  "DEFAULT_SHARE_MAX_BYTES = 1024 * 1024 * 1024"

section \<open>In memory\<close>

record mem_share =
  mem_rows :: "(nat, file_row) jsmap"
  mem_next :: nat
  mem_total :: nat
  mem_max :: nat

definition mem_new :: "nat \<Rightarrow> mem_share" where
  "mem_new mx = \<lparr> mem_rows = [], mem_next = 1, mem_total = 0, mem_max = mx \<rparr>"

definition mem_list :: "mem_share \<Rightarrow> files_snapshot" where
  "mem_list s = \<lparr> snap_root = js ''memory'', snap_bind = js ''mock'',
     snap_files = sort_by (\<lambda>a b. int (sf_id b) - int (sf_id a) \<le> 0) (map (\<lambda>(_, r). file_info r) (mem_rows s)) \<rparr>"

definition mem_add ::
  "jsstr \<Rightarrow> bytes \<Rightarrow> jsstr \<Rightarrow> jsstr option \<Rightarrow> int \<Rightarrow> mem_share \<Rightarrow> mem_share \<times> shared_file res" where
  "mem_add name content node ctype now s =
     (if mem_total s + length content > mem_max s then (s, throw ShareQuotaExceeded ''share is full'')
      else
        let i = mem_next s; r = new_row i name content node ctype now
        in (s\<lparr> mem_next := mem_next s + 1, mem_rows := map_set i r (mem_rows s),
               mem_total := mem_total s + length content \<rparr>, Inr (file_info r)))"

definition mem_get :: "nat \<Rightarrow> mem_share \<Rightarrow> file_content res" where
  "mem_get i s = (case map_get (mem_rows s) i of None \<Rightarrow> no_file i | Some r \<Rightarrow> Inr (content_of r))"

definition mem_remove :: "nat \<Rightarrow> mem_share \<Rightarrow> mem_share \<times> unit res" where
  "mem_remove i s =
     (case map_get (mem_rows s) i of
        None \<Rightarrow> (s, no_file i)
      | Some r \<Rightarrow> (s\<lparr> mem_total := mem_total s - sf_size r, mem_rows := map_del i (mem_rows s) \<rparr>, Inr ()))"

section \<open>On SQLite\<close>

record sql_share =
  sql_rows :: "file_row list" \<comment> \<open>the table\<close>
  sql_seq :: nat \<comment> \<open>\<open>AUTOINCREMENT\<close>: the largest id ever used\<close>
  sql_root :: jsstr
  sql_bind :: jsstr
  sql_max :: nat

fun sql_text :: "jsstr \<Rightarrow> jsstr" where
  \<comment> \<open>what a \<open>TEXT\<close> column gives back: the text is kept as UTF-8, in which half a surrogate pair is U+FFFD\<close>
  "sql_text [] = []"
| "sql_text [c] = (if is_high c \<or> is_low c then [0xfffd] else [c])"
| "sql_text (c # d # s) =
     (if is_high c \<and> is_low d then c # d # sql_text s
      else (if is_high c \<or> is_low c then 0xfffd else c) # sql_text (d # s))"

definition sql_new :: "jsstr \<Rightarrow> jsstr \<Rightarrow> nat \<Rightarrow> sql_share" where
  "sql_new root bnd mx = \<lparr> sql_rows = [], sql_seq = 0, sql_root = root, sql_bind = bnd, sql_max = mx \<rparr>"

definition sql_list :: "sql_share \<Rightarrow> files_snapshot" where
  \<comment> \<open>\<open>ORDER BY id DESC\<close>\<close>
  "sql_list s = \<lparr> snap_root = sql_root s, snap_bind = sql_bind s,
     snap_files = rev (sort_key sf_id (map file_info (sql_rows s))) \<rparr>"

definition sql_add ::
  \<comment> \<open>the answer holds the name that was bound, the table what the column keeps of it; the other texts of
      the row are ASCII\<close>
  "jsstr \<Rightarrow> bytes \<Rightarrow> jsstr \<Rightarrow> jsstr option \<Rightarrow> int \<Rightarrow> sql_share \<Rightarrow> sql_share \<times> shared_file res" where
  "sql_add name content node ctype now s =
     (let total = sum_list (map sf_size (sql_rows s))
      in if total + length content > sql_max s then (s, throw ShareQuotaExceeded ''share is full'')
         else
           let i = sql_seq s + 1; r = new_row i name content node ctype now
           in (s\<lparr> sql_seq := i, sql_rows := sql_rows s @ [r\<lparr> sf_name := sql_text (sf_name r) \<rparr>] \<rparr>, Inr (file_info r)))"

definition sql_get :: "nat \<Rightarrow> sql_share \<Rightarrow> file_content res" where
  "sql_get i s =
     (case filter (\<lambda>r. sf_id r = i) (sql_rows s) of [] \<Rightarrow> no_file i | r # _ \<Rightarrow> Inr (content_of r))"

definition sql_remove :: "nat \<Rightarrow> sql_share \<Rightarrow> sql_share \<times> unit res" where
  "sql_remove i s =
     (let rest = filter (\<lambda>r. sf_id r \<noteq> i) (sql_rows s); changes = length (sql_rows s) - length rest
      in (s\<lparr> sql_rows := rest \<rparr>, if changes = 0 then no_file i else Inr ()))"

section \<open>Remote\<close>

fun disposition_name :: "jsstr \<Rightarrow> jsstr option" where
  \<comment> \<open>the first match of \<open>/filename="?([^"]+)"?/\<close>\<close>
  "disposition_name [] = None"
| "disposition_name (c # s) =
     (if startsWith (c # s) (js ''filename='') then
        (let r = drop 9 (c # s); q = (case r of d # r' \<Rightarrow> if d = 0x22 then r' else r | [] \<Rightarrow> r);
             name = takeWhile (\<lambda>d. d \<noteq> 0x22) q
         in if name \<noteq> [] then Some name else disposition_name s)
      else disposition_name s)"

definition filenameFromDisposition :: "jsstr option \<Rightarrow> jsstr" where
  "filenameFromDisposition cd =
     (case cd of None \<Rightarrow> js ''download''
      | Some s \<Rightarrow> (case disposition_name s of None \<Rightarrow> js ''download'' | Some n \<Rightarrow> n))"

definition shared_file_json :: "shared_file \<Rightarrow> json" where
  "shared_file_json f = JObj [(js ''id'', JNum (int (sf_id f))), (js ''name'', JStr (sf_name f)),
     (js ''size'', JNum (int (sf_size f))), (js ''node'', JStr (sf_node f)), (js ''modified'', JStr (sf_modified f))]"

definition shared_file_of_json :: "json \<Rightarrow> shared_file res" where
  "shared_file_of_json v =
     rbind (obj_of (Some v)) (\<lambda>kv.
     rbind (int_of (map_get kv (js ''id''))) (\<lambda>i.
     rbind (str_of (map_get kv (js ''name''))) (\<lambda>n.
     rbind (int_of (map_get kv (js ''size''))) (\<lambda>z.
     rbind (str_of (map_get kv (js ''node''))) (\<lambda>d.
     rbind (str_of (map_get kv (js ''modified''))) (\<lambda>m.
       Inr \<lparr> sf_id = nat i, sf_name = n, sf_size = nat z, sf_node = d, sf_modified = m \<rparr>))))))"

definition snapshot_json :: "files_snapshot \<Rightarrow> json" where
  "snapshot_json s = JObj [(js ''root'', JStr (snap_root s)), (js ''bind'', JStr (snap_bind s)),
     (js ''files'', JArr (map shared_file_json (snap_files s)))]"

definition snapshot_of_json :: "json \<Rightarrow> files_snapshot res" where
  "snapshot_of_json v =
     rbind (obj_of (Some v)) (\<lambda>kv.
     rbind (str_of (map_get kv (js ''root''))) (\<lambda>r.
     rbind (str_of (map_get kv (js ''bind''))) (\<lambda>b.
       (case map_get kv (js ''files'') of
          Some (JArr vs) \<Rightarrow> rmap (\<lambda>fs. \<lparr> snap_root = r, snap_bind = b, snap_files = fs \<rparr>) (mapR shared_file_of_json vs)
        | _ \<Rightarrow> throw JsError ''not an array''))))"

definition remote_new :: "jsstr \<Rightarrow> jsstr res" where
  "remote_new base = (if base = [] then throw JsError ''RemoteFileShare needs ISLAND_SHARE_URL'' else Inr base)"

definition remote_list :: "lib \<Rightarrow> network \<Rightarrow> jsstr \<Rightarrow> files_snapshot res" where
  "remote_list L net base =
     rbind (fetch net (http_get (base @ js ''/api/files''))) (\<lambda>r.
       if \<not> http_ok r then errs JsError ''remote list failed: '' (radix_str 10 (rs_status r))
       else rbind (response_json L r) snapshot_of_json)"

definition blob_type :: "jsstr \<Rightarrow> jsstr" where
  \<comment> \<open>the type of \<open>new Blob(..., { type })\<close>: lower case, or empty if a character is not printable ASCII\<close>
  "blob_type t =
     (if list_all (\<lambda>c. 0x20 \<le> c \<and> c \<le> 0x7e) t
      then map (\<lambda>c. if 0x41 \<le> c \<and> c \<le> 0x5a then c + 0x20 else c) t else [])"

definition remote_add :: "lib \<Rightarrow> network \<Rightarrow> jsstr \<Rightarrow> jsstr \<Rightarrow> bytes \<Rightarrow> jsstr \<Rightarrow> jsstr option \<Rightarrow> shared_file res" where
  "remote_add L net base name content node ctype =
     rbind (fetch net \<lparr> rq_method = POST, rq_url = base @ js ''/api/files'', rq_token = [], rq_body = [],
              rq_file = Some (sanitizeFileName name,
                blob_type (case ctype of None \<Rightarrow> js ''application/octet-stream'' | Some t \<Rightarrow> t), content) \<rparr>) (\<lambda>r.
       if \<not> http_ok r then errs JsError ''remote add failed: '' (radix_str 10 (rs_status r))
       else rbind (response_json L r) shared_file_of_json)"

definition remote_get :: "network \<Rightarrow> jsstr \<Rightarrow> nat \<Rightarrow> file_content res" where
  "remote_get net base i =
     rbind (fetch net (http_get (base @ js ''/api/files/'' @ radix_str 10 i @ js ''/download''))) (\<lambda>r.
       if rs_status r = 404 then no_file i
       else if \<not> http_ok r then errs JsError ''remote get failed: '' (radix_str 10 (rs_status r))
       else Inr \<lparr> fc_name = filenameFromDisposition (rs_disposition r), fc_type = rs_type r, fc_content = rs_body r \<rparr>)"

definition remote_remove :: "network \<Rightarrow> jsstr \<Rightarrow> nat \<Rightarrow> unit res" where
  "remote_remove net base i =
     rbind (fetch net \<lparr> rq_method = DELETE, rq_url = base @ js ''/api/files/'' @ radix_str 10 i, rq_token = [],
              rq_body = [], rq_file = None \<rparr>) (\<lambda>r.
       if rs_status r = 404 then no_file i
       else if \<not> http_ok r then errs JsError ''remote remove failed: '' (radix_str 10 (rs_status r))
       else Inr ())"

section \<open>Selecting the implementation\<close>

datatype any_share = Mem mem_share | Sql sql_share | Remote jsstr

definition buildShare :: "(jsstr \<Rightarrow> nat option) \<Rightarrow> (jsstr, jsstr) jsmap \<Rightarrow> any_share res" where
  \<comment> \<open>\<open>num\<close>: \<open>Number(s)\<close> where it is a positive integer; any other number is not modelled and falls
      back like NaN and 0 do\<close>
  "buildShare num env =
     (let kind = (case map_get env (js ''ISLAND_SHARE'') of None \<Rightarrow> js ''memory'' | Some k \<Rightarrow> k);
          maxBytes = (case map_get env (js ''ISLAND_SHARE_MAX_BYTES'') of
             None \<Rightarrow> DEFAULT_SHARE_MAX_BYTES
           | Some t \<Rightarrow> (case num t of None \<Rightarrow> DEFAULT_SHARE_MAX_BYTES
                       | Some n \<Rightarrow> if n = 0 then DEFAULT_SHARE_MAX_BYTES else n))
      in if kind = js ''memory'' then Inr (Mem (mem_new maxBytes))
         else if kind = js ''sqlite''
         then Inr (Sql (sql_new (js ''vega:island.db'') (js ''wg0:8787'') maxBytes))
         else if kind = js ''remote''
         then rmap Remote (remote_new (case map_get env (js ''ISLAND_SHARE_URL'') of None \<Rightarrow> [] | Some u \<Rightarrow> u))
         else errs JsError ''unknown ISLAND_SHARE: '' kind)"

end
