(* ===== verification/ShareFacts.thy ===== *)
theory ShareFacts
  imports Share MessagesFacts
begin

text \<open>
  The contract of the file share: an abstract share (a finite map from ids to rows, the next id, the
  quota, and what the store keeps of a name), the interface every implementation provides as a locale over a simulation, and its
  interpretation on the in-memory and the SQLite share.
\<close>

section \<open>The abstract share\<close>

record share_spec =
  sp_files :: "nat \<Rightarrow> file_row option"
  sp_next :: nat
  sp_max :: nat
  sp_keep :: "jsstr \<Rightarrow> jsstr"

definition spec_new :: "(jsstr \<Rightarrow> jsstr) \<Rightarrow> nat \<Rightarrow> share_spec" where
  "spec_new keep mx = \<lparr> sp_files = Map.empty, sp_next = 1, sp_max = mx, sp_keep = keep \<rparr>"

definition kept :: "(jsstr \<Rightarrow> jsstr) \<Rightarrow> file_row \<Rightarrow> file_row" where
  "kept keep r = r\<lparr> sf_name := keep (sf_name r) \<rparr>"

definition spec_total :: "share_spec \<Rightarrow> nat" where
  "spec_total s = (\<Sum>i \<in> dom (sp_files s). sf_size (the (sp_files s i)))"

definition spec_list :: "share_spec \<Rightarrow> shared_file list" where
  "spec_list s = map (\<lambda>i. file_info (the (sp_files s i))) (rev (sorted_list_of_set (dom (sp_files s))))"

definition spec_add ::
  "jsstr \<Rightarrow> bytes \<Rightarrow> jsstr \<Rightarrow> jsstr option \<Rightarrow> int \<Rightarrow> share_spec \<Rightarrow> share_spec \<times> shared_file res" where
  "spec_add name content node ctype now s =
     (if spec_total s + length content > sp_max s then (s, throw ShareQuotaExceeded ''share is full'')
      else (s\<lparr> sp_files := (sp_files s)(sp_next s \<mapsto> kept (sp_keep s) (new_row (sp_next s) name content node ctype now)), sp_next := sp_next s + 1 \<rparr>,
            Inr (file_info (new_row (sp_next s) name content node ctype now))))"

definition spec_get :: "nat \<Rightarrow> share_spec \<Rightarrow> file_content res" where
  "spec_get i s = (case sp_files s i of None \<Rightarrow> no_file i | Some r \<Rightarrow> Inr (content_of r))"

definition spec_remove :: "nat \<Rightarrow> share_spec \<Rightarrow> share_spec \<times> unit res" where
  "spec_remove i s =
     (case sp_files s i of
        None \<Rightarrow> (s, no_file i)
      | Some r \<Rightarrow> (s\<lparr> sp_files := (sp_files s)(i := None) \<rparr>, Inr ()))"

section \<open>Operations and their results\<close>

datatype share_op =
    OpList
  | OpAdd jsstr bytes jsstr "jsstr option" int
  | OpGet nat
  | OpRemove nat

datatype share_result =
    RFiles "shared_file list"
  | RAdded "shared_file res"
  | RContent "file_content res"
  | RRemoved "unit res"

fun share_step ::
  "('s \<Rightarrow> shared_file list) \<Rightarrow> (jsstr \<Rightarrow> bytes \<Rightarrow> jsstr \<Rightarrow> jsstr option \<Rightarrow> int \<Rightarrow> 's \<Rightarrow> 's \<times> shared_file res)
   \<Rightarrow> (nat \<Rightarrow> 's \<Rightarrow> file_content res) \<Rightarrow> (nat \<Rightarrow> 's \<Rightarrow> 's \<times> unit res) \<Rightarrow> share_op \<Rightarrow> 's \<Rightarrow> 's \<times> share_result" where
  "share_step lst add gt rm OpList s = (s, RFiles (lst s))"
| "share_step lst add gt rm (OpAdd n c d t now) s = apsnd RAdded (add n c d t now s)"
| "share_step lst add gt rm (OpGet i) s = (s, RContent (gt i s))"
| "share_step lst add gt rm (OpRemove i) s = apsnd RRemoved (rm i s)"

fun run_ops :: "('o \<Rightarrow> 's \<Rightarrow> 's \<times> 'r) \<Rightarrow> 'o list \<Rightarrow> 's \<Rightarrow> 's \<times> 'r list" where
  "run_ops step [] s = (s, [])"
| "run_ops step (x # xs) s = (case step x s of (s', r) \<Rightarrow> apsnd ((#) r) (run_ops step xs s'))"

section \<open>The interface\<close>

locale file_share =
  fixes lst :: "'s \<Rightarrow> shared_file list"
    and add :: "jsstr \<Rightarrow> bytes \<Rightarrow> jsstr \<Rightarrow> jsstr option \<Rightarrow> int \<Rightarrow> 's \<Rightarrow> 's \<times> shared_file res"
    and gt :: "nat \<Rightarrow> 's \<Rightarrow> file_content res"
    and rm :: "nat \<Rightarrow> 's \<Rightarrow> 's \<times> unit res"
    and abs :: "'s \<Rightarrow> share_spec"
    and inv :: "'s \<Rightarrow> bool"
  assumes list_spec: "inv s \<Longrightarrow> lst s = spec_list (abs s)"
    and add_spec: "inv s \<Longrightarrow> inv (fst (add n c d t now s)) \<and> apfst abs (add n c d t now s) = spec_add n c d t now (abs s)"
    and get_spec: "inv s \<Longrightarrow> gt i s = spec_get i (abs s)"
    and remove_spec: "inv s \<Longrightarrow> inv (fst (rm i s)) \<and> apfst abs (rm i s) = spec_remove i (abs s)"
begin

lemma step_spec:
  assumes "inv s"
  shows "inv (fst (share_step lst add gt rm x s))
    \<and> apfst abs (share_step lst add gt rm x s) = share_step spec_list spec_add spec_get spec_remove x (abs s)"
proof (cases x)
  case (OpAdd n c d t now)
  then show ?thesis using add_spec [OF assms, of n c d t now]
    by (cases "add n c d t now s"; cases "spec_add n c d t now (abs s)") simp
next
  case (OpRemove i)
  then show ?thesis using remove_spec [OF assms, of i]
    by (cases "rm i s"; cases "spec_remove i (abs s)") simp
qed (simp_all add: assms list_spec get_spec)

lemma run_spec:
  "inv s \<Longrightarrow> inv (fst (run_ops (share_step lst add gt rm) xs s))
    \<and> apfst abs (run_ops (share_step lst add gt rm) xs s)
      = run_ops (share_step spec_list spec_add spec_get spec_remove) xs (abs s)"
proof (induction xs arbitrary: s)
  case (Cons x xs)
  obtain s' r where st: "share_step lst add gt rm x s = (s', r)" by (rule prod.exhaust)
  have s': "inv s'" "share_step spec_list spec_add spec_get spec_remove x (abs s) = (abs s', r)"
    using step_spec [OF Cons.prems, of x] st by auto
  show ?case
    using Cons.IH [OF s'(1)] st s'(2)
    by (cases "run_ops (share_step lst add gt rm) xs s'";
        cases "run_ops (share_step spec_list spec_add spec_get spec_remove) xs (abs s')") simp
qed simp

end

section \<open>Sums and listings\<close>

lemma sum_map_of:
  "wf_map m \<Longrightarrow> (\<Sum>i \<in> dom (map_get m). f (the (map_get m i))) = sum_list (map (\<lambda>(_, v). f v) m)" for f :: "'b \<Rightarrow> nat"
proof (induction m)
  case (Cons e m)
  obtain k v where e: "e = (k, v)" by (rule prod.exhaust)
  have k: "k \<notin> dom (map_get m)" using Cons.prems e by (simp add: dom_map_of_conv_image_fst)
  have "dom (map_get (e # m)) = insert k (dom (map_get m))" by (auto simp: e)
  then have "(\<Sum>i \<in> dom (map_get (e # m)). f (the (map_get (e # m) i)))
    = f (the (map_get (e # m) k)) + (\<Sum>i \<in> dom (map_get m). f (the (map_get (e # m) i)))"
    using k by (simp only: sum.insert finite_dom_map_of not_False_eq_True)
  moreover have "(\<Sum>i \<in> dom (map_get m). f (the (map_get (e # m) i))) = (\<Sum>i \<in> dom (map_get m). f (the (map_get m i)))"
    using k e by (intro sum.cong) auto
  ultimately show ?case using Cons e by simp
qed simp

lemma list_by_id:
  assumes "sorted_wrt (\<lambda>a b. sf_id b \<le> sf_id a) xs" "distinct (map sf_id xs)" "\<And>x. x \<in> set xs \<Longrightarrow> g (sf_id x) = x"
  shows "xs = map g (rev (sorted_list_of_set (sf_id ` set xs)))"
proof -
  have "sorted (rev (map sf_id xs))" using assms(1) by (simp add: sorted_wrt_map sorted_wrt_rev flip: rev_map)
  then have "rev (map sf_id xs) = sorted_list_of_set (sf_id ` set xs)"
    using assms(2) sorted_list_of_set.idem_if_sorted_distinct [of "rev (map sf_id xs)"] by simp
  then have "map sf_id xs = rev (sorted_list_of_set (sf_id ` set xs))" by (metis rev_rev_ident)
  moreover have "map g (map sf_id xs) = xs" using assms(3) by (simp add: map_idI)
  ultimately show ?thesis by simp
qed

lemma sf_id_info [simp]: "sf_id (file_info r) = sf_id r"
  by (simp add: file_info_def)

lemma new_row_simps [simp]:
  "sf_id (new_row i n c d t now) = i" "sf_size (new_row i n c d t now) = length c"
  "sf_name (new_row i n c d t now) = sanitizeFileName n" "row_content (new_row i n c d t now) = c"
  by (simp_all add: new_row_def)

lemma kept_simps [simp]:
  "sf_id (kept k r) = sf_id r" "sf_size (kept k r) = sf_size r" "sf_name (kept k r) = k (sf_name r)"
  "row_content (kept k r) = row_content r" "kept (\<lambda>s. s) r = r"
  by (simp_all add: kept_def)

section \<open>The in-memory share\<close>

definition mem_abs :: "mem_share \<Rightarrow> share_spec" where
  "mem_abs s = \<lparr> sp_files = map_get (mem_rows s), sp_next = mem_next s, sp_max = mem_max s, sp_keep = (\<lambda>n. n) \<rparr>"

definition mem_inv :: "mem_share \<Rightarrow> bool" where
  "mem_inv s \<longleftrightarrow> wf_map (mem_rows s) \<and> (\<forall>(i, r) \<in> set (mem_rows s). sf_id r = i \<and> i < mem_next s)
     \<and> mem_total s = sum_list (map (\<lambda>(_, r). sf_size r) (mem_rows s))"

lemma mem_total: "mem_inv s \<Longrightarrow> spec_total (mem_abs s) = mem_total s"
  by (simp add: mem_inv_def spec_total_def mem_abs_def sum_map_of)

lemma mem_absent: "mem_inv s \<Longrightarrow> \<not> map_has (mem_rows s) (mem_next s)"
  by (auto simp: mem_inv_def)

lemma mem_list_spec:
  assumes "mem_inv s"
  shows "snap_files (mem_list s) = spec_list (mem_abs s)"
proof -
  let ?xs = "map (\<lambda>(_, r). file_info r) (mem_rows s)" and ?le = "\<lambda>a b. int (sf_id b) - int (sf_id a) \<le> 0"
  let ?g = "\<lambda>i. file_info (the (map_get (mem_rows s) i))"
  have wf: "wf_map (mem_rows s)" and ids: "\<And>i r. (i, r) \<in> set (mem_rows s) \<Longrightarrow> sf_id r = i"
    using assms by (auto simp: mem_inv_def)
  have keys: "map sf_id ?xs = map fst (mem_rows s)" using ids by (auto simp: case_prod_unfold)
  have set: "set (sort_by ?le ?xs) = set ?xs" by (metis mset_sort_by set_mset_mset)
  have "sort_by ?le ?xs = map ?g (rev (sorted_list_of_set (sf_id ` set (sort_by ?le ?xs))))"
  proof (rule list_by_id)
    have "sorted_wrt ?le (sort_by ?le ?xs)" by (rule sorted_sort_by) auto
    then show "sorted_wrt (\<lambda>a b. sf_id b \<le> sf_id a) (sort_by ?le ?xs)" by simp
    have "mset (map sf_id (sort_by ?le ?xs)) = mset (map sf_id ?xs)" by (simp only: mset_map mset_sort_by)
    then show "distinct (map sf_id (sort_by ?le ?xs))" using wf keys by (metis mset_eq_imp_distinct_iff)
    show "?g (sf_id x) = x" if "x \<in> set (sort_by ?le ?xs)" for x
      using that wf_map_in [OF wf] ids unfolding set by fastforce
  qed
  moreover have "sf_id ` set (sort_by ?le ?xs) = dom (map_get (mem_rows s))"
    unfolding set dom_map_of_conv_image_fst using keys by (metis list.set_map)
  ultimately show ?thesis by (simp add: mem_list_def spec_list_def mem_abs_def)
qed

lemma mem_add_spec:
  assumes "mem_inv s"
  shows "mem_inv (fst (mem_add n c d t now s)) \<and> apfst mem_abs (mem_add n c d t now s) = spec_add n c d t now (mem_abs s)"
proof (cases "mem_total s + length c > mem_max s")
  case True
  then show ?thesis using assms mem_total [OF assms] by (simp add: mem_add_def spec_add_def) (simp add: mem_abs_def)
next
  case False
  have upd: "map_set (mem_next s) r (mem_rows s) = mem_rows s @ [(mem_next s, r)]" for r
    using mem_absent [OF assms] by (simp add: update_fresh)
  show ?thesis
    using False assms mem_absent [OF assms] mem_total [OF assms]
    by (auto simp: mem_add_def spec_add_def Let_def mem_abs_def mem_inv_def upd fun_eq_iff map_add_def split: option.splits)
qed

lemma sum_delete:
  "wf_map m \<Longrightarrow> map_get m k = Some v \<Longrightarrow> sum_list (map (\<lambda>(_, w). f w) (map_del k m)) = sum_list (map (\<lambda>(_, w). f w) m) - (f v :: nat)"
proof (induction m)
  case (Cons e m)
  have le: "map_get m k = Some v \<Longrightarrow> f v \<le> sum_list (map (\<lambda>(_, w). f w) m)"
    using map_of_SomeD [of m k v] by (intro member_le_sum_list) (auto simp: image_iff intro!: bexI)
  show ?case
  proof (cases "fst e = k")
    case True
    then have "\<not> map_has m k" using Cons.prems by auto
    then show ?thesis using Cons.prems True by (cases e) (simp add: map_del_absent)
  next
    case False
    then show ?thesis using Cons le by (cases e) simp
  qed
qed simp

lemma mem_remove_spec:
  assumes "mem_inv s"
  shows "mem_inv (fst (mem_remove i s)) \<and> apfst mem_abs (mem_remove i s) = spec_remove i (mem_abs s)"
proof (cases "map_get (mem_rows s) i")
  case None
  then show ?thesis using assms by (simp add: mem_remove_def spec_remove_def mem_abs_def)
next
  case (Some r)
  have "wf_map (mem_rows s)" using assms by (simp add: mem_inv_def)
  from sum_delete [OF this Some, of sf_size] show ?thesis
    using assms Some set_map_del [of i "mem_rows s"]
    by (auto simp: mem_remove_def spec_remove_def mem_abs_def mem_inv_def)
qed

interpretation mem: file_share "\<lambda>s. snap_files (mem_list s)" mem_add mem_get mem_remove mem_abs mem_inv
proof
  show "mem_get i s = spec_get i (mem_abs s)" for i s by (simp add: mem_get_def spec_get_def mem_abs_def)
qed (fact mem_list_spec mem_add_spec mem_remove_spec)+

section \<open>The SQLite share\<close>

definition keyed :: "file_row list \<Rightarrow> (nat, file_row) jsmap" where
  "keyed rs = map (\<lambda>r. (sf_id r, r)) rs"

definition sql_abs :: "sql_share \<Rightarrow> share_spec" where
  "sql_abs s = \<lparr> sp_files = map_get (keyed (sql_rows s)), sp_next = sql_seq s + 1, sp_max = sql_max s,
     sp_keep = sql_text \<rparr>"

definition sql_inv :: "sql_share \<Rightarrow> bool" where
  "sql_inv s \<longleftrightarrow> distinct (map sf_id (sql_rows s)) \<and> (\<forall>r \<in> set (sql_rows s). sf_id r \<le> sql_seq s)"

lemma keyed_simps [simp]:
  "keyed [] = []" "keyed (r # rs) = (sf_id r, r) # keyed rs" "keyed (rs @ qs) = keyed rs @ keyed qs"
  "map fst (keyed rs) = map sf_id rs" "fst ` set (keyed rs) = sf_id ` set rs" "map (\<lambda>(_, r). f r) (keyed rs) = map f rs"
  by (auto simp: keyed_def image_iff comp_def)

lemma keyed_set: "(i, r) \<in> set (keyed rs) \<longleftrightarrow> r \<in> set rs \<and> sf_id r = i"
  by (auto simp: keyed_def)

lemma keyed_in: "distinct (map sf_id rs) \<Longrightarrow> r \<in> set rs \<Longrightarrow> map_get (keyed rs) (sf_id r) = Some r"
  by (rule map_of_is_SomeI) (simp_all add: keyed_set)

lemma keyed_None: "map_get (keyed rs) i = None \<longleftrightarrow> i \<notin> sf_id ` set rs"
  by (simp add: map_of_eq_None_iff)

lemma sql_total: "sql_inv s \<Longrightarrow> spec_total (sql_abs s) = sum_list (map sf_size (sql_rows s))"
  using sum_map_of [of "keyed (sql_rows s)" sf_size] by (simp add: sql_inv_def spec_total_def sql_abs_def)

lemma sql_list_spec:
  assumes "sql_inv s"
  shows "snap_files (sql_list s) = spec_list (sql_abs s)"
proof -
  let ?xs = "rev (sort_key sf_id (map file_info (sql_rows s)))"
  let ?g = "\<lambda>i. file_info (the (map_get (keyed (sql_rows s)) i))"
  have d: "distinct (map sf_id (sql_rows s))" using assms by (simp add: sql_inv_def)
  have "?xs = map ?g (rev (sorted_list_of_set (sf_id ` set ?xs)))"
  proof (rule list_by_id)
    show "sorted_wrt (\<lambda>a b. sf_id b \<le> sf_id a) ?xs"
      using sorted_sort_key [of sf_id "map file_info (sql_rows s)"] by (simp add: sorted_wrt_rev sorted_wrt_map)
    have "mset (map sf_id ?xs) = mset (map sf_id (map file_info (sql_rows s)))"
      by (simp only: mset_map mset_rev mset_sort)
    then have "mset (map sf_id ?xs) = mset (map sf_id (sql_rows s))" by (simp add: comp_def)
    then show "distinct (map sf_id ?xs)" using d by (metis mset_eq_imp_distinct_iff)
    show "?g (sf_id x) = x" if "x \<in> set ?xs" for x using that keyed_in [OF d] by auto
  qed
  moreover have "sf_id ` set ?xs = dom (map_get (keyed (sql_rows s)))"
    by (simp add: dom_map_of_conv_image_fst image_image)
  ultimately have "?xs = map ?g (rev (sorted_list_of_set (dom (map_get (keyed (sql_rows s))))))" by (simp only:)
  then show ?thesis by (simp add: sql_list_def spec_list_def sql_abs_def)
qed

lemma sql_add_spec:
  assumes "sql_inv s"
  shows "sql_inv (fst (sql_add n c d t now s)) \<and> apfst sql_abs (sql_add n c d t now s) = spec_add n c d t now (sql_abs s)"
proof (cases "sum_list (map sf_size (sql_rows s)) + length c > sql_max s")
  case True
  then show ?thesis using assms sql_total [OF assms] by (simp add: sql_add_def spec_add_def) (simp add: sql_abs_def)
next
  case False
  have new: "sql_seq s + 1 \<notin> sf_id ` set (sql_rows s)" using assms by (auto simp: sql_inv_def)
  then have none: "map_get (keyed (sql_rows s)) (sql_seq s + 1) = None" by (simp add: keyed_None)
  have "map_get (keyed (sql_rows s @ [r])) = (map_get (keyed (sql_rows s)))(sql_seq s + 1 \<mapsto> r)"
    if "sf_id r = sql_seq s + 1" for r
    using none that by (auto simp: fun_eq_iff map_add_def split: option.splits)
  then show ?thesis
    using False assms new sql_total [OF assms]
    by (auto simp: sql_add_def spec_add_def Let_def sql_abs_def sql_inv_def kept_def)
qed

lemma sql_get_spec:
  assumes "sql_inv s"
  shows "sql_get i s = spec_get i (sql_abs s)"
proof -
  have "map_get (keyed rs) i = (case filter (\<lambda>r. sf_id r = i) rs of [] \<Rightarrow> None | r # _ \<Rightarrow> Some r)" for rs
    by (induction rs) auto
  then show ?thesis by (simp add: sql_get_def spec_get_def sql_abs_def split: list.splits)
qed

lemma sql_remove_spec:
  assumes "sql_inv s"
  shows "sql_inv (fst (sql_remove i s)) \<and> apfst sql_abs (sql_remove i s) = spec_remove i (sql_abs s)"
proof -
  let ?rest = "filter (\<lambda>r. sf_id r \<noteq> i) (sql_rows s)"
  have files: "map_get (keyed (filter (\<lambda>r. sf_id r \<noteq> i) rs)) = (map_get (keyed rs))(i := None)" for rs
    by (induction rs) (auto simp: fun_eq_iff)
  have inv: "sql_inv (s\<lparr> sql_rows := ?rest \<rparr>)"
    using assms by (auto simp: sql_inv_def distinct_map inj_on_def)
  show ?thesis
  proof (cases "map_get (keyed (sql_rows s)) i")
    case None
    then have "\<forall>r \<in> set (sql_rows s). sf_id r \<noteq> i" by (auto simp: keyed_None)
    then have "?rest = sql_rows s" by (intro filter_True)
    then show ?thesis using None inv by (simp add: sql_remove_def spec_remove_def sql_abs_def)
  next
    case (Some r)
    then have "r \<in> set (sql_rows s)" "sf_id r = i" by (auto dest!: map_of_SomeD simp: keyed_set)
    then have "length ?rest < length (sql_rows s)" by (intro length_filter_less) auto
    then show ?thesis using Some inv by (simp add: sql_remove_def spec_remove_def sql_abs_def files Let_def fun_upd_def)
  qed
qed

interpretation sql: file_share "\<lambda>s. snap_files (sql_list s)" sql_add sql_get sql_remove sql_abs sql_inv
  by unfold_locales (fact sql_list_spec sql_add_spec sql_get_spec sql_remove_spec)+

end
