(* ===== verification/ShareProps.thy ===== *)
theory ShareProps
  imports ShareFacts
begin

text \<open>
  The properties of the file share: the two local backends are interchangeable, the quota and the
  form of names are invariants, and a stored name is only sometimes printable in a header.
\<close>

section \<open>The backends agree\<close>

abbreviation mem_step :: "share_op \<Rightarrow> mem_share \<Rightarrow> mem_share \<times> share_result" where
  "mem_step \<equiv> share_step (\<lambda>s. snap_files (mem_list s)) mem_add mem_get mem_remove"

abbreviation sql_step :: "share_op \<Rightarrow> sql_share \<Rightarrow> sql_share \<times> share_result" where
  "sql_step \<equiv> share_step (\<lambda>s. snap_files (sql_list s)) sql_add sql_get sql_remove"

abbreviation spec_step :: "share_op \<Rightarrow> share_spec \<Rightarrow> share_spec \<times> share_result" where
  "spec_step \<equiv> share_step spec_list spec_add spec_get spec_remove"

lemma mem_start: "mem_inv (mem_new mx)" "mem_abs (mem_new mx) = spec_new (\<lambda>n. n) mx"
  by (simp_all add: mem_new_def mem_inv_def mem_abs_def spec_new_def)

lemma sql_start: "sql_inv (sql_new root bnd mx)" "sql_abs (sql_new root bnd mx) = spec_new sql_text mx"
  by (simp_all add: sql_new_def sql_inv_def sql_abs_def spec_new_def)

lemma mem_run:
  "mem_inv (fst (run_ops mem_step ops (mem_new mx)))"
  "mem_abs (fst (run_ops mem_step ops (mem_new mx))) = fst (run_ops spec_step ops (spec_new (\<lambda>n. n) mx))"
  "snd (run_ops mem_step ops (mem_new mx)) = snd (run_ops spec_step ops (spec_new (\<lambda>n. n) mx))"
proof -
  have e: "apfst mem_abs (run_ops mem_step ops (mem_new mx)) = run_ops spec_step ops (spec_new (\<lambda>n. n) mx)"
    using mem.run_spec [OF mem_start(1), of ops mx] unfolding mem_start(2) ..
  show "mem_inv (fst (run_ops mem_step ops (mem_new mx)))" using mem.run_spec [OF mem_start(1), of ops mx] ..
  show "mem_abs (fst (run_ops mem_step ops (mem_new mx))) = fst (run_ops spec_step ops (spec_new (\<lambda>n. n) mx))"
    "snd (run_ops mem_step ops (mem_new mx)) = snd (run_ops spec_step ops (spec_new (\<lambda>n. n) mx))"
    unfolding e [symmetric] by simp_all
qed

lemma sql_run:
  "sql_inv (fst (run_ops sql_step ops (sql_new root bnd mx)))"
  "sql_abs (fst (run_ops sql_step ops (sql_new root bnd mx))) = fst (run_ops spec_step ops (spec_new sql_text mx))"
  "snd (run_ops sql_step ops (sql_new root bnd mx)) = snd (run_ops spec_step ops (spec_new sql_text mx))"
proof -
  have e: "apfst sql_abs (run_ops sql_step ops (sql_new root bnd mx)) = run_ops spec_step ops (spec_new sql_text mx)"
    using sql.run_spec [OF sql_start(1), of ops root bnd mx] unfolding sql_start(2) ..
  show "sql_inv (fst (run_ops sql_step ops (sql_new root bnd mx)))"
    using sql.run_spec [OF sql_start(1), of ops root bnd mx] ..
  show "sql_abs (fst (run_ops sql_step ops (sql_new root bnd mx))) = fst (run_ops spec_step ops (spec_new sql_text mx))"
    "snd (run_ops sql_step ops (sql_new root bnd mx)) = snd (run_ops spec_step ops (spec_new sql_text mx))"
    unfolding e [symmetric] by simp_all
qed

lemma sql_text_wf: "wf16 s \<Longrightarrow> sql_text s = s"
  by (induction s rule: sql_text.induct) (auto split: if_splits)

fun op_name_wf :: "share_op \<Rightarrow> bool" where
  "op_name_wf (OpAdd n c d t now) = wf16 (sanitizeFileName n)"
| "op_name_wf _ = True"

lemma keep_step:
  assumes "op_name_wf x" "\<And>n. wf16 n \<Longrightarrow> k n = n" "\<And>n. wf16 n \<Longrightarrow> sp_keep s n = n"
  shows "spec_step x (s\<lparr> sp_keep := k \<rparr>) = apfst (\<lambda>s. s\<lparr> sp_keep := k \<rparr>) (spec_step x s)"
proof -
  have "spec_total (s\<lparr> sp_keep := k \<rparr>) = spec_total s" by (simp add: spec_total_def)
  then show ?thesis
    using assms
    by (cases x) (auto simp: spec_add_def spec_remove_def spec_list_def spec_get_def kept_def split: option.splits)
qed

lemma keep_run:
  assumes "list_all op_name_wf ops" "\<And>n. wf16 n \<Longrightarrow> k n = n" "\<And>n. wf16 n \<Longrightarrow> sp_keep s n = n"
  shows "run_ops spec_step ops (s\<lparr> sp_keep := k \<rparr>) = apfst (\<lambda>s. s\<lparr> sp_keep := k \<rparr>) (run_ops spec_step ops s)"
  using assms(1,3)
proof (induction ops arbitrary: s)
  case (Cons x ops)
  obtain s' r where st: "spec_step x s = (s', r)" by (rule prod.exhaust)
  have "sp_keep s' = sp_keep s"
    using st by (cases x) (auto simp: spec_add_def spec_remove_def split: if_splits option.splits)
  then have "run_ops spec_step ops (s'\<lparr> sp_keep := k \<rparr>) = apfst (\<lambda>s. s\<lparr> sp_keep := k \<rparr>) (run_ops spec_step ops s')"
    using Cons by simp
  moreover have "spec_step x (s\<lparr> sp_keep := k \<rparr>) = (s'\<lparr> sp_keep := k \<rparr>, r)"
    using keep_step [of x k s] Cons.prems assms(2) st by simp
  ultimately show ?case by (cases "run_ops spec_step ops s'") (simp add: st)
qed simp

text \<open>
  C32: the in-memory and the SQLite share are interchangeable: on every sequence of listings of the
  files, uploads, downloads and removals, starting empty with the same quota, they give the same
  answers, ids, errors and order included, as long as no cleaned name ends in half a surrogate pair,
  which a text column does not keep (\<open>backends_differ_on_cut_name\<close>). The two labels of a listing,
  \<open>root\<close> and \<open>bind\<close>, name the backend and are not compared.
\<close>

theorem share_backends_agree:
  assumes "list_all op_name_wf ops"
  shows "snd (run_ops mem_step ops (mem_new mx)) = snd (run_ops sql_step ops (sql_new root bnd mx))"
proof -
  let ?s = "spec_new (\<lambda>n. n) mx"
  have "spec_new sql_text mx = ?s\<lparr> sp_keep := sql_text \<rparr>" by (simp add: spec_new_def)
  then show ?thesis
    using keep_run [OF assms sql_text_wf, of ?s] by (simp add: mem_run(3) sql_run(3) spec_new_def)
qed

theorem share_backends_agree_witness:
  "snd (run_ops mem_step [OpAdd (js ''a/b.txt'') [1] (js ''k'') None 0, OpList, OpAdd [] [1, 2] [] None 0, OpGet 1] (mem_new 2))
   = snd (run_ops sql_step [OpAdd (js ''a/b.txt'') [1] (js ''k'') None 0, OpList, OpAdd [] [1, 2] [] None 0, OpGet 1]
       (sql_new [] [] 2))"
proof (rule share_backends_agree)
  have "sanitizeFileName (js ''a/b.txt'') = js ''b.txt''" "sanitizeFileName [] = js ''unnamed''" by code_simp+
  moreover have "wf16 (js ''b.txt'')" "wf16 (js ''unnamed'')" by code_simp+
  ultimately show "list_all op_name_wf [OpAdd (js ''a/b.txt'') [1] (js ''k'') None 0, OpList, OpAdd [] [1, 2] [] None 0, OpGet 1]"
    by simp
qed

section \<open>Names\<close>

definition safe_name :: "jsstr \<Rightarrow> bool" where
  "safe_name s \<longleftrightarrow> s \<noteq> [] \<and> length s \<le> 160 \<and> s \<noteq> js ''.'' \<and> s \<noteq> js ''..''
     \<and> (\<forall>c \<in> set s. \<not> unsafe_char c \<and> c \<noteq> 0x2f \<and> c \<noteq> 0x5c)"

lemma split_path_chars: "w \<in> set (split_path s) \<Longrightarrow> c \<in> set w \<Longrightarrow> c \<noteq> 0x2f \<and> c \<noteq> 0x5c"
proof (induction s arbitrary: w)
  case (Cons d s)
  show ?case
  proof (cases "d = 0x2f \<or> d = 0x5c")
    case True
    then show ?thesis using Cons by auto
  next
    case False
    then have "w \<in> set (split_path s) \<or> (\<exists>v. (v = [] \<or> v \<in> set (split_path s)) \<and> w = d # v)"
      using Cons.prems(1) by (cases "split_path s") auto
    then show ?thesis using Cons.IH Cons.prems(2) False by auto
  qed
qed simp

lemma split_path_not_Nil [simp]: "split_path s \<noteq> []"
  by (cases s) (auto split: list.splits)

lemma trim_subset: "set (trim s) \<subseteq> set s"
  by (auto simp: trim_def dest!: set_dropWhileD)

lemma safe_or_unnamed:
  assumes "\<forall>c \<in> set s. \<not> unsafe_char c \<and> c \<noteq> 0x2f \<and> c \<noteq> 0x5c" "length s \<le> 160"
  shows "safe_name (if s \<noteq> [] \<and> s \<noteq> js ''.'' \<and> s \<noteq> js ''..'' then s else js ''unnamed'')"
proof -
  have "safe_name (js ''unnamed'')" by (simp add: safe_name_def js_def unsafe_char_def)
  then show ?thesis using assms by (simp add: safe_name_def)
qed

lemma sanitize_safe: "safe_name (sanitizeFileName raw)"
proof -
  let ?f = "\<lambda>c :: jschar. if unsafe_char c then 0x5f else c"
  let ?base = "last (split_path raw)" and ?clean = "take 160 (trim (map ?f (last (split_path raw))))"
  have base: "\<forall>c \<in> set ?base. c \<noteq> 0x2f \<and> c \<noteq> 0x5c"
    using split_path_chars [of ?base raw] by simp
  have under: "\<not> unsafe_char 0x5f" by (simp add: unsafe_char_def)
  have "\<forall>c \<in> set (map ?f ?base). \<not> unsafe_char c \<and> c \<noteq> 0x2f \<and> c \<noteq> 0x5c"
    using base under by auto
  moreover have "set ?clean \<subseteq> set (map ?f ?base)"
    using set_take_subset [of 160 "trim (map ?f ?base)"] trim_subset [of "map ?f ?base"] by blast
  ultimately have "\<forall>c \<in> set ?clean. \<not> unsafe_char c \<and> c \<noteq> 0x2f \<and> c \<noteq> 0x5c" by blast
  then show ?thesis unfolding sanitizeFileName_def Let_def by (rule safe_or_unnamed) simp
qed

lemma sql_text_length [simp]: "length (sql_text s) = length s"
  by (induction s rule: sql_text.induct) simp_all

lemma sql_text_set: "set (sql_text s) \<subseteq> insert 0xfffd (set s)"
  by (induction s rule: sql_text.induct) auto

lemma sql_text_same: "0xfffd \<notin> set (sql_text s) \<Longrightarrow> sql_text s = s"
  by (induction s rule: sql_text.induct) (auto split: if_splits)

lemma sql_text_safe: "safe_name s \<Longrightarrow> safe_name (sql_text s)"
proof -
  assume s: "safe_name s"
  have "sql_text s \<noteq> js t" if "s \<noteq> js t" "0xfffd \<notin> set (js t)" for t
    using that sql_text_same [of s] by auto
  from this [of "''.''"] this [of "''..''"] have "sql_text s \<noteq> js ''.''" "sql_text s \<noteq> js ''..''"
    using s by (simp_all add: safe_name_def js_def)
  moreover have "\<not> unsafe_char c \<and> c \<noteq> 0x2f \<and> c \<noteq> 0x5c" if "c \<in> set (sql_text s)" for c
    using that sql_text_set [of s] s by (auto simp: safe_name_def unsafe_char_def)
  moreover have "sql_text s \<noteq> []" using s sql_text_length [of s] by (metis length_0_conv safe_name_def)
  ultimately show ?thesis using s by (simp add: safe_name_def)
qed

section \<open>The quota\<close>

definition spec_ok :: "share_spec \<Rightarrow> bool" where
  "spec_ok s \<longleftrightarrow> finite (dom (sp_files s)) \<and> spec_total s \<le> sp_max s
     \<and> (\<forall>i r. sp_files s i = Some r \<longrightarrow> 0 < i \<and> i < sp_next s \<and> sf_id r = i \<and> sf_size r = length (row_content r)
          \<and> safe_name (sf_name r)) \<and> 0 < sp_next s \<and> (\<forall>n. safe_name n \<longrightarrow> safe_name (sp_keep s n))"

lemma spec_add_ok:
  assumes "spec_ok s"
  shows "spec_ok (fst (spec_add n c d t now s))"
proof (cases "spec_total s + length c > sp_max s")
  case True
  then show ?thesis using assms by (simp add: spec_add_def)
next
  case False
  let ?s = "fst (spec_add n c d t now s)" and ?r = "kept (sp_keep s) (new_row (sp_next s) n c d t now)"
  have s: "sp_files ?s = (sp_files s)(sp_next s \<mapsto> ?r)" "sp_next ?s = sp_next s + 1" "sp_max ?s = sp_max s" "sp_keep ?s = sp_keep s"
    using False by (simp_all add: spec_add_def)
  have new: "sp_next s \<notin> dom (sp_files s)" using assms by (auto simp: spec_ok_def)
  have fin: "finite (dom (sp_files s))" using assms by (simp add: spec_ok_def)
  have "(\<Sum>i \<in> dom (sp_files s). sf_size (the (((sp_files s)(sp_next s \<mapsto> ?r)) i))) = spec_total s"
    using new unfolding spec_total_def by (intro sum.cong) auto
  moreover have "dom ((sp_files s)(sp_next s \<mapsto> ?r)) = insert (sp_next s) (dom (sp_files s))" by auto
  ultimately have "spec_total ?s = length c + spec_total s"
    unfolding spec_total_def [of ?s] s(1) using fin new by simp
  then show ?thesis
    using assms False fin by (auto simp: spec_ok_def s sanitize_safe less_SucI split: if_splits)
qed

lemma spec_remove_ok:
  assumes "spec_ok s"
  shows "spec_ok (fst (spec_remove i s))"
proof (cases "sp_files s i")
  case None
  then show ?thesis using assms by (simp add: spec_remove_def)
next
  case (Some r)
  have fin: "finite (dom (sp_files s))" using assms by (simp add: spec_ok_def)
  have "(\<Sum>j \<in> dom (sp_files s) - {i}. sf_size (the (((sp_files s)(i := None)) j)))
    = (\<Sum>j \<in> dom (sp_files s) - {i}. sf_size (the (sp_files s j)))"
    by (intro sum.cong) auto
  also have "\<dots> \<le> spec_total s" unfolding spec_total_def using fin by (intro sum_mono2) auto
  finally have "(\<Sum>j \<in> dom ((sp_files s)(i := None)). sf_size (the (((sp_files s)(i := None)) j))) \<le> spec_total s" by simp
  then show ?thesis using assms fin Some by (auto simp: spec_ok_def spec_remove_def spec_total_def split: if_splits)
qed

lemma spec_step_ok: "spec_ok s \<Longrightarrow> spec_ok (fst (spec_step x s))"
  by (cases x) (simp_all add: spec_add_ok spec_remove_ok)

lemma spec_run_ok: "spec_ok s \<Longrightarrow> spec_ok (fst (run_ops spec_step xs s))"
proof (induction xs arbitrary: s)
  case (Cons x xs)
  obtain s' r where "spec_step x s = (s', r)" by (rule prod.exhaust)
  with spec_step_ok [OF Cons.prems, of x] Cons.IH [of s'] show ?case by simp
qed simp

lemma spec_new_ok: "spec_ok (spec_new (\<lambda>n. n) mx)" "spec_ok (spec_new sql_text mx)"
  by (simp_all add: spec_ok_def spec_new_def spec_total_def sql_text_safe)

lemma spec_max_run: "sp_max (fst (run_ops spec_step xs s)) = sp_max s"
proof (induction xs arbitrary: s)
  case (Cons x xs)
  have "sp_max (fst (spec_step x s)) = sp_max s"
    by (cases x) (simp_all add: spec_add_def spec_remove_def split: option.splits)
  then show ?case using Cons [of "fst (spec_step x s)"] by (simp add: case_prod_unfold)
qed simp

lemma mem_quota:
  assumes "mem_inv s" "spec_ok (mem_abs s)"
  shows "sum_list (map (\<lambda>(_, r). length (row_content r)) (mem_rows s)) \<le> mem_max s"
    and "list_all (\<lambda>(_, r). safe_name (sf_name r)) (mem_rows s)"
proof -
  have row: "sf_size r = length (row_content r) \<and> safe_name (sf_name r)" if "(i, r) \<in> set (mem_rows s)" for i r
  proof -
    have "wf_map (mem_rows s)" using assms(1) unfolding mem_inv_def ..
    from wf_map_in [THEN iffD1, OF this that] have "sp_files (mem_abs s) i = Some r" unfolding mem_abs_def by simp
    then show ?thesis using assms(2) unfolding spec_ok_def by blast
  qed
  then have "map (\<lambda>(_, r). length (row_content r)) (mem_rows s) = map (\<lambda>(_, r). sf_size r) (mem_rows s)" by auto
  moreover have "mem_total s = sum_list (map (\<lambda>(_, r). sf_size r) (mem_rows s))" using assms(1) unfolding mem_inv_def by blast
  moreover have "spec_total (mem_abs s) \<le> mem_max s" using assms(2) by (simp add: spec_ok_def mem_abs_def)
  ultimately show "sum_list (map (\<lambda>(_, r). length (row_content r)) (mem_rows s)) \<le> mem_max s"
    using mem_total [OF assms(1)] by (simp only:)
  show "list_all (\<lambda>(_, r). safe_name (sf_name r)) (mem_rows s)" using row by (auto simp: list_all_iff)
qed

lemma sql_quota:
  assumes "sql_inv s" "spec_ok (sql_abs s)"
  shows "sum_list (map (\<lambda>r. length (row_content r)) (sql_rows s)) \<le> sql_max s"
    and "list_all (\<lambda>r. safe_name (sf_name r)) (sql_rows s)"
proof -
  have row: "sf_size r = length (row_content r) \<and> safe_name (sf_name r)" if "r \<in> set (sql_rows s)" for r
  proof -
    have "distinct (map sf_id (sql_rows s))" using assms(1) unfolding sql_inv_def ..
    from keyed_in [OF this that] have "sp_files (sql_abs s) (sf_id r) = Some r" unfolding sql_abs_def by simp
    then show ?thesis using assms(2) unfolding spec_ok_def by blast
  qed
  then have "map (\<lambda>r. length (row_content r)) (sql_rows s) = map sf_size (sql_rows s)" by simp
  moreover have "spec_total (sql_abs s) \<le> sql_max s" using assms(2) by (simp add: spec_ok_def sql_abs_def)
  ultimately show "sum_list (map (\<lambda>r. length (row_content r)) (sql_rows s)) \<le> sql_max s"
    using sql_total [OF assms(1)] by (simp only:)
  show "list_all (\<lambda>r. safe_name (sf_name r)) (sql_rows s)" using row by (simp add: list_all_iff)
qed

text \<open>
  the share never outgrows its quota, on either backend and after any operations: the contents
  stored add up to at most the configured bytes, and every stored name is a non-empty base name of at
  most 160 units, without separators, quotes or control characters, that is neither dot nor dot-dot.
\<close>

theorem share_within_quota:
  "sum_list (map (\<lambda>r. length (row_content r)) (sql_rows (fst (run_ops sql_step ops (sql_new root bnd mx))))) \<le> mx
   \<and> sum_list (map (\<lambda>(_, r). length (row_content r)) (mem_rows (fst (run_ops mem_step ops (mem_new mx))))) \<le> mx
   \<and> list_all (\<lambda>r. safe_name (sf_name r)) (sql_rows (fst (run_ops sql_step ops (sql_new root bnd mx))))
   \<and> list_all (\<lambda>(_, r). safe_name (sf_name r)) (mem_rows (fst (run_ops mem_step ops (mem_new mx))))"
proof -
  let ?sq = "fst (run_ops sql_step ops (sql_new root bnd mx))" and ?me = "fst (run_ops mem_step ops (mem_new mx))"
  have ok: "spec_ok (sql_abs ?sq)" "sp_max (sql_abs ?sq) = mx" "spec_ok (mem_abs ?me)" "sp_max (mem_abs ?me) = mx"
    unfolding sql_run(2) mem_run(2)
    by (rule spec_run_ok [OF spec_new_ok(2)], simp add: spec_max_run spec_new_def,
        rule spec_run_ok [OF spec_new_ok(1)], simp add: spec_max_run spec_new_def)
  have "sql_max ?sq = mx" "mem_max ?me = mx" using ok(2,4) by (simp_all add: sql_abs_def mem_abs_def)
  then show ?thesis
    using sql_quota [OF sql_run(1) ok(1)] mem_quota [OF mem_run(1) ok(3)] by simp
qed

section \<open>Names cut in half\<close>

text \<open>
  The cut at 160 code units can split a surrogate pair. In memory the half is kept, and
  \<open>encodeURIComponent\<close>, which the download route applies to the stored name, throws on it: such a file
  can be stored but not downloaded. A text column keeps U+FFFD instead: it can be downloaded, but its
  name is not the one the upload answered, and not the one the other backend lists.
\<close>

lemma cut_name:
  obtains name where "wf16 name" "sanitizeFileName name = replicate 159 0x61 @ [0xd83d]"
    "\<not> wf16 (sanitizeFileName name)" "sql_text (sanitizeFileName name) = replicate 159 0x61 @ [0xfffd]"
proof -
  let ?name = "replicate 159 0x61 @ [0xd83d, 0xde00] :: jsstr"
  have split: "split_path s = [s]" if "\<forall>c \<in> set s. c \<noteq> 0x2f \<and> c \<noteq> 0x5c" for s
    using that by (induction s) auto
  have wf: "wf16 (replicate n 0x61 @ s) = wf16 s" for n s
  proof (induction n)
    case (Suc n)
    then show ?case by (cases "replicate n 0x61 @ s") (simp_all add: surrogate_bounds)
  qed simp
  have base: "last (split_path ?name) = ?name" by (subst split) auto
  have "map (\<lambda>c. if unsafe_char c then 0x5f else c) ?name = ?name"
    by (intro map_idI) (auto simp: unsafe_char_def word_le_nat_alt)
  moreover have "trim ?name = ?name"
    by (rule trim_noop) (auto simp: is_js_ws_def word_le_nat_alt)
  ultimately have clean: "take 160 (trim (map (\<lambda>c. if unsafe_char c then 0x5f else c) ?name)) = replicate 159 0x61 @ [0xd83d]"
    by simp
  have "length (replicate 159 0x61 @ [0xd83d] :: jsstr) = 160" by simp
  then have "replicate 159 0x61 @ [0xd83d] \<noteq> js s" if "length s < 160" for s
    using that by (metis length_js nat_neq_iff)
  then have "sanitizeFileName ?name = replicate 159 0x61 @ [0xd83d]"
    unfolding sanitizeFileName_def base Let_def clean by auto
  moreover have "\<not> wf16 (replicate 159 0x61 @ [0xd83d])" unfolding wf by (simp add: surrogate_bounds)
  moreover have "wf16 ?name" unfolding wf by (simp add: surrogate_bounds)
  moreover have "sql_text (replicate n 0x61 @ [0xd83d]) = replicate n 0x61 @ [0xfffd]" for n
  proof (induction n)
    case (Suc n)
    then show ?case by (cases "replicate n 0x61 @ [0xd83d] :: jsstr") (simp_all add: surrogate_bounds)
  qed (simp add: surrogate_bounds)
  ultimately show thesis by (intro that [of ?name]) simp_all
qed

theorem cut_name_not_encodable:
  "\<exists>name e. wf16 name \<and> encodeURIComponent (sanitizeFileName name) = Inl e"
proof -
  obtain name where "wf16 name" "\<not> wf16 (sanitizeFileName name)" by (rule cut_name)
  then show ?thesis by (intro exI [of _ name]) (simp add: encodeURIComponent_def throw_def)
qed

theorem backends_differ_on_cut_name:
  "\<exists>name. wf16 name \<and> snd (run_ops mem_step [OpAdd name [] [] None 0, OpList] (mem_new 0))
     \<noteq> snd (run_ops sql_step [OpAdd name [] [] None 0, OpList] (sql_new [] [] 0))"
proof -
  obtain name where n: "wf16 name" "sanitizeFileName name = replicate 159 0x61 @ [0xd83d]"
    "sql_text (sanitizeFileName name) = replicate 159 0x61 @ [0xfffd]" by (rule cut_name)
  then have "sql_text (sanitizeFileName name) \<noteq> sanitizeFileName name" by simp
  then show ?thesis
    using n(1)
    by (intro exI [of _ name]) (simp add: mem_add_def sql_add_def mem_new_def sql_new_def mem_list_def sql_list_def new_row_def
      file_info_def Let_def sort_by_def)
qed

end
