(* ===== verification/Sysinfo.thy ===== *)
theory Sysinfo
  imports Url "HOL-Library.Char_ord"
begin

text \<open>
  sysinfo.ts: the parsers of the host readouts. The output of a command is an argument (\<open>None\<close> when
  it failed), \<open>num\<close> is \<open>Number(s)\<close> on texts that are not plain digits; the fields it reads hold
  whole seconds, so a fractional number is not represented.
\<close>

section \<open>Numbers\<close>

datatype js_number = NaN | Infinite bool | Whole int

definition js_Number :: "(jsstr \<Rightarrow> js_number) \<Rightarrow> jsstr \<Rightarrow> js_number" where
  "js_Number num s =
     (let t = trim s
      in if t = [] then Whole 0
         else if list_all is_digit t \<and> safe_int (int (nat_of_digits t)) then Whole (int (nat_of_digits t))
         else num t)"

section \<open>The fail2ban journal\<close>

record jail_status =
  jail :: jsstr
  currently_banned :: nat
  total_banned :: nat
  banned_ips :: "jsstr list"

definition lit :: "string \<Rightarrow> jsstr \<Rightarrow> jsstr option" where
  "lit t s = (if startsWith s (js t) then Some (drop (length t) s) else None)"

definition scan_many :: "(jschar \<Rightarrow> bool) \<Rightarrow> nat \<Rightarrow> nat option \<Rightarrow> jsstr \<Rightarrow> (jsstr \<times> jsstr) option" where
  \<comment> \<open>a maximal run of the class, of a length within the bounds: what follows it in the pattern is not
      in the class, so the greedy match is the only one\<close>
  "scan_many P lo hi s =
     (let w = takeWhile P s
      in if lo \<le> length w \<and> (case hi of None \<Rightarrow> True | Some h \<Rightarrow> length w \<le> h) then Some (w, dropWhile P s) else None)"

definition scan_exact :: "nat \<Rightarrow> jsstr \<Rightarrow> jsstr option" where
  \<comment> \<open>\<open>\d{n}\<close> before something that is not a digit\<close>
  "scan_exact n s = map_option snd (scan_many is_digit n (Some n) s)"

definition spaces :: "nat \<Rightarrow> jsstr \<Rightarrow> jsstr option" where
  "spaces lo s = map_option snd (scan_many is_js_ws lo None s)"

definition word_char :: "jschar \<Rightarrow> bool" where
  \<comment> \<open>\<open>[\w-]\<close>\<close>
  "word_char c \<longleftrightarrow> is_digit c \<or> (65 \<le> c \<and> c \<le> 90) \<or> (97 \<le> c \<and> c \<le> 122) \<or> c = 0x5f \<or> c = 0x2d"

definition f2b_prefix :: "jsstr \<Rightarrow> jsstr option" where
  \<comment> \<open>the optional group with the time stamp: a pattern that starts with a digit\<close>
  "f2b_prefix s =
     (if s \<noteq> [] \<and> is_digit (hd s) then
        Option.bind (scan_exact 4 s) (\<lambda>s. Option.bind (lit ''-'' s) (\<lambda>s. Option.bind (scan_exact 2 s) (\<lambda>s.
        Option.bind (lit ''-'' s) (\<lambda>s. Option.bind (scan_exact 2 s) (\<lambda>s.
        Option.bind (if s \<noteq> [] \<and> (hd s = 0x20 \<or> hd s = 0x54) then Some (tl s) else None) (\<lambda>s.
        Option.bind (scan_exact 2 s) (\<lambda>s. Option.bind (lit '':'' s) (\<lambda>s. Option.bind (scan_exact 2 s) (\<lambda>s.
        Option.bind (lit '':'' s) (\<lambda>s. Option.bind (scan_exact 2 s) (\<lambda>s.
        Option.bind (if s \<noteq> [] \<and> (hd s = 0x2e \<or> hd s = 0x2c) then map_option snd (scan_many is_digit 1 None (tl s))
                     else Some s) (\<lambda>s.
        Option.bind (spaces 1 s) (\<lambda>s. Option.bind (lit ''fail2ban.actions'' s) (\<lambda>s. Option.bind (spaces 0 s) (\<lambda>s.
        Option.bind (lit ''['' s) (\<lambda>s. Option.bind (scan_many is_digit 1 None s) (\<lambda>(_, s).
        Option.bind (lit '']:'' s) (\<lambda>s. Option.bind (spaces 1 s) (\<lambda>s. Option.bind (lit ''NOTICE'' s) (spaces 1))))))))))))))))))))
      else Some s)"

definition scan_ip :: "jsstr \<Rightarrow> (jsstr \<times> jsstr) option" where
  \<comment> \<open>\<open>(?:\d{1,3}\.){3}\d{1,3}\<close>\<close>
  "scan_ip s =
     Option.bind (scan_many is_digit 1 (Some 3) s) (\<lambda>(a, s1). Option.bind (lit ''.'' s1) (\<lambda>s2.
     Option.bind (scan_many is_digit 1 (Some 3) s2) (\<lambda>(b, s3). Option.bind (lit ''.'' s3) (\<lambda>s4.
     Option.bind (scan_many is_digit 1 (Some 3) s4) (\<lambda>(c, s5). Option.bind (lit ''.'' s5) (\<lambda>s6.
     Option.bind (scan_many is_digit 1 (Some 3) s6) (\<lambda>(d, s7).
       Some (a @ 0x2e # b @ 0x2e # c @ 0x2e # d, s7))))))))"

record f2b_action =
  fa_jail :: jsstr
  fa_restore :: bool
  fa_ban :: bool
  fa_ip :: jsstr

definition f2b_match :: "jsstr \<Rightarrow> f2b_action option" where
  \<comment> \<open>\<open>F2B_ACTION_RE.exec\<close>\<close>
  "f2b_match msg =
     Option.bind (f2b_prefix msg) (\<lambda>s. Option.bind (lit ''['' s) (\<lambda>s.
     Option.bind (scan_many word_char 1 None s) (\<lambda>(j, s). Option.bind (lit '']'' s) (\<lambda>s. Option.bind (spaces 1 s) (\<lambda>s.
     let r = Option.bind (lit ''Restore'' s) (spaces 1); restore = r \<noteq> None; s = (case r of None \<Rightarrow> s | Some s' \<Rightarrow> s')
     in Option.bind (case lit ''Ban'' s of Some s' \<Rightarrow> Some (True, s') | None \<Rightarrow> map_option (Pair False) (lit ''Unban'' s)) (\<lambda>(ban, s).
        Option.bind (spaces 1 s) (\<lambda>s. Option.bind (scan_ip s) (\<lambda>(ip, s). Option.bind (spaces 0 s) (\<lambda>s.
          if s = [] then Some \<lparr> fa_jail = j, fa_restore = restore, fa_ban = ban, fa_ip = ip \<rparr> else None)))))))))"

definition journal_message :: "lib \<Rightarrow> jsstr \<Rightarrow> jsstr res" where
  \<comment> \<open>\<open>String(JSON.parse(line).MESSAGE ?? "")\<close>\<close>
  "journal_message L line =
     rbind (of_lib ''JSON Parse error'' (json_parse (number_of_token L) line)) (\<lambda>v.
     rbind (field v (js ''MESSAGE'')) (\<lambda>m. js_string_opt (nullish m (Some (JStr [])))))"

definition f2b_actions :: "lib \<Rightarrow> jsstr \<Rightarrow> f2b_action list" where
  \<comment> \<open>the lines the loop does not skip\<close>
  "f2b_actions L out =
     concat (map (\<lambda>line.
       if trim line = [] then []
       else case journal_message L line of Inl _ \<Rightarrow> []
          | Inr msg \<Rightarrow> (case f2b_match msg of None \<Rightarrow> [] | Some a \<Rightarrow> [a])) (splitOn 0x0a out))"

type_synonym f2b_state = "(jsstr, (jsstr, bool) jsmap) jsmap \<times> (jsstr, nat) jsmap"

definition f2b_apply :: "f2b_state \<Rightarrow> f2b_action \<Rightarrow> f2b_state" where
  "f2b_apply = (\<lambda>(banned, totals) a.
     let ips = (case map_get banned (fa_jail a) of None \<Rightarrow> [] | Some m \<Rightarrow> m)
     in (map_set (fa_jail a) (map_set (fa_ip a) (fa_ban a) ips) banned,
         if fa_ban a \<and> \<not> fa_restore a
         then map_set (fa_jail a) ((case map_get totals (fa_jail a) of None \<Rightarrow> 0 | Some n \<Rightarrow> n) + 1) totals
         else totals))"

definition f2b_status :: "f2b_state \<Rightarrow> jail_status list" where
  "f2b_status = (\<lambda>(banned, totals).
     map (\<lambda>(j, ips). \<lparr> jail = j, currently_banned = length (filter snd ips),
       total_banned = (case map_get totals j of None \<Rightarrow> 0 | Some n \<Rightarrow> n),
       banned_ips = sort (map fst (filter snd ips)) \<rparr>) banned)"

definition readFail2ban :: "lib \<Rightarrow> jsstr option \<Rightarrow> jail_status list" where
  "readFail2ban L out =
     (case out of None \<Rightarrow> []
      | Some t \<Rightarrow> if t = [] then [] else f2b_status (foldl f2b_apply ([], []) (f2b_actions L t)))"

section \<open>WireGuard\<close>

record wg_peer =
  wp_wg0 :: jsstr
  wp_key :: jsstr
  wp_age :: "int option"
  wp_up :: bool

record wg_status =
  wg_iface :: jsstr
  wg_peers :: "wg_peer list"

definition UP_WINDOW_S :: int where
  "UP_WINDOW_S = 180"

definition at_or :: "jsstr \<Rightarrow> jsstr list \<Rightarrow> nat \<Rightarrow> jsstr" where
  \<comment> \<open>\<open>f[i] ?? d\<close>\<close>
  "at_or d f i = (if i < length f then f ! i else d)"

definition wg_line :: "(jsstr \<Rightarrow> js_number) \<Rightarrow> int \<Rightarrow> jsstr \<Rightarrow> wg_peer list" where
  "wg_line num nowS line =
     (let f = splitOn 0x09 line
      in case js_Number num (at_or (js ''0'') f 4) of
           Whole handshake \<Rightarrow>
             (let age = (if handshake > 0 then Some (max 0 (nowS - handshake)) else None)
              in [\<lparr> wp_wg0 = hd (splitOn 0x2f (hd (splitOn 0x2c (at_or [] f 3)))), wp_key = at_or [] f 0, wp_age = age,
                    wp_up = (case age of None \<Rightarrow> False | Some a \<Rightarrow> a \<le> UP_WINDOW_S) \<rparr>])
         | _ \<Rightarrow> [])"

definition readWg :: "(jsstr \<Rightarrow> js_number) \<Rightarrow> jsstr \<Rightarrow> jsstr option \<Rightarrow> int \<Rightarrow> wg_status" where
  "readWg num iface out now =
     (case out of None \<Rightarrow> \<lparr> wg_iface = iface, wg_peers = [] \<rparr>
      | Some t \<Rightarrow>
          if t = [] then \<lparr> wg_iface = iface, wg_peers = [] \<rparr>
          else \<lparr> wg_iface = iface, wg_peers = concat (map (wg_line num (now div 1000))
                   (drop 1 (filter (\<lambda>l. trim l \<noteq> []) (splitOn 0x0a t)))) \<rparr>)"

section \<open>Link health\<close>

definition STALE_AFTER_S :: int where
  "STALE_AFTER_S = 150"

definition DEGRADED_AFTER_S :: int where
  "DEGRADED_AFTER_S = 180"

datatype link_state = Ok | Stale | Degraded

definition link_str :: "link_state \<Rightarrow> jsstr" where
  "link_str l = (case l of Ok \<Rightarrow> js ''ok'' | Stale \<Rightarrow> js ''stale'' | Degraded \<Rightarrow> js ''degraded'')"

definition classifyLink :: "int option \<Rightarrow> link_state" where
  "classifyLink age =
     (case age of None \<Rightarrow> Degraded
      | Some a \<Rightarrow> if a \<ge> DEGRADED_AFTER_S then Degraded else if a \<ge> STALE_AFTER_S then Stale else Ok)"

section \<open>Synthetic data\<close>

definition mockFail2ban :: "jail_status list" where
  "mockFail2ban = [\<lparr> jail = js ''sshd'', currently_banned = 2, total_banned = 7,
     banned_ips = [js ''185.220.101.4'', js ''45.134.26.9''] \<rparr>]"

definition mockWg :: "jsstr \<Rightarrow> wg_status" where
  "mockWg iface = \<lparr> wg_iface = iface, wg_peers =
     [\<lparr> wp_wg0 = js ''10.42.0.2'', wp_key = js ''vega-mock-pub'', wp_age = Some 12, wp_up = True \<rparr>,
      \<lparr> wp_wg0 = js ''10.42.0.5'', wp_key = js ''sirius-mock-pub'', wp_age = Some 240, wp_up = False \<rparr>] \<rparr>"

section \<open>The self-heal daemon's journal\<close>

record daemon_peer =
  dp_peer :: jsstr
  dp_state :: jsstr
  dp_endpoint :: jsstr
  dp_age :: "jsstr option"

definition mockDaemon :: "daemon_peer list" where
  "mockDaemon = [\<lparr> dp_peer = js ''sirius-m'' @ [0x2026], dp_state = js ''degraded'',
     dp_endpoint = js ''203.0.113.9:51820'', dp_age = None \<rparr>]"

fun truthy :: "json option \<Rightarrow> bool" where
  "truthy None = False"
| "truthy (Some JNull) = False"
| "truthy (Some (JBool b)) = b"
| "truthy (Some (JNum i)) = (i \<noteq> 0)"
| "truthy (Some (JStr s)) = (s \<noteq> [])"
| "truthy (Some v) = True"

definition daemon_event :: "lib \<Rightarrow> jsstr \<Rightarrow> daemon_peer option res" where
  \<comment> \<open>one line of the loop: \<open>Inr None\<close> is \<open>continue\<close>; a field access on an event that is \<open>null\<close>
      throws out of the loop, and so does, here, a peer that is not a string\<close>
  "daemon_event L line =
     (if trim line = [] then Inr None
      else case rbind (journal_message L line) (\<lambda>m. of_lib ''JSON Parse error'' (json_parse (number_of_token L) m)) of
        Inl _ \<Rightarrow> Inr None
      | Inr evt \<Rightarrow>
          rbind (field evt (js ''peer'')) (\<lambda>peer.
            if \<not> truthy peer then Inr None
            else
              let msg = obj_get evt (js ''msg'');
                  state = (if msg = Some (JStr (js ''state change'')) then obj_get evt (js ''to'')
                           else if msg = Some (JStr (js ''peer'')) then obj_get evt (js ''status'') else None)
              in if \<not> truthy state then Inr None
                 else rbind (str_of peer) (\<lambda>p.
                      rbind (js_string_opt state) (\<lambda>st.
                      rbind (js_string_opt (nullish (obj_get evt (js ''endpoint'')) (Some (JStr [])))) (\<lambda>ep.
                      rbind (if truthy (obj_get evt (js ''handshake_age''))
                             then rmap Some (js_string_opt (obj_get evt (js ''handshake_age''))) else Inr None) (\<lambda>age.
                        Inr (Some \<lparr> dp_peer = p, dp_state = st, dp_endpoint = ep, dp_age = age \<rparr>)))))))"

definition latest_per_peer :: "daemon_peer list \<Rightarrow> daemon_peer list" where
  \<comment> \<open>\<open>latest.set(evt.peer, ...)\<close> for each event, and the entries of the map\<close>
  "latest_per_peer ds = map snd (foldl (\<lambda>m d. map_set (dp_peer d) d m) [] ds)"

definition readDaemon :: "lib \<Rightarrow> jsstr option \<Rightarrow> daemon_peer list res" where
  "readDaemon L out =
     (case out of None \<Rightarrow> Inr []
      | Some t \<Rightarrow> if t = [] then Inr []
                 else rmap (\<lambda>ds. latest_per_peer (concat (map (\<lambda>d. case d of None \<Rightarrow> [] | Some e \<Rightarrow> [e]) ds)))
                        (mapR (daemon_event L) (splitOn 0x0a t)))"

end
