(* ===== verification/Events.thy ===== *)
theory Events
  imports Sysinfo FriendsProps
begin

text \<open>
  events.ts: the local roster as security events, signed reports, the shape check of an untrusted
  report, and the collector's table of the latest report per node, with the route of main.ts that
  feeds it. \<open>nameFor\<close> is the name of a mesh address.
\<close>

section \<open>The local roster\<close>

record security_event =
  ev_kind :: jsstr
  ev_subject :: jsstr
  ev_detail :: jsstr
  ev_state :: "jsstr option"

definition detail_join :: "jsstr option list \<Rightarrow> jsstr" where
  \<comment> \<open>\<open>filter(Boolean).join(" - ")\<close> with an em dash\<close>
  "detail_join xs = join [0x20, 0x2014, 0x20] (concat (map (\<lambda>x. case x of None \<Rightarrow> [] | Some s \<Rightarrow> if s = [] then [] else [s]) xs))"

definition named :: "jsstr option \<Rightarrow> jsstr \<Rightarrow> jsstr option" where
  \<comment> \<open>\<open>name ? ip : null\<close>\<close>
  "named name ip = (case name of None \<Rightarrow> None | Some n \<Rightarrow> if n = [] then None else Some ip)"

definition f2b_events :: "jail_status list \<Rightarrow> security_event list" where
  "f2b_events jails = concat (map (\<lambda>j. map (\<lambda>ip. \<lparr> ev_kind = js ''fail2ban'', ev_subject = ip,
     ev_detail = js ''blocked by '' @ jail j, ev_state = None \<rparr>) (banned_ips j)) jails)"

definition live_event :: "(jsstr \<Rightarrow> jsstr option) \<Rightarrow> (jsstr, daemon_peer) jsmap \<Rightarrow> wg_peer \<Rightarrow> security_event" where
  "live_event nameFor ds p =
     (let ip = (if wp_wg0 p \<noteq> [] then wp_wg0 p else take 12 (wp_key p));
          name = nameFor (wp_wg0 p);
          d = (if wp_wg0 p \<noteq> [] then map_get ds (wp_wg0 p) else None);
          base = link_str (classifyLink (wp_age p));
          state = (if map_option dp_state d = Some (js ''restored'') \<and> base = js ''ok'' then js ''restored'' else base);
          age = (case wp_age p of None \<Rightarrow> js ''no handshake yet'' | Some a \<Rightarrow> int_str a @ js ''s since handshake'');
          endpoint = (case d of None \<Rightarrow> [] | Some e \<Rightarrow> dp_endpoint e)
      in \<lparr> ev_kind = js ''link'', ev_subject = (case name of None \<Rightarrow> ip | Some n \<Rightarrow> n),
           ev_detail = detail_join [named name ip, Some age, Some endpoint], ev_state = Some state \<rparr>)"

fun live_events ::
  "(jsstr \<Rightarrow> jsstr option) \<Rightarrow> (jsstr, daemon_peer) jsmap \<Rightarrow> wg_peer list \<Rightarrow> security_event list \<times> (jsstr, daemon_peer) jsmap" where
  "live_events nameFor ds [] = ([], ds)"
| "live_events nameFor ds (p # ps) =
     (let ds' = (if wp_wg0 p \<noteq> [] then map_del (wp_wg0 p) ds else ds)
      in apfst ((#) (live_event nameFor ds p)) (live_events nameFor ds' ps))"

definition journal_event :: "(jsstr \<Rightarrow> jsstr option) \<Rightarrow> jsstr \<times> daemon_peer \<Rightarrow> security_event list" where
  "journal_event nameFor = (\<lambda>(peer, d).
     if dp_state d = [] then []
     else
       let name = nameFor peer;
           age = (case dp_age d of None \<Rightarrow> None
                  | Some a \<Rightarrow> if a = [] then None else if a = js ''never'' then Some (js ''no handshake yet'')
                             else Some (js ''handshake '' @ a @ js '' ago''))
       in [\<lparr> ev_kind = js ''link'', ev_subject = (case name of None \<Rightarrow> peer | Some n \<Rightarrow> n),
             ev_detail = detail_join [named name peer, age, Some (dp_endpoint d)], ev_state = Some (dp_state d) \<rparr>])"

definition by_peer :: "daemon_peer list \<Rightarrow> (jsstr, daemon_peer) jsmap" where
  \<comment> \<open>\<open>new Map(daemon.map((d) => [d.peer, d]))\<close>\<close>
  "by_peer ds = foldl (\<lambda>m d. map_set (dp_peer d) d m) [] ds"

definition collectLocal ::
  "jail_status list \<Rightarrow> wg_status \<Rightarrow> daemon_peer list \<Rightarrow> (jsstr \<Rightarrow> jsstr option) \<Rightarrow> security_event list" where
  "collectLocal jails wg daemon nameFor =
     (case live_events nameFor (by_peer daemon) (wg_peers wg) of
        (live, rest) \<Rightarrow> f2b_events jails @ live @ concat (map (journal_event nameFor) rest))"

definition event_json :: "security_event \<Rightarrow> json" where
  "event_json e = JObj ([(js ''kind'', JStr (ev_kind e)), (js ''subject'', JStr (ev_subject e)),
     (js ''detail'', JStr (ev_detail e))] @ (case ev_state e of None \<Rightarrow> [] | Some s \<Rightarrow> [(js ''state'', JStr s)]))"

section \<open>Reports\<close>

record event_report =
  rep_node :: jsstr
  rep_label :: jsstr
  rep_events :: "json list" \<comment> \<open>as they crossed the wire\<close>
  rep_at :: jsstr
  rep_sig :: jsstr

definition reportSignable :: "event_report \<Rightarrow> payload" where
  "reportSignable r = [(js ''node'', JStr (rep_node r)), (js ''label'', JStr (rep_label r)), (js ''at'', JStr (rep_at r)),
     (js ''events'', JArr (rep_events r))]"

definition signReport :: "lib \<Rightarrow> identity \<Rightarrow> jsstr \<Rightarrow> json list \<Rightarrow> int \<Rightarrow> event_report res" where
  "signReport L i lbl events now =
     rbind (toISOString now) (\<lambda>t.
       let body = \<lparr> rep_node = toB64 L (publicKey (ed25519 i)), rep_label = lbl, rep_events = events, rep_at = t, rep_sig = [] \<rparr>
       in rmap (\<lambda>s. body\<lparr> rep_sig := s \<rparr>) (sign L (reportSignable body) (secretKey (ed25519 i))))"

definition MAX_REPORT_EVENTS :: nat where
  "MAX_REPORT_EVENTS = 200"

definition MAX_FEED_NODES :: nat where
  "MAX_FEED_NODES = 64"

definition is_JStr :: "json option \<Rightarrow> bool" where
  "is_JStr v = (case v of Some (JStr s) \<Rightarrow> True | _ \<Rightarrow> False)"

definition event_shape :: "json \<Rightarrow> bool" where
  "event_shape e \<longleftrightarrow> is_JStr (obj_get e (js ''kind'')) \<and> is_JStr (obj_get e (js ''subject''))
     \<and> is_JStr (obj_get e (js ''detail'')) \<and> (obj_get e (js ''state'') = None \<or> is_JStr (obj_get e (js ''state'')))"

definition parseReport :: "json \<Rightarrow> event_report res" where
  "parseReport b =
     (case (obj_get b (js ''node''), obj_get b (js ''label''), obj_get b (js ''events''), obj_get b (js ''at''), obj_get b (js ''sig'')) of
        (Some (JStr n), Some (JStr l), Some (JArr es), Some (JStr t), Some (JStr s)) \<Rightarrow>
          if length es > MAX_REPORT_EVENTS then throw EventError ''too many events in report''
          else if \<not> list_all event_shape es then throw EventError ''malformed report event''
          else Inr \<lparr> rep_node = n, rep_label = l, rep_events = es, rep_at = t, rep_sig = s \<rparr>
      | _ \<Rightarrow> throw EventError ''malformed report'')"

definition verifyReport :: "lib \<Rightarrow> event_report \<Rightarrow> bool" where
  "verifyReport L r = (case verify L (reportSignable r) (rep_sig r) (rep_node r) of Inl _ \<Rightarrow> False | Inr ok \<Rightarrow> ok)"

section \<open>The collector\<close>

record event_row =
  er_label :: jsstr
  er_events :: jsstr \<comment> \<open>the column holds JSON text\<close>
  er_at :: jsstr
  er_received :: jsstr

type_synonym event_store = "(jsstr, event_row) jsmap" \<comment> \<open>keyed by node\<close>

definition event_upsert :: "event_report \<Rightarrow> jsstr \<Rightarrow> event_store \<Rightarrow> event_store" where
  "event_upsert r received s =
     map_set (rep_node r) \<lparr> er_label = rep_label r, er_events = json_stringify (JArr (rep_events r)), er_at = rep_at r,
                            er_received = received \<rparr> s"

record node_events =
  ne_node :: jsstr
  ne_label :: jsstr
  ne_events :: json
  ne_at :: jsstr
  ne_received :: jsstr

definition event_list :: "lib \<Rightarrow> event_store \<Rightarrow> node_events list res" where
  \<comment> \<open>\<open>ORDER BY at DESC LIMIT 64\<close>: texts compare by their bytes\<close>
  "event_list L s =
     mapR (\<lambda>(n, row). rmap (\<lambda>es. \<lparr> ne_node = n, ne_label = er_label row, ne_events = es, ne_at = er_at row,
                                  ne_received = er_received row \<rparr>)
             (of_lib ''JSON Parse error'' (json_parse (number_of_token L) (er_events row))))
       (take MAX_FEED_NODES (rev (sort_key (\<lambda>(n, row). text_encode (er_at row)) s)))"

definition ingest :: "lib \<Rightarrow> event_report \<Rightarrow> jsstr \<Rightarrow> event_store \<Rightarrow> event_store \<times> unit res" where
  "ingest L r received s =
     (if \<not> verifyReport L r then (s, throw EventError ''bad report signature'') else (event_upsert r received s, Inr ()))"

definition report_json :: "event_report \<Rightarrow> json" where
  "report_json r = JObj [(js ''node'', JStr (rep_node r)), (js ''label'', JStr (rep_label r)),
     (js ''events'', JArr (rep_events r)), (js ''at'', JStr (rep_at r)), (js ''sig'', JStr (rep_sig r))]"

definition report :: "lib \<Rightarrow> network \<Rightarrow> jsstr \<Rightarrow> identity \<Rightarrow> jsstr \<Rightarrow> security_event list \<Rightarrow> int \<Rightarrow> bool" where
  "report L net url i lbl events now =
     (case rbind (signReport L i lbl (map event_json events) now) (\<lambda>r.
             fetch net (http_post (url @ js ''/events/report'') (report_json r))) of
        Inl _ \<Rightarrow> False | Inr rs \<Rightarrow> http_ok rs)"

definition report_route ::
  "lib \<Rightarrow> jsstr \<Rightarrow> book \<Rightarrow> json \<Rightarrow> jsstr \<Rightarrow> event_store \<Rightarrow> event_store \<times> json res" where
  \<comment> \<open>\<open>POST /events/report\<close> of main.ts on its parsed body; \<open>ownLabel\<close> is \<open>ctx.label\<close>\<close>
  "report_route L ownLabel b body received s =
     (case parseReport body of
        Inl e \<Rightarrow> (s, Inl e)
      | Inr r \<Rightarrow>
          if \<not> verifyReport L r then (s, throw EventError ''bad report signature'')
          else
            let lbl = (if rep_node r = selfEd L b then Some ownLabel
                       else map_option (\<lambda>fr. peer_label (fr_peer fr)) (friend (rep_node r) b))
            in (case lbl of
                  None \<Rightarrow> (s, throw EventError ''reporter is not a known island node'')
                | Some l \<Rightarrow>
                    if l = [] then (s, throw EventError ''reporter is not a known island node'')
                    else (event_upsert (r\<lparr> rep_label := l \<rparr>) received s, Inr (JObj [(js ''ok'', JBool True)]))))"

end
