(* ===== verification/EventsProps.thy ===== *)
theory EventsProps
  imports Events
begin

text \<open>
  The properties of the host readouts and of the event feed: the journal replay against a reference
  that looks at the last action per address, the completeness of the roster, and who can put what
  into the collector's feed.
\<close>

section \<open>The fail2ban replay\<close>

definition last_ban :: "jsstr \<Rightarrow> jsstr \<Rightarrow> f2b_action list \<Rightarrow> bool option" where
  \<comment> \<open>whether the last action on the address in the jail was a ban\<close>
  "last_ban j ip as =
     (let xs = filter (\<lambda>a. fa_jail a = j \<and> fa_ip a = ip) as in if xs = [] then None else Some (fa_ban (last xs)))"

definition bans_seen :: "jsstr \<Rightarrow> f2b_action list \<Rightarrow> nat" where
  "bans_seen j as = length (filter (\<lambda>a. fa_jail a = j \<and> fa_ban a \<and> \<not> fa_restore a) as)"

definition jails_in :: "f2b_action list \<Rightarrow> jsstr list" where
  \<comment> \<open>in the order of their first action\<close>
  "jails_in as = foldl (\<lambda>js a. set_add (fa_jail a) js) [] as"

definition jail_reference :: "f2b_action list \<Rightarrow> jsstr \<Rightarrow> jail_status" where
  "jail_reference as j =
     (let ips = {ip \<in> fa_ip ` set as. last_ban j ip as = Some True}
      in \<lparr> jail = j, currently_banned = card ips, total_banned = bans_seen j as,
           banned_ips = sorted_list_of_set ips \<rparr>)"

definition f2b_inner :: "(jsstr, (jsstr, bool) jsmap) jsmap \<Rightarrow> jsstr \<Rightarrow> (jsstr, bool) jsmap" where
  "f2b_inner banned j = (case map_get banned j of None \<Rightarrow> [] | Some m \<Rightarrow> m)"

lemma last_ban_snoc:
  "last_ban j ip (as @ [a]) = (if fa_jail a = j \<and> fa_ip a = ip then Some (fa_ban a) else last_ban j ip as)"
  by (auto simp: last_ban_def Let_def)

lemma keys_map_set: "map fst (map_set k v m) = set_add k (map fst m)"
proof (induction m)
  case (Cons e m)
  then show ?case by (cases e) (auto simp: set_add_def image_iff)
qed (simp add: set_add_def)

lemma f2b_state:
  assumes "foldl f2b_apply ([], []) as = (banned, totals)"
  shows "map fst banned = jails_in as" "wf_map banned" "\<forall>j. wf_map (f2b_inner banned j)"
    "\<forall>j ip. map_get (f2b_inner banned j) ip = last_ban j ip as"
    "\<forall>j. (case map_get totals j of None \<Rightarrow> 0 | Some n \<Rightarrow> n) = bans_seen j as"
proof -
  have "map fst banned = jails_in as \<and> wf_map banned \<and> (\<forall>j. wf_map (f2b_inner banned j))
    \<and> (\<forall>j ip. map_get (f2b_inner banned j) ip = last_ban j ip as)
    \<and> (\<forall>j. (case map_get totals j of None \<Rightarrow> 0 | Some n \<Rightarrow> n) = bans_seen j as)"
    using assms
  proof (induction as arbitrary: banned totals rule: rev_induct)
    case Nil
    then show ?case by (simp add: jails_in_def f2b_inner_def last_ban_def bans_seen_def)
  next
    case (snoc a as)
    obtain b t where bt: "foldl f2b_apply ([], []) as = (b, t)" by (rule prod.exhaust)
    note IH = snoc.IH [OF bt]
    let ?ips = "f2b_inner b (fa_jail a)"
    have banned: "banned = map_set (fa_jail a) (map_set (fa_ip a) (fa_ban a) ?ips) b"
      and totals: "totals = (if fa_ban a \<and> \<not> fa_restore a
         then map_set (fa_jail a) ((case map_get t (fa_jail a) of None \<Rightarrow> 0 | Some n \<Rightarrow> n) + 1) t else t)"
      using snoc.prems bt by (simp_all add: f2b_apply_def f2b_inner_def Let_def)
    have inner: "f2b_inner banned j = (if j = fa_jail a then map_set (fa_ip a) (fa_ban a) ?ips else f2b_inner b j)" for j
      by (simp add: banned f2b_inner_def)
    have "map fst banned = jails_in (as @ [a])" using IH by (simp add: banned keys_map_set jails_in_def)
    moreover have "wf_map banned" using conjunct1 [OF conjunct2 [OF IH]] unfolding banned by (simp only: wf_map_set)
    moreover have "\<forall>j. wf_map (f2b_inner banned j)" using IH by (simp add: inner)
    moreover have "\<forall>j ip. map_get (f2b_inner banned j) ip = last_ban j ip (as @ [a])"
      using IH by (simp add: inner last_ban_snoc)
    moreover have "\<forall>j. (case map_get totals j of None \<Rightarrow> 0 | Some n \<Rightarrow> n) = bans_seen j (as @ [a])"
      using IH by (simp add: totals bans_seen_def)
    ultimately show ?case by blast
  qed
  then show "map fst banned = jails_in as" "wf_map banned" "\<forall>j. wf_map (f2b_inner banned j)"
    "\<forall>j ip. map_get (f2b_inner banned j) ip = last_ban j ip as"
    "\<forall>j. (case map_get totals j of None \<Rightarrow> 0 | Some n \<Rightarrow> n) = bans_seen j as" by auto
qed

lemma true_keys:
  assumes "wf_map m"
  shows "sort (map fst (filter snd m)) = sorted_list_of_set {k. map_get m k = Some True}"
    "length (filter snd m) = card {k. map_get m k = Some True}"
proof -
  have d: "distinct (map fst (filter snd m))" using assms by (auto simp: distinct_map inj_on_def)
  have keys: "{k. map_get m k = Some True} = set (map fst (filter snd m))"
    using wf_map_in [OF assms] by (force simp: image_iff)
  show "sort (map fst (filter snd m)) = sorted_list_of_set {k. map_get m k = Some True}"
    unfolding keys sorted_list_of_set_sort_remdups using d by (simp only: distinct_remdups_id)
  show "length (filter snd m) = card {k. map_get m k = Some True}"
    unfolding keys distinct_card [OF d] by simp
qed

lemma last_ban_some: "last_ban j ip as = Some b \<Longrightarrow> ip \<in> fa_ip ` set as"
  by (auto simp: last_ban_def Let_def filter_empty_conv split: if_splits)

text \<open>
  C33: the jail view is the replay of the journal: whatever the journal holds, the jails shown are those
  with an action, in order of appearance, and each lists, sorted and without duplicates, exactly the
  addresses whose last action in that jail was a ban, with their number, and counts every ban that
  was not a restore.
\<close>

theorem fail2ban_is_replay:
  "readFail2ban L (Some out) = map (jail_reference (f2b_actions L out)) (jails_in (f2b_actions L out))"
proof -
  let ?as = "f2b_actions L out"
  obtain banned totals where st: "foldl f2b_apply ([], []) ?as = (banned, totals)" by (rule prod.exhaust)
  note inv = f2b_state [OF st]
  have "f2b_status (banned, totals) = map (jail_reference ?as) (map fst banned)"
    unfolding f2b_status_def prod.case map_map
  proof (rule map_cong [OF HOL.refl], clarsimp simp del: split_paired_All)
    fix j ips assume "(j, ips) \<in> set banned"
    then have ips: "ips = f2b_inner banned j" using wf_map_in [OF inv(2)] by (simp add: f2b_inner_def)
    have "{k. map_get ips k = Some True} = {ip \<in> fa_ip ` set ?as. last_ban j ip ?as = Some True}"
      using inv(4) last_ban_some by (auto simp: ips)
    moreover have "wf_map ips" using inv(3) ips by simp
    ultimately show "\<lparr> jail = j, currently_banned = length (filter snd ips),
         total_banned = (case map_get totals j of None \<Rightarrow> 0 | Some n \<Rightarrow> n),
         banned_ips = sort (map fst (filter snd ips)) \<rparr> = jail_reference ?as j"
      using inv(5) true_keys [of ips] by (simp add: jail_reference_def Let_def)
  qed
  moreover have "readFail2ban L (Some out) = f2b_status (banned, totals)"
  proof (cases "out = []")
    case True
    then have "?as = []" by (simp add: f2b_actions_def trim_def)
    then show ?thesis using True st by (simp add: readFail2ban_def f2b_status_def)
  qed (simp add: readFail2ban_def st)
  ultimately show ?thesis using inv(1) by simp
qed

section \<open>The roster\<close>

lemma live_events_eq:
  assumes "distinct (filter (\<lambda>w. w \<noteq> []) (map wp_wg0 ps))" "wf_map ds"
  shows "live_events nf ds ps = (map (live_event nf ds) ps, filter (\<lambda>(k, _). k = [] \<or> k \<notin> wp_wg0 ` set ps) ds)"
  using assms
proof (induction ps arbitrary: ds)
  case Nil
  show ?case by (simp add: case_prod_unfold)
next
  case (Cons p ps)
  let ?ds = "if wp_wg0 p \<noteq> [] then map_del (wp_wg0 p) ds else ds"
  have "live_events nf ?ds ps = (map (live_event nf ?ds) ps, filter (\<lambda>(k, _). k = [] \<or> k \<notin> wp_wg0 ` set ps) ?ds)"
    using Cons.prems by (intro Cons.IH) (auto split: if_splits)
  moreover have "live_event nf ?ds q = live_event nf ds q" if "q \<in> set ps" for q
  proof -
    have "wp_wg0 p \<noteq> [] \<Longrightarrow> wp_wg0 q \<noteq> wp_wg0 p" using Cons.prems(1) that by (auto simp: image_iff)
    then have "map_get ?ds (wp_wg0 q) = map_get ds (wp_wg0 q)" by simp
    then show ?thesis by (simp only: live_event_def)
  qed
  moreover have "filter (\<lambda>(k, _). k = [] \<or> k \<notin> wp_wg0 ` set ps) ?ds
    = filter (\<lambda>(k, _). k = [] \<or> k \<notin> wp_wg0 ` set (p # ps)) ds"
    by (auto simp: AList.delete_eq intro!: filter_cong)
  ultimately show ?case by (simp add: Let_def)
qed

lemma wf_by_peer: "wf_map (by_peer ds)"
proof -
  have "wf_map m \<Longrightarrow> wf_map (foldl (\<lambda>m d. map_set (dp_peer d) d m) m ds)" for m
    by (induction ds arbitrary: m) auto
  then show ?thesis by (simp add: by_peer_def)
qed

lemma live_event_state:
  "ev_state (live_event nf ds p) = Some (js ''restored'') \<longleftrightarrow>
     (\<exists>a d. wp_age p = Some a \<and> a < 150 \<and> wp_wg0 p \<noteq> [] \<and> map_get ds (wp_wg0 p) = Some d \<and> dp_state d = js ''restored'')"
  "ev_state (live_event nf ds p) \<noteq> Some (js ''restored'') \<Longrightarrow>
     ev_state (live_event nf ds p) = Some (link_str (classifyLink (wp_age p)))"
  by (auto simp: live_event_def Let_def classifyLink_def link_str_def STALE_AFTER_S_def DEGRADED_AFTER_S_def
      split: option.splits if_splits)

text \<open>
  C36: the roster shows every peer once and honestly: with distinct mesh addresses the events are the
  bans, one event per live peer, and one per peer that only the self-heal journal knows; a live peer
  is shown as restored exactly when its handshake is younger than 150 seconds and the daemon says
  restored, and otherwise as its handshake age classifies it, never as a stale daemon state.
\<close>

theorem roster_complete:
  assumes "distinct (filter (\<lambda>w. w \<noteq> []) (map wp_wg0 (wg_peers wg)))"
  shows "collectLocal jails wg daemon nf = f2b_events jails @ map (live_event nf (by_peer daemon)) (wg_peers wg)
      @ concat (map (journal_event nf) (filter (\<lambda>(k, _). k = [] \<or> k \<notin> wp_wg0 ` set (wg_peers wg)) (by_peer daemon)))
    \<and> (ev_state (live_event nf (by_peer daemon) p) =
        (if \<exists>a d. wp_age p = Some a \<and> a < 150 \<and> wp_wg0 p \<noteq> [] \<and> map_get (by_peer daemon) (wp_wg0 p) = Some d
              \<and> dp_state d = js ''restored''
         then Some (js ''restored'') else Some (link_str (classifyLink (wp_age p)))))"
  using live_events_eq [OF assms wf_by_peer, of nf daemon] live_event_state [of nf "by_peer daemon" p]
  by (auto simp: collectLocal_def)

theorem roster_complete_witness:
  "ev_state (live_event (\<lambda>_. None) (by_peer
       [\<lparr> dp_peer = js ''10.42.0.2'', dp_state = js ''degraded'', dp_endpoint = [], dp_age = None \<rparr>])
       \<lparr> wp_wg0 = js ''10.42.0.2'', wp_key = [], wp_age = Some 12, wp_up = True \<rparr>) = Some (js ''ok'')
   \<and> length (collectLocal mockFail2ban (mockWg []) mockDaemon (\<lambda>_. None)) = 5"
proof -
  have d: "distinct (filter (\<lambda>w. w \<noteq> []) (map wp_wg0 (wg_peers (mockWg []))))" by (simp add: mockWg_def)
  show ?thesis
    using roster_complete [OF d, of mockFail2ban mockDaemon "\<lambda>_. None"]
      roster_complete [OF d, of mockFail2ban "[\<lparr> dp_peer = js ''10.42.0.2'', dp_state = js ''degraded'', dp_endpoint = [], dp_age = None \<rparr>]"
        "\<lambda>_. None" "\<lparr> wp_wg0 = js ''10.42.0.2'', wp_key = [], wp_age = Some 12, wp_up = True \<rparr>"]
    by (auto simp: mockWg_def mockFail2ban_def mockDaemon_def by_peer_def journal_event_def f2b_events_def js_def
        classifyLink_def link_str_def STALE_AFTER_S_def DEGRADED_AFTER_S_def Let_def)
qed

section \<open>The collector\<close>

lemma parseReport_eq_Inr:
  "parseReport b = Inr r \<longleftrightarrow>
     obj_get b (js ''node'') = Some (JStr (rep_node r)) \<and> obj_get b (js ''label'') = Some (JStr (rep_label r))
     \<and> obj_get b (js ''events'') = Some (JArr (rep_events r)) \<and> obj_get b (js ''at'') = Some (JStr (rep_at r))
     \<and> obj_get b (js ''sig'') = Some (JStr (rep_sig r)) \<and> length (rep_events r) \<le> MAX_REPORT_EVENTS
     \<and> list_all event_shape (rep_events r)"
  by (cases r) (auto simp: parseReport_def split: option.splits json.splits)

lemma verifyReport_iff: "verifyReport L r \<longleftrightarrow> verify L (reportSignable r) (rep_sig r) (rep_node r) = Inr True"
  by (auto simp: verifyReport_def split: sum.splits)

text \<open>
  C34: nobody can report as another node: a report the collector accepts has the required shape and at
  most 200 events, is signed under the key it names, which is the collector's own or a current
  friend's, is stored under the collector's name for that key, whatever it calls itself, and changes
  no other node's row.
\<close>

theorem report_attributed:
  assumes "report_route L own b body received s = (s', Inr v)"
  shows "\<exists>r l. parseReport body = Inr r \<and> verify L (reportSignable r) (rep_sig r) (rep_node r) = Inr True
    \<and> length (rep_events r) \<le> 200 \<and> list_all event_shape (rep_events r)
    \<and> (rep_node r = selfEd L b \<and> l = own \<or> (\<exists>fr. friend (rep_node r) b = Some fr \<and> l = peer_label (fr_peer fr)))
    \<and> map_get s' (rep_node r) = Some \<lparr> er_label = l, er_events = json_stringify (JArr (rep_events r)), er_at = rep_at r,
                                       er_received = received \<rparr>
    \<and> (\<forall>n. n \<noteq> rep_node r \<longrightarrow> map_get s' n = map_get s n)"
proof -
  obtain r where r: "parseReport body = Inr r" using assms by (auto simp: report_route_def split: sum.splits)
  then have v: "verifyReport L r" using assms by (auto simp: report_route_def split: if_splits)
  obtain l where l: "rep_node r = selfEd L b \<and> l = own \<or> (\<exists>fr. friend (rep_node r) b = Some fr \<and> l = peer_label (fr_peer fr))"
    "s' = event_upsert (r\<lparr> rep_label := l \<rparr>) received s"
    using assms r v by (auto simp: report_route_def Let_def split: if_splits option.splits)
  show ?thesis
    using r v l unfolding verifyReport_iff parseReport_eq_Inr MAX_REPORT_EVENTS_def
    by (intro exI [of _ r] exI [of _ l]) (simp add: event_upsert_def)
qed

lemma event_json_facts:
  "event_shape (event_json e)" "json_ok (event_json e)"
  by (auto simp: event_shape_def event_json_def is_JStr_def split: option.splits)

lemma reportSignable_ok: "json_ok (JObj (reportSignable r)) \<longleftrightarrow> list_all json_ok (rep_events r)"
  by (simp add: reportSignable_def)

lemma report_unsigned [simp]: "reportSignable (r\<lparr> rep_sig := s \<rparr>) = reportSignable r"
  by (simp add: reportSignable_def)

lemma signed_report:
  assumes "lib_ok L" "id_ok L i" "toISOString now = Inr t"
  obtains r where "signReport L i lbl (map event_json evs) now = Inr r" "verifyReport L r"
    "rep_node r = toB64 L (publicKey (ed25519 i))" "rep_events r = map event_json evs" "rep_at r = t"
proof -
  let ?r = "\<lparr> rep_node = toB64 L (publicKey (ed25519 i)), rep_label = lbl, rep_events = map event_json evs, rep_at = t, rep_sig = [] \<rparr>"
  have "json_ok (JObj (reportSignable ?r))" unfolding reportSignable_ok by (simp add: list_all_iff event_json_facts)
  then obtain s where s: "sign L (reportSignable ?r) (secretKey (ed25519 i)) = Inr s" by (rule sign_total [OF assms(1,2)])
  have "verifyReport L (?r\<lparr> rep_sig := s \<rparr>)"
    using sign_verifies [OF assms(1,2) s] unfolding verifyReport_iff report_unsigned by simp
  then show thesis using that [of "?r\<lparr> rep_sig := s \<rparr>"] assms(3) s by (simp add: signReport_def)
qed

definition demo_peer :: peer_pub where
  "demo_peer = \<lparr> peer_ed = toB64 demo_lib (publicKey (ed25519 (demo_id 1))), peer_x = [], peer_label = js ''sirius'', peer_wg0 = [] \<rparr>"

definition friendly_book :: book where
  "friendly_book = (demo_book 2)\<lparr> bk_friends :=
     [(peer_ed demo_peer, \<lparr> fr_peer = demo_peer, fr_state = AreFriends, fr_nonce = [], fr_since = [] \<rparr>)] \<rparr>"

lemma friendly_friend:
  "friend (toB64 demo_lib (publicKey (ed25519 (demo_id 1)))) friendly_book
   = Some \<lparr> fr_peer = demo_peer, fr_state = AreFriends, fr_nonce = [], fr_since = [] \<rparr>"
  "toB64 demo_lib (publicKey (ed25519 (demo_id 1))) \<noteq> selfEd demo_lib friendly_book"
  by (simp_all add: friend_def friendly_book_def demo_peer_def selfEd_def)

lemma demo_report:
  obtains r s' where "report_route demo_lib [] friendly_book (report_json r) [] [] = (s', Inr (JObj [(js ''ok'', JBool True)]))"
    "map_has s' (toB64 demo_lib (publicKey (ed25519 (demo_id 1))))"
proof -
  obtain r where r: "signReport demo_lib (demo_id 1) [] (map event_json []) 0 = Inr r" "verifyReport demo_lib r"
    "rep_node r = toB64 demo_lib (publicKey (ed25519 (demo_id 1)))" "rep_events r = map event_json []" "rep_at r = iso_str 0"
    by (rule signed_report [OF demo_lib_ok demo_id_ok demo_iso_now])
  have "parseReport (report_json r) = Inr r"
    unfolding parseReport_eq_Inr by (simp add: report_json_def r(4))
  then have "report_route demo_lib [] friendly_book (report_json r) [] []
    = (event_upsert (r\<lparr> rep_label := js ''sirius'' \<rparr>) [] [], Inr (JObj [(js ''ok'', JBool True)]))"
    using r(2) friendly_friend by (simp add: report_route_def r(3)) (simp add: demo_peer_def)
  then show thesis using that by (simp add: event_upsert_def r(3))
qed

theorem report_attributed_witness:
  "\<exists>r s' l row. report_route demo_lib [] friendly_book (report_json r) [] [] = (s', Inr (JObj [(js ''ok'', JBool True)]))
     \<and> map_get s' (rep_node r) = Some row \<and> er_label row = l"
proof (rule demo_report)
  fix r s'
  assume run: "report_route demo_lib [] friendly_book (report_json r) [] [] = (s', Inr (JObj [(js ''ok'', JBool True)]))"
  from report_attributed [OF this] obtain r' l where
    "parseReport (report_json r) = Inr r'" "map_get s' (rep_node r') = Some \<lparr> er_label = l, er_events = json_stringify (JArr (rep_events r')),
      er_at = rep_at r', er_received = [] \<rparr>" by blast
  moreover from this(1) have "rep_node r' = rep_node r" unfolding parseReport_eq_Inr by (simp add: report_json_def)
  ultimately show ?thesis using run by auto
qed

text \<open>
  C35: a friend's report reaches the feed: what a friend of the collector signs and sends (with at most
  200 events, under a friendship with a label) is accepted, and the stored row parses back to the
  very events that were sent.
\<close>

theorem report_delivered:
  assumes "lib_ok L" "id_ok L i" "toISOString now = Inr t" "length evs \<le> 200"
    and "friend (toB64 L (publicKey (ed25519 i))) b = Some fr" "peer_label (fr_peer fr) \<noteq> []"
    and "toB64 L (publicKey (ed25519 i)) \<noteq> selfEd L b"
  shows "\<exists>r s' row. signReport L i lbl (map event_json evs) now = Inr r
    \<and> report_route L own b (report_json r) received s = (s', Inr (JObj [(js ''ok'', JBool True)]))
    \<and> map_get s' (toB64 L (publicKey (ed25519 i))) = Some row \<and> er_label row = peer_label (fr_peer fr) \<and> er_at row = t
    \<and> json_parse (number_of_token L) (er_events row) = Some (JArr (map event_json evs))"
proof -
  obtain r where r: "signReport L i lbl (map event_json evs) now = Inr r" "verifyReport L r"
    "rep_node r = toB64 L (publicKey (ed25519 i))" "rep_events r = map event_json evs" "rep_at r = t"
    by (rule signed_report [OF assms(1-3)])
  have parse: "parseReport (report_json r) = Inr r"
    unfolding parseReport_eq_Inr using assms(4)
    by (simp add: report_json_def r(4) list_all_iff event_json_facts MAX_REPORT_EVENTS_def)
  let ?s' = "event_upsert (r\<lparr> rep_label := peer_label (fr_peer fr) \<rparr>) received s"
  have "report_route L own b (report_json r) received s = (?s', Inr (JObj [(js ''ok'', JBool True)]))"
    using assms(5-7) parse r(2) by (simp add: report_route_def r(3))
  moreover have "json_ok (JArr (map event_json evs))" by (simp add: list_all_iff event_json_facts)
  then have "json_parse (number_of_token L) (json_stringify (JArr (map event_json evs))) = Some (JArr (map event_json evs))"
    unfolding json_stringify_def by (rule json_parse_print [OF quote_json_ok])
  ultimately show ?thesis using r by (intro exI [of _ r] exI [of _ ?s']) (simp add: event_upsert_def)
qed

theorem report_delivered_witness:
  "\<exists>r s' row. report_route demo_lib [] friendly_book (report_json r) [] [] = (s', Inr (JObj [(js ''ok'', JBool True)]))
     \<and> map_get s' (peer_ed demo_peer) = Some row \<and> er_label row = js ''sirius''"
  using report_delivered [OF demo_lib_ok demo_id_ok demo_iso_now _ friendly_friend(1) _ friendly_friend(2), of "[]" "[]" "[]" "[]" "[]"]
  by (auto simp: demo_peer_def)

section \<open>Replayed reports\<close>

text \<open>
  The store keeps the report that arrived last, not the latest one: a report that was accepted before
  can be sent again by anyone who saw it, and replaces a newer one.
\<close>

theorem old_report_wins:
  "report_route L own b body rec2 (fst (report_route L own b newer rec1 s))
   = (s2, Inr v) \<Longrightarrow> parseReport body = Inr r \<Longrightarrow> \<exists>row. map_get s2 (rep_node r) = Some row \<and> er_at row = rep_at r"
  by (auto simp: report_route_def Let_def event_upsert_def split: sum.splits if_splits option.splits)

end
