(* ===== verification/Daemon.thy ===== *)
theory Daemon
  imports Gate Canary FriendCode Registry Share Events Auth RateLimit
begin

text \<open>
  main.ts, the part every request shares: the context of the daemon split into what never changes
  (\<open>ctx\<close>) and the state (\<open>node\<close>), handlers as state transformers that end in a response or an
  exception, the guards of the operator and admin surfaces, the reading of bodies, persistence,
  delivery to peers and the mapping of exceptions to status codes.

  A handler that awaits lets other requests run. \<open>io_others\<close> is what they did to the node at each
  await on the body, the disk, the network, the model or the firewall helper; the awaits on the
  crypto seam resolve at once and are not cut.
\<close>

section \<open>Handlers\<close>

type_synonym ('s, 'a) act = "'s \<Rightarrow> 's \<times> 'a res"

definition andthen :: "('s, 'a) act \<Rightarrow> ('a \<Rightarrow> ('s, 'b) act) \<Rightarrow> ('s, 'b) act" where
  "andthen m f s = (case m s of (s', Inl e) \<Rightarrow> (s', Inl e) | (s', Inr x) \<Rightarrow> f x s')"

definition done_with :: "'a \<Rightarrow> ('s, 'a) act" where
  "done_with x s = (s, Inr x)"

definition lift_res :: "'a res \<Rightarrow> ('s, 'a) act" where
  "lift_res r s = (s, r)"

definition asks :: "('s \<Rightarrow> 'a) \<Rightarrow> ('s, 'a) act" where
  "asks f s = (s, Inr (f s))"

lemma andthen_eq_Inr: "andthen m f s = (t, Inr y) \<longleftrightarrow> (\<exists>u x. m s = (u, Inr x) \<and> f x u = (t, Inr y))"
  by (auto simp: andthen_def split: prod.splits sum.splits)

lemma act_simps [simp]:
  "andthen (done_with x) f = f x" "andthen (lift_res (Inr x)) f = f x" "andthen (asks g) f = (\<lambda>s. f (g s) s)"
  "done_with x s = (s, Inr x)" "lift_res r s = (s, r)" "asks g s = (s, Inr (g s))"
  by (auto simp: andthen_def fun_eq_iff done_with_def lift_res_def asks_def)

section \<open>The context\<close>

record admin_app =
  aa_identity :: identity
  aa_target :: jsstr
  aa_targetX25519 :: jsstr
  aa_targetToken :: jsstr
  aa_targetLabel :: jsstr

record ctx =
  cx_mock :: bool
  cx_identity :: identity
  cx_label :: jsstr
  cx_wg0 :: jsstr
  cx_wgIface :: jsstr
  cx_peerPort :: nat
  cx_gate :: gate_config
  cx_gateStatusUrl :: jsstr
  cx_gateStatusLabel :: jsstr
  cx_adminApp :: "admin_app option"
  cx_registryUrl :: jsstr
  cx_eventsUrl :: jsstr
  cx_adminVerify :: verify_key_for
  cx_canaryKeyword :: jsstr
  cx_canaryFreshnessS :: int
  cx_mockAdmin :: "identity option"
  cx_adminToken :: jsstr
  cx_dataDir :: jsstr
  cx_opToken :: jsstr

record node =
  nd_book :: book
  nd_share :: any_share
  nd_msgs :: message_book
  nd_gate :: gate
  nd_registry :: "registry_store option"
  nd_events :: "event_store option"
  nd_limiter :: limiter
  nd_files :: files \<comment> \<open>the data directory\<close>

definition ctx_selfEd :: "lib \<Rightarrow> ctx \<Rightarrow> jsstr" where
  "ctx_selfEd L c = toB64 L (publicKey (ed25519 (cx_identity c)))"

definition FIRSTRUN_MARKER :: string where
  "FIRSTRUN_MARKER = ''admin.token.fresh''"

text \<open>A request as the server hands it over, and the outside world while it is served.\<close>

record call =
  cl_ip :: "jsstr option" \<comment> \<open>\<open>server.requestIP(req)?.address\<close>\<close>
  cl_opToken :: jsstr \<comment> \<open>the header \<open>x-op-token\<close>, empty when absent\<close>
  cl_adminToken :: jsstr
  cl_method :: http_method
  cl_path :: jsstr
  cl_peer :: "jsstr option" \<comment> \<open>the query parameter \<open>peer\<close>\<close>
  cl_length :: "int option" \<comment> \<open>\<open>Number(content-length)\<close>; \<open>None\<close> when absent or NaN\<close>
  cl_text :: "jsstr res" \<comment> \<open>what \<open>req.text()\<close> gives\<close>
  cl_form :: "(jsstr \<times> jsstr \<times> bytes) option res" \<comment> \<open>the multipart field \<open>file\<close>: name, type, content\<close>

record outside =
  io_now :: "nat \<Rightarrow> int" \<comment> \<open>the successive readings of the clock\<close>
  io_rand :: "nat \<Rightarrow> bytes" \<comment> \<open>the successive draws of randomness\<close>
  io_uuid :: jsstr
  io_net :: network
  io_disk :: nat \<comment> \<open>how many file operations of \<open>persist\<close> succeed before one fails\<close>
  io_unlink :: bool \<comment> \<open>does \<open>unlink\<close> succeed\<close>
  io_decide :: "jsstr \<Rightarrow> decision" \<comment> \<open>\<open>llama.decide\<close>\<close>
  io_exec :: "verb \<Rightarrow> unit res" \<comment> \<open>the firewall helper\<close>
  io_wg :: "jsstr option" \<comment> \<open>output of \<open>wg show\<close>\<close>
  io_journal :: "jsstr option" \<comment> \<open>output of \<open>journalctl\<close> for fail2ban\<close>
  io_selfheal :: "jsstr option" \<comment> \<open>and for wg-selfheal\<close>
  io_others :: "nat \<Rightarrow> node \<Rightarrow> node" \<comment> \<open>what other requests do at the n-th await\<close>

definition quiet :: "outside \<Rightarrow> bool" where
  \<comment> \<open>no other request is in flight\<close>
  "quiet o' \<longleftrightarrow> (\<forall>k n. io_others o' k n = n)"

definition await :: "outside \<Rightarrow> nat \<Rightarrow> (node, unit) act" where
  "await o' k n = (io_others o' k n, Inr ())"

definition on_book :: "(book \<Rightarrow> book \<times> 'a res) \<Rightarrow> (node, 'a) act" where
  "on_book f n = (case f (nd_book n) of (b, r) \<Rightarrow> (n\<lparr> nd_book := b \<rparr>, r))"

definition on_msgs :: "(message_book \<Rightarrow> message_book \<times> 'a res) \<Rightarrow> (node, 'a) act" where
  "on_msgs f n = (case f (nd_msgs n) of (m, r) \<Rightarrow> (n\<lparr> nd_msgs := m \<rparr>, r))"

definition on_gate :: "(gate \<Rightarrow> gate \<times> 'a res) \<Rightarrow> (node, 'a) act" where
  "on_gate f n = (case f (nd_gate n) of (g, r) \<Rightarrow> (n\<lparr> nd_gate := g \<rparr>, r))"

section \<open>Who is asking\<close>

definition isOperator :: "(bytes \<Rightarrow> bytes) \<Rightarrow> ctx \<Rightarrow> call \<Rightarrow> bool" where
  "isOperator sha c q =
     manageOk sha (case cl_ip q of None \<Rightarrow> [] | Some ip \<Rightarrow> ip) (cl_opToken q) (cl_adminToken q)
       \<lparr> cfg_mock = cx_mock c, cfg_opToken = cx_opToken c, cfg_adminToken = cx_adminToken c \<rparr>"

definition authorizeShare :: "lib \<Rightarrow> (bytes \<Rightarrow> bytes) \<Rightarrow> ctx \<Rightarrow> call \<Rightarrow> (node, jsstr) act" where
  "authorizeShare L sha c q n =
     (if isOperator sha c q then (n, Inr (ctx_selfEd L c))
      else
        let ip = (case cl_ip q of None \<Rightarrow> [] | Some ip \<Rightarrow> ip)
        in case friendByWg0 ip (nd_book n) of
             None \<Rightarrow> (n, errs Forbidden ''not a friend: '' ip)
           | Some fr \<Rightarrow> (n, Inr (peer_ed (fr_peer fr))))"

definition limiter_key :: "call \<Rightarrow> jsstr" where
  \<comment> \<open>\<open>server.requestIP(req)?.address ?? "?"\<close>\<close>
  "limiter_key q = (case cl_ip q of None \<Rightarrow> js ''?'' | Some ip \<Rightarrow> ip)"

definition too_many :: "'a res" where
  "too_many = Inl (Err RateLimited (js ''too many attempts '' @ 0x2014 # js '' try again later''))"

definition requireOperator :: "(bytes \<Rightarrow> bytes) \<Rightarrow> ctx \<Rightarrow> call \<Rightarrow> outside \<Rightarrow> (node, unit) act" where
  "requireOperator sha c q o' n =
     (case locked (io_now o' 0) (limiter_key q) (nd_limiter n) of (l, isLocked) \<Rightarrow>
        if isLocked then (n\<lparr> nd_limiter := l \<rparr>, too_many)
        else if isOperator sha c q then (n\<lparr> nd_limiter := reset (limiter_key q) l \<rparr>, Inr ())
        else (n\<lparr> nd_limiter := fail (io_now o' 1) (io_now o' 2) (limiter_key q) l \<rparr>,
              throw Forbidden ''operator-only endpoint''))"

definition requireAdmin :: "(bytes \<Rightarrow> bytes) \<Rightarrow> ctx \<Rightarrow> call \<Rightarrow> outside \<Rightarrow> (node, unit) act" where
  "requireAdmin sha c q o' n =
     (if cx_mock c then (n, Inr ())
      else if cx_adminToken c = [] then (n, throw Forbidden ''admin token not configured'')
      else case locked (io_now o' 0) (limiter_key q) (nd_limiter n) of (l, isLocked) \<Rightarrow>
        if isLocked then (n\<lparr> nd_limiter := l \<rparr>, too_many)
        else if \<not> tokenOk sha (cl_adminToken q) (cx_adminToken c)
        then (n\<lparr> nd_limiter := fail (io_now o' 1) (io_now o' 2) (limiter_key q) l \<rparr>, throw Forbidden ''bad admin token'')
        else (n\<lparr> nd_limiter := reset (limiter_key q) l \<rparr>, Inr ()))"

section \<open>Bodies\<close>

definition MAX_UPLOAD :: nat where
  "MAX_UPLOAD = 25 * 1024 * 1024"

definition MAX_JSON_BODY :: nat where
  "MAX_JSON_BODY = 64 * 1024"

definition json_body :: "lib \<Rightarrow> jsstr \<Rightarrow> payload res" where
  \<comment> \<open>the text read: its length, the parse and the shape check\<close>
  "json_body L text =
     (if length text > MAX_JSON_BODY then throw PayloadTooLarge ''body too large''
      else case json_parse (number_of_token L) text of
        Some (JObj kvs) \<Rightarrow> Inr kvs
      | _ \<Rightarrow> throw FriendError ''invalid JSON body'')"

definition readJson :: "lib \<Rightarrow> call \<Rightarrow> outside \<Rightarrow> (node, payload) act" where
  "readJson L q o' =
     (if (case cl_length q of None \<Rightarrow> False | Some k \<Rightarrow> k > int MAX_JSON_BODY)
      then lift_res (throw PayloadTooLarge ''body too large'')
      else andthen (await o' 0) (\<lambda>_. lift_res (rbind (cl_text q) (json_body L))))"

section \<open>Persistence\<close>

definition saved_files :: "ctx \<Rightarrow> node \<Rightarrow> (jsstr \<times> jsstr) list" where
  "saved_files c n =
     [(path_join (cx_dataDir c) ''friends.json'', json_stringify (book_toJSON (nd_book n))),
      (path_join (cx_dataDir c) ''messages.json'', json_stringify (messages_toJSON (nd_msgs n))),
      (path_join (cx_dataDir c) ''gate.json'', persist_gate (nd_gate n))]"

definition persist :: "ctx \<Rightarrow> outside \<Rightarrow> (node, unit) act" where
  \<comment> \<open>the first operation is \<open>mkdir\<close>; nobody else writes between the three files\<close>
  "persist c o' n =
     (if cx_mock c then (n, Inr ())
      else
        let written = take (io_disk o' - 1) (saved_files c n);
            n1 = n\<lparr> nd_files := foldl (\<lambda>fs (p, t). map_set p t fs) (nd_files n) written \<rparr>;
            n2 = io_others o' 1 n1
        in (n2, if io_disk o' < 4 then throw JsError ''EIO'' else Inr ()))"

section \<open>Reaching peers\<close>

definition is_hostport :: "jsstr \<Rightarrow> bool" where
  \<comment> \<open>\<open>/^\d{1,3}(?:\.\d{1,3}){3}:\d+$/\<close>\<close>
  "is_hostport s =
     (case splitOn 0x3a s of
        [h, p] \<Rightarrow> p \<noteq> [] \<and> list_all is_digit p \<and> length (splitOn 0x2e h) = 4
          \<and> list_all (\<lambda>d. 1 \<le> length d \<and> length d \<le> 3 \<and> list_all is_digit d) (splitOn 0x2e h)
      | _ \<Rightarrow> False)"

definition peerUrl :: "jsstr \<Rightarrow> nat \<Rightarrow> jsstr \<Rightarrow> jsstr" where
  "peerUrl wg0 defaultPort path =
     js ''http://'' @ (if is_hostport wg0 then wg0 else wg0 @ 0x3a # radix_str 10 defaultPort) @ path"

definition deliver :: "ctx \<Rightarrow> outside \<Rightarrow> jsstr \<Rightarrow> string \<Rightarrow> json \<Rightarrow> (node, bool) act" where
  "deliver c o' wg0 path body n =
     (io_others o' 2 n,
      Inr (case fetch (io_net o') (http_post (peerUrl wg0 (cx_peerPort c) (js path)) body) of
             Inl _ \<Rightarrow> False | Inr r \<Rightarrow> http_ok r))"

section \<open>The status of an exception\<close>

fun class_status :: "err_class \<Rightarrow> nat" where
  "class_status PayloadTooLarge = 413"
| "class_status ShareQuotaExceeded = 507"
| "class_status RateLimited = 429"
| "class_status FileNotFound = 404"
| "class_status Forbidden = 403"
| "class_status VerificationError = 403"
| "class_status CanaryError = 403"
| "class_status RegistryError = 400"
| "class_status EventError = 400"
| "class_status FriendError = 400"
| "class_status JsError = 500"

definition errorStatus :: "err \<Rightarrow> nat" where
  "errorStatus e = class_status (err_class_of e)"

definition answer :: "http_response res \<Rightarrow> http_response" where
  \<comment> \<open>the \<open>try\<close> and \<open>catch\<close> of the server's \<open>fetch\<close>\<close>
  "answer r =
     (case r of
        Inr rs \<Rightarrow> rs
      | Inl e \<Rightarrow> json_response (errorStatus e) (JObj [(js ''error'', JStr (err_message e))]))"

section \<open>The gate, as the handlers call it\<close>

definition gate_open :: "ctx \<Rightarrow> outside \<Rightarrow> canary \<Rightarrow> (node, open_result) act" where
  "gate_open c o' cn =
     (let now = io_now o' 4; d = io_decide o' (text_of cn)
      in andthen (on_gate (gate_begin (cx_gate c) cn now)) (\<lambda>_.
         andthen (await o' 3) (\<lambda>_.
           if \<not> approve d then on_gate (gate_deny cn now (reason_of d))
           else
             andthen (await o' 4) (\<lambda>_.
             andthen (on_gate (\<lambda>g. (job_start (JOpen cn now (reason_of d)) g, Inr ()))) (\<lambda>_.
             andthen (await o' 5) (\<lambda>_.
               case io_exec o' VOpen of
                 Inl e \<Rightarrow> on_gate (\<lambda>g. (open_fail (io_now o' 5) g, Inl e))
               | Inr _ \<Rightarrow> on_gate (open_ok (cx_gate c) (io_now o' 5) cn now (reason_of d))))))))"

definition gate_close :: "outside \<Rightarrow> jsstr \<Rightarrow> (node, gate_state) act" where
  "gate_close o' reason =
     (let now = io_now o' 4
      in andthen (await o' 4) (\<lambda>_.
         andthen (await o' 5) (\<lambda>_.
           case io_exec o' VClose of
             Inl e \<Rightarrow> on_gate (\<lambda>g. (close_fail (io_now o' 5) reason g, Inl e))
           | Inr _ \<Rightarrow> on_gate (close_ok reason now))))"

definition mode_str :: "mode \<Rightarrow> jsstr" where
  "mode_str m = (case m of Island \<Rightarrow> js ''island'' | Internet \<Rightarrow> js ''internet'')"

definition opt_str :: "jsstr option \<Rightarrow> json" where
  \<comment> \<open>\<open>string | null\<close>\<close>
  "opt_str s = (case s of None \<Rightarrow> JNull | Some t \<Rightarrow> JStr t)"

record gate_view =
  gv_state :: json
  gv_closesAt :: json
  gv_target :: "jsstr option"
  gv_targetLabel :: "jsstr option"
  gv_reachable :: bool

definition view_of_json :: "jsstr \<Rightarrow> jsstr option \<Rightarrow> json \<Rightarrow> gate_view res" where
  "view_of_json source lbl j =
     rbind (field j (js ''state'')) (\<lambda>st.
     rbind (field j (js ''closes_at'')) (\<lambda>ca.
       Inr \<lparr> gv_state = the (nullish st (Some (JStr (js ''unknown'')))), gv_closesAt = the (nullish ca (Some JNull)),
             gv_target = Some source, gv_targetLabel = lbl, gv_reachable = True \<rparr>))"

definition gate_source :: "ctx \<Rightarrow> jsstr \<times> jsstr" where
  \<comment> \<open>\<open>source\<close> and the label before \<open>|| null\<close>\<close>
  "gate_source c =
     (case cx_adminApp c of
        Some aa \<Rightarrow> if aa_target aa \<noteq> [] then (aa_target aa, aa_targetLabel aa)
                   else (cx_gateStatusUrl c, cx_gateStatusLabel c)
      | None \<Rightarrow> (cx_gateStatusUrl c, cx_gateStatusLabel c))"

definition gateView :: "lib \<Rightarrow> ctx \<Rightarrow> outside \<Rightarrow> (node, gate_view) act" where
  "gateView L c o' =
     (case gate_source c of (source, lbl) \<Rightarrow>
        let lbl' = (if lbl = [] then None else Some lbl)
        in if source = [] then asks (\<lambda>n.
             \<lparr> gv_state = JStr (mode_str (mode_of (gstate (nd_gate n)))), gv_closesAt = opt_str (closesAt (gstate (nd_gate n))),
               gv_target = None, gv_targetLabel = None, gv_reachable = True \<rparr>)
           else andthen (await o' 6) (\<lambda>_. done_with
             (case rbind (fetch (io_net o') (http_get (source @ js ''/api/gate''))) (\<lambda>r.
                   rbind (response_json L r) (view_of_json source lbl')) of
                Inr v \<Rightarrow> v
              | Inl _ \<Rightarrow> \<lparr> gv_state = JStr (js ''island''), gv_closesAt = JNull, gv_target = Some source,
                           gv_targetLabel = lbl', gv_reachable = False \<rparr>)))"

end
