(* ===== verification/Routes.thy ===== *)
theory Routes
  imports Daemon
begin

text \<open>
  main.ts, \<open>route\<close>: one definition per handler, grouped by the sections of the source, and the
  dispatcher that tries the sections in the source's order. A section is \<open>None\<close> on a request that
  falls through it.
\<close>

type_synonym handler = "(node, http_response) act"

definition ok_json :: "(jsstr \<times> json) list \<Rightarrow> handler" where
  \<comment> \<open>\<open>Response.json({...})\<close>\<close>
  "ok_json kvs = done_with (json_response 200 (JObj kvs))"

definition not_found :: "jsstr \<Rightarrow> handler" where
  "not_found msg = done_with (text_response 404 msg)"

definition is_route :: "call \<Rightarrow> http_method \<Rightarrow> string \<Rightarrow> bool" where
  "is_route q m p \<longleftrightarrow> cl_method q = m \<and> cl_path q = js p"

definition path_rest :: "call \<Rightarrow> string \<Rightarrow> jsstr option" where
  \<comment> \<open>\<open>path.match(/^prefix(.+)$/)\<close>: a path of a URL has no line break\<close>
  "path_rest q p =
     (if startsWith (cl_path q) (js p) \<and> drop (length p) (cl_path q) \<noteq> [] then Some (drop (length p) (cl_path q)) else None)"

definition str_field :: "payload \<Rightarrow> string \<Rightarrow> jsstr res" where
  \<comment> \<open>\<open>String(body.k)\<close>\<close>
  "str_field body k = js_string_opt (map_get body (js k))"

section \<open>Health and home\<close>

definition VERSION :: string where
  "VERSION = ''0.0.7''"

definition health :: "ctx \<Rightarrow> handler" where
  "health c = andthen (asks nd_events) (\<lambda>ev.
     ok_json [(js ''ok'', JBool True), (js ''service'', JStr (js ''islandd'')), (js ''version'', JStr (js VERSION)),
              (js ''mock'', JBool (cx_mock c)), (js ''events'', JBool (ev \<noteq> None))])"

definition view_json :: "gate_view \<Rightarrow> json" where
  "view_json v = JObj [(js ''state'', gv_state v), (js ''closes_at'', gv_closesAt v), (js ''target'', opt_str (gv_target v)),
     (js ''target_label'', opt_str (gv_targetLabel v)), (js ''reachable'', JBool (gv_reachable v))]"

definition jail_json :: "jail_status \<Rightarrow> json" where
  "jail_json j = JObj [(js ''jail'', JStr (jail j)), (js ''currently_banned'', JNum (int (currently_banned j))),
     (js ''total_banned'', JNum (int (total_banned j))), (js ''banned_ips'', JArr (map JStr (banned_ips j)))]"

definition daemon_json :: "daemon_peer \<Rightarrow> json" where
  "daemon_json d = JObj ([(js ''peer'', JStr (dp_peer d)), (js ''state'', JStr (dp_state d)), (js ''endpoint'', JStr (dp_endpoint d))]
     @ (case dp_age d of None \<Rightarrow> [] | Some a \<Rightarrow> [(js ''handshakeAge'', JStr a)]))"

definition wg_peer_json :: "book \<Rightarrow> wg_peer \<Rightarrow> json" where
  "wg_peer_json b p = JObj
     [(js ''label'', opt_str (map_option (\<lambda>fr. peer_label (fr_peer fr)) (friendByWg0 (wp_wg0 p) b))),
      (js ''wg0'', JStr (wp_wg0 p)), (js ''handshake_age_s'', (case wp_age p of None \<Rightarrow> JNull | Some a \<Rightarrow> JNum a)),
      (js ''up'', JBool (wp_up p))]"

definition request_json :: "peer_pub \<times> jsstr \<Rightarrow> json" where
  "request_json = (\<lambda>(p, received). JObj [(js ''from_label'', JStr (peer_label p)), (js ''from_pubkey'', JStr (peer_ed p)),
     (js ''received'', JStr received)])"

definition readouts :: "lib \<Rightarrow> (jsstr \<Rightarrow> js_number) \<Rightarrow> ctx \<Rightarrow> outside \<Rightarrow> (wg_status \<times> jail_status list \<times> daemon_peer list) res" where
  "readouts L num c o' =
     (if cx_mock c then Inr (mockWg (cx_wgIface c), mockFail2ban, mockDaemon)
      else rmap (\<lambda>d. (readWg num (cx_wgIface c) (io_wg o') (io_now o' 3), readFail2ban L (io_journal o'), d))
             (readDaemon L (io_selfheal o')))"

definition home :: "lib \<Rightarrow> (jsstr \<Rightarrow> js_number) \<Rightarrow> (bytes \<Rightarrow> bytes) \<Rightarrow> ctx \<Rightarrow> call \<Rightarrow> outside \<Rightarrow> handler" where
  "home L num sha c q o' =
     andthen (requireOperator sha c q o') (\<lambda>_.
     andthen (await o' 0) (\<lambda>_.
     andthen (lift_res (readouts L num c o')) (\<lambda>(wg, fail2ban, selfheal).
     andthen (gateView L c o') (\<lambda>gv.
     andthen (asks nd_book) (\<lambda>b.
       ok_json
         [(js ''gate'', view_json gv),
          (js ''wg'', JObj [(js ''iface'', JStr (wg_iface wg)), (js ''peers'', JArr (map (wg_peer_json b) (wg_peers wg)))]),
          (js ''fail2ban'', JArr (map jail_json fail2ban)),
          (js ''selfheal'', JArr (map daemon_json selfheal)),
          (js ''requests'', JArr (map request_json (listPending b)))])))))"

definition gate_status :: "lib \<Rightarrow> ctx \<Rightarrow> outside \<Rightarrow> handler" where
  "gate_status L c o' = andthen (gateView L c o') (\<lambda>gv. done_with (json_response 200 (view_json gv)))"

section \<open>Registry and events\<close>

definition on_registry :: "(registry_store \<Rightarrow> registry_store \<times> 'a res) \<Rightarrow> (node, 'a) act" where
  \<comment> \<open>\<open>ctx.registry\<close> is not \<open>null\<close> where the dispatcher gets here\<close>
  "on_registry f n =
     (case nd_registry n of
        None \<Rightarrow> (n, throw JsError ''no registry'')
      | Some s \<Rightarrow> (case f s of (s', r) \<Rightarrow> (n\<lparr> nd_registry := Some s' \<rparr>, r)))"

definition on_events :: "(book \<Rightarrow> event_store \<Rightarrow> event_store \<times> 'a res) \<Rightarrow> (node, 'a) act" where
  "on_events f n =
     (case nd_events n of
        None \<Rightarrow> (n, throw JsError ''no collector'')
      | Some s \<Rightarrow> (case f (nd_book n) s of (s', r) \<Rightarrow> (n\<lparr> nd_events := Some s' \<rparr>, r)))"

definition registry_announce :: "lib \<Rightarrow> call \<Rightarrow> outside \<Rightarrow> handler" where
  "registry_announce L q o' =
     andthen (readJson L q o') (\<lambda>body.
     andthen (on_registry (announce_route L body (io_now o' 3))) (\<lambda>v. done_with (json_response 200 v)))"

definition registry_resolve :: "lib \<Rightarrow> jsstr \<Rightarrow> handler" where
  "registry_resolve L seg = on_registry (\<lambda>s. (s, resolve_route L s seg))"

definition events_report :: "lib \<Rightarrow> ctx \<Rightarrow> call \<Rightarrow> outside \<Rightarrow> handler" where
  "events_report L c q o' =
     andthen (readJson L q o') (\<lambda>body.
     andthen (on_events (\<lambda>b. report_route L (cx_label c) b (JObj body) (nowIso (io_now o' 3)))) (\<lambda>v.
       done_with (json_response 200 v)))"

definition node_events_json :: "node_events \<Rightarrow> json" where
  "node_events_json e = JObj [(js ''node'', JStr (ne_node e)), (js ''label'', JStr (ne_label e)), (js ''events'', ne_events e),
     (js ''at'', JStr (ne_at e)), (js ''received'', JStr (ne_received e))]"

definition admin_events :: "lib \<Rightarrow> (bytes \<Rightarrow> bytes) \<Rightarrow> ctx \<Rightarrow> call \<Rightarrow> outside \<Rightarrow> handler" where
  "admin_events L sha c q o' =
     andthen (requireAdmin sha c q o') (\<lambda>_.
     andthen (on_events (\<lambda>_ s. (s, event_list L s))) (\<lambda>es.
       ok_json [(js ''nodes'', JArr (map node_events_json es))]))"

section \<open>Friends of the node, for operator and admin\<close>

definition friends_view :: handler where
  "friends_view = andthen (asks nd_book) (\<lambda>b.
     ok_json [(js ''friends'', JArr (map record_json (listFriends b))),
              (js ''pending'', JArr (map (\<lambda>(p, r). JObj [(js ''peer'', peerPubJson p), (js ''received'', JStr r)]) (listPending b))),
              (js ''offered'', JNum (int (length (listOffered b))))])"

definition revoke_json :: "friend_revoke \<Rightarrow> json" where
  "revoke_json r = JObj [(js ''v'', JNum (rev_v r)), (js ''from'', JStr (rev_from r)), (js ''target'', JStr (rev_target r)),
     (js ''nonce'', JStr (rev_nonce r)), (js ''at'', JStr (rev_at r)), (js ''sig'', JStr (rev_sig r))]"

definition delete_friend :: "lib \<Rightarrow> ctx \<Rightarrow> outside \<Rightarrow> jsstr \<Rightarrow> handler" where
  \<comment> \<open>both delete routes, after their guard\<close>
  "delete_friend L c o' seg =
     andthen (lift_res (decodeURIComponent seg)) (\<lambda>peer.
     andthen (on_book (issueRevoke L (io_rand o' 0) peer (io_now o' 3))) (\<lambda>r.
       case r of
         None \<Rightarrow> not_found (js ''no such friend'')
       | Some (notice, wg0) \<Rightarrow>
           andthen (persist c o') (\<lambda>_.
           andthen (if wg0 \<noteq> [] then deliver c o' wg0 ''/api/friends/revoke-inbound'' (JObj [(js ''notice'', revoke_json notice)])
                    else done_with False) (\<lambda>delivered.
             ok_json [(js ''ok'', JBool True), (js ''peer_notified'', JBool delivered)]))))"

section \<open>The first-run reveal\<close>

definition firstrun :: "ctx \<Rightarrow> outside \<Rightarrow> handler" where
  "firstrun c o' n =
     (let marker = path_join (cx_dataDir c) FIRSTRUN_MARKER
      in if cx_adminToken c = [] \<or> cx_mock c \<or> \<not> map_has (nd_files n) marker
         then ok_json [(js ''token'', JNull)] n
         else
           let n1 = (if io_unlink o' then n\<lparr> nd_files := map_del marker (nd_files n) \<rparr> else n)
           in ok_json [(js ''token'', JStr (cx_adminToken c))] (io_others o' 0 n1))"

section \<open>The canary gate\<close>

definition gate_json :: "gate_state \<Rightarrow> json" where
  "gate_json g = JObj [(js ''state'', JStr (mode_str (mode_of g))), (js ''closes_at'', opt_str (closesAt g))]"

definition admin_canary :: "lib \<Rightarrow> (bytes \<Rightarrow> bytes) \<Rightarrow> ctx \<Rightarrow> call \<Rightarrow> outside \<Rightarrow> handler" where
  "admin_canary L sha c q o' =
     andthen (requireAdmin sha c q o') (\<lambda>_.
     andthen (readJson L q o') (\<lambda>body.
     andthen (lift_res (rbind (str_field body ''blob'') (\<lambda>blob.
        verifyCanary L (cx_identity c) blob (cx_adminVerify c) (cx_canaryKeyword c) (cx_canaryFreshnessS c) (io_now o' 3)))) (\<lambda>cn.
     andthen (gate_open c o' cn) (\<lambda>result.
     andthen (persist c o') (\<lambda>_.
       ok_json [(js ''opened'', JBool (opened result)), (js ''reason'', JStr (res_reason result)),
                (js ''gate'', gate_json (res_state result))])))))"

definition log_json :: "log_entry \<Rightarrow> json" where
  "log_json e = JObj ([(js ''at'', JStr (log_at e)),
       (js ''action'', JStr (case log_action e of LogOpen \<Rightarrow> js ''open'' | LogClose \<Rightarrow> js ''close'' | LogDeny \<Rightarrow> js ''deny''))]
     @ (case log_admin e of None \<Rightarrow> [] | Some a \<Rightarrow> [(js ''admin'', JStr a)]) @ [(js ''reason'', JStr (log_reason e))])"

definition pass_status :: "http_response \<Rightarrow> nat" where
  "pass_status r = (if http_ok r then 200 else rs_status r)"

definition admin_target :: "ctx \<Rightarrow> admin_app option" where
  \<comment> \<open>\<open>aa\<close> where \<open>aa?.target\<close> is not empty\<close>
  "admin_target c = (case cx_adminApp c of None \<Rightarrow> None | Some aa \<Rightarrow> if aa_target aa = [] then None else Some aa)"

definition admin_gate_log :: "lib \<Rightarrow> (bytes \<Rightarrow> bytes) \<Rightarrow> ctx \<Rightarrow> call \<Rightarrow> outside \<Rightarrow> handler" where
  "admin_gate_log L sha c q o' =
     andthen (requireAdmin sha c q o') (\<lambda>_.
       case admin_target c of
         None \<Rightarrow> andthen (asks nd_gate) (\<lambda>g. ok_json [(js ''log'', JArr (map log_json (glog g)))])
       | Some aa \<Rightarrow> andthen (await o' 6) (\<lambda>_. done_with
           (case fetch (io_net o') ((http_get (aa_target aa @ js ''/admin/gate/log''))\<lparr> rq_token := aa_targetToken aa \<rparr>) of
              Inl _ \<Rightarrow> json_response 200 (JObj [(js ''log'', JArr [])])
            | Inr r \<Rightarrow> json_response (pass_status r)
                (case response_json L r of Inl _ \<Rightarrow> JObj [(js ''log'', JArr [])] | Inr v \<Rightarrow> v))))"

definition forwarded :: "lib \<Rightarrow> http_response \<Rightarrow> http_response" where
  \<comment> \<open>\<open>j ?? { error: `gate node returned ${r.status}` }\<close>\<close>
  "forwarded L r =
     json_response (pass_status r)
       (case response_json L r of
          Inr v \<Rightarrow> if v = JNull then JObj [(js ''error'', JStr (js ''gate node returned '' @ radix_str 10 (rs_status r)))] else v
        | Inl _ \<Rightarrow> JObj [(js ''error'', JStr (js ''gate node returned '' @ radix_str 10 (rs_status r)))])"

definition admin_gate_close :: "lib \<Rightarrow> (bytes \<Rightarrow> bytes) \<Rightarrow> ctx \<Rightarrow> call \<Rightarrow> outside \<Rightarrow> handler" where
  "admin_gate_close L sha c q o' =
     andthen (requireAdmin sha c q o') (\<lambda>_.
       case admin_target c of
         Some aa \<Rightarrow>
           andthen (await o' 6) (\<lambda>_. lift_res
             (rmap (forwarded L) (fetch (io_net o') \<lparr> rq_method = POST, rq_url = aa_target aa @ js ''/admin/gate/close'',
                rq_token = aa_targetToken aa, rq_body = [], rq_file = None \<rparr>)))
       | None \<Rightarrow> andthen (gate_close o' (js ''manual (admin)'')) (\<lambda>gs. ok_json [(js ''gate'', gate_json gs)]))"

definition open_reason :: "payload \<Rightarrow> jsstr res" where
  \<comment> \<open>\<open>String(body.text ?? "").trim()\<close>, at least three characters\<close>
  "open_reason body =
     rbind (js_string_opt (nullish (map_get body (js ''text'')) (Some (JStr [])))) (\<lambda>t.
       if length (trim t) < 3
       then Inl (Err FriendError (js ''a reason is required to open the gate '' @ 0x2014 # js '' Llama evaluates it''))
       else Inr (trim t))"

definition api_gate_open :: "lib \<Rightarrow> (bytes \<Rightarrow> bytes) \<Rightarrow> ctx \<Rightarrow> call \<Rightarrow> outside \<Rightarrow> handler" where
  "api_gate_open L sha c q o' =
     andthen (requireOperator sha c q o') (\<lambda>_.
       case cx_adminApp c of
         None \<Rightarrow> not_found (js ''not an admin app (set ISLAND_ADMIN_KEY_DIR + ISLAND_GATE_TARGET*)'')
       | Some aa \<Rightarrow>
           if aa_target aa = [] \<or> aa_targetX25519 aa = []
           then lift_res (throw FriendError ''admin app misconfigured: set ISLAND_GATE_TARGET and ISLAND_GATE_TARGET_X25519'')
           else
             andthen (readJson L q o') (\<lambda>body.
             andthen (lift_res (open_reason body)) (\<lambda>reason.
             andthen (lift_res (makeCanary L (io_rand o' 0) (io_rand o' 1) (aa_identity aa) (cx_canaryKeyword c)
                (cx_canaryKeyword c @ 0x20 # reason) (aa_targetX25519 aa) (io_now o' 3))) (\<lambda>blob.
             andthen (await o' 6) (\<lambda>_. lift_res
               (rmap (forwarded L) (fetch (io_net o')
                  ((http_post (aa_target aa @ js ''/admin/canary'') (JObj [(js ''blob'', JStr blob)]))
                     \<lparr> rq_token := aa_targetToken aa \<rparr>))))))))"

definition canary_mint :: "lib \<Rightarrow> ctx \<Rightarrow> call \<Rightarrow> outside \<Rightarrow> handler" where
  "canary_mint L c q o' =
     (if \<not> cx_mock c then not_found (js ''not found'')
      else case cx_mockAdmin c of
        None \<Rightarrow> not_found (js ''not found'')
      | Some adm \<Rightarrow>
          andthen (readJson L q o') (\<lambda>body.
          andthen (lift_res (rbind (js_string_opt (nullish (map_get body (js ''text''))
              (Some (JStr (cx_canaryKeyword c @ js '' open the gate''))))) (\<lambda>txt.
            makeCanary L (io_rand o' 0) (io_rand o' 1) adm (cx_canaryKeyword c) txt
              (toB64 L (boxPublicKey (x25519 (cx_identity c)))) (io_now o' 3)))) (\<lambda>blob.
            ok_json [(js ''blob'', JStr blob)])))"

end
