(* ===== verification/Router.thy ===== *)
theory Router
  imports Routes
begin

text \<open>
  main.ts, \<open>route\<close>, the rest: friending, messages and files, and the dispatcher that tries the
  sections in the order of the source and answers an exception with its status.
\<close>

section \<open>Friending, for the operator\<close>

definition issue_invite :: "lib \<Rightarrow> (bytes \<Rightarrow> bytes) \<Rightarrow> ctx \<Rightarrow> call \<Rightarrow> outside \<Rightarrow> handler" where
  \<comment> \<open>a \<open>ttlSeconds\<close> that is no whole number is not represented\<close>
  "issue_invite L sha c q o' =
     andthen (requireOperator sha c q o') (\<lambda>_.
     andthen (readJson L q o') (\<lambda>body.
     andthen (on_book (issueToken L (io_rand o' 0)
        (case map_get body (js ''ttlSeconds'') of Some (JNum i) \<Rightarrow> i | _ \<Rightarrow> 86400) (io_now o' 3))) (\<lambda>token.
     andthen (persist c o') (\<lambda>_.
     andthen (lift_res (encodeInvite L token)) (\<lambda>invite.
       ok_json [(js ''invite'', JStr invite)])))))"

definition token_in :: "lib \<Rightarrow> payload \<Rightarrow> friend_token res" where
  \<comment> \<open>\<open>body.token as never\<close>, for a token of the declared type; a token with other fields, which the code
      hands on to the book unchecked, is outside the model\<close>
  "token_in L body = token_of_json (case map_get body (js ''token'') of None \<Rightarrow> JNull | Some v \<Rightarrow> v)"

definition receive_invite :: "lib \<Rightarrow> (bytes \<Rightarrow> bytes) \<Rightarrow> ctx \<Rightarrow> call \<Rightarrow> outside \<Rightarrow> handler" where
  "receive_invite L sha c q o' =
     andthen (requireOperator sha c q o') (\<lambda>_.
     andthen (readJson L q o') (\<lambda>body.
     andthen (lift_res (if truthy (map_get body (js ''invite''))
        then rbind (str_field body ''invite'') (decodeInvite L) else token_in L body)) (\<lambda>token.
     andthen (on_book (receive L token (io_now o' 3))) (\<lambda>request.
     andthen (persist c o') (\<lambda>_.
       ok_json [(js ''request'', peerPubJson request)])))))"

definition accept_request :: "lib \<Rightarrow> (bytes \<Rightarrow> bytes) \<Rightarrow> ctx \<Rightarrow> call \<Rightarrow> outside \<Rightarrow> handler" where
  "accept_request L sha c q o' =
     andthen (requireOperator sha c q o') (\<lambda>_.
     andthen (readJson L q o') (\<lambda>body.
     andthen (lift_res (str_field body ''giver'')) (\<lambda>giver.
     andthen (on_book (accept L (io_rand o' 0) giver (io_now o' 3))) (\<lambda>blob.
     andthen (persist c o') (\<lambda>_.
     andthen (asks (\<lambda>n. case friend giver (nd_book n) of None \<Rightarrow> [] | Some fr \<Rightarrow> peer_wg0 (fr_peer fr))) (\<lambda>wg0.
     andthen (if wg0 \<noteq> [] then deliver c o' wg0 ''/api/friends/accept-inbound'' (JObj [(js ''accept'', JStr blob)])
              else done_with False) (\<lambda>delivered.
       ok_json [(js ''reply'', JStr (encodeReply blob)), (js ''delivered'', JBool delivered)])))))))"

definition confirm_reply :: "lib \<Rightarrow> (bytes \<Rightarrow> bytes) \<Rightarrow> ctx \<Rightarrow> call \<Rightarrow> outside \<Rightarrow> handler" where
  "confirm_reply L sha c q o' =
     andthen (requireOperator sha c q o') (\<lambda>_.
     andthen (readJson L q o') (\<lambda>body.
     andthen (lift_res (if truthy (map_get body (js ''reply''))
        then rbind (str_field body ''reply'') decodeReply else str_field body ''accept'')) (\<lambda>accept.
     andthen (on_book (confirm L accept (io_now o' 3))) (\<lambda>fr.
     andthen (persist c o') (\<lambda>_.
       ok_json [(js ''friend'', record_json fr)])))))"

definition add_by_code :: "lib \<Rightarrow> (bytes \<Rightarrow> bytes) \<Rightarrow> ctx \<Rightarrow> call \<Rightarrow> outside \<Rightarrow> handler" where
  "add_by_code L sha c q o' =
     andthen (requireOperator sha c q o') (\<lambda>_.
       if cx_registryUrl c = [] then lift_res (throw FriendError ''no registry configured (set ISLAND_REGISTRY_URL)'')
       else
         andthen (readJson L q o') (\<lambda>body.
         andthen (lift_res (rbind (str_field body ''code'') (resolve L (io_net o') (cx_registryUrl c)))) (\<lambda>r.
         andthen (await o' 6) (\<lambda>_.
         andthen (on_book (issueToken L (io_rand o' 0) 86400 (io_now o' 3))) (\<lambda>token.
         andthen (persist c o') (\<lambda>_.
         andthen (deliver c o' (reg_wg0 r) ''/api/friends/request'' (JObj [(js ''token'', token_json token)])) (\<lambda>sent.
           ok_json [(js ''ok'', JBool True), (js ''sent'', JBool sent), (js ''to'', JStr (reg_label r))])))))))"

definition own_identity :: "lib \<Rightarrow> (bytes \<Rightarrow> bytes) \<Rightarrow> ctx \<Rightarrow> call \<Rightarrow> outside \<Rightarrow> handler" where
  "own_identity L sha c q o' =
     andthen (requireOperator sha c q o') (\<lambda>_.
     andthen (lift_res (fingerprint L (ctx_selfEd L c))) (\<lambda>code.
       ok_json [(js ''code'', JStr code), (js ''ed25519'', JStr (ctx_selfEd L c)),
                (js ''x25519'', JStr (toB64 L (boxPublicKey (x25519 (cx_identity c))))),
                (js ''label'', JStr (cx_label c)), (js ''wg0'', JStr (cx_wg0 c))]))"

section \<open>Friending, from peers\<close>

definition friend_request :: "lib \<Rightarrow> ctx \<Rightarrow> call \<Rightarrow> outside \<Rightarrow> handler" where
  "friend_request L c q o' =
     andthen (readJson L q o') (\<lambda>body.
     andthen (lift_res (token_in L body)) (\<lambda>token.
     andthen (on_book (receive L token (io_now o' 3))) (\<lambda>request.
     andthen (persist c o') (\<lambda>_.
       ok_json [(js ''ok'', JBool True), (js ''from'', JStr (peer_label request))]))))"

definition accept_inbound :: "lib \<Rightarrow> ctx \<Rightarrow> call \<Rightarrow> outside \<Rightarrow> handler" where
  "accept_inbound L c q o' =
     andthen (readJson L q o') (\<lambda>body.
     andthen (lift_res (str_field body ''accept'')) (\<lambda>blob.
     andthen (on_book (confirm L blob (io_now o' 3))) (\<lambda>fr.
     andthen (persist c o') (\<lambda>_.
       ok_json [(js ''ok'', JBool True), (js ''friend'', JStr (peer_label (fr_peer fr)))]))))"

definition revoke_inbound :: "lib \<Rightarrow> ctx \<Rightarrow> call \<Rightarrow> outside \<Rightarrow> handler" where
  "revoke_inbound L c q o' =
     andthen (readJson L q o') (\<lambda>body.
     andthen (on_book (receiveRevoke L (map_get body (js ''notice'')))) (\<lambda>removed.
     andthen (persist c o') (\<lambda>_.
       ok_json [(js ''ok'', JBool True), (js ''removed'', JStr (peer_label (fr_peer removed)))])))"

section \<open>Messages\<close>

definition read_thread :: "(jsstr \<Rightarrow> jsstr \<Rightarrow> int) \<Rightarrow> (bytes \<Rightarrow> bytes) \<Rightarrow> ctx \<Rightarrow> call \<Rightarrow> outside \<Rightarrow> handler" where
  "read_thread cmp sha c q o' =
     andthen (requireOperator sha c q o') (\<lambda>_.
       case cl_peer q of
         None \<Rightarrow> lift_res (throw FriendError ''peer query param required'')
       | Some peer \<Rightarrow>
           if peer = [] then lift_res (throw FriendError ''peer query param required'')
           else andthen (asks nd_msgs) (\<lambda>m. ok_json [(js ''thread'', JArr (map stored_json (thread cmp peer m)))]))"

definition plain_message :: "jsstr \<Rightarrow> jsstr \<Rightarrow> jsstr \<Rightarrow> jsstr \<Rightarrow> direction \<Rightarrow> stored_message" where
  \<comment> \<open>the literals the two message routes append: no \<open>id\<close>\<close>
  "plain_message fr to body ts d = \<lparr> msg_id = None, msg_from = fr, msg_to = to, msg_body = body, msg_ts = ts, dir = d \<rparr>"

definition store_message :: "jsstr \<Rightarrow> stored_message \<Rightarrow> (node, unit) act" where
  "store_message peer m = on_msgs (\<lambda>b. (append_msg peer m b, Inr ()))"

definition send_message :: "lib \<Rightarrow> (bytes \<Rightarrow> bytes) \<Rightarrow> ctx \<Rightarrow> call \<Rightarrow> outside \<Rightarrow> handler" where
  "send_message L sha c q o' =
     andthen (requireOperator sha c q o') (\<lambda>_.
     andthen (readJson L q o') (\<lambda>body.
     andthen (lift_res (str_field body ''peer'')) (\<lambda>peer.
     andthen (lift_res (js_string_opt (nullish (map_get body (js ''body'')) (Some (JStr []))))) (\<lambda>txt.
     andthen (asks (\<lambda>n. friend peer (nd_book n))) (\<lambda>known.
       case known of
         None \<Rightarrow> lift_res (throw FriendError ''not a friend'')
       | Some fr \<Rightarrow>
           andthen (lift_res (sealMessage L (io_uuid o') (io_rand o' 0) (cx_identity c) (fr_peer fr) txt (io_now o' 3))) (\<lambda>blob.
           andthen (lift_res (toISOString (io_now o' 4))) (\<lambda>ts.
           andthen (store_message peer (plain_message (ctx_selfEd L c) peer txt ts DirOut)) (\<lambda>_.
           andthen (persist c o') (\<lambda>_.
           andthen (deliver c o' (peer_wg0 (fr_peer fr)) ''/api/messages/inbound'' (JObj [(js ''blob'', JStr blob)])) (\<lambda>delivered.
             ok_json [(js ''ok'', JBool True), (js ''delivered'', JBool delivered)]))))))))))"

definition message_inbound :: "lib \<Rightarrow> ctx \<Rightarrow> call \<Rightarrow> outside \<Rightarrow> handler" where
  "message_inbound L c q o' =
     andthen (readJson L q o') (\<lambda>body.
     andthen (\<lambda>n. (n, verifyKeyResolver L (nd_book n))) (\<lambda>vk.
     andthen (lift_res (str_field body ''blob'')) (\<lambda>blob.
     andthen (on_msgs (openMessage L (cx_identity c) blob vk (Some (markSeen (io_now o' 4))) (io_now o' 3))) (\<lambda>m.
     andthen (store_message (msg_from m) (plain_message (msg_from m) (msg_to m) (msg_body m) (msg_ts m) DirIn)) (\<lambda>_.
     andthen (persist c o') (\<lambda>_.
       ok_json [(js ''ok'', JBool True)]))))))"

section \<open>Files\<close>

definition share_list :: "lib \<Rightarrow> network \<Rightarrow> any_share \<Rightarrow> any_share \<times> files_snapshot res" where
  "share_list L net s =
     (s, case s of Mem m \<Rightarrow> Inr (mem_list m) | Sql t \<Rightarrow> Inr (sql_list t) | Remote b \<Rightarrow> remote_list L net b)"

definition share_add ::
  "lib \<Rightarrow> network \<Rightarrow> jsstr \<Rightarrow> bytes \<Rightarrow> jsstr \<Rightarrow> jsstr option \<Rightarrow> int \<Rightarrow> any_share \<Rightarrow> any_share \<times> shared_file res" where
  "share_add L net name content node ctype now s =
     (case s of
        Mem m \<Rightarrow> apfst Mem (mem_add name content node ctype now m)
      | Sql t \<Rightarrow> apfst Sql (sql_add name content node ctype now t)
      | Remote b \<Rightarrow> (s, remote_add L net b name content node ctype))"

definition share_get :: "network \<Rightarrow> nat \<Rightarrow> any_share \<Rightarrow> any_share \<times> file_content res" where
  "share_get net i s =
     (s, case s of Mem m \<Rightarrow> mem_get i m | Sql t \<Rightarrow> sql_get i t | Remote b \<Rightarrow> remote_get net b i)"

definition share_remove :: "network \<Rightarrow> nat \<Rightarrow> any_share \<Rightarrow> any_share \<times> unit res" where
  "share_remove net i s =
     (case s of
        Mem m \<Rightarrow> apfst Mem (mem_remove i m)
      | Sql t \<Rightarrow> apfst Sql (sql_remove i t)
      | Remote b \<Rightarrow> (s, remote_remove net b i))"

definition on_share :: "outside \<Rightarrow> (any_share \<Rightarrow> any_share \<times> 'a res) \<Rightarrow> (node, 'a) act" where
  \<comment> \<open>only the remote share awaits the network\<close>
  "on_share o' f n =
     (case f (nd_share n) of (s, r) \<Rightarrow>
        let n1 = n\<lparr> nd_share := s \<rparr> in (case s of Remote _ \<Rightarrow> io_others o' 6 n1 | _ \<Rightarrow> n1, r))"

definition files_list :: "lib \<Rightarrow> (bytes \<Rightarrow> bytes) \<Rightarrow> ctx \<Rightarrow> call \<Rightarrow> outside \<Rightarrow> handler" where
  "files_list L sha c q o' =
     andthen (authorizeShare L sha c q) (\<lambda>_.
     andthen (on_share o' (share_list L (io_net o'))) (\<lambda>s. done_with (json_response 200 (snapshot_json s))))"

definition files_add :: "lib \<Rightarrow> (bytes \<Rightarrow> bytes) \<Rightarrow> ctx \<Rightarrow> call \<Rightarrow> outside \<Rightarrow> handler" where
  "files_add L sha c q o' =
     andthen (authorizeShare L sha c q) (\<lambda>adder.
     andthen (await o' 0) (\<lambda>_.
     andthen (lift_res (cl_form q)) (\<lambda>f.
       case f of
         None \<Rightarrow> lift_res (Inl (Err FriendError (js ''missing '' @ 0x27 # js ''file'' @ 0x27 # js '' field'')))
       | Some (name, ftype, content) \<Rightarrow>
           if length content > MAX_UPLOAD
           then done_with (json_response 413 (JObj [(js ''error'', JStr (js ''file too large''))]))
           else andthen (on_share o' (share_add L (io_net o') name content adder
                  (if ftype = [] then None else Some ftype) (io_now o' 3))) (\<lambda>added.
                done_with (json_response 201 (shared_file_json added))))))"

definition ascii_name :: "jsstr \<Rightarrow> jsstr" where
  \<comment> \<open>the two replacements of the quoted fallback\<close>
  "ascii_name name = map (\<lambda>c. if c = 0x5c \<or> c = 0x22 then 0x5f else c) (map (\<lambda>c. if 0x20 \<le> c \<and> c \<le> 0x7e then c else 0x5f) name)"

definition star_name :: "jsstr \<Rightarrow> jsstr res" where
  "star_name name = rmap (\<lambda>s. concat (map (\<lambda>c. if c \<in> {0x27, 0x28, 0x29, 0x2a}
     then 0x25 # map upper_ascii (radix_str 16 (unat c)) else [c]) s)) (encodeURIComponent name)"

definition disposition :: "jsstr \<Rightarrow> jsstr res" where
  "disposition name = rmap (\<lambda>star. js ''attachment; filename='' @ 0x22 # ascii_name name @ 0x22 # js ''; filename*=UTF-8''
     @ [0x27, 0x27] @ star) (star_name name)"

definition files_download :: "lib \<Rightarrow> (bytes \<Rightarrow> bytes) \<Rightarrow> ctx \<Rightarrow> call \<Rightarrow> outside \<Rightarrow> nat \<Rightarrow> handler" where
  "files_download L sha c q o' i =
     andthen (authorizeShare L sha c q) (\<lambda>_.
     andthen (on_share o' (share_get (io_net o') i)) (\<lambda>f.
     andthen (lift_res (disposition (fc_name f))) (\<lambda>d. done_with
       \<lparr> rs_status = 200,
         rs_type = Some (case fc_type f of None \<Rightarrow> js ''application/octet-stream''
                         | Some t \<Rightarrow> if t = [] then js ''application/octet-stream'' else t),
         rs_disposition = Some d, rs_body = fc_content f \<rparr>)))"

definition files_delete :: "lib \<Rightarrow> (bytes \<Rightarrow> bytes) \<Rightarrow> ctx \<Rightarrow> call \<Rightarrow> outside \<Rightarrow> nat \<Rightarrow> handler" where
  "files_delete L sha c q o' i =
     andthen (authorizeShare L sha c q) (\<lambda>_.
     andthen (on_share o' (share_remove (io_net o') i)) (\<lambda>_. done_with
       \<lparr> rs_status = 204, rs_type = None, rs_disposition = None, rs_body = [] \<rparr>))"

definition file_id :: "call \<Rightarrow> string \<Rightarrow> nat option" where
  \<comment> \<open>\<open>path.match(/^\/api\/files\/(\d+)suffix$/)\<close>, and the number\<close>
  "file_id q suffix =
     (case path_rest q ''/api/files/'' of
        None \<Rightarrow> None
      | Some r \<Rightarrow> if takeWhile is_digit r \<noteq> [] \<and> dropWhile is_digit r = js suffix
                  then Some (nat_of_digits (takeWhile is_digit r)) else None)"

section \<open>The dispatcher\<close>

record externals =
  ex_lib :: lib
  ex_num :: "jsstr \<Rightarrow> js_number" \<comment> \<open>\<open>Number\<close> on texts that are no plain digits\<close>
  ex_sha :: "bytes \<Rightarrow> bytes"
  ex_cmp :: "jsstr \<Rightarrow> jsstr \<Rightarrow> int" \<comment> \<open>\<open>localeCompare\<close>\<close>
  ex_html :: jsstr \<comment> \<open>the bundled page\<close>

fun first_of :: "'a option list \<Rightarrow> 'a option" where
  "first_of [] = None"
| "first_of (None # xs) = first_of xs"
| "first_of (Some x # xs) = Some x"

definition route_home :: "externals \<Rightarrow> ctx \<Rightarrow> call \<Rightarrow> outside \<Rightarrow> handler option" where
  "route_home x c q o' =
     (if is_route q GET ''/api/health'' then Some (health c)
      else if is_route q GET ''/api/home'' then Some (home (ex_lib x) (ex_num x) (ex_sha x) c q o')
      else if is_route q GET ''/api/gate'' then Some (gate_status (ex_lib x) c o')
      else None)"

definition route_directory :: "externals \<Rightarrow> ctx \<Rightarrow> call \<Rightarrow> outside \<Rightarrow> node \<Rightarrow> handler option" where
  "route_directory x c q o' n =
     (if nd_registry n \<noteq> None \<and> is_route q POST ''/registry/announce'' then Some (registry_announce (ex_lib x) q o')
      else if nd_registry n \<noteq> None \<and> cl_method q = GET \<and> path_rest q ''/registry/resolve/'' \<noteq> None
      then Some (registry_resolve (ex_lib x) (the (path_rest q ''/registry/resolve/'')))
      else if nd_events n \<noteq> None \<and> is_route q POST ''/events/report'' then Some (events_report (ex_lib x) c q o')
      else if nd_events n \<noteq> None \<and> is_route q GET ''/admin/events''
      then Some (admin_events (ex_lib x) (ex_sha x) c q o')
      else None)"

definition route_admin :: "externals \<Rightarrow> ctx \<Rightarrow> call \<Rightarrow> outside \<Rightarrow> handler option" where
  "route_admin x c q o' =
     (if is_route q GET ''/admin/friends'' then Some (andthen (requireAdmin (ex_sha x) c q o') (\<lambda>_. friends_view))
      else if cl_method q = DELETE \<and> path_rest q ''/admin/friends/'' \<noteq> None
      then Some (andthen (requireAdmin (ex_sha x) c q o') (\<lambda>_.
             delete_friend (ex_lib x) c o' (the (path_rest q ''/admin/friends/''))))
      else if is_route q GET ''/admin/firstrun'' then Some (firstrun c o')
      else if is_route q POST ''/admin/canary'' then Some (admin_canary (ex_lib x) (ex_sha x) c q o')
      else if is_route q GET ''/admin/gate/log'' then Some (admin_gate_log (ex_lib x) (ex_sha x) c q o')
      else if is_route q POST ''/admin/gate/close'' then Some (admin_gate_close (ex_lib x) (ex_sha x) c q o')
      else if is_route q POST ''/api/gate/open'' then Some (api_gate_open (ex_lib x) (ex_sha x) c q o')
      else if is_route q POST ''/admin/canary/mint'' then Some (canary_mint (ex_lib x) c q o')
      else None)"

definition route_friends :: "externals \<Rightarrow> ctx \<Rightarrow> call \<Rightarrow> outside \<Rightarrow> handler option" where
  "route_friends x c q o' =
     (if is_route q GET ''/api/friends'' then Some (andthen (requireOperator (ex_sha x) c q o') (\<lambda>_. friends_view))
      else if is_route q POST ''/api/friends/token'' then Some (issue_invite (ex_lib x) (ex_sha x) c q o')
      else if is_route q POST ''/api/friends/receive'' then Some (receive_invite (ex_lib x) (ex_sha x) c q o')
      else if is_route q POST ''/api/friends/accept'' then Some (accept_request (ex_lib x) (ex_sha x) c q o')
      else if is_route q POST ''/api/friends/confirm'' then Some (confirm_reply (ex_lib x) (ex_sha x) c q o')
      else if is_route q POST ''/api/friends/add'' then Some (add_by_code (ex_lib x) (ex_sha x) c q o')
      else if is_route q POST ''/api/friends/request'' then Some (friend_request (ex_lib x) c q o')
      else if is_route q POST ''/api/friends/accept-inbound'' then Some (accept_inbound (ex_lib x) c q o')
      else if is_route q GET ''/api/identity'' then Some (own_identity (ex_lib x) (ex_sha x) c q o')
      else if cl_method q = DELETE \<and> path_rest q ''/api/friends/'' \<noteq> None
      then Some (andthen (requireOperator (ex_sha x) c q o') (\<lambda>_.
             delete_friend (ex_lib x) c o' (the (path_rest q ''/api/friends/''))))
      else if is_route q POST ''/api/friends/revoke-inbound'' then Some (revoke_inbound (ex_lib x) c q o')
      else None)"

definition route_messages :: "externals \<Rightarrow> ctx \<Rightarrow> call \<Rightarrow> outside \<Rightarrow> handler option" where
  "route_messages x c q o' =
     (if is_route q GET ''/api/messages'' then Some (read_thread (ex_cmp x) (ex_sha x) c q o')
      else if is_route q POST ''/api/messages'' then Some (send_message (ex_lib x) (ex_sha x) c q o')
      else if is_route q POST ''/api/messages/inbound'' then Some (message_inbound (ex_lib x) c q o')
      else None)"

definition route_files :: "externals \<Rightarrow> ctx \<Rightarrow> call \<Rightarrow> outside \<Rightarrow> handler option" where
  "route_files x c q o' =
     (if is_route q GET ''/api/files'' then Some (files_list (ex_lib x) (ex_sha x) c q o')
      else if is_route q POST ''/api/files'' then Some (files_add (ex_lib x) (ex_sha x) c q o')
      else if cl_method q = GET \<and> file_id q ''/download'' \<noteq> None
      then Some (files_download (ex_lib x) (ex_sha x) c q o' (the (file_id q ''/download'')))
      else if cl_method q = DELETE \<and> file_id q [] \<noteq> None
      then Some (files_delete (ex_lib x) (ex_sha x) c q o' (the (file_id q [])))
      else None)"

definition route_page :: "externals \<Rightarrow> call \<Rightarrow> handler option" where
  "route_page x q =
     (if cl_method q = GET \<and> \<not> startsWith (cl_path q) (js ''/api/'')
      then Some (done_with \<lparr> rs_status = 200, rs_type = Some (js ''text/html; charset=utf-8''), rs_disposition = None,
                   rs_body = text_encode (ex_html x) \<rparr>)
      else None)"

definition route :: "externals \<Rightarrow> ctx \<Rightarrow> call \<Rightarrow> outside \<Rightarrow> handler" where
  "route x c q o' n =
     (case first_of [route_home x c q o', route_directory x c q o' n, route_admin x c q o', route_friends x c q o',
             route_messages x c q o', route_files x c q o', route_page x q] of
        Some h \<Rightarrow> h n
      | None \<Rightarrow> not_found (js ''not found'') n)"

definition serve :: "externals \<Rightarrow> ctx \<Rightarrow> call \<Rightarrow> outside \<Rightarrow> node \<Rightarrow> node \<times> http_response" where
  \<comment> \<open>the \<open>fetch\<close> of the server\<close>
  "serve x c q o' n = apsnd answer (route x c q o' n)"

end
