(* ===== verification/DaemonFacts.thy ===== *)
theory DaemonFacts
  imports Router FriendsFacts MessagesProps RegistryProps ShareProps
begin

text \<open>
  How the dispatcher relates to the components: whatever a request does to the node is a run of the
  component machines, so that their invariants hold of the daemon. The rules for sequencing are
  collected in \<open>runs_intros\<close>; a handler's proof is one application of them.
\<close>

section \<open>Moves of the components\<close>

inductive share_move :: "any_share \<Rightarrow> any_share \<Rightarrow> bool" where
  Add: "share_move s (fst (share_add L net name content node ctype now s))"
| Remove: "share_move s (fst (share_remove net i s))"

inductive gate_move :: "gate_config \<Rightarrow> gate \<Rightarrow> gate \<Rightarrow> bool" for cfg :: gate_config where
  Begin: "gate_move cfg g (fst (gate_begin cfg cn now g))"
| Deny: "gate_move cfg g (fst (gate_deny cn now r g))"
| Start: "gate_move cfg g (job_start j g)"
| OpenOk: "gate_move cfg g (fst (open_ok cfg clk cn now r g))"
| OpenFail: "gate_move cfg g (open_fail clk g)"
| CloseOk: "gate_move cfg g (fst (close_ok r now g))"
| CloseFail: "gate_move cfg g (close_fail clk r g)"
| Fire: "gate_move cfg g (g\<lparr> timer := None \<rparr>)"

definition daemon_files :: "ctx \<Rightarrow> jsstr list" where
  \<comment> \<open>the files a running daemon writes or removes\<close>
  "daemon_files c = map (path_join (cx_dataDir c)) [''friends.json'', ''messages.json'', ''gate.json'', FIRSTRUN_MARKER]"

definition other_files_kept :: "ctx \<Rightarrow> files \<Rightarrow> files \<Rightarrow> bool" where
  "other_files_kept c fs fs' \<longleftrightarrow> (\<forall>p. p \<notin> set (daemon_files c) \<longrightarrow> map_get fs' p = map_get fs p)"

inductive node_move :: "lib \<Rightarrow> ctx \<Rightarrow> node \<Rightarrow> node \<Rightarrow> bool" for L :: lib and c :: ctx where
  Book: "book_step L (nd_book n) b \<Longrightarrow> node_move L c n (n\<lparr> nd_book := b \<rparr>)"
| Messages: "message_step (nd_msgs n) m \<Longrightarrow> node_move L c n (n\<lparr> nd_msgs := m \<rparr>)"
| Share: "share_move (nd_share n) s \<Longrightarrow> node_move L c n (n\<lparr> nd_share := s \<rparr>)"
| Gate: "gate_move (cx_gate c) (nd_gate n) g \<Longrightarrow> node_move L c n (n\<lparr> nd_gate := g \<rparr>)"
| Registry: "nd_registry n = Some s \<Longrightarrow>
    node_move L c n (n\<lparr> nd_registry := Some (fst (announce_route L body t s)) \<rparr>)"
| Report: "nd_events n = Some s \<Longrightarrow>
    node_move L c n (n\<lparr> nd_events := Some (fst (report_route L (cx_label c) (nd_book n) body t s)) \<rparr>)"
| Limiter: "node_move L c n (n\<lparr> nd_limiter := l \<rparr>)"
| Files: "other_files_kept c (nd_files n) fs \<Longrightarrow> node_move L c n (n\<lparr> nd_files := fs \<rparr>)"

definition runs :: "lib \<Rightarrow> ctx \<Rightarrow> (node, 'a) act \<Rightarrow> bool" where
  "runs L c m \<longleftrightarrow> (\<forall>n. steps (node_move L c) n (fst (m n)))"

definition fair :: "lib \<Rightarrow> ctx \<Rightarrow> outside \<Rightarrow> bool" where
  \<comment> \<open>what other requests do in between are moves of the components too\<close>
  "fair L c o' \<longleftrightarrow> (\<forall>k n. steps (node_move L c) n (io_others o' k n))"

named_theorems runs_intros \<open>which actions are runs of the components\<close>

lemma steps_trans: "steps r s t \<Longrightarrow> steps r t u \<Longrightarrow> steps r s u"
  using steps_append [of r t u s] .

lemma runs_still: "(\<And>n. fst (m n) = n) \<Longrightarrow> runs L c m"
  by (simp add: runs_def steps.refl)

lemma runs_pure [runs_intros]:
  "runs L c (done_with x)" "runs L c (lift_res r)" "runs L c (asks g)" "runs L c (\<lambda>n. (n, f n))"
  "runs L c (ok_json kvs)" "runs L c (not_found msg)"
  by (rule runs_still, simp add: ok_json_def not_found_def)+

lemma runs_branch [runs_intros]:
  "(b \<Longrightarrow> runs L c m) \<Longrightarrow> (\<not> b \<Longrightarrow> runs L c m') \<Longrightarrow> runs L c (if b then m else m')"
  "runs L c m \<Longrightarrow> (\<And>y. runs L c (f y)) \<Longrightarrow> runs L c (case x of None \<Rightarrow> m | Some y \<Rightarrow> f y)"
  "(\<And>a b. runs L c (g a b)) \<Longrightarrow> runs L c (case q of (a, b) \<Rightarrow> g a b)"
  "(\<And>e. runs L c (h e)) \<Longrightarrow> (\<And>z. runs L c (k z)) \<Longrightarrow> runs L c (case r of Inl e \<Rightarrow> h e | Inr z \<Rightarrow> k z)"
  by (auto split: option.splits prod.splits sum.splits)

lemma runs_andthen [runs_intros]:
  assumes "runs L c m" "\<And>x. runs L c (f x)"
  shows "runs L c (andthen m f)"
  unfolding runs_def
proof
  fix n :: node
  have m: "steps (node_move L c) n (fst (m n))" using assms(1) unfolding runs_def ..
  show "steps (node_move L c) n (fst (andthen m f n))"
  proof (cases "snd (m n)")
    case (Inl e)
    then show ?thesis using m by (simp add: andthen_def case_prod_unfold)
  next
    case (Inr x)
    have "steps (node_move L c) (fst (m n)) (fst (f x (fst (m n))))" using assms(2) unfolding runs_def ..
    then show ?thesis using steps_trans [OF m] Inr by (simp add: andthen_def case_prod_unfold)
  qed
qed

lemma runs_one: "(\<And>n. node_move L c n (fst (m n)) \<or> fst (m n) = n) \<Longrightarrow> runs L c m"
  unfolding runs_def by (metis steps.refl steps_single)

lemma runs_others [runs_intros]:
  "fair L c o' \<Longrightarrow> runs L c (await o' k)" "fair L c o' \<Longrightarrow> runs L c (deliver c' o' wg0 path body)"
  by (simp_all add: runs_def fair_def await_def deliver_def)

lemma runs_guards [runs_intros]: "runs L c (requireOperator sha c' q o')" "runs L c (requireAdmin sha c' q o')"
  by (rule runs_one, use node_move.Limiter in \<open>auto simp: requireOperator_def requireAdmin_def split: prod.splits\<close>)+

lemma runs_share_guard [runs_intros]: "runs L c (authorizeShare L' sha c' q)"
  by (rule runs_still) (simp add: authorizeShare_def Let_def split: option.splits)

lemma foldl_set_other: "p \<notin> fst ` set ws \<Longrightarrow> map_get (foldl (\<lambda>fs (p, t). map_set p t fs) fs ws) p = map_get fs p"
  by (induction ws arbitrary: fs) (auto simp: case_prod_unfold)

lemma persist_keeps:
  "other_files_kept c fs (foldl (\<lambda>fs (p, t). map_set p t fs) fs (take k (saved_files c n)))"
  unfolding other_files_kept_def
proof (intro allI impI)
  fix p assume "p \<notin> set (daemon_files c)"
  then have "p \<notin> fst ` set (saved_files c n)" by (auto simp: daemon_files_def saved_files_def)
  then have "p \<notin> fst ` set (take k (saved_files c n))" by (meson image_mono set_take_subset subsetD)
  then show "map_get (foldl (\<lambda>fs (p, t). map_set p t fs) fs (take k (saved_files c n))) p = map_get fs p"
    by (rule foldl_set_other)
qed

lemma runs_persist [runs_intros]: "fair L c o' \<Longrightarrow> runs L c (persist c o')"
  unfolding runs_def
proof
  fix n :: node
  let ?n1 = "n\<lparr> nd_files := foldl (\<lambda>fs (p, t). map_set p t fs) (nd_files n) (take (io_disk o' - 1) (saved_files c n)) \<rparr>"
  assume "fair L c o'"
  then have "steps (node_move L c) ?n1 (io_others o' 1 ?n1)" unfolding fair_def by blast
  moreover have "steps (node_move L c) n ?n1" by (intro steps_single node_move.Files persist_keeps)
  ultimately have "steps (node_move L c) n (io_others o' 1 ?n1)" by (blast intro: steps_trans)
  then show "steps (node_move L c) n (fst (persist c o' n))" by (simp add: persist_def Let_def steps.refl)
qed

lemma runs_book [runs_intros]:
  "runs L c (on_book (issueToken L rnd ttl now))" "runs L c (on_book (receive L t now))"
  "runs L c (on_book (accept L r giver now))" "runs L c (on_book (confirm L blob now))"
  "runs L c (on_book (issueRevoke L rnd peer now))" "runs L c (on_book (receiveRevoke L nt))"
  by (rule runs_one, use node_move.Book [OF book_step.Issue] node_move.Book [OF book_step.Receive]
      node_move.Book [OF book_step.Accept] node_move.Book [OF book_step.Confirm]
      node_move.Book [OF book_step.IssueRevoke] node_move.Book [OF book_step.ReceiveRevoke]
      in \<open>simp add: on_book_def case_prod_unfold\<close>)+

lemma openMessage_book:
  "fst (openMessage L self blob vk (Some mark) now s) = s
   \<or> (\<exists>i t. fst (openMessage L self blob vk (Some mark) now s) = fst (mark i t s))"
proof -
  have seen: "fst (check_seen L p now (Some mark) s) = s \<or> (\<exists>i t. fst (check_seen L p now (Some mark) s) = fst (mark i t s))" for p
    by (auto simp: check_seen_def case_prod_unfold split: sum.splits option.splits json.splits)
  show ?thesis
    using seen by (auto simp: openMessage_def case_prod_unfold split: sum.splits)
qed

lemma runs_msgs [runs_intros]:
  "runs L c (on_msgs (openMessage L self blob vk (Some (markSeen now')) now))" "runs L c (store_message peer m)"
proof -
  show "runs L c (on_msgs (openMessage L self blob vk (Some (markSeen now')) now))"
  proof (rule runs_one)
    fix n :: node
    let ?b = "fst (openMessage L self blob vk (Some (markSeen now')) now (nd_msgs n))"
    have "?b = nd_msgs n \<or> message_step (nd_msgs n) ?b"
      using openMessage_book [of L self blob vk "markSeen now'" now "nd_msgs n"] message_step.mark by metis
    then show "node_move L c n (fst (on_msgs (openMessage L self blob vk (Some (markSeen now')) now) n))
        \<or> fst (on_msgs (openMessage L self blob vk (Some (markSeen now')) now) n) = n"
      using node_move.Messages by (auto simp: on_msgs_def case_prod_unfold)
  qed
  show "runs L c (store_message peer m)"
    by (rule runs_one) (use node_move.Messages [OF message_step.append] in \<open>simp add: store_message_def on_msgs_def\<close>)
qed

lemma runs_on_share: 
  assumes "fair L c o'" "\<And>s. share_move s (fst (f s)) \<or> fst (f s) = s"
  shows "runs L c (on_share o' f)"
  unfolding runs_def
proof
  fix n :: node
  let ?s = "fst (f (nd_share n))" and ?n1 = "n\<lparr> nd_share := fst (f (nd_share n)) \<rparr>"
  have "?n1 = n \<or> node_move L c n ?n1" using assms(2) [of "nd_share n"] node_move.Share by fastforce
  then have 1: "steps (node_move L c) n ?n1" by (metis steps.refl steps_single)
  have 2: "steps (node_move L c) ?n1 (io_others o' 6 ?n1)" using assms(1) unfolding fair_def by blast
  show "steps (node_move L c) n (fst (on_share o' f n))"
    using 1 steps_trans [OF 1 2] by (cases ?s) (simp_all add: on_share_def case_prod_unfold Let_def)
qed

lemma runs_share [runs_intros]:
  assumes "fair L c o'"
  shows "runs L c (on_share o' (share_list L' net))" "runs L c (on_share o' (share_get net i))"
    "runs L c (on_share o' (share_add L' net name content node ctype now))" "runs L c (on_share o' (share_remove net i))"
  by (rule runs_on_share [OF assms], use share_move.Add share_move.Remove in \<open>simp add: share_list_def share_get_def\<close>)+

lemma runs_gate [runs_intros]:
  "runs L c (on_gate (gate_begin (cx_gate c) cn now))" "runs L c (on_gate (gate_deny cn now r))"
  "runs L c (on_gate (\<lambda>g. (job_start j g, Inr ())))" "runs L c (on_gate (open_ok (cx_gate c) clk cn now r))"
  "runs L c (on_gate (\<lambda>g. (open_fail clk g, res)))" "runs L c (on_gate (close_ok r now))"
  "runs L c (on_gate (\<lambda>g. (close_fail clk r g, res')))"
  by (rule runs_one, use node_move.Gate [OF gate_move.Begin] node_move.Gate [OF gate_move.Deny]
      node_move.Gate [OF gate_move.Start] node_move.Gate [OF gate_move.OpenOk] node_move.Gate [OF gate_move.OpenFail]
      node_move.Gate [OF gate_move.CloseOk] node_move.Gate [OF gate_move.CloseFail]
      in \<open>simp add: on_gate_def case_prod_unfold\<close>)+

section \<open>Every handler is a run\<close>

lemma runs_readJson [runs_intros]: "fair L c o' \<Longrightarrow> runs L c (readJson L' q o')"
  unfolding readJson_def by (intro runs_intros)

lemma runs_gate_calls [runs_intros]:
  "fair L c o' \<Longrightarrow> runs L c (gate_open c o' cn)" "fair L c o' \<Longrightarrow> runs L c (gate_close o' r)"
  "fair L c o' \<Longrightarrow> runs L c (gateView L' c' o')"
  unfolding gate_open_def gate_close_def gateView_def Let_def by (intro runs_intros; assumption)+

lemma runs_stores [runs_intros]:
  "runs L c (on_registry (announce_route L body t))" "runs L c (on_registry (\<lambda>s. (s, r s)))"
  "runs L c (on_events (\<lambda>b. report_route L (cx_label c) b body' t'))" "runs L c (on_events (\<lambda>b s. (s, r' s)))"
proof -
  have "node_move L c n (fst (on_registry (announce_route L body t) n)) \<or> fst (on_registry (announce_route L body t) n) = n" for n
  proof (cases "nd_registry n")
    case (Some s)
    then show ?thesis using node_move.Registry [OF Some] by (simp add: on_registry_def case_prod_unfold)
  qed (simp add: on_registry_def)
  then show "runs L c (on_registry (announce_route L body t))" by (rule runs_one)
  have "node_move L c n (fst (on_events (\<lambda>b. report_route L (cx_label c) b body' t') n))
      \<or> fst (on_events (\<lambda>b. report_route L (cx_label c) b body' t') n) = n" for n
    using node_move.Report [of n _ L c body' t'] by (cases "nd_events n") (simp_all add: on_events_def case_prod_unfold)
  then show "runs L c (on_events (\<lambda>b. report_route L (cx_label c) b body' t'))" by (rule runs_one)
  show "runs L c (on_registry (\<lambda>s. (s, r s)))" "runs L c (on_events (\<lambda>b s. (s, r' s)))"
    by (rule runs_still, simp add: on_registry_def on_events_def split: option.splits)+
qed

lemma runs_firstrun [runs_intros]: "fair L c o' \<Longrightarrow> runs L c (firstrun c o')"
  unfolding runs_def
proof
  fix n :: node
  assume "fair L c o'"
  then have o: "steps (node_move L c) m (io_others o' 0 m)" for m unfolding fair_def by blast
  have f: "steps (node_move L c) n (n\<lparr> nd_files := map_del (path_join (cx_dataDir c) FIRSTRUN_MARKER) (nd_files n) \<rparr>)"
    by (intro steps_single node_move.Files) (simp add: other_files_kept_def daemon_files_def)
  show "steps (node_move L c) n (fst (firstrun c o' n))"
    using o [of n] steps_trans [OF f o] by (simp add: firstrun_def Let_def ok_json_def steps.refl)
qed

lemma runs_handlers [runs_intros]:
  assumes "fair L c o'"
  shows "runs L c (health c)"
    "runs L c (home L num sha c q o')"
    "runs L c (gate_status L c o')"
    "runs L c (registry_announce L q o')"
    "runs L c (registry_resolve L seg)"
    "runs L c (events_report L c q o')"
    "runs L c (admin_events L sha c q o')"
    "runs L c friends_view"
    "runs L c (delete_friend L c o' seg)"
    "runs L c (admin_canary L sha c q o')"
    "runs L c (admin_gate_log L sha c q o')"
    "runs L c (admin_gate_close L sha c q o')"
    "runs L c (api_gate_open L sha c q o')"
    "runs L c (canary_mint L c q o')"
    "runs L c (issue_invite L sha c q o')"
    "runs L c (receive_invite L sha c q o')"
    "runs L c (accept_request L sha c q o')"
    "runs L c (confirm_reply L sha c q o')"
    "runs L c (add_by_code L sha c q o')"
    "runs L c (own_identity L sha c q o')"
    "runs L c (friend_request L c q o')"
    "runs L c (accept_inbound L c q o')"
    "runs L c (revoke_inbound L c q o')"
    "runs L c (read_thread cmp sha c q o')"
    "runs L c (send_message L sha c q o')"
    "runs L c (message_inbound L c q o')"
    "runs L c (files_list L sha c q o')"
    "runs L c (files_add L sha c q o')"
    "runs L c (files_download L sha c q o' i)"
    "runs L c (files_delete L sha c q o' i)"
proof -
  note r = runs_intros assms
  show "runs L c (health c)" unfolding health_def by (intro r)
  show "runs L c (home L num sha c q o')" unfolding home_def by (intro r)
  show "runs L c (gate_status L c o')" unfolding gate_status_def by (intro r)
  show "runs L c (registry_announce L q o')" unfolding registry_announce_def by (intro r)
  show "runs L c (registry_resolve L seg)" unfolding registry_resolve_def by (intro r)
  show "runs L c (events_report L c q o')" unfolding events_report_def by (intro r)
  show "runs L c (admin_events L sha c q o')" unfolding admin_events_def by (intro r)
  show "runs L c friends_view" unfolding friends_view_def by (intro r)
  show "runs L c (delete_friend L c o' seg)" unfolding delete_friend_def by (intro r)
  show "runs L c (admin_canary L sha c q o')" unfolding admin_canary_def by (intro r)
  show "runs L c (admin_gate_log L sha c q o')" unfolding admin_gate_log_def by (intro r)
  show "runs L c (admin_gate_close L sha c q o')" unfolding admin_gate_close_def by (intro r)
  show "runs L c (api_gate_open L sha c q o')" unfolding api_gate_open_def by (intro r)
  show "runs L c (canary_mint L c q o')" unfolding canary_mint_def by (intro r)
  show "runs L c (issue_invite L sha c q o')" unfolding issue_invite_def by (intro r)
  show "runs L c (receive_invite L sha c q o')" unfolding receive_invite_def by (intro r)
  show "runs L c (accept_request L sha c q o')" unfolding accept_request_def by (intro r)
  show "runs L c (confirm_reply L sha c q o')" unfolding confirm_reply_def by (intro r)
  show "runs L c (add_by_code L sha c q o')" unfolding add_by_code_def by (intro r)
  show "runs L c (own_identity L sha c q o')" unfolding own_identity_def by (intro r)
  show "runs L c (friend_request L c q o')" unfolding friend_request_def by (intro r)
  show "runs L c (accept_inbound L c q o')" unfolding accept_inbound_def by (intro r)
  show "runs L c (revoke_inbound L c q o')" unfolding revoke_inbound_def by (intro r)
  show "runs L c (read_thread cmp sha c q o')" unfolding read_thread_def by (intro r)
  show "runs L c (send_message L sha c q o')" unfolding send_message_def by (intro r)
  show "runs L c (message_inbound L c q o')" unfolding message_inbound_def by (intro r)
  show "runs L c (files_list L sha c q o')" unfolding files_list_def by (intro r)
  show "runs L c (files_add L sha c q o')" unfolding files_add_def by (intro r)
  show "runs L c (files_download L sha c q o' i)" unfolding files_download_def by (intro r)
  show "runs L c (files_delete L sha c q o' i)" unfolding files_delete_def by (intro r)
qed

lemma first_of_in: "first_of xs = Some h \<Longrightarrow> Some h \<in> set xs"
  by (induction xs rule: first_of.induct) auto

lemma runs_sections:
  assumes "fair (ex_lib x) c o'"
  shows "route_home x c q o' = Some h \<Longrightarrow> runs (ex_lib x) c h"
    "route_directory x c q o' n = Some h \<Longrightarrow> runs (ex_lib x) c h"
    "route_admin x c q o' = Some h \<Longrightarrow> runs (ex_lib x) c h"
    "route_friends x c q o' = Some h \<Longrightarrow> runs (ex_lib x) c h"
    "route_messages x c q o' = Some h \<Longrightarrow> runs (ex_lib x) c h"
    "route_files x c q o' = Some h \<Longrightarrow> runs (ex_lib x) c h"
    "route_page x q = Some h \<Longrightarrow> runs (ex_lib x) c h"
proof -
  note h = runs_handlers [OF assms] runs_firstrun [OF assms] runs_andthen runs_guards runs_pure
  show "route_home x c q o' = Some h \<Longrightarrow> runs (ex_lib x) c h"
    by (auto simp: route_home_def split: if_splits intro!: h)
  show "route_directory x c q o' n = Some h \<Longrightarrow> runs (ex_lib x) c h"
    by (auto simp: route_directory_def split: if_splits intro!: h)
  show "route_admin x c q o' = Some h \<Longrightarrow> runs (ex_lib x) c h"
    by (auto simp: route_admin_def split: if_splits intro!: h)
  show "route_friends x c q o' = Some h \<Longrightarrow> runs (ex_lib x) c h"
    by (auto simp: route_friends_def split: if_splits intro!: h)
  show "route_messages x c q o' = Some h \<Longrightarrow> runs (ex_lib x) c h"
    by (auto simp: route_messages_def split: if_splits intro!: h)
  show "route_files x c q o' = Some h \<Longrightarrow> runs (ex_lib x) c h"
    by (auto simp: route_files_def split: if_splits intro!: h)
  show "route_page x q = Some h \<Longrightarrow> runs (ex_lib x) c h"
    by (auto simp: route_page_def split: if_splits intro!: h)
qed

lemma runs_route:
  assumes "fair (ex_lib x) c o'"
  shows "runs (ex_lib x) c (route x c q o')"
proof -
  have "steps (node_move (ex_lib x) c) n (fst (route x c q o' n))" for n
  proof (cases "first_of [route_home x c q o', route_directory x c q o' n, route_admin x c q o', route_friends x c q o',
      route_messages x c q o', route_files x c q o', route_page x q]")
    case None
    then show ?thesis by (simp add: route_def not_found_def steps.refl)
  next
    case (Some h)
    have "runs (ex_lib x) c h"
      using first_of_in [OF Some] by (auto dest!: sym [where s = "Some h"] intro: runs_sections [OF assms])
    then show ?thesis using Some by (simp add: route_def runs_def)
  qed
  then show ?thesis unfolding runs_def ..
qed

end
