(* ===== verification/DaemonProps.thy ===== *)
theory DaemonProps
  imports DaemonFacts EventsProps
begin

text \<open>
  The properties of the daemon as a whole: the invariants of its components in every state that
  requests can lead to, what a caller without credentials can do, and the bound on guesses of a
  token.
\<close>

section \<open>The daemon as a state machine\<close>

definition share_ok :: "nat \<Rightarrow> any_share \<Rightarrow> bool" where
  "share_ok mx s =
     (case s of
        Mem m \<Rightarrow> mem_inv m \<and> spec_ok (mem_abs m) \<and> mem_max m = mx
      | Sql t \<Rightarrow> sql_inv t \<and> spec_ok (sql_abs t) \<and> sql_max t = mx
      | Remote b \<Rightarrow> True)"

fun stored_rows :: "any_share \<Rightarrow> file_row list" where
  "stored_rows (Mem m) = map snd (mem_rows m)"
| "stored_rows (Sql t) = sql_rows t"
| "stored_rows (Remote b) = []"

definition events_sound :: "lib \<Rightarrow> event_store \<Rightarrow> bool" where
  \<comment> \<open>every row holds the events of a report that its key signed\<close>
  "events_sound L s \<longleftrightarrow> (\<forall>k row. map_get s k = Some row \<longrightarrow> (\<exists>r. verifyReport L r \<and> rep_node r = k
     \<and> er_events row = json_stringify (JArr (rep_events r)) \<and> er_at row = rep_at r
     \<and> length (rep_events r) \<le> MAX_REPORT_EVENTS))"

definition daemon_ok :: "lib \<Rightarrow> ctx \<Rightarrow> nat \<Rightarrow> node \<Rightarrow> bool" where
  "daemon_ok L c mx n \<longleftrightarrow> book_ok L (nd_book n) \<and> bk_id (nd_book n) = cx_identity c \<and> messages_ok (nd_msgs n)
     \<and> share_ok mx (nd_share n)
     \<and> (\<forall>s. nd_events n = Some s \<longrightarrow> events_sound L s)"

definition node_init :: "ctx \<Rightarrow> nat \<Rightarrow> node \<Rightarrow> bool" where
  \<comment> \<open>the state a first boot starts with, on any of the local backends\<close>
  "node_init c mx n \<longleftrightarrow> nd_book n = book_new (cx_identity c) (cx_label c) (cx_wg0 c) \<and> nd_msgs n = message_book_new
     \<and> (nd_share n = Mem (mem_new mx) \<or> (\<exists>root bnd. nd_share n = Sql (sql_new root bnd mx)) \<or> (\<exists>b. nd_share n = Remote b))
     \<and> (nd_registry n = None \<or> nd_registry n = Some []) \<and> (nd_events n = None \<or> nd_events n = Some [])"

inductive served :: "externals \<Rightarrow> ctx \<Rightarrow> node \<Rightarrow> node \<Rightarrow> bool" for x :: externals and c :: ctx where
  Request: "fair (ex_lib x) c o' \<Longrightarrow> served x c n (fst (serve x c q o' n))"

inductive_cases servedE: "served x c n n'"

lemma share_move_ok:
  assumes "share_move s s'" "share_ok mx s"
  shows "share_ok mx s'"
  using assms(1)
proof cases
  case (Add L net name content node ctype now)
  show ?thesis
  proof (cases s)
    case (Mem m)
    have m: "mem_inv m" "spec_ok (mem_abs m)" "mem_max m = mx" using assms(2) Mem by (simp_all add: share_ok_def)
    from mem.add_spec [OF m(1), of name content node ctype now]
    have a: "mem_inv (fst (mem_add name content node ctype now m))"
      "mem_abs (fst (mem_add name content node ctype now m)) = fst (spec_add name content node ctype now (mem_abs m))"
      by (metis, metis fst_apfst)
    have "mem_max (fst (mem_add name content node ctype now m)) = mx" using m(3) by (simp add: mem_add_def Let_def)
    then show ?thesis using a spec_add_ok [OF m(2)] Add Mem by (simp add: share_ok_def share_add_def)
  next
    case (Sql t)
    have m: "sql_inv t" "spec_ok (sql_abs t)" "sql_max t = mx" using assms(2) Sql by (simp_all add: share_ok_def)
    from sql.add_spec [OF m(1), of name content node ctype now]
    have a: "sql_inv (fst (sql_add name content node ctype now t))"
      "sql_abs (fst (sql_add name content node ctype now t)) = fst (spec_add name content node ctype now (sql_abs t))"
      by (metis, metis fst_apfst)
    have "sql_max (fst (sql_add name content node ctype now t)) = mx" using m(3) by (simp add: sql_add_def Let_def)
    then show ?thesis using a spec_add_ok [OF m(2)] Add Sql by (simp add: share_ok_def share_add_def)
  qed (simp add: Add share_ok_def share_add_def)
next
  case (Remove net i)
  show ?thesis
  proof (cases s)
    case (Mem m)
    have m: "mem_inv m" "spec_ok (mem_abs m)" "mem_max m = mx" using assms(2) Mem by (simp_all add: share_ok_def)
    from mem.remove_spec [OF m(1), of i]
    have a: "mem_inv (fst (mem_remove i m))" "mem_abs (fst (mem_remove i m)) = fst (spec_remove i (mem_abs m))"
      by (metis, metis fst_apfst)
    have "mem_max (fst (mem_remove i m)) = mx" using m(3) by (simp add: mem_remove_def split: option.splits)
    then show ?thesis using a spec_remove_ok [OF m(2)] Remove Mem by (simp add: share_ok_def share_remove_def)
  next
    case (Sql t)
    have m: "sql_inv t" "spec_ok (sql_abs t)" "sql_max t = mx" using assms(2) Sql by (simp_all add: share_ok_def)
    from sql.remove_spec [OF m(1), of i]
    have a: "sql_inv (fst (sql_remove i t))" "sql_abs (fst (sql_remove i t)) = fst (spec_remove i (sql_abs t))"
      by (metis, metis fst_apfst)
    have "sql_max (fst (sql_remove i t)) = mx" using m(3) by (simp add: sql_remove_def Let_def)
    then show ?thesis using a spec_remove_ok [OF m(2)] Remove Sql by (simp add: share_ok_def share_remove_def)
  qed (simp add: Remove share_ok_def share_remove_def)
qed

lemma report_sound:
  assumes "events_sound L s"
  shows "events_sound L (fst (report_route L lbl b body t s))"
proof -
  have up: "events_sound L (event_upsert (r\<lparr> rep_label := l \<rparr>) t s)"
    if "verifyReport L r" "length (rep_events r) \<le> MAX_REPORT_EVENTS" for r l
    using assms that by (auto simp: events_sound_def event_upsert_def)
  have len: "length (rep_events r) \<le> MAX_REPORT_EVENTS" if "parseReport body = Inr r" for r
    using that by (auto simp: parseReport_def split: option.splits json.splits if_splits)
  show ?thesis using assms up len by (auto simp: report_route_def Let_def split: sum.splits option.splits)
qed

lemma node_move_ok: "node_move L c n n' \<Longrightarrow> daemon_ok L c mx n \<Longrightarrow> daemon_ok L c mx n'"
proof (induction rule: node_move.induct)
  case (Book n b)
  then show ?case
    using book_machine.step_inv [OF _ Book.hyps] step_same_owner [OF Book.hyps] by (simp add: daemon_ok_def same_owner_def)
next
  case (Messages n m)
  then show ?case using message_machine.step_inv [OF _ Messages.hyps] by (simp add: daemon_ok_def)
next
  case (Share n s)
  then show ?case using share_move_ok by (simp add: daemon_ok_def)
next
  case (Report n s body t)
  then show ?case using report_sound by (simp add: daemon_ok_def)
qed (simp_all add: daemon_ok_def)

lemma node_init_ok:
  assumes "node_init c mx n"
  shows "daemon_ok L c mx n"
proof -
  have "book_ok L (nd_book n)" using assms by (intro book_machine.init_inv) (simp add: node_init_def book_init_def)
  moreover have "messages_ok (nd_msgs n)" using assms by (intro message_machine.init_inv) (simp add: node_init_def)
  moreover have "share_ok mx (nd_share n)"
    using assms mem_start [of mx] sql_start [of _ _ mx] spec_new_ok
    by (auto simp: node_init_def share_ok_def mem_new_def sql_new_def)
  ultimately show ?thesis
    using assms by (auto simp: daemon_ok_def node_init_def events_sound_def book_new_def)
qed

interpretation component_machine: machine "node_init c mx" "node_move L c" "daemon_ok L c mx" for L c mx
  by unfold_locales (auto intro: node_init_ok node_move_ok)

lemma serve_runs: "fair (ex_lib x) c o' \<Longrightarrow> steps (node_move (ex_lib x) c) n (fst (serve x c q o' n))"
  using runs_route [of x c o' q] by (simp add: serve_def runs_def)

interpretation daemon_machine: machine "node_init c mx" "served x c" "daemon_ok (ex_lib x) c mx" for x c mx
proof
  show "daemon_ok (ex_lib x) c mx n'" if "daemon_ok (ex_lib x) c mx n" "served x c n n'" for n n'
    using that(2) by (rule servedE) (use component_machine.steps_inv [OF serve_runs that(1)] in simp)
qed (rule node_init_ok)

lemma share_ok_quota:
  assumes "share_ok mx s"
  shows "sum_list (map (\<lambda>r. length (row_content r)) (stored_rows s)) \<le> mx \<and> list_all (\<lambda>r. safe_name (sf_name r)) (stored_rows s)"
proof (cases s)
  case (Mem m)
  then show ?thesis
    using assms mem_quota [of m] by (simp add: share_ok_def case_prod_unfold comp_def list_all_iff)
next
  case (Sql t)
  then show ?thesis using assms sql_quota [of t] by (simp add: share_ok_def)
qed simp

section \<open>Concrete values for the witnesses\<close>

definition demo_ctx :: "byte \<Rightarrow> jsstr \<Rightarrow> ctx" where
  "demo_ctx b wg0 = \<lparr> cx_mock = False, cx_identity = demo_id b, cx_label = js ''node'', cx_wg0 = wg0, cx_wgIface = js ''wg0'',
     cx_peerPort = 8787, cx_gate = \<lparr> ttlSeconds = 2700, noncePruneSeconds = 3600 \<rparr>, cx_gateStatusUrl = [],
     cx_gateStatusLabel = [], cx_adminApp = None, cx_registryUrl = [], cx_eventsUrl = [], cx_adminVerify = (\<lambda>_. None),
     cx_canaryKeyword = js ''GREEN18'', cx_canaryFreshnessS = 120, cx_mockAdmin = None, cx_adminToken = js ''s3cret'',
     cx_dataDir = js ''/var/lib/islandd'', cx_opToken = [] \<rparr>"

definition demo_node :: "ctx \<Rightarrow> node" where
  "demo_node c = \<lparr> nd_book = book_new (cx_identity c) (cx_label c) (cx_wg0 c), nd_share = Mem (mem_new 1000),
     nd_msgs = message_book_new, nd_gate = gate_new, nd_registry = None, nd_events = None,
     nd_limiter = limiter_new 10 (5 * 60000), nd_files = [] \<rparr>"

definition demo_externals :: externals where
  "demo_externals = \<lparr> ex_lib = demo_lib, ex_num = (\<lambda>_. NaN), ex_sha = (\<lambda>b. b), ex_cmp = (\<lambda>_ _. 0), ex_html = [] \<rparr>"

definition demo_call :: "http_method \<Rightarrow> string \<Rightarrow> jsstr \<Rightarrow> call" where
  "demo_call m path ip = \<lparr> cl_ip = Some ip, cl_opToken = [], cl_adminToken = js ''guess'', cl_method = m, cl_path = js path,
     cl_peer = None, cl_length = None, cl_text = Inr (js ''{}''), cl_form = Inr None \<rparr>"

definition demo_outside :: "int \<Rightarrow> outside" where
  "demo_outside t = \<lparr> io_now = (\<lambda>_. t), io_rand = (\<lambda>_. [1]), io_uuid = js ''u1'', io_net = (\<lambda>_. None), io_disk = 4,
     io_unlink = True, io_decide = mock_decide, io_exec = (\<lambda>_. Inr ()), io_wg = None, io_journal = None, io_selfheal = None,
     io_others = (\<lambda>_ n. n) \<rparr>"

lemma demo_guess: "\<not> tokenOk (\<lambda>b. b) (js ''guess'') (js ''s3cret'')"
proof -
  have "no_collision (\<lambda>b. b) (js ''guess'') (js ''s3cret'')" by (simp add: no_collision_def sha256_def)
  moreover have "wf16 (js ''guess'')" "wf16 (js ''s3cret'')" by (simp_all add: js_def is_high_def is_low_def)
  ultimately show ?thesis by (simp add: tokenOk_iff)
qed

lemma demo_fair: "fair L c (demo_outside t)"
  by (simp add: fair_def demo_outside_def steps.refl)

text \<open>
  C5: whatever requests a freshly booted daemon serves, in whatever order and interleaved at every
  wait for I/O: every friend is stored under its own key on the evidence of a signed token or accept,
  the message book stays within its caps, the collector's rows hold the events of a report signed
  under the key of the row, and the local file share stays within its quota with safe names only. The
  directory of the registry is left out: it takes records whose fields are not strings, and a text
  column does not keep those as they were signed (\<open>untyped_record_altered\<close>).
\<close>

theorem daemon_invariant:
  assumes "reachable (node_init c mx) (served x c) n"
  shows "(\<forall>k r. friend k (nd_book n) = Some r \<longrightarrow> k = peer_ed (fr_peer r)
       \<and> (by_token (ex_lib x) r \<or> by_accept (ex_lib x) (nd_book n) r))
    \<and> bk_id (nd_book n) = cx_identity c
    \<and> length (mb_seen (nd_msgs n)) \<le> 4096 \<and> (\<forall>peer. length (log_of peer (nd_msgs n)) \<le> 500)
    \<and> (\<forall>s k row. nd_events n = Some s \<and> map_get s k = Some row \<longrightarrow>
         (\<exists>r. verifyReport (ex_lib x) r \<and> rep_node r = k \<and> er_events row = json_stringify (JArr (rep_events r))))
    \<and> sum_list (map (\<lambda>r. length (row_content r)) (stored_rows (nd_share n))) \<le> mx
    \<and> list_all (\<lambda>r. safe_name (sf_name r)) (stored_rows (nd_share n))"
proof -
  have ok: "daemon_ok (ex_lib x) c mx n" by (rule daemon_machine.reachable_inv [OF assms])
  have "map_get s k = Some row \<longrightarrow>
      (\<exists>r. verifyReport (ex_lib x) r \<and> rep_node r = k \<and> er_events row = json_stringify (JArr (rep_events r)))"
    if "nd_events n = Some s" for s k row
    using ok that unfolding daemon_ok_def events_sound_def by blast
  moreover have "\<forall>k r. friend k (nd_book n) = Some r \<longrightarrow> k = peer_ed (fr_peer r)
       \<and> (by_token (ex_lib x) r \<or> by_accept (ex_lib x) (nd_book n) r)"
    using ok unfolding daemon_ok_def book_ok_def friend_def by blast
  moreover have "length (mb_seen (nd_msgs n)) \<le> 4096 \<and> (\<forall>peer. length (log_of peer (nd_msgs n)) \<le> 500)"
    using ok unfolding daemon_ok_def messages_ok_def MAX_SEEN_IDS_def MAX_PER_PEER_def by blast
  moreover have "share_ok mx (nd_share n)" "bk_id (nd_book n) = cx_identity c" using ok unfolding daemon_ok_def by blast+
  ultimately show ?thesis using share_ok_quota [of mx "nd_share n"] by blast
qed

theorem daemon_invariant_witness:
  "length (mb_seen (nd_msgs (fst (serve demo_externals (demo_ctx 1 (js ''10.42.0.1'')) (demo_call POST ''/api/friends'' (js ''10.42.0.9''))
     (demo_outside 5) (demo_node (demo_ctx 1 (js ''10.42.0.1'')))))))  \<le> 4096"
proof -
  have "node_init (demo_ctx 1 (js ''10.42.0.1'')) 1000 (demo_node (demo_ctx 1 (js ''10.42.0.1'')))"
    by (simp add: node_init_def demo_node_def)
  then have "reachable (node_init (demo_ctx 1 (js ''10.42.0.1'')) 1000) (served demo_externals (demo_ctx 1 (js ''10.42.0.1'')))
     (fst (serve demo_externals (demo_ctx 1 (js ''10.42.0.1'')) (demo_call POST ''/api/friends'' (js ''10.42.0.9''))
       (demo_outside 5) (demo_node (demo_ctx 1 (js ''10.42.0.1'')))))"
    by (rule reachable.next_step [OF reachable.start]) (rule served.Request, rule demo_fair)
  from daemon_invariant [OF this] show ?thesis by blast
qed

section \<open>Callers without credentials\<close>

definition open_route :: "call \<Rightarrow> bool" where
  \<comment> \<open>the routes that anybody may use: the first two only read, the others but one are gated by
      signatures on their contents\<close>
  "open_route q \<longleftrightarrow> is_route q GET ''/api/health'' \<or> is_route q GET ''/api/gate'' \<or> is_route q GET ''/admin/firstrun''
     \<or> is_route q POST ''/registry/announce'' \<or> is_route q POST ''/events/report''
     \<or> is_route q POST ''/api/friends/request'' \<or> is_route q POST ''/api/friends/accept-inbound''
     \<or> is_route q POST ''/api/friends/revoke-inbound'' \<or> is_route q POST ''/api/messages/inbound''"

definition page_route :: "node \<Rightarrow> call \<Rightarrow> bool" where
  \<comment> \<open>everything else outside \<open>/api/\<close> that is read: the page and the public directory\<close>
  "page_route n q \<longleftrightarrow> cl_method q = GET \<and> \<not> startsWith (cl_path q) (js ''/api/'')
     \<and> cl_path q \<notin> {js ''/admin/friends'', js ''/admin/gate/log''}
     \<and> (nd_events n \<noteq> None \<longrightarrow> cl_path q \<noteq> js ''/admin/events'')"

definition stranger :: "(bytes \<Rightarrow> bytes) \<Rightarrow> ctx \<Rightarrow> call \<Rightarrow> node \<Rightarrow> bool" where
  \<comment> \<open>neither loopback nor a valid token, nor the address of a friend\<close>
  "stranger sha c q n \<longleftrightarrow> \<not> isOperator sha c q
     \<and> friendByWg0 (case cl_ip q of None \<Rightarrow> [] | Some ip \<Rightarrow> ip) (nd_book n) = None"

definition refused :: "node \<Rightarrow> (node, 'a) act \<Rightarrow> bool" where
  \<comment> \<open>nothing but the counters of failed attempts changes\<close>
  "refused n m \<longleftrightarrow> (\<exists>l e. m n = (n\<lparr> nd_limiter := l \<rparr>, Inl e) \<and> errorStatus e \<in> {403, 429})"

lemma refused_same: "m n = (n, Inl e) \<Longrightarrow> errorStatus e \<in> {403, 429} \<Longrightarrow> refused n m"
  unfolding refused_def by (intro exI [of _ "nd_limiter n"] exI [of _ e]) simp

lemma refused_andthen: "refused n m \<Longrightarrow> refused n (andthen m f)"
  by (auto simp: refused_def andthen_def)

lemma refused_guards:
  assumes "stranger sha c q n"
  shows "refused n (requireOperator sha c q o')" "refused n (requireAdmin sha c q o')" "refused n (authorizeShare L sha c q)"
proof -
  have op: "\<not> isOperator sha c q" using assms by (simp add: stranger_def)
  then show "refused n (requireOperator sha c q o')"
    by (auto simp: refused_def requireOperator_def too_many_def throw_def errorStatus_def split: prod.splits)
  have adm: "\<not> cx_mock c" "cx_adminToken c = [] \<or> \<not> tokenOk sha (cl_adminToken q) (cx_adminToken c)"
    using op by (auto simp: isOperator_def manageOk_def operatorOk_def split: if_splits)
  show "refused n (requireAdmin sha c q o')"
  proof (cases "cx_adminToken c = []")
    case True
    then show ?thesis using adm by (intro refused_same) (simp add: requireAdmin_def throw_def, simp add: errorStatus_def)
  next
    case False
    then show ?thesis using adm
      by (auto simp: refused_def requireAdmin_def too_many_def throw_def errorStatus_def split: prod.splits)
  qed
  show "refused n (authorizeShare L sha c q)"
    using assms op
    by (intro refused_same) (simp add: authorizeShare_def stranger_def errs_def, simp add: errorStatus_def)
qed

lemma first_of_Cons: "first_of (y # ys) = (case y of None \<Rightarrow> first_of ys | Some h \<Rightarrow> Some h)"
  by (cases y) simp_all

definition confined :: "node \<Rightarrow> handler \<Rightarrow> bool" where
  "confined n h \<longleftrightarrow> (\<exists>l. fst (h n) = n\<lparr> nd_limiter := l \<rparr>) \<and> rs_status (answer (snd (h n))) \<in> {403, 404, 429}"

lemma refused_confined: "refused n h \<Longrightarrow> confined n h"
  by (auto simp: refused_def confined_def answer_def)

lemma refused_handlers:
  assumes "stranger sha c q n"
  shows "refused n (home L num sha c q o')" "refused n (admin_events L sha c q o')" "refused n (admin_canary L sha c q o')"
    "refused n (admin_gate_log L sha c q o')" "refused n (admin_gate_close L sha c q o')" "refused n (api_gate_open L sha c q o')"
    "refused n (issue_invite L sha c q o')" "refused n (receive_invite L sha c q o')" "refused n (accept_request L sha c q o')"
    "refused n (confirm_reply L sha c q o')" "refused n (add_by_code L sha c q o')" "refused n (own_identity L sha c q o')"
    "refused n (read_thread cmp sha c q o')" "refused n (send_message L sha c q o')"
    "refused n (files_list L sha c q o')" "refused n (files_add L sha c q o')" "refused n (files_download L sha c q o' i)"
    "refused n (files_delete L sha c q o' i)"
    "refused n (andthen (requireOperator sha c q o') f)" "refused n (andthen (requireAdmin sha c q o') f)"
  unfolding home_def admin_events_def admin_canary_def admin_gate_log_def admin_gate_close_def api_gate_open_def
    issue_invite_def receive_invite_def accept_request_def confirm_reply_def add_by_code_def own_identity_def
    read_thread_def send_message_def files_list_def files_add_def files_download_def files_delete_def
  by (rule refused_andthen, rule refused_guards, rule assms)+

lemma mint_confined:
  assumes "stranger sha c q n"
  shows "confined n (canary_mint L c q o')"
proof -
  have "\<not> cx_mock c" using assms by (auto simp: stranger_def isOperator_def manageOk_def operatorOk_def)
  then have "canary_mint L c q o' n = (n, Inr (text_response 404 (js ''not found'')))"
    by (simp add: canary_mint_def not_found_def)
  moreover have "\<exists>l. n = n\<lparr> nd_limiter := l \<rparr>" by (rule exI [of _ "nd_limiter n"]) simp
  ultimately show ?thesis by (simp add: confined_def answer_def)
qed

lemma resolve_still: "fst (registry_resolve L seg n) = n"
  by (cases n) (auto simp: registry_resolve_def on_registry_def split: option.splits)

lemma confined_sections:
  assumes st: "stranger (ex_sha x) c q n" and op: "\<not> open_route q"
  shows "route_home x c q o' = Some h \<Longrightarrow> confined n h"
    and "route_directory x c q o' n = Some h \<Longrightarrow> confined n h \<or> (page_route n q \<and> fst (h n) = n)"
    and "route_admin x c q o' = Some h \<Longrightarrow> confined n h"
    and "route_friends x c q o' = Some h \<Longrightarrow> confined n h"
    and "route_messages x c q o' = Some h \<Longrightarrow> confined n h"
    and "route_files x c q o' = Some h \<Longrightarrow> confined n h"
proof -
  note r = refused_handlers [OF st, THEN refused_confined] mint_confined [OF st]
  show "route_home x c q o' = Some h \<Longrightarrow> confined n h" "route_admin x c q o' = Some h \<Longrightarrow> confined n h"
    "route_friends x c q o' = Some h \<Longrightarrow> confined n h" "route_messages x c q o' = Some h \<Longrightarrow> confined n h"
    "route_files x c q o' = Some h \<Longrightarrow> confined n h"
    using op by (auto simp: route_home_def route_admin_def route_friends_def route_messages_def route_files_def
        open_route_def split: if_splits intro: r)
  have resolve: "page_route n q" if get: "cl_method q = GET" and rest: "path_rest q ''/registry/resolve/'' \<noteq> None"
  proof -
    obtain r where "cl_path q = js ''/registry/resolve/'' @ r"
      using rest by (auto simp: path_rest_def startsWith_def split: if_splits) (metis append_take_drop_id)
    then show ?thesis using get by (simp add: page_route_def startsWith_def js_def)
  qed
  show "route_directory x c q o' n = Some h \<Longrightarrow> confined n h \<or> (page_route n q \<and> fst (h n) = n)"
    using op by (auto simp: route_directory_def open_route_def resolve resolve_still split: if_splits intro: r)
qed

text \<open>
  C2: a caller that is not on loopback, presents no valid token and is not at a friend's address
  cannot do anything outside the open routes: whatever it sends, nothing of the node changes but the
  counters of failed attempts, and unless it asked for the page or the public directory it is answered
  403, 404 or 429. Nothing is assumed about the other requests in flight, the network or the disk.
\<close>

theorem stranger_confined:
  assumes "stranger (ex_sha x) c q n" "\<not> open_route q"
  shows "(\<exists>l. fst (serve x c q o' n) = n\<lparr> nd_limiter := l \<rparr>)
    \<and> (page_route n q \<or> rs_status (snd (serve x c q o' n)) \<in> {403, 404, 429})"
proof -
  have same: "\<exists>l. n = n\<lparr> nd_limiter := l \<rparr>" by (rule exI [of _ "nd_limiter n"]) simp
  have page: "page_route n q \<and> fst (h n) = n"
    if "route_page x q = Some h" "route_directory x c q o' n = None" "route_admin x c q o' = None" for h
    using that by (auto simp: route_page_def route_directory_def route_admin_def page_route_def is_route_def split: if_splits)
  let ?rs = "[route_home x c q o', route_directory x c q o' n, route_admin x c q o', route_friends x c q o',
             route_messages x c q o', route_files x c q o', route_page x q]"
  show ?thesis
  proof (cases "first_of ?rs")
    case None
    then show ?thesis using same by (simp add: serve_def route_def not_found_def answer_def)
  next
    case (Some h)
    then have serve: "fst (serve x c q o' n) = fst (h n)" "snd (serve x c q o' n) = answer (snd (h n))"
      by (simp_all add: serve_def route_def)
    have "confined n h \<or> (page_route n q \<and> fst (h n) = n)"
      using Some confined_sections [OF assms, of o' h] page [of h]
      by (auto simp: first_of_Cons split: option.splits)
    then show ?thesis using same unfolding serve confined_def by auto
  qed
qed

theorem stranger_confined_witness:
  "rs_status (snd (serve demo_externals (demo_ctx 1 (js ''10.42.0.1'')) (demo_call DELETE ''/api/friends/x'' (js ''10.42.0.9''))
     (demo_outside 5) (demo_node (demo_ctx 1 (js ''10.42.0.1''))))) \<in> {403, 404, 429}"
proof -
  let ?c = "demo_ctx 1 (js ''10.42.0.1'')" and ?q = "demo_call DELETE ''/api/friends/x'' (js ''10.42.0.9'')"
  have "stranger (ex_sha demo_externals) ?c ?q (demo_node ?c)"
    by (simp add: stranger_def isOperator_def manageOk_def operatorOk_def LOOPBACK_def demo_ctx_def demo_call_def
        demo_externals_def demo_node_def demo_guess friendByWg0_def book_new_def listFriends_def split: option.splits)
  moreover have "\<not> open_route ?q" "\<not> page_route (demo_node ?c) ?q"
    by (simp_all add: open_route_def page_route_def is_route_def demo_call_def)
  ultimately show ?thesis using stranger_confined by blast
qed

section \<open>Guessing a token\<close>

datatype guard = AsOperator | AsAdmin

fun ask :: "(bytes \<Rightarrow> bytes) \<Rightarrow> ctx \<Rightarrow> guard \<Rightarrow> call \<Rightarrow> outside \<Rightarrow> (node, unit) act" where
  "ask sha c AsOperator q o' = requireOperator sha c q o'"
| "ask sha c AsAdmin q o' = requireAdmin sha c q o'"

fun guesses :: "(bytes \<Rightarrow> bytes) \<Rightarrow> ctx \<Rightarrow> (guard \<times> call \<times> outside) list \<Rightarrow> node \<Rightarrow> (call \<times> outside \<times> unit res) list" where
  \<comment> \<open>a run of guarded requests, with the verdict of the guard on each\<close>
  "guesses sha c [] n = []"
| "guesses sha c ((g, q, o') # gs) n = (case ask sha c g q o' n of (n', r) \<Rightarrow> (q, o', r) # guesses sha c gs n')"

fun compared :: "jsstr \<Rightarrow> int \<Rightarrow> call \<times> outside \<times> unit res \<Rightarrow> bool" where
  \<comment> \<open>a request from this address whose token was looked at and refused in the five minutes up to \<open>T\<close>\<close>
  "compared key T (q, o', r) \<longleftrightarrow> limiter_key q = key \<and> T - 300000 < io_now o' 2 \<and> io_now o' 2 \<le> T
     \<and> (\<exists>m. r = Inl (Err Forbidden m))"

fun in_order :: "int \<Rightarrow> (guard \<times> call \<times> outside) list \<Rightarrow> bool" where
  \<comment> \<open>the clock does not run backwards\<close>
  "in_order t [] = True"
| "in_order t ((g, q, o') # gs) = (t \<le> io_now o' 0 \<and> io_now o' 0 \<le> io_now o' 1 \<and> io_now o' 1 \<le> io_now o' 2
     \<and> in_order (io_now o' 2) gs)"

fun attempts_of :: "jsstr \<Rightarrow> outside \<Rightarrow> unit res \<Rightarrow> attempt list" where
  "attempts_of k o' (Inr u) = [Check (io_now o' 0) k, Succeeded k]"
| "attempts_of k o' (Inl e) = (if err_class_of e = RateLimited then [Check (io_now o' 0) k]
     else [Check (io_now o' 0) k, Failed (io_now o' 1) (io_now o' 2) k])"

definition is_locked :: "call \<Rightarrow> outside \<Rightarrow> node \<Rightarrow> bool" where
  "is_locked q o' n = snd (locked (io_now o' 0) (limiter_key q) (nd_limiter n))"

lemma ask_verdict:
  assumes "\<not> cx_mock c" "cx_adminToken c \<noteq> []" "ask sha c g q o' n = (n', r)"
  shows "nd_limiter n' = foldl (\<lambda>l a. attempt_step a l) (nd_limiter n) (attempts_of (limiter_key q) o' r)"
    and "is_locked q o' n \<Longrightarrow> r = too_many"
    and "\<not> is_locked q o' n \<Longrightarrow> r = Inr () \<or> (\<exists>m. r = Inl (Err Forbidden m))"
  using assms by (cases g; auto simp: requireOperator_def requireAdmin_def is_locked_def too_many_def throw_def
      split: prod.splits if_splits)+

definition within :: "int \<Rightarrow> int list \<Rightarrow> nat" where
  "within T ts = length (filter (\<lambda>t. T - 300000 < t \<and> t \<le> T) ts)"

lemma within_snoc: "within T (ts @ [t]) = within T ts + (if T - 300000 < t \<and> t \<le> T then 1 else 0)"
  by (simp add: within_def)

lemma within_recent:
  assumes "t0 \<le> t" "t \<le> T"
  shows "within T ts \<le> length (filter (\<lambda>x. x > t0 - 300000) ts)"
  unfolding within_def using assms by (induction ts) auto

text \<open>One more refusal is inside the bound, because the guard had found fewer than ten recent ones.\<close>

lemma within_next:
  assumes "\<forall>T. within T ts \<le> 10" "length (filter (\<lambda>x. x > t0 - 300000) ts) < 10" "t0 \<le> t"
  shows "\<forall>T. within T (ts @ [t]) \<le> 10"
proof
  fix T
  show "within T (ts @ [t]) \<le> 10"
    using assms(1) within_recent [OF assms(3), of T ts] assms(2) by (cases "t \<le> T") (auto simp: within_snoc intro: le_SucI)
qed

definition tallied :: "jsstr \<Rightarrow> attempt list \<Rightarrow> int \<Rightarrow> node \<Rightarrow> bool" where
  \<comment> \<open>the limiter has seen these attempts, all by now, and no window of this key has more than ten\<close>
  "tallied key pre t0 n \<longleftrightarrow> (\<forall>a \<in> set pre. \<forall>t. attempt_time a = Some t \<longrightarrow> t \<le> t0)
     \<and> nd_limiter n = attempts pre (limiter_new 10 300000) \<and> (\<forall>T. within T (history key pre) \<le> 10)"

lemma ask_tallied:
  assumes "tallied key pre t0 n" "\<not> cx_mock c" "cx_adminToken c \<noteq> []" "ask sha c g q o' n = (n', r)"
    and "t0 \<le> io_now o' 0" "io_now o' 0 \<le> io_now o' 1" "io_now o' 1 \<le> io_now o' 2"
  defines "pre' \<equiv> pre @ attempts_of (limiter_key q) o' r"
  shows "tallied key pre' (io_now o' 2) n'"
    and "\<not> (limiter_key q = key \<and> r = Inr ()) \<Longrightarrow>
      history key pre' = (if limiter_key q = key \<and> \<not> is_locked q o' n then history key pre @ [io_now o' 2] else history key pre)"
proof -
  let ?k = "limiter_key q"
  have pre: "\<forall>a \<in> set pre. \<forall>t. attempt_time a = Some t \<longrightarrow> t \<le> t0"
    and n: "nd_limiter n = attempts pre (limiter_new 10 300000)" and bound: "\<forall>T. within T (history key pre) \<le> 10"
    using assms(1) by (simp_all add: tallied_def)
  note verdict = ask_verdict [OF assms(2-4)]
  have "\<forall>a \<in> set (attempts_of ?k o' r). \<forall>t. attempt_time a = Some t \<longrightarrow> t \<le> io_now o' 2"
    using assms(5-7) by (cases r) auto
  moreover have "t0 \<le> io_now o' 2" using assms(5-7) by simp
  ultimately have times: "\<forall>a \<in> set pre'. \<forall>t. attempt_time a = Some t \<longrightarrow> t \<le> io_now o' 2"
    using pre unfolding pre'_def by fastforce
  have lim: "nd_limiter n' = attempts pre' (limiter_new 10 300000)"
    using verdict(1) n by (simp add: attempts_def pre'_def)
  have locked: "is_locked q o' n \<longleftrightarrow> 10 \<le> length (filter (\<lambda>t. t > io_now o' 0 - 300000) (history ?k pre))"
    using limiter_refines [of pre "io_now o' 0" 300000 ?k 10] pre assms(5)
    by (fastforce simp: is_locked_def snd_locked n)
  show hist: "history key pre' = (if ?k = key \<and> \<not> is_locked q o' n then history key pre @ [io_now o' 2] else history key pre)"
    if "\<not> (?k = key \<and> r = Inr ())"
    using verdict(2,3) that by (cases "is_locked q o' n") (auto simp: history_def too_many_def pre'_def)
  have "\<forall>T. within T (history key pre') \<le> 10"
  proof (cases "?k = key \<and> r = Inr ()")
    case True
    then show ?thesis by (simp add: history_def pre'_def within_def)
  next
    case False
    show ?thesis
      using bound within_next [of "history key pre" "io_now o' 0" "io_now o' 2"] locked assms(6,7) hist [OF False] by auto
  qed
  with times lim show "tallied key pre' (io_now o' 2) n'" by (simp add: tallied_def)
qed

lemma guesses_step:
  assumes "tallied key pre t0 n" "in_order t0 gs" "\<not> cx_mock c" "cx_adminToken c \<noteq> []"
    and "\<forall>(q, o', r) \<in> set (guesses sha c gs n). limiter_key q = key \<longrightarrow> r \<noteq> Inr ()"
  shows "length (filter (compared key T) (guesses sha c gs n)) + within T (history key pre) \<le> 10"
  using assms
proof (induction gs arbitrary: n pre t0)
  case Nil
  then show ?case by (simp add: tallied_def)
next
  case (Cons a gs)
  obtain g q o' where a: "a = (g, q, o')" by (cases a)
  obtain n' r where ask: "ask sha c g q o' n = (n', r)" by (cases "ask sha c g q o' n")
  let ?k = "limiter_key q"
  have ord: "t0 \<le> io_now o' 0" "io_now o' 0 \<le> io_now o' 1" "io_now o' 1 \<le> io_now o' 2" "in_order (io_now o' 2) gs"
    using Cons.prems(2) a by simp_all
  have no: "\<not> (?k = key \<and> r = Inr ())" "\<forall>(q, o', r) \<in> set (guesses sha c gs n'). limiter_key q = key \<longrightarrow> r \<noteq> Inr ()"
    using Cons.prems(5) a ask by auto
  note kept = ask_tallied [OF Cons.prems(1,3,4) ask ord(1-3)]
  have this_one: "compared key T (q, o', r) \<longleftrightarrow> ?k = key \<and> \<not> is_locked q o' n \<and> T - 300000 < io_now o' 2 \<and> io_now o' 2 \<le> T"
    using ask_verdict(2,3) [OF Cons.prems(3,4) ask] no(1) by (cases "is_locked q o' n") (auto simp: too_many_def)
  have "length (filter (compared key T) (guesses sha c gs n')) + within T (history key (pre @ attempts_of ?k o' r)) \<le> 10"
    by (rule Cons.IH [OF kept(1) ord(4) Cons.prems(3,4) no(2)])
  then show ?case
    using this_one kept(2) [OF no(1)]
    by (cases "?k = key \<and> \<not> is_locked q o' n") (auto simp: a ask within_snoc simp del: compared.simps)
qed

lemma guesses_part:
  assumes "tallied key pre t0 n" "in_order t0 gs" "\<not> cx_mock c" "cx_adminToken c \<noteq> []" "guesses sha c gs n = vs @ ws"
    and "\<forall>(q, o', r) \<in> set ws. limiter_key q = key \<longrightarrow> r \<noteq> Inr ()"
  shows "length (filter (compared key T) ws) \<le> 10"
  using assms(1,2,5)
proof (induction vs arbitrary: gs n pre t0)
  case Nil
  then show ?case using guesses_step [OF Nil(1,2) assms(3,4), of sha T] assms(6) by simp
next
  case (Cons v vs)
  then obtain g q o' gs' where gs: "gs = (g, q, o') # gs'" by (cases gs) auto
  obtain n' r where ask: "ask sha c g q o' n = (n', r)" by (cases "ask sha c g q o' n")
  have ord: "t0 \<le> io_now o' 0" "io_now o' 0 \<le> io_now o' 1" "io_now o' 1 \<le> io_now o' 2" "in_order (io_now o' 2) gs'"
    using Cons.prems(2) gs by simp_all
  have "guesses sha c gs' n' = vs @ ws" using Cons.prems(3) by (simp add: gs ask)
  then show ?case by (rule Cons.IH [OF ask_tallied(1) [OF Cons.prems(1) assms(3,4) ask ord(1-3)] ord(4)])
qed

text \<open>
  C9: brute force is bounded. On a node that is not in mock mode and has an admin token, with the
  limiter it boots with and a clock that does not run backwards, whatever requests the operator and
  admin guards get, from whatever addresses and with whatever tokens: in any part of the run in which
  no request of an address passes a guard, the guards looked at no more than ten wrong tokens of that
  address in any five minutes. A request that passes clears the count of its address.
\<close>

theorem guesses_bounded:
  assumes "\<not> cx_mock c" "cx_adminToken c \<noteq> []" "nd_limiter n = limiter_new 10 (5 * 60000)" "in_order 0 gs"
    and "guesses sha c gs n = before @ part @ later"
    and "\<forall>(q, o', r) \<in> set part. limiter_key q = key \<longrightarrow> r \<noteq> Inr ()"
  shows "length (filter (compared key T) part) \<le> 10"
proof -
  have start: "tallied key [] 0 m" if "nd_limiter m = limiter_new 10 (5 * 60000)" for m
    using that by (simp add: tallied_def attempts_def history_def within_def)
  have cut: "\<exists>hs. guesses sha c hs m = us \<and> in_order t hs" if "guesses sha c gs m = us @ vs" "in_order t gs" for us vs gs m t
    using that
  proof (induction us arbitrary: gs m t)
    case Nil
    then show ?case by (intro exI [of _ "[]"]) simp
  next
    case (Cons u us)
    then obtain g q o' gs' where gs: "gs = (g, q, o') # gs'" by (cases gs) auto
    obtain m' r where ask: "ask sha c g q o' m = (m', r)" by (cases "ask sha c g q o' m")
    have "guesses sha c gs' m' = us @ vs" "u = (q, o', r)" using Cons.prems(1) by (simp_all add: gs ask)
    with Cons.IH [of gs' m' "io_now o' 2"] Cons.prems(2) obtain hs where "guesses sha c hs m' = us" "in_order (io_now o' 2) hs"
      by (auto simp: gs)
    then show ?case
      using Cons.prems(2) \<open>u = (q, o', r)\<close> by (intro exI [of _ "(g, q, o') # hs"]) (simp add: gs ask)
  qed
  obtain hs where hs: "guesses sha c hs n = before @ part" "in_order 0 hs"
    using cut [of gs n "before @ part" later 0] assms(4,5) by auto
  show ?thesis by (rule guesses_part [OF start [OF assms(3)] hs(2) assms(1,2) hs(1) assms(6)])
qed

lemma demo_refused: "snd (ask (\<lambda>b. b) (demo_ctx 1 w) AsAdmin (demo_call m p ip) o' n) \<noteq> Inr ()"
  by (simp add: requireAdmin_def demo_ctx_def demo_call_def demo_guess case_prod_unfold too_many_def throw_def)

lemma demo_refusals:
  "(q, o', r) \<in> set (guesses (\<lambda>b. b) (demo_ctx 1 w) (replicate k (AsAdmin, demo_call m p ip, t)) n) \<Longrightarrow> r \<noteq> Inr ()"
proof (induction k arbitrary: n)
  case (Suc k)
  then show ?case using demo_refused [of w m p ip t n]
    by (cases "ask (\<lambda>b. b) (demo_ctx 1 w) AsAdmin (demo_call m p ip) t n") auto
qed simp

theorem guesses_bounded_witness:
  "length (guesses (\<lambda>b. b) (demo_ctx 1 (js ''10.42.0.1'')) (replicate 12 (AsAdmin, demo_call GET ''/admin/friends'' (js ''10.42.0.9''),
       demo_outside 5)) (demo_node (demo_ctx 1 (js ''10.42.0.1'')))) = 12
   \<and> length (filter (compared (js ''10.42.0.9'') 7) (guesses (\<lambda>b. b) (demo_ctx 1 (js ''10.42.0.1''))
     (replicate 12 (AsAdmin, demo_call GET ''/admin/friends'' (js ''10.42.0.9''), demo_outside 5))
     (demo_node (demo_ctx 1 (js ''10.42.0.1''))))) \<le> 10"
proof
  let ?c = "demo_ctx 1 (js ''10.42.0.1'')" and ?g = "(AsAdmin, demo_call GET ''/admin/friends'' (js ''10.42.0.9''), demo_outside 5)"
  have "length (guesses sha c gs n) = length gs" for sha c gs n
    by (induction gs arbitrary: n) (auto simp: case_prod_unfold)
  then show "length (guesses (\<lambda>b. b) ?c (replicate 12 ?g) (demo_node ?c)) = 12" by simp
  have order: "in_order t (replicate k ?g)" if "t \<le> 5" for t k
    using that by (induction k arbitrary: t) (simp_all add: demo_outside_def)
  show "length (filter (compared (js ''10.42.0.9'') 7) (guesses (\<lambda>b. b) ?c (replicate 12 ?g) (demo_node ?c))) \<le> 10"
  proof (rule guesses_bounded [where before = "[]" and later = "[]"])
    show "\<not> cx_mock ?c" "cx_adminToken ?c \<noteq> []" "nd_limiter (demo_node ?c) = limiter_new 10 (5 * 60000)"
      by (simp_all add: demo_ctx_def demo_node_def)
    show "in_order 0 (replicate 12 ?g)" by (rule order) simp
    show "\<forall>(q, o', r) \<in> set (guesses (\<lambda>b. b) ?c (replicate 12 ?g) (demo_node ?c)). limiter_key q = js ''10.42.0.9'' \<longrightarrow> r \<noteq> Inr ()"
      using demo_refusals by fast
  qed simp
qed

end
