(* ===== verification/MeshProps.thy ===== *)
theory MeshProps
  imports DaemonProps
begin

text \<open>
  Two daemons and the network between them: what one node's route sends is what the other node's
  dispatcher answers, so that the operation of the mesh is a property of the two programs together.
\<close>

section \<open>A request on the wire\<close>

definition arriving :: "jsstr \<Rightarrow> http_request \<Rightarrow> call" where
  \<comment> \<open>a request sent over plain HTTP by a client at this address, as the peer's server sees it\<close>
  "arriving ip rq = \<lparr> cl_ip = Some ip, cl_opToken = [], cl_adminToken = rq_token rq, cl_method = rq_method rq,
     cl_path = dropWhile (\<lambda>c. c \<noteq> 0x2f) (drop 7 (rq_url rq)), cl_peer = None,
     cl_length = Some (int (length (rq_body rq))), cl_text = Inr (text_decode (rq_body rq)), cl_form = Inr None \<rparr>"

definition fits_body :: "json \<Rightarrow> bool" where
  "fits_body v \<longleftrightarrow> length (json_stringify v) \<le> MAX_JSON_BODY \<and> length (text_encode (json_stringify v)) \<le> MAX_JSON_BODY"

lemma arriving_path:
  assumes "0x2f \<notin> set wg0"
  shows "cl_path (arriving ip (http_post (peerUrl wg0 port (0x2f # p)) v)) = 0x2f # p"
proof -
  have num: "0x2f \<notin> set (radix_str 10 port)"
    using radix_10_digits [of "0x2f" port] by (auto simp: is_digit_def)
  have drop: "dropWhile (\<lambda>c. c \<noteq> 0x2f) (s @ 0x2f # p) = 0x2f # p" if "0x2f \<notin> set s" for s :: jsstr
    using that by (induction s) auto
  have "0x2f \<notin> set (wg0 @ 0x3a # radix_str 10 port)" using assms num by simp
  then show ?thesis
    using drop [OF assms] drop [of "wg0 @ 0x3a # radix_str 10 port"]
    by (simp add: arriving_def http_post_def peerUrl_def js_def)
qed

lemma readJson_ok:
  assumes "quiet o'" "case cl_length q of None \<Rightarrow> True | Some k \<Rightarrow> k \<le> int MAX_JSON_BODY" "cl_text q = Inr t"
    and "length t \<le> MAX_JSON_BODY" "json_parse (number_of_token L) t = Some (JObj kvs)"
  shows "readJson L q o' n = (n, Inr kvs)"
proof -
  have "await o' 0 n = (n, Inr ())" using assms(1) by (simp add: await_def quiet_def)
  then show ?thesis
    using assms(2-5) by (auto simp: readJson_def andthen_def json_body_def split: option.splits)
qed

lemma readJson_arriving:
  assumes "quiet o'" "json_ok (JObj kvs)" "fits_body (JObj kvs)"
  shows "readJson L (arriving ip (http_post url (JObj kvs))) o' n = (n, Inr kvs)"
proof (rule readJson_ok [OF assms(1)])
  let ?t = "json_stringify (JObj kvs)"
  have dec: "text_decode (text_encode ?t) = ?t"
    using text_decode_encode [OF stringify_wf16 [OF assms(2)]] by (simp add: json_stringify_def)
  show "case cl_length (arriving ip (http_post url (JObj kvs))) of None \<Rightarrow> True | Some k \<Rightarrow> k \<le> int MAX_JSON_BODY"
    using assms(3) by (simp add: arriving_def http_post_def fits_body_def)
  show "cl_text (arriving ip (http_post url (JObj kvs))) = Inr ?t"
    using dec by (simp add: arriving_def http_post_def)
  show "length ?t \<le> MAX_JSON_BODY" using assms(3) by (simp add: fits_body_def)
  show "json_parse (number_of_token L) ?t = Some (JObj kvs)"
    unfolding json_stringify_def by (rule json_parse_print [OF quote_json_ok assms(2)])
qed

lemma persist_ok:
  assumes "quiet o'" "4 \<le> io_disk o'"
  obtains fs where "persist c o' n = (n\<lparr> nd_files := fs \<rparr>, Inr ())"
proof (cases "cx_mock c")
  case True
  have "persist c o' n = (n\<lparr> nd_files := nd_files n \<rparr>, Inr ())" using True by (simp add: persist_def)
  then show thesis by (rule that)
next
  case False
  show thesis
    by (rule that [of "foldl (\<lambda>fs (p, t). map_set p t fs) (nd_files n) (take (io_disk o' - 1) (saved_files c n))"])
      (use assms False in \<open>simp add: persist_def Let_def quiet_def\<close>)
qed

lemma route_inbound:
  "is_route q POST ''/api/messages/inbound'' \<Longrightarrow> route x c q o' n = message_inbound (ex_lib x) c q o' n"
  by (simp add: route_def route_home_def route_directory_def route_admin_def route_friends_def route_messages_def is_route_def)

lemma route_send:
  "is_route q POST ''/api/messages'' \<Longrightarrow> route x c q o' n = send_message (ex_lib x) (ex_sha x) c q o' n"
  by (simp add: route_def route_home_def route_directory_def route_admin_def route_friends_def route_messages_def is_route_def)

lemma inbound_stored:
  assumes "quiet o'" "4 \<le> io_disk o'" "is_route q POST ''/api/messages/inbound''"
    and "readJson (ex_lib x) q o' n = (n, Inr [(js ''blob'', JStr blob)])"
    and "verifyKeyResolver (ex_lib x) (nd_book n) = Inr vk"
    and "openMessage (ex_lib x) (cx_identity c) blob vk (Some (markSeen (io_now o' 4))) (io_now o' 3) (nd_msgs n) = (mb, Inr m)"
  shows "snd (serve x c q o' n) = json_response 200 (JObj [(js ''ok'', JBool True)])"
    and "nd_msgs (fst (serve x c q o' n))
      = append_msg (msg_from m) (plain_message (msg_from m) (msg_to m) (msg_body m) (msg_ts m) DirIn) mb"
proof -
  let ?m = "plain_message (msg_from m) (msg_to m) (msg_body m) (msg_ts m) DirIn"
  obtain fs where fs: "persist c o' (n\<lparr> nd_msgs := append_msg (msg_from m) ?m mb \<rparr>)
      = (n\<lparr> nd_msgs := append_msg (msg_from m) ?m mb, nd_files := fs \<rparr>, Inr ())"
    by (rule persist_ok [OF assms(1,2)])
  have "route x c q o' n = (n\<lparr> nd_msgs := append_msg (msg_from m) ?m mb, nd_files := fs \<rparr>,
      Inr (json_response 200 (JObj [(js ''ok'', JBool True)])))"
    unfolding route_inbound [OF assms(3)] message_inbound_def
    using assms(4-6) fs by (simp add: andthen_def str_field_def on_msgs_def store_message_def ok_json_def)
  then show "snd (serve x c q o' n) = json_response 200 (JObj [(js ''ok'', JBool True)])"
    "nd_msgs (fst (serve x c q o' n)) = append_msg (msg_from m) ?m mb"
    by (simp_all add: serve_def answer_def)
qed

lemma message_sent:
  assumes "quiet o'" "4 \<le> io_disk o'" "is_route q POST ''/api/messages''" "isOperator (ex_sha x) c q" "\<not> is_locked q o' n"
    and "\<And>m. readJson (ex_lib x) q o' m = (m, Inr [(js ''peer'', JStr peer), (js ''body'', JStr what)])"
    and "friend peer (nd_book n) = Some fr" "toISOString (io_now o' 4) = Inr ts"
    and "sealMessage (ex_lib x) (io_uuid o') (io_rand o' 0) (cx_identity c) (fr_peer fr) what (io_now o' 3) = Inr blob"
  shows "nd_msgs (fst (serve x c q o' n)) = append_msg peer (plain_message (ctx_selfEd (ex_lib x) c) peer what ts DirOut) (nd_msgs n)"
    and "snd (serve x c q o' n) = json_response 200 (JObj [(js ''ok'', JBool True), (js ''delivered'',
      JBool (case fetch (io_net o') (http_post (peerUrl (peer_wg0 (fr_peer fr)) (cx_peerPort c) (js ''/api/messages/inbound''))
                  (JObj [(js ''blob'', JStr blob)])) of Inl _ \<Rightarrow> False | Inr r \<Rightarrow> http_ok r))])"
proof -
  let ?m = "plain_message (ctx_selfEd (ex_lib x) c) peer what ts DirOut"
  obtain l where l: "requireOperator (ex_sha x) c q o' n = (n\<lparr> nd_limiter := l \<rparr>, Inr ())"
    using assms(4,5) by (auto simp: requireOperator_def is_locked_def case_prod_unfold)
  let ?n = "n\<lparr> nd_limiter := l, nd_msgs := append_msg peer ?m (nd_msgs n) \<rparr>"
  obtain fs where fs: "persist c o' ?n = (?n\<lparr> nd_files := fs \<rparr>, Inr ())" by (rule persist_ok [OF assms(1,2)])
  have "route x c q o' n = (?n\<lparr> nd_files := fs \<rparr>, Inr (json_response 200 (JObj [(js ''ok'', JBool True), (js ''delivered'',
      JBool (case fetch (io_net o') (http_post (peerUrl (peer_wg0 (fr_peer fr)) (cx_peerPort c) (js ''/api/messages/inbound''))
                  (JObj [(js ''blob'', JStr blob)])) of Inl _ \<Rightarrow> False | Inr r \<Rightarrow> http_ok r))])))"
    unfolding route_send [OF assms(3)] send_message_def
    using assms(1,6-9) l fs
    by (simp add: andthen_def str_field_def on_msgs_def store_message_def ok_json_def deliver_def quiet_def)
  then show "nd_msgs (fst (serve x c q o' n)) = append_msg peer ?m (nd_msgs n)"
    "snd (serve x c q o' n) = json_response 200 (JObj [(js ''ok'', JBool True), (js ''delivered'',
      JBool (case fetch (io_net o') (http_post (peerUrl (peer_wg0 (fr_peer fr)) (cx_peerPort c) (js ''/api/messages/inbound''))
                  (JObj [(js ''blob'', JStr blob)])) of Inl _ \<Rightarrow> False | Inr r \<Rightarrow> http_ok r))])"
    by (simp_all add: serve_def answer_def)
qed

lemma append_seen [simp]: "mb_seen (append_msg p m b) = mb_seen b"
  by (simp add: append_msg_def Let_def)

lemma last_log_append [simp]: "last (log_of p (append_msg p m b)) = m"
  by (simp add: log_of_append MAX_PER_PEER_def)

definition own_post :: "string \<Rightarrow> (jsstr \<times> json) list \<Rightarrow> call" where
  \<comment> \<open>what the operator's browser on the node itself sends\<close>
  "own_post path body = arriving (js ''127.0.0.1'') (http_post (js ''http://127.0.0.1'' @ js path) (JObj body))"

lemma own_post_operator: "isOperator sha c (own_post path body)"
  by (simp add: isOperator_def manageOk_def operatorOk_def LOOPBACK_def own_post_def arriving_def)

lemma own_post_body:
  assumes "quiet o'" "json_ok (JObj kvs)" "fits_body (JObj kvs)"
  shows "readJson L (own_post path kvs) o' n = (n, Inr kvs)"
  unfolding own_post_def by (rule readJson_arriving [OF assms])

lemma too_large_refused:
  assumes "quiet o'" "json_ok (JObj kvs)" "\<not> fits_body (JObj kvs)"
    and "is_route (arriving ip (http_post url (JObj kvs))) POST ''/api/messages/inbound''"
  shows "fst (serve x c (arriving ip (http_post url (JObj kvs))) o' n) = n"
    and "\<not> http_ok (snd (serve x c (arriving ip (http_post url (JObj kvs))) o' n))"
proof -
  let ?q = "arriving ip (http_post url (JObj kvs))" and ?t = "json_stringify (JObj kvs)"
  have dec: "text_decode (text_encode ?t) = ?t"
    using text_decode_encode [OF stringify_wf16 [OF assms(2)]] by (simp add: json_stringify_def)
  have "readJson (ex_lib x) ?q o' n = (n, throw PayloadTooLarge ''body too large'')"
    using assms(1,3) dec
    by (auto simp: readJson_def arriving_def http_post_def fits_body_def andthen_def await_def quiet_def json_body_def)
  then have "route x c ?q o' n = (n, throw PayloadTooLarge ''body too large'')"
    unfolding route_inbound [OF assms(4)] message_inbound_def by (simp add: andthen_def throw_def)
  then show "fst (serve x c ?q o' n) = n" "\<not> http_ok (snd (serve x c ?q o' n))"
    by (simp_all add: serve_def answer_def throw_def errorStatus_def http_ok_def)
qed

text \<open>
  C12: a message crosses the mesh: when the operator of one node posts a message to a friend, and the
  friend's node has that node as friend too, the clocks agree within the window and the id is new, the
  sender's route stores the message as sent, and answers \<open>delivered\<close> exactly when the sealed blob fits
  the peer's body limit; then the peer's log ends with the message under the sender's key, and its id
  is spent. A message that does not fit is stored as sent all the same, and nothing of the peer
  changes.
\<close>

theorem message_across_mesh:
  assumes "lib_ok L" "ex_lib xA = L" "ex_lib xB = L" "id_ok L (cx_identity cA)" "id_ok L (cx_identity cB)"
    and "quiet oA" "quiet oB" "4 \<le> io_disk oA" "4 \<le> io_disk oB"
    and "fits_body (JObj [(js ''peer'', JStr (ctx_selfEd L cB)), (js ''body'', JStr txt)])"
    and "q = own_post ''/api/messages'' [(js ''peer'', JStr (ctx_selfEd L cB)), (js ''body'', JStr txt)]"
    and "\<not> is_locked q oA nA"
    and "friend (ctx_selfEd L cB) (nd_book nA) = Some fr" "fr_peer fr = peerPubOf L (cx_identity cB) lbl w" "0x2f \<notin> set w"
    and "reachable (book_init (cx_identity cB) lbl' w') (book_step L) (nd_book nB)"
    and "friend (ctx_selfEd L cA) (nd_book nB) = Some frA"
    and "io_net oA = (\<lambda>rq. Some (snd (serve xB cB (arriving ip rq) oB nB)))"
    and "toISOString (io_now oA 3) = Inr ts" "toISOString (io_now oA 4) = Inr ts'"
    and "- MAX_MSG_SKEW_MS \<le> io_now oB 3 - io_now oA 3" "io_now oB 3 - io_now oA 3 \<le> MAX_MSG_AGE_MS"
    and "io_uuid oA \<noteq> []" "\<not> map_has (mb_seen (nd_msgs nB)) (io_uuid oA)"
  shows "\<exists>blob rq. rq = http_post (peerUrl w (cx_peerPort cA) (js ''/api/messages/inbound'')) (JObj [(js ''blob'', JStr blob)])
    \<and> snd (serve xA cA q oA nA) = json_response 200 (JObj [(js ''ok'', JBool True),
        (js ''delivered'', JBool (fits_body (JObj [(js ''blob'', JStr blob)])))])
    \<and> last (log_of (ctx_selfEd L cB) (nd_msgs (fst (serve xA cA q oA nA))))
        = plain_message (ctx_selfEd L cA) (ctx_selfEd L cB) txt ts' DirOut
    \<and> (if fits_body (JObj [(js ''blob'', JStr blob)])
       then last (log_of (ctx_selfEd L cA) (nd_msgs (fst (serve xB cB (arriving ip rq) oB nB))))
              = plain_message (ctx_selfEd L cA) (ctx_selfEd L cB) txt ts DirIn
            \<and> map_has (mb_seen (nd_msgs (fst (serve xB cB (arriving ip rq) oB nB)))) (io_uuid oA)
       else fst (serve xB cB (arriving ip rq) oB nB) = nB)"
proof -
  have edA: "ctx_selfEd L cA = toB64 L (publicKey (ed25519 (cx_identity cA)))"
    and edB: "ctx_selfEd L cB = toB64 L (publicKey (ed25519 (cx_identity cB)))" by (simp_all add: ctx_selfEd_def)
  have peer: "peer_ed (fr_peer fr) = toB64 L (publicKey (ed25519 (cx_identity cB)))"
    "peer_x (fr_peer fr) = toB64 L (boxPublicKey (x25519 (cx_identity cB)))" "peer_wg0 (fr_peer fr) = w"
    using assms(14) by (simp_all add: peerPubOf_def)
  have ok: "book_ok L (nd_book nB)" "book_wf (nd_book nB)"
    by (rule book_machine.reachable_inv [OF assms(16)], rule book_wf_machine.reachable_inv [OF assms(16)])
  obtain vk where vk: "verifyKeyResolver L (nd_book nB) = Inr vk"
    "vk (toB64 L (publicKey (ed25519 (cx_identity cA)))) = Some (publicKey (ed25519 (cx_identity cA)))"
    by (rule friend_resolves [OF lib_okD(1) [OF assms(1)] ok assms(17) [unfolded edA]])
  let ?m = "\<lparr> msg_id = Some (io_uuid oA), msg_from = ctx_selfEd L cA, msg_to = peer_ed (fr_peer fr), msg_body = txt, msg_ts = ts \<rparr>"
  obtain blob mb where blob: "sealMessage L (io_uuid oA) (io_rand oA 0) (cx_identity cA) (fr_peer fr) txt (io_now oA 3) = Inr blob"
    "openMessage L (cx_identity cB) blob vk (Some (markSeen (io_now oB 4))) (io_now oB 3) (nd_msgs nB) = (mb, Inr ?m)"
    "markSeen (io_now oB 4) (io_uuid oA) (io_now oA 3) (nd_msgs nB) = (mb, True)"
    unfolding edA
    by (rule deliver_message [where keyFor = vk and rcpt = "fr_peer fr" and t = "io_now oA 3" and now = "io_now oB 3"
        and uuid = "io_uuid oA" and mb = "nd_msgs nB" and r = "io_rand oA 0" and body = "txt" and now' = "io_now oB 4",
        OF assms(1,4,5) vk(2) peer(1,2) assms(19,21-24)])
  let ?v = "JObj [(js ''blob'', JStr blob)]"
  let ?rq = "http_post (peerUrl w (cx_peerPort cA) (js ''/api/messages/inbound'')) ?v"
  let ?B = "serve xB cB (arriving ip ?rq) oB nB"
  have route: "is_route (arriving ip ?rq) POST ''/api/messages/inbound''"
  proof -
    have path: "js ''/api/messages/inbound'' = 0x2f # js ''api/messages/inbound''" by (simp add: js_def)
    have "cl_path (arriving ip ?rq) = js ''/api/messages/inbound''"
      unfolding path by (rule arriving_path [OF assms(15)])
    then show ?thesis by (simp add: is_route_def arriving_def http_post_def)
  qed
  have send: "is_route q POST ''/api/messages''"
    unfolding assms(11) own_post_def by (simp add: is_route_def arriving_def http_post_def js_def)
  have body: "readJson (ex_lib xA) q oA m = (m, Inr [(js ''peer'', JStr (ctx_selfEd L cB)), (js ''body'', JStr txt)])" for m
    unfolding assms(11) by (rule own_post_body [OF assms(6) _ assms(10)]) simp
  have operator: "isOperator (ex_sha xA) cA q" unfolding assms(11) by (rule own_post_operator)
  note sent = message_sent [where x = xA and c = cA and n = nA and fr = fr and what = "txt",
      OF assms(6,8) send operator assms(12) body assms(13,20),
      unfolded assms(2) peer(3), OF blob(1)]
  have seen: "map_has (mb_seen mb) (io_uuid oA)" using seen.mark_true blob(3) by blast
  show ?thesis
  proof (cases "fits_body ?v")
    case True
    have rd: "readJson L (arriving ip ?rq) oB nB = (nB, Inr [(js ''blob'', JStr blob)])"
      by (rule readJson_arriving [OF assms(7) _ True]) simp
    note stored = inbound_stored [where x = xB and c = cB and n = nB, unfolded assms(3), OF assms(7,9) route rd vk(1) blob(2)]
    have "http_ok (snd ?B)" using stored(1) by (simp add: http_ok_def)
    then show ?thesis
      using sent stored(2) seen True peer(1) edB
      by (intro exI [of _ blob] exI [of _ ?rq]) (simp add: fetch_plain assms(18))
  next
    case False
    have v: "json_ok ?v" by simp
    note big = too_large_refused [OF assms(7) v False route, of xB cB nB]
    then show ?thesis
      using sent False by (intro exI [of _ blob] exI [of _ ?rq]) (simp add: fetch_plain assms(18))
  qed
qed

definition demo_body :: "(jsstr \<times> json) list" where
  "demo_body = [(js ''peer'', JStr (ctx_selfEd demo_lib (demo_ctx 2 (js ''10.42.0.5'')))), (js ''body'', JStr (js ''hi''))]"

lemma demo_len: "length (json_stringify (JObj demo_body)) = 87 \<and> length (text_encode (json_stringify (JObj demo_body))) = 87"
  by code_simp

lemma demo_fits: "fits_body (JObj demo_body)"
  using demo_len by (simp add: fits_body_def MAX_JSON_BODY_def)

lemma demo_quiet: "quiet (demo_outside t)" "quiet ((demo_outside t)\<lparr> io_net := net \<rparr>)"
  by (simp_all add: quiet_def demo_outside_def)

theorem message_across_mesh_witness:
  "\<exists>nA nB blob rq. snd (serve demo_externals (demo_ctx 1 (js ''10.42.0.1'')) (own_post ''/api/messages'' demo_body)
       ((demo_outside 0)\<lparr> io_net := (\<lambda>rq. Some (snd (serve demo_externals (demo_ctx 2 (js ''10.42.0.5''))
          (arriving (js ''10.42.0.1'') rq) (demo_outside 0) nB))) \<rparr>) nA)
     = json_response 200 (JObj [(js ''ok'', JBool True), (js ''delivered'', JBool (fits_body (JObj [(js ''blob'', JStr blob)])))])
   \<and> (fits_body (JObj [(js ''blob'', JStr blob)]) \<longrightarrow>
      msg_body (last (log_of (ctx_selfEd demo_lib (demo_ctx 1 (js ''10.42.0.1'')))
        (nd_msgs (fst (serve demo_externals (demo_ctx 2 (js ''10.42.0.5'')) (arriving (js ''10.42.0.1'') rq) (demo_outside 0) nB)))))
      = js ''hi'')"
proof (rule demo_friend)
  let ?cA = "demo_ctx 1 (js ''10.42.0.1'')" and ?cB = "demo_ctx 2 (js ''10.42.0.5'')"
  let ?to = "peerPubOf demo_lib (cx_identity ?cB) (js ''node'') (js ''10.42.0.5'')"
  let ?fr = "\<lparr> fr_peer = ?to, fr_state = AreFriends, fr_nonce = [], fr_since = [] \<rparr>"
  let ?nA = "(demo_node ?cA)\<lparr> nd_book := (nd_book (demo_node ?cA))\<lparr> bk_friends := [(ctx_selfEd demo_lib ?cB, ?fr)] \<rparr> \<rparr>"
  fix b r
  assume b: "reachable (book_init (demo_id 2) (js ''node'') (js ''10.42.0.5'')) (book_step demo_lib) b"
    "friend (selfEd demo_lib (demo_book 1)) b = Some r"
  let ?nB = "(demo_node ?cB)\<lparr> nd_book := b \<rparr>"
  let ?oA = "(demo_outside 0)\<lparr> io_net := (\<lambda>rq. Some (snd (serve demo_externals ?cB (arriving (js ''10.42.0.1'') rq) (demo_outside 0) ?nB))) \<rparr>"
  have ids: "cx_identity ?cA = demo_id 1" "cx_identity ?cB = demo_id 2" by (simp_all add: demo_ctx_def)
  have book: "reachable (book_init (cx_identity ?cB) (js ''node'') (js ''10.42.0.5'')) (book_step demo_lib) (nd_book ?nB)"
    using b(1) ids by simp
  have frB: "friend (ctx_selfEd demo_lib ?cA) (nd_book ?nB) = Some r"
    using b(2) ids by (simp add: ctx_selfEd_def selfEd_def demo_book_def book_new_def)
  have frA: "friend (ctx_selfEd demo_lib ?cB) (nd_book ?nA) = Some ?fr" by (simp add: friend_def)
  have free: "\<not> is_locked (own_post ''/api/messages'' demo_body) ?oA ?nA"
    by (simp add: is_locked_def snd_locked demo_node_def hits_of_def limiter_new_def)
  have slash: "0x2f \<notin> set (js ''10.42.0.5'')" by (simp add: js_def)
  have ok: "id_ok demo_lib (cx_identity ?cA)" "id_ok demo_lib (cx_identity ?cB)" unfolding ids by (rule demo_id_ok)+
  have io: "4 \<le> io_disk ?oA" "4 \<le> io_disk (demo_outside 0)" "io_now ?oA k = 0" "io_now (demo_outside 0) k = 0"
    "io_uuid ?oA \<noteq> []" "\<not> map_has (mb_seen (nd_msgs ?nB)) (io_uuid ?oA)" "ex_lib demo_externals = demo_lib" for k
    by (simp_all add: demo_outside_def demo_node_def message_book_new_def demo_externals_def)
  note cross = message_across_mesh [OF demo_lib_ok io(7) io(7) ok demo_quiet(2) demo_quiet(1) io(1,2)
      demo_fits [unfolded demo_body_def] HOL.refl free [unfolded demo_body_def] frA _ slash book frB]
  have iso: "toISOString (io_now ?oA k) = Inr (iso_str 0)" for k
    using demo_iso_now io(3) by simp
  have skew: "- MAX_MSG_SKEW_MS \<le> io_now (demo_outside 0) 3 - io_now ?oA 3" "io_now (demo_outside 0) 3 - io_now ?oA 3 \<le> MAX_MSG_AGE_MS"
    unfolding io by (simp_all add: MAX_MSG_SKEW_MS_def MAX_MSG_AGE_MS_def)
  have net: "io_net ?oA = (\<lambda>rq. Some (snd (serve demo_externals ?cB (arriving (js ''10.42.0.1'') rq) (demo_outside 0) ?nB)))" by simp
  have to: "fr_peer ?fr = ?to" by simp
  note cross = message_across_mesh [where q = "own_post ''/api/messages'' demo_body" and nA = ?nA and oA = ?oA, OF demo_lib_ok io(7) io(7) ok demo_quiet(2) demo_quiet(1) io(1,2)
      demo_fits [unfolded demo_body_def] _ free frA to slash book frB net iso iso skew io(5,6), unfolded demo_body_def, OF HOL.refl]
  from cross [folded demo_body_def] obtain blob rq where run:
    "snd (serve demo_externals ?cA (own_post ''/api/messages'' demo_body) ?oA ?nA)
      = json_response 200 (JObj [(js ''ok'', JBool True), (js ''delivered'', JBool (fits_body (JObj [(js ''blob'', JStr blob)])))])"
    "fits_body (JObj [(js ''blob'', JStr blob)]) \<longrightarrow>
      last (log_of (ctx_selfEd demo_lib ?cA) (nd_msgs (fst (serve demo_externals ?cB (arriving (js ''10.42.0.1'') rq) (demo_outside 0) ?nB))))
        = plain_message (ctx_selfEd demo_lib ?cA) (ctx_selfEd demo_lib ?cB) (js ''hi'') (iso_str 0) DirIn"
    by (elim exE conjE) (rule that, assumption, rule impI, simp only: if_True, elim conjE, assumption)
  have "fits_body (JObj [(js ''blob'', JStr blob)]) \<longrightarrow>
      msg_body (last (log_of (ctx_selfEd demo_lib ?cA) (nd_msgs (fst (serve demo_externals ?cB (arriving (js ''10.42.0.1'') rq) (demo_outside 0) ?nB)))))
        = js ''hi''"
    using run(2) by (simp add: plain_message_def)
  with run(1) show ?thesis by (intro exI conjI)
qed

end
