(* ===== verification/Boot.thy ===== *)
theory Boot
  imports Router
begin

text \<open>
  main.ts, from the command line to the running daemon: the numeric settings, the arguments, the
  bind address, the admin token and its allowlist, and \<open>boot\<close>, which reads the environment and the
  data directory into the context and the first state; then what \<open>main\<close> does beside serving. A
  setting that is a number but not a whole one is not represented. Writing into a directory that is
  not writable throws; other file errors are a missing file.
\<close>

section \<open>The machine\<close>

datatype ip_family = IPv4 | IPv6

record interface_addr =
  ia_address :: jsstr
  ia_family :: ip_family
  ia_internal :: bool

record host =
  ho_env :: "(jsstr, jsstr) jsmap" \<comment> \<open>\<open>process.env\<close>\<close>
  ho_home :: jsstr \<comment> \<open>\<open>homedir()\<close>\<close>
  ho_interfaces :: "(jsstr, interface_addr list) jsmap" \<comment> \<open>\<open>networkInterfaces()\<close>\<close>
  ho_hostname :: "jsstr \<Rightarrow> jsstr option" \<comment> \<open>\<open>new URL(s).hostname\<close>; \<open>None\<close>: it throws\<close>
  ho_rand :: "nat \<Rightarrow> bytes" \<comment> \<open>the successive draws of randomness\<close>
  ho_writable :: bool
  ho_registry :: registry_store \<comment> \<open>what \<open>registry.db\<close> holds\<close>
  ho_events :: event_store
  ho_rows :: "file_row list \<times> nat" \<comment> \<open>the table of the share's database and its sequence\<close>

definition env :: "host \<Rightarrow> string \<Rightarrow> jsstr option" where
  "env h k = map_get (ho_env h) (js k)"

definition env_or :: "host \<Rightarrow> string \<Rightarrow> jsstr \<Rightarrow> jsstr" where
  \<comment> \<open>\<open>process.env.K ?? d\<close>\<close>
  "env_or h k d = (case env h k of None \<Rightarrow> d | Some v \<Rightarrow> v)"

section \<open>Settings\<close>

definition or_else :: "jsstr \<Rightarrow> jsstr \<Rightarrow> jsstr" where
  \<comment> \<open>\<open>s || t\<close>\<close>
  "or_else s t = (if s = [] then t else s)"

definition resolveHost :: "host \<Rightarrow> jsstr \<Rightarrow> bool \<Rightarrow> jsstr \<Rightarrow> jsstr" where
  "resolveHost h explicit mock wgIface =
     (if explicit \<noteq> [] then explicit
      else if mock then js ''127.0.0.1''
      else
        let addrs = (case map_get (ho_interfaces h) wgIface of None \<Rightarrow> [] | Some as \<Rightarrow> as);
            v4 = find (\<lambda>a. ia_family a = IPv4 \<and> \<not> ia_internal a) addrs;
            v6 = find (\<lambda>a. ia_family a = IPv6 \<and> \<not> ia_internal a) addrs
        in (case v4 of
              Some a \<Rightarrow> ia_address a
            | None \<Rightarrow> (case v6 of Some a \<Rightarrow> ia_address a | None \<Rightarrow> js ''127.0.0.1'')))"

definition numConfig :: "(jsstr \<Rightarrow> js_number) \<Rightarrow> jsstr option \<Rightarrow> string \<Rightarrow> int \<Rightarrow> int res" where
  "numConfig num raw name fallback =
     (case raw of
        None \<Rightarrow> Inr fallback
      | Some s \<Rightarrow>
          if s = [] then Inr fallback
          else
            let bad = Inl (Err JsError (js (name @ '' must be a positive number, got: '') @ json_stringify (JStr s)))
            in (case js_Number num s of
                  NaN \<Rightarrow> bad
                | Infinite _ \<Rightarrow> bad
                | Whole n \<Rightarrow> if n \<le> 0 then bad else Inr n))"

record args =
  ar_mock :: bool
  ar_host :: jsstr
  ar_port :: int

fun parse_args :: "(jsstr \<Rightarrow> js_number) \<Rightarrow> jsstr list \<Rightarrow> args \<Rightarrow> args res" where
  \<comment> \<open>the loop; an option at the end has no value\<close>
  "parse_args num [] a = Inr a"
| "parse_args num (s # ss) a =
     (if s = js ''--mock'' then parse_args num ss (a\<lparr> ar_mock := True \<rparr>)
      else if s = js ''--host'' then
        (case ss of
           [] \<Rightarrow> Inr (a\<lparr> ar_host := [] \<rparr>)
         | v # rest \<Rightarrow> parse_args num rest (a\<lparr> ar_host := v \<rparr>))
      else if s = js ''--port'' then
        (case ss of
           [] \<Rightarrow> rmap (\<lambda>p. a\<lparr> ar_port := p \<rparr>) (numConfig num None ''--port'' 8787)
         | v # rest \<Rightarrow> rbind (numConfig num (Some v) ''--port'' 8787) (\<lambda>p. parse_args num rest (a\<lparr> ar_port := p \<rparr>)))
      else errs JsError ''unknown argument: '' s)"

definition parseArgs :: "(jsstr \<Rightarrow> js_number) \<Rightarrow> host \<Rightarrow> jsstr list \<Rightarrow> args res" where
  "parseArgs num h argv =
     rbind (numConfig num (env h ''ISLAND_PORT'') ''ISLAND_PORT'' 8787) (\<lambda>p.
       parse_args num argv \<lparr> ar_mock = False, ar_host = [], ar_port = p \<rparr>)"

definition status_label :: "host \<Rightarrow> jsstr \<Rightarrow> jsstr \<Rightarrow> jsstr" where
  \<comment> \<open>the configured display name, else the host of the URL, else the URL\<close>
  "status_label h lbl url =
     (if lbl = [] \<and> url \<noteq> [] then (case ho_hostname h url of Some n \<Rightarrow> n | None \<Rightarrow> url) else lbl)"

definition enabled :: "host \<Rightarrow> args \<Rightarrow> string \<Rightarrow> bool" where
  \<comment> \<open>\<open>args.mock || /^(1|true|yes)$/i.test(process.env.K ?? "")\<close>\<close>
  "enabled h a k \<longleftrightarrow> ar_mock a \<or> map upper_ascii (env_or h k []) \<in> {js ''1'', js ''TRUE'', js ''YES''}"

definition admin_pubs :: "host \<Rightarrow> jsstr list" where
  "admin_pubs h = filter (\<lambda>s. s \<noteq> []) (map trim (splitOn 0x2c (env_or h ''ISLAND_ADMIN_PUBKEY'' [])))"

definition strip_port :: "jsstr \<Rightarrow> jsstr" where
  \<comment> \<open>\<open>s.replace(/:\d+$/, "")\<close>\<close>
  "strip_port s =
     (let r = rev s; rest = dropWhile is_digit r
      in if rest \<noteq> [] \<and> hd rest = 0x3a \<and> takeWhile is_digit r \<noteq> [] then rev (tl rest) else s)"

section \<open>The data directory\<close>

definition write_files :: "host \<Rightarrow> (files \<Rightarrow> files) \<Rightarrow> (files, unit) act" where
  "write_files h f fs = (if ho_writable h then (f fs, Inr ()) else (fs, throw JsError ''EACCES''))"

definition provisionAdminToken :: "lib \<Rightarrow> host \<Rightarrow> bool \<Rightarrow> jsstr \<Rightarrow> (files, jsstr) act" where
  "provisionAdminToken L h mock dataDir fs =
     (if mock then (fs, Inr [])
      else if env_or h ''ISLAND_ADMIN_TOKEN'' [] \<noteq> [] then (fs, Inr (env_or h ''ISLAND_ADMIN_TOKEN'' []))
      else
        case map_get fs (path_join dataDir ''admin.token'') of
          Some t \<Rightarrow> (fs, Inr (trim t))
        | None \<Rightarrow>
            let tok = to_base64 L URLSAFE_NO_PADDING (ho_rand h 0)
            in andthen (write_files h (\<lambda>fs. map_set (path_join dataDir FIRSTRUN_MARKER) []
                                       (map_set (path_join dataDir ''admin.token'') tok fs)))
                 (\<lambda>_. done_with tok) fs)"

definition node_identity :: "lib \<Rightarrow> host \<Rightarrow> jsstr \<Rightarrow> (files, identity) act" where
  \<comment> \<open>the identity of the directory, made on the first run\<close>
  "node_identity L h d =
     andthen (\<lambda>fs. if map_has fs (path_join d ''ed25519.key'') then (fs, Inr ())
                   else write_files h (saveIdentity L d (generateIdentity L (ho_rand h 1) (ho_rand h 2))) fs) (\<lambda>_.
     (\<lambda>fs. (fs, loadIdentity L fs d)))"

definition saved_book :: "lib \<Rightarrow> files \<Rightarrow> jsstr \<Rightarrow> identity \<Rightarrow> jsstr \<Rightarrow> jsstr \<Rightarrow> book res" where
  "saved_book L fs dataDir i lbl wg0 =
     (case map_get fs (path_join dataDir ''friends.json'') of
        None \<Rightarrow> Inr (book_new i lbl wg0)
      | Some s \<Rightarrow> rbind (of_lib ''JSON Parse error'' (json_parse (number_of_token L) s)) (book_fromJSON i lbl wg0))"

definition saved_messages :: "lib \<Rightarrow> files \<Rightarrow> jsstr \<Rightarrow> message_book res" where
  "saved_messages L fs dataDir =
     (case map_get fs (path_join dataDir ''messages.json'') of
        None \<Rightarrow> Inr message_book_new
      | Some s \<Rightarrow> rbind (of_lib ''JSON Parse error'' (json_parse (number_of_token L) s)) messages_fromJSON)"

definition share_of_env :: "(jsstr \<Rightarrow> js_number) \<Rightarrow> host \<Rightarrow> any_share res" where
  \<comment> \<open>\<open>buildShare()\<close>, with the rows that the database has\<close>
  "share_of_env num h =
     rmap (\<lambda>s. case s of Sql t \<Rightarrow> Sql (t\<lparr> sql_rows := fst (ho_rows h), sql_seq := snd (ho_rows h) \<rparr>) | _ \<Rightarrow> s)
       (buildShare (\<lambda>s. case js_Number num s of Whole n \<Rightarrow> if 0 < n then Some (nat n) else None | _ \<Rightarrow> None) (ho_env h))"

section \<open>Boot\<close>

definition mock_admin :: "lib \<Rightarrow> host \<Rightarrow> args \<Rightarrow> identity option" where
  "mock_admin L h a =
     (if ar_mock a \<and> admin_pubs h = [] then Some (generateIdentity L (ho_rand h 3) (ho_rand h 4)) else None)"

definition admin_app_of :: "lib \<Rightarrow> host \<Rightarrow> files \<Rightarrow> admin_app option res" where
  "admin_app_of L h fs =
     (let keyDir = env_or h ''ISLAND_ADMIN_KEY_DIR'' []; target = env_or h ''ISLAND_GATE_TARGET'' []
      in if keyDir = [] then Inr None
         else rmap (\<lambda>i. Some
           \<lparr> aa_identity = i, aa_target = target, aa_targetX25519 = env_or h ''ISLAND_GATE_TARGET_X25519'' [],
             aa_targetToken = env_or h ''ISLAND_GATE_TARGET_TOKEN'' [],
             aa_targetLabel = status_label h (env_or h ''ISLAND_GATE_TARGET_LABEL'' []) target \<rparr>)
           (loadIdentity L fs keyDir))"

definition boot_state :: "lib \<Rightarrow> (jsstr \<Rightarrow> js_number) \<Rightarrow> host \<Rightarrow> args \<Rightarrow> jsstr \<Rightarrow> jsstr \<Rightarrow> jsstr
    \<Rightarrow> (files, identity \<times> book \<times> any_share \<times> message_book \<times> gate) act" where
  \<comment> \<open>the two branches on \<open>args.mock\<close>: everything in memory, or the identity and what \<open>persist\<close> saved\<close>
  "boot_state L num h a dataDir lbl wg0 =
     (if ar_mock a then
        let i = generateIdentity L (ho_rand h 1) (ho_rand h 2)
        in done_with (i, book_new i lbl wg0, Mem (mem_new DEFAULT_SHARE_MAX_BYTES), message_book_new, gate_new)
      else
        andthen (node_identity L h (env_or h ''ISLAND_IDENTITY_DIR'' (path_join dataDir ''identity''))) (\<lambda>i.
        (\<lambda>fs. (fs,
           rbind (saved_book L fs dataDir i lbl wg0) (\<lambda>b.
           rbind (saved_messages L fs dataDir) (\<lambda>m.
           rbind (share_of_env num h) (\<lambda>s.
             Inr (i, b, s, m, boot_gate L (map_get fs (path_join dataDir ''gate.json''))))))))))"

definition boot :: "lib \<Rightarrow> (jsstr \<Rightarrow> js_number) \<Rightarrow> host \<Rightarrow> args \<Rightarrow> (files, ctx \<times> node) act" where
  "boot L num h a =
     (let dataDir = env_or h ''ISLAND_DATA_DIR'' (path_join (ho_home h) ''.islandd'');
          lbl = env_or h ''ISLAND_LABEL'' (if ar_mock a then js ''mock-node'' else js ''node'');
          wgIface = env_or h ''ISLAND_WG_IFACE'' (js ''wg0'');
          wg0 = or_else (env_or h ''ISLAND_WG0'' []) (resolveHost h [] (ar_mock a) wgIface);
          statusUrl = env_or h ''ISLAND_GATE_STATUS_URL'' []
      in andthen (lift_res (numConfig num (env h ''ISLAND_PEER_PORT'') ''ISLAND_PEER_PORT'' (ar_port a))) (\<lambda>peerPort.
         andthen (provisionAdminToken L h (ar_mock a) dataDir) (\<lambda>adminToken.
         andthen (lift_res (numConfig num (env h ''ISLAND_CANARY_FRESHNESS'') ''ISLAND_CANARY_FRESHNESS'' 120)) (\<lambda>fresh.
         andthen (lift_res (numConfig num (env h ''ISLAND_GATE_TTL'') ''ISLAND_GATE_TTL'' 2700)) (\<lambda>ttl.
         andthen (lift_res (admin_keys L (case mock_admin L h a of
              None \<Rightarrow> admin_pubs h | Some m \<Rightarrow> [toB64 L (publicKey (ed25519 m))]))) (\<lambda>keys.
         andthen (\<lambda>fs. (fs, admin_app_of L h fs)) (\<lambda>app.
         andthen (boot_state L num h a dataDir lbl wg0) (\<lambda>(i, b, s, m, g).
         (\<lambda>fs. (fs, Inr
           (\<lparr> cx_mock = ar_mock a, cx_identity = i, cx_label = lbl, cx_wg0 = wg0, cx_wgIface = wgIface,
              cx_peerPort = nat peerPort, cx_gate = \<lparr> ttlSeconds = ttl, noncePruneSeconds = 3600 \<rparr>,
              cx_gateStatusUrl = statusUrl,
              cx_gateStatusLabel = status_label h (env_or h ''ISLAND_GATE_STATUS_LABEL'' []) statusUrl,
              cx_adminApp = app, cx_registryUrl = env_or h ''ISLAND_REGISTRY_URL'' [],
              cx_eventsUrl = env_or h ''ISLAND_EVENTS_URL'' [], cx_adminVerify = adminVerify keys,
              cx_canaryKeyword = env_or h ''ISLAND_CANARY_KEYWORD'' (js ''GREEN18''), cx_canaryFreshnessS = fresh,
              cx_mockAdmin = mock_admin L h a, cx_adminToken = adminToken, cx_dataDir = dataDir,
              cx_opToken = env_or h ''ISLAND_OP_TOKEN'' [] \<rparr>,
            \<lparr> nd_book = b, nd_share = s, nd_msgs = m, nd_gate = g,
              nd_registry = (if enabled h a ''ISLAND_REGISTRY'' then Some (if ar_mock a then [] else ho_registry h) else None),
              nd_events = (if enabled h a ''ISLAND_EVENTS'' then Some (if ar_mock a then [] else ho_events h) else None),
              nd_limiter = limiter_new 10 (5 * 60000), nd_files = fs \<rparr>)))))))))))"

section \<open>Main\<close>

definition is_command :: "jsstr list \<Rightarrow> bool" where
  \<comment> \<open>a leading word that is no flag is a command of the CLI\<close>
  "is_command argv \<longleftrightarrow> argv \<noteq> [] \<and> hd argv \<noteq> [] \<and> \<not> startsWith (hd argv) (js ''--'')"

definition bind_host :: "host \<Rightarrow> args \<Rightarrow> ctx \<Rightarrow> jsstr" where
  "bind_host h a c = strip_port (or_else (ar_host a) (or_else (env_or h ''ISLAND_HOST'' []) (cx_wg0 c)))"

definition announce_self :: "lib \<Rightarrow> ctx \<Rightarrow> outside \<Rightarrow> jsstr res option" where
  \<comment> \<open>the friend code that is logged, or the error\<close>
  "announce_self L c o' =
     (if cx_registryUrl c = [] then None
      else Some (announce L (io_net o') (cx_registryUrl c) (cx_identity c) (cx_wg0 c) (cx_label c)))"

definition push_events :: "lib \<Rightarrow> (jsstr \<Rightarrow> js_number) \<Rightarrow> ctx \<Rightarrow> outside \<Rightarrow> node \<Rightarrow> bool option" where
  \<comment> \<open>one round of the minute's push: was the report delivered; a rejection is ignored\<close>
  "push_events L num c o' n =
     (if cx_eventsUrl c = [] then None
      else Some (case readouts L num c o' of
          Inl _ \<Rightarrow> False
        | Inr (wg, jails, daemon) \<Rightarrow>
            report L (io_net o') (cx_eventsUrl c) (cx_identity c) (cx_label c)
              (collectLocal jails wg daemon (\<lambda>w. map_option (\<lambda>r. peer_label (fr_peer r)) (friendByWg0 w (nd_book n))))
              (io_now o' 3)))"

end
