(* ===== verification/Cli.thy ===== *)
theory Cli
  imports Boot
begin

text \<open>
  cli.ts: the command line of a node. A command runs against a terminal: what it printed, the files
  of the machine, and the world behind the network, which every request may change. A handler ends
  with the exit code; \<open>usage()\<close> prints the help and exits with 2. What \<open>console.log\<close> makes of a value that is not a string is left to \<open>OutValue\<close>.
\<close>

section \<open>The terminal\<close>

datatype line = Out jsstr | OutValue "json option" | ErrLine jsstr

record 'w terminal =
  tm_world :: 'w
  tm_files :: files
  tm_out :: "line list"

record cli_request = http_request +
  rq_opToken :: jsstr \<comment> \<open>the header \<open>x-op-token\<close>, empty when absent\<close>

type_synonym 'w server = "cli_request \<Rightarrow> 'w \<Rightarrow> 'w \<times> http_response option"

definition say :: "line \<Rightarrow> ('w terminal, unit) act" where
  "say l t = (t\<lparr> tm_out := tm_out t @ [l] \<rparr>, Inr ())"

definition exit_with :: "line \<Rightarrow> nat \<Rightarrow> ('w terminal, nat) act" where
  "exit_with l code = andthen (say l) (\<lambda>_. done_with code)"

definition send_request :: "'w server \<Rightarrow> cli_request \<Rightarrow> ('w terminal, http_response) act" where
  "send_request srv rq t =
     (case rbind (header_value (rq_token rq)) (\<lambda>a. rmap (\<lambda>o'. rq\<lparr> rq_token := a, rq_opToken := o' \<rparr>) (header_value (rq_opToken rq))) of
        Inl e \<Rightarrow> (t, Inl e)
      | Inr rq' \<Rightarrow> (case srv rq' (tm_world t) of (w, r) \<Rightarrow> (t\<lparr> tm_world := w \<rparr>, of_lib ''Unable to connect'' r)))"

lemma send_plain:
  assumes "header_value (rq_token rq) = Inr (rq_token rq)" "header_value (rq_opToken rq) = Inr (rq_opToken rq)"
  shows "send_request srv rq t = (case srv rq (tm_world t) of (w, r) \<Rightarrow> (t\<lparr> tm_world := w \<rparr>, of_lib ''Unable to connect'' r))"
  using assms by (cases rq) (simp add: send_request_def)

definition on_files :: "(files, 'a) act \<Rightarrow> ('w terminal, 'a) act" where
  "on_files m t = (case m (tm_files t) of (fs, r) \<Rightarrow> (t\<lparr> tm_files := fs \<rparr>, r))"

section \<open>Requests to the daemon\<close>

definition ADDR :: "host \<Rightarrow> jsstr" where
  "ADDR h = env_or h ''ISLAND_ADDR'' (js ''http://127.0.0.1:8787'')"

definition OP :: "host \<Rightarrow> jsstr" where
  "OP h = env_or h ''ISLAND_OP_TOKEN'' []"

definition ADMIN :: "host \<Rightarrow> jsstr" where
  "ADMIN h = env_or h ''ISLAND_ADMIN_TOKEN'' []"

definition json_or_null :: "lib \<Rightarrow> http_response \<Rightarrow> json" where
  \<comment> \<open>\<open>await r.json().catch(() => null)\<close>\<close>
  "json_or_null L r = (case response_json L r of Inl _ \<Rightarrow> JNull | Inr v \<Rightarrow> v)"

definition http_error :: "json \<Rightarrow> nat \<Rightarrow> jsstr res" where
  \<comment> \<open>\<open>(j && j.error) || `HTTP ${status}`\<close>\<close>
  "http_error j status =
     (let e = obj_get j (js ''error'')
      in if truthy e then js_string_opt e else Inr (js ''HTTP '' @ radix_str 10 status))"

definition cli_call :: "host \<Rightarrow> string \<Rightarrow> json option \<Rightarrow> cli_request" where
  "cli_call h path body =
     \<lparr> rq_method = (if body = None then GET else POST), rq_url = ADDR h @ js path, rq_token = ADMIN h,
       rq_body = (case body of None \<Rightarrow> [] | Some v \<Rightarrow> text_encode (json_stringify v)), rq_file = None, rq_opToken = OP h \<rparr>"

definition req :: "lib \<Rightarrow> 'w server \<Rightarrow> host \<Rightarrow> string \<Rightarrow> json option \<Rightarrow> ('w terminal, json) act" where
  "req L srv h path body =
     andthen (send_request srv (cli_call h path body)) (\<lambda>r.
       let j = json_or_null L r
       in if \<not> http_ok r then lift_res (rbind (http_error j (rs_status r)) (\<lambda>m. Inl (Err JsError m)))
          else done_with j)"

section \<open>The help\<close>

definition usage_lines :: "jsstr \<Rightarrow> jsstr list" where
  "usage_lines addr =
     [js ''islandd keygen [dir]         generate this node's identity keypairs (does not overwrite)'',
      js ''islandd canary               mint a signed+sealed canary to open vega's gate'',
      js ''  --admin-dir <dir>          the admin keypair dir (from `islandd keygen`; holds the private key)'',
      js ''  --to-x25519 <b64>          vega's X25519 public key (read it from vega's /api/identity)'',
      js ''  [--text '<keyword '' @ 0x2026 # js ''>']     the request (default '' @ 0x22 # js ''<keyword> open the gate'' @ 0x22 # js '')'',
      js ''  [--keyword GREEN18]        the canary keyword (default GREEN18 / ISLAND_CANARY_KEYWORD)'',
      js ''  [--send <url>]             POST the canary to vega; omit to just print the blob'',
      js ''  [--admin-token <tok>]      vega's admin token (/admin/canary is admin-gated; or ISLAND_ADMIN_TOKEN)'',
      js ''islandd friend <command>'',
      js ''  invite [--ttl <seconds>]   issue an invite to hand to a friend (default 24h)'',
      js ''  accept  '<token>'          accept an invite -> prints a reply to send back'',
      js ''  confirm '<reply>'          finish a friendship you invited'',
      js ''  list                       show friends + pending requests'',
      [],
      js ''friend commands connect to ISLAND_ADDR ('' @ addr @ js ''). For a remote/headless node, set'',
      js ''ISLAND_ADMIN_TOKEN (the node's admin credential; ISLAND_OP_TOKEN also works).'']"

definition usage :: "host \<Rightarrow> ('w terminal, nat) act" where
  "usage h = exit_with (Out (join [0x0a] (usage_lines (ADDR h)))) 2"

definition canary_usage :: "jsstr list" where
  "canary_usage =
     [js ''usage: islandd canary --admin-dir <dir> --to-x25519 <vega x25519 b64>'',
      js ''       [--text '<keyword '' @ 0x2026 # js ''>'] [--keyword GREEN18] [--send <vega url> --admin-token <tok>]'',
      js ''  --to-x25519 is vega's encryption key '' @ 0x2014 # js '' read it from vega's /api/identity.'']"

section \<open>Keys and canaries\<close>

definition keygen :: "lib \<Rightarrow> host \<Rightarrow> jsstr \<Rightarrow> ('w terminal, nat) act" where
  "keygen L h d =
     andthen (asks (\<lambda>t. map_has (tm_files t) (path_join d ''ed25519.key''))) (\<lambda>exists.
       if exists then exit_with (ErrLine (js ''refusing to overwrite an existing identity in '' @ d)) 1
       else
         let i = generateIdentity L (ho_rand h 1) (ho_rand h 2)
         in andthen (on_files (write_files h (saveIdentity L d i))) (\<lambda>_.
            andthen (say (Out (js ''identity written to '' @ d))) (\<lambda>_.
              exit_with (Out (js ''this node's public key: '' @ toB64 L (publicKey (ed25519 i)))) 0)))"

fun parse_flags :: "jsstr list \<Rightarrow> (jsstr, jsstr) jsmap \<Rightarrow> (jsstr, jsstr) jsmap" where
  "parse_flags [] f = f"
| "parse_flags (a # rest) f =
     (if a = [] \<or> \<not> startsWith a (js ''--'') then parse_flags rest f
      else
        (case rest of
           [] \<Rightarrow> map_set (drop 2 a) (js ''true'') f
         | v # rest' \<Rightarrow>
             if v \<noteq> [] \<and> \<not> startsWith v (js ''--'') then parse_flags rest' (map_set (drop 2 a) v f)
             else parse_flags rest (map_set (drop 2 a) (js ''true'') f)))"

definition parseFlags :: "jsstr list \<Rightarrow> (jsstr, jsstr) jsmap" where
  "parseFlags argv = parse_flags argv []"

definition flag_or :: "(jsstr, jsstr) jsmap \<Rightarrow> string \<Rightarrow> jsstr \<Rightarrow> jsstr" where
  \<comment> \<open>\<open>f[k] ?? d\<close>\<close>
  "flag_or f k d = (case map_get f (js k) of None \<Rightarrow> d | Some v \<Rightarrow> v)"

definition canary_answer :: "json \<Rightarrow> ('w terminal, nat) act" where
  \<comment> \<open>what is printed of a successful answer\<close>
  "canary_answer j =
     andthen (lift_res (if truthy (obj_get j (js ''opened''))
        then rmap (\<lambda>s. js ''Gate opened '' @ 0x2014 # 0x20 # s) (js_string_opt (obj_get j (js ''reason'')))
        else rmap (\<lambda>s. js ''Denied '' @ 0x2014 # 0x20 # s)
               (js_string_opt (nullish (obj_get j (js ''reason'')) (Some (JStr (js ''no reason''))))))) (\<lambda>s.
     andthen (say (Out s)) (\<lambda>_.
     let g = obj_get j (js ''gate'')
     in if \<not> truthy g then done_with 0
        else
          let closes = obj_get (the g) (js ''closes_at'')
          in andthen (lift_res (rbind (js_string_opt (obj_get (the g) (js ''state''))) (\<lambda>st.
                 rmap (\<lambda>cs. js ''gate: '' @ st @ cs)
                   (if truthy closes then rmap (\<lambda>s. js '' (recloses '' @ s @ js '')'') (js_string_opt closes) else Inr []))))
               (\<lambda>s. exit_with (Out s) 0)))"

definition canary_call :: "jsstr \<Rightarrow> jsstr \<Rightarrow> jsstr \<Rightarrow> cli_request" where
  "canary_call url token blob =
     \<lparr> rq_method = POST, rq_url = url @ js ''/admin/canary'', rq_token = token,
       rq_body = text_encode (json_stringify (JObj [(js ''blob'', JStr blob)])), rq_file = None, rq_opToken = [] \<rparr>"

definition mintCanary :: "lib \<Rightarrow> 'w server \<Rightarrow> host \<Rightarrow> int \<Rightarrow> jsstr list \<Rightarrow> ('w terminal, nat) act" where
  "mintCanary L srv h now argv =
     (let f = parseFlags argv;
          adminDir = flag_or f ''admin-dir'' [];
          toX = flag_or f ''to-x25519'' [];
          kw = flag_or f ''keyword'' (env_or h ''ISLAND_CANARY_KEYWORD'' (js ''GREEN18''));
          t = flag_or f ''text'' (kw @ js '' open the gate'');
          url = flag_or f ''send'' [];
          token = flag_or f ''admin-token'' (ADMIN h)
      in if adminDir = [] \<or> toX = [] then exit_with (ErrLine (join [0x0a] canary_usage)) 2
         else
           andthen (on_files (\<lambda>fs. (fs, loadIdentity L fs adminDir))) (\<lambda>adm.
           andthen (lift_res (makeCanary L (ho_rand h 0) (ho_rand h 1) adm kw t toX now)) (\<lambda>blob.
             if url = [] then exit_with (Out blob) 0
             else
               andthen (send_request srv (canary_call url token blob)) (\<lambda>r.
                 let j = json_or_null L r
                 in if \<not> http_ok r
                    then andthen (lift_res (http_error j (rs_status r))) (\<lambda>m. exit_with (ErrLine (js ''error: '' @ m)) 1)
                    else canary_answer j))))"

section \<open>Friends\<close>

definition ttl_json :: "(jsstr \<Rightarrow> js_number) \<Rightarrow> jsstr list \<Rightarrow> json" where
  \<comment> \<open>\<open>ttl\<close> as \<open>JSON.stringify\<close> writes it: a number that is not finite is \<open>null\<close>\<close>
  "ttl_json num rest =
     (case dropWhile (\<lambda>a. a \<noteq> js ''--ttl'') rest of
        [] \<Rightarrow> JNum 86400
      | [_] \<Rightarrow> JNull
      | _ # s # _ \<Rightarrow> (case js_Number num s of Whole n \<Rightarrow> JNum n | _ \<Rightarrow> JNull))"

definition friend_invite :: "lib \<Rightarrow> (jsstr \<Rightarrow> js_number) \<Rightarrow> 'w server \<Rightarrow> host \<Rightarrow> jsstr list \<Rightarrow> ('w terminal, nat) act" where
  "friend_invite L num srv h rest =
     andthen (req L srv h ''/api/friends/token'' (Some (JObj [(js ''ttlSeconds'', ttl_json num rest)]))) (\<lambda>j.
     andthen (lift_res (field j (js ''invite''))) (\<lambda>invite.
     andthen (say (Out (js ''Send this invite to your friend:'' @ [0xa]))) (\<lambda>_.
       exit_with (OutValue invite) 0)))"

definition opt_entry :: "string \<Rightarrow> json option \<Rightarrow> payload" where
  \<comment> \<open>a property of a JSON text: \<open>undefined\<close> is left out\<close>
  "opt_entry k v = (case v of None \<Rightarrow> [] | Some w \<Rightarrow> [(js k, w)])"

definition field_of :: "json option \<Rightarrow> string \<Rightarrow> json option res" where
  \<comment> \<open>\<open>v.k\<close>, which throws on \<open>undefined\<close> and \<open>null\<close>\<close>
  "field_of v k = (case v of None \<Rightarrow> throw JsError ''undefined is not an object'' | Some w \<Rightarrow> field w (js k))"

definition friend_accept_cmd :: "lib \<Rightarrow> 'w server \<Rightarrow> host \<Rightarrow> jsstr \<Rightarrow> ('w terminal, nat) act" where
  "friend_accept_cmd L srv h invite =
     andthen (req L srv h ''/api/friends/receive'' (Some (JObj [(js ''invite'', JStr invite)]))) (\<lambda>j.
     andthen (lift_res (field j (js ''request''))) (\<lambda>request.
     andthen (lift_res (field_of request ''ed25519'')) (\<lambda>ed.
     andthen (req L srv h ''/api/friends/accept'' (Some (JObj (opt_entry ''giver'' ed)))) (\<lambda>j'.
     andthen (lift_res (field j' (js ''reply''))) (\<lambda>reply.
     andthen (lift_res (rbind (field_of request ''label'') js_string_opt)) (\<lambda>lbl.
     andthen (say (Out (js ''Connected to '' @ lbl @ js ''. Send this reply back to them:'' @ [0xa]))) (\<lambda>_.
       exit_with (OutValue reply) 0)))))))"

definition friend_confirm :: "lib \<Rightarrow> 'w server \<Rightarrow> host \<Rightarrow> jsstr \<Rightarrow> ('w terminal, nat) act" where
  "friend_confirm L srv h reply =
     andthen (req L srv h ''/api/friends/confirm'' (Some (JObj [(js ''reply'', JStr reply)]))) (\<lambda>j.
     andthen (lift_res (rbind (field j (js ''friend'')) (\<lambda>f. rbind (field_of f ''peer'') (\<lambda>p.
                rbind (field_of p ''label'') js_string_opt)))) (\<lambda>lbl.
       exit_with (Out (js ''Friendship complete: '' @ lbl)) 0))"

definition array_of :: "json option \<Rightarrow> json list res" where
  \<comment> \<open>the daemon's lists; anything else throws here, where the code would fail at its use\<close>
  "array_of v = (case v of Some (JArr vs) \<Rightarrow> Inr vs | _ \<Rightarrow> throw JsError ''not an array'')"

fun say_each :: "(json \<Rightarrow> jsstr res) \<Rightarrow> json list \<Rightarrow> ('w terminal, unit) act" where
  "say_each f [] = done_with ()"
| "say_each f (v # vs) = andthen (lift_res (f v)) (\<lambda>s. andthen (say (Out s)) (\<lambda>_. say_each f vs))"

definition friend_line :: "json \<Rightarrow> jsstr res" where
  "friend_line f =
     rbind (field_of (Some f) ''peer'') (\<lambda>p.
     rbind (rbind (field_of p ''label'') js_string_opt) (\<lambda>lbl.
     rbind (rbind (field_of p ''ed25519'') str_of) (\<lambda>ed.
       Inr (js ''  '' @ lbl @ js ''  '' @ take 20 ed @ [0x2026]))))"

definition pending_line :: "json \<Rightarrow> jsstr res" where
  "pending_line p =
     rbind (field_of (Some p) ''peer'') (\<lambda>q.
     rbind (rbind (field_of q ''label'') js_string_opt) (\<lambda>lbl.
       Inr (js ''  '' @ lbl @ js ''  (run: islandd friend list to accept via UI)'')))"

definition friend_list :: "lib \<Rightarrow> 'w server \<Rightarrow> host \<Rightarrow> ('w terminal, nat) act" where
  "friend_list L srv h =
     andthen (req L srv h ''/api/friends'' None) (\<lambda>d.
     andthen (lift_res (rbind (field d (js ''friends'')) array_of)) (\<lambda>fs.
     andthen (say (Out (js ''Friends ('' @ radix_str 10 (length fs) @ js ''):''))) (\<lambda>_.
     andthen (say_each friend_line fs) (\<lambda>_.
     andthen (lift_res (rbind (field d (js ''pending'')) array_of)) (\<lambda>ps.
       if ps = [] then done_with 0
       else andthen (say (Out (js ''Pending ('' @ radix_str 10 (length ps) @ js ''):''))) (\<lambda>_.
            andthen (say_each pending_line ps) (\<lambda>_. done_with 0)))))))"

section \<open>The command line\<close>

definition caught :: "('w terminal, nat) act \<Rightarrow> ('w terminal, nat) act" where
  \<comment> \<open>\<open>try { m } catch (e) { console.error("error:", e.message); process.exit(1) }\<close>\<close>
  "caught m t = (case m t of
       (t', Inr code) \<Rightarrow> (t', Inr code)
     | (t', Inl e) \<Rightarrow> exit_with (ErrLine (js ''error: '' @ err_message e)) 1 t')"

definition friend_command :: "lib \<Rightarrow> (jsstr \<Rightarrow> js_number) \<Rightarrow> 'w server \<Rightarrow> host \<Rightarrow> jsstr option \<Rightarrow> jsstr list
    \<Rightarrow> ('w terminal, nat) act" where
  "friend_command L num srv h cmd rest =
     (let arg = (case rest of [] \<Rightarrow> [] | a # _ \<Rightarrow> a)
      in if cmd = Some (js ''invite'') then friend_invite L num srv h rest
         else if cmd = Some (js ''accept'') then (if arg = [] then usage h else friend_accept_cmd L srv h arg)
         else if cmd = Some (js ''confirm'') then (if arg = [] then usage h else friend_confirm L srv h arg)
         else if cmd = Some (js ''list'') then friend_list L srv h
         else usage h)"

definition runCli :: "lib \<Rightarrow> (jsstr \<Rightarrow> js_number) \<Rightarrow> 'w server \<Rightarrow> host \<Rightarrow> int \<Rightarrow> jsstr list \<Rightarrow> ('w terminal, nat) act" where
  "runCli L num srv h now argv =
     (let group = (case argv of [] \<Rightarrow> None | g # _ \<Rightarrow> Some g);
          cmd = (case argv of _ # c # _ \<Rightarrow> Some c | _ \<Rightarrow> None);
          rest = drop 2 argv
      in if group = Some (js ''keygen'')
         then keygen L h (case cmd of Some d \<Rightarrow> d
                | None \<Rightarrow> path_join (env_or h ''ISLAND_DATA_DIR'' (js ''/var/lib/islandd'')) ''identity'')
         else if group = Some (js ''canary'') then mintCanary L srv h now (drop 1 argv)
         else if group \<noteq> Some (js ''friend'') then usage h
         else caught (friend_command L num srv h cmd rest))"

end
