(* ===== verification/BootProps.thy ===== *)
theory BootProps
  imports Cli MeshProps GateProps
begin

text \<open>
  What boot guarantees: the settings it accepts, and that a second boot in the same data directory
  gives back the daemon that \<open>persist\<close> saved, with the same identity, credentials and context.
\<close>

section \<open>Settings\<close>

lemma numConfig_eq_Inr:
  "numConfig num raw name d = Inr n \<longleftrightarrow>
     (raw = None \<or> raw = Some []) \<and> n = d \<or> (\<exists>s. raw = Some s \<and> s \<noteq> [] \<and> js_Number num s = Whole n \<and> 0 < n)"
  by (auto simp: numConfig_def Let_def split: option.splits js_number.splits)

lemma numConfig_positive: "numConfig num raw name d = Inr n \<Longrightarrow> 0 < d \<Longrightarrow> 0 < n"
  by (auto simp: numConfig_eq_Inr)

lemma parse_args_port: "parse_args num argv a = Inr b \<Longrightarrow> 0 < ar_port a \<Longrightarrow> 0 < ar_port b"
proof (induction num argv a rule: parse_args.induct)
  case (2 num s ss a)
  show ?case
  proof (cases "s = js ''--port''")
    case True
    have ne: "s \<noteq> js ''--mock''" "s \<noteq> js ''--host''" unfolding True by (simp_all add: js_def)
    show ?thesis
    proof (cases ss)
      case Nil
      then show ?thesis using 2(4) True ne by (auto simp: res_eq dest!: numConfig_positive)
    next
      case (Cons v rest)
      then obtain p where p: "numConfig num (Some v) ''--port'' 8787 = Inr p" "parse_args num rest (a\<lparr> ar_port := p \<rparr>) = Inr b"
        using 2(4) True ne by (auto simp: res_eq)
      then show ?thesis using 2(3) [OF ne(1,2) True Cons p(2)] numConfig_positive [OF p(1)] by simp
    qed
  qed (use 2 in \<open>auto simp: errs_def split: if_splits list.splits\<close>)
qed simp

section \<open>What a running daemon keeps for the next boot\<close>

lemma path_join_split:
  assumes "0x2f \<notin> set (js s)" "0x2f \<notin> set (js t)"
  shows "path_join d s = path_join e t \<longleftrightarrow> d = e \<and> js s = js t"
proof
  assume eq: "path_join d s = path_join e t"
  have tail: "takeWhile (\<lambda>c. c \<noteq> 0x2f) (rev (path_join x u)) = rev (js u)" if "0x2f \<notin> set (js u)" for x u
  proof -
    have "rev (path_join x u) = rev (js u) @ 0x2f # rev x" by (simp add: path_join_def)
    then show ?thesis using that by (simp add: takeWhile_append takeWhile_eq_all_conv [THEN iffD2])
  qed
  from eq tail [OF assms(1), of d] tail [OF assms(2), of e] have st: "js s = js t" by simp
  then show "d = e \<and> js s = js t" using eq by (simp add: path_join_def)
qed (simp add: path_join_def)

lemma gate_move_nonces: "gate_move cfg g g' \<Longrightarrow> wf_map (consumed g) \<Longrightarrow> wf_map (consumed g')"
proof (induction rule: gate_move.induct)
  case (Begin g cn now)
  have "wf_map (consumed (prune_consumed cfg now g))"
    using Begin by (auto simp: prune_consumed_def distinct_map intro: inj_on_subset)
  then show ?case by (auto simp: gate_begin_def Let_def)
next
  case (OpenOk g clk cn now r)
  then show ?case using job_done_consumed [of cfg clk "JOpen cn now r" True g] by simp
next
  case (OpenFail g clk)
  then show ?case using job_done_consumed [of cfg clk "JOpen undefined 0 []" False g] by simp
next
  case (CloseOk g r now)
  then show ?case using job_done_consumed [of cfg 0 "JClose r now" True g] by simp
next
  case (CloseFail g clk r)
  then show ?case using job_done_consumed [of cfg clk "JClose r 0" False g] by simp
qed simp_all

definition keepable :: "ctx \<Rightarrow> files \<Rightarrow> node \<Rightarrow> bool" where
  "keepable c fs n \<longleftrightarrow> book_wf (nd_book n) \<and> same_owner (book_new (cx_identity c) (cx_label c) (cx_wg0 c)) (nd_book n)
     \<and> messages_ok (nd_msgs n) \<and> wf_map (consumed (nd_gate n)) \<and> other_files_kept c fs (nd_files n)"

lemma keepable_move: "node_move L c n n' \<Longrightarrow> keepable c fs n \<Longrightarrow> keepable c fs n'"
proof (induction rule: node_move.induct)
  case (Book n b)
  then show ?case
    using book_wf_machine.step_inv [OF _ Book.hyps] step_same_owner [OF Book.hyps] by (auto simp: keepable_def same_owner_def)
next
  case (Messages n m)
  then show ?case using message_machine.step_inv [OF _ Messages.hyps] by (simp add: keepable_def)
next
  case (Gate n g)
  then show ?case using gate_move_nonces by (simp add: keepable_def)
next
  case (Files n fs')
  then show ?case by (simp add: keepable_def other_files_kept_def)
qed (simp_all add: keepable_def)

interpretation keep_machine: machine "\<lambda>n. n = n0 \<and> keepable c fs n0" "node_move L c" "keepable c fs" for n0 c fs L
  by unfold_locales (auto intro: keepable_move)

lemma served_keepable:
  "reachable (\<lambda>n. n = n0) (served x c) n \<Longrightarrow> keepable c fs n0 \<Longrightarrow> keepable c fs n"
proof (induction rule: reachable.induct)
  case (next_step s t)
  then show ?case by (auto elim!: servedE intro: keep_machine.steps_inv serve_runs)
qed simp

lemma persist_quiet:
  assumes "quiet o'" "4 \<le> io_disk o'" "\<not> cx_mock c"
  shows "persist c o' n = (n\<lparr> nd_files := foldl (\<lambda>fs (p, t). map_set p t fs) (nd_files n) (saved_files c n) \<rparr>, Inr ())"
  using assms by (simp add: persist_def quiet_def saved_files_def Let_def)

lemma saved_lookups:
  fixes c :: ctx and n :: node and fs :: files
  defines "fs' \<equiv> foldl (\<lambda>fs (p, t). map_set p t fs) fs (saved_files c n)"
  shows "map_get fs' (path_join (cx_dataDir c) ''friends.json'') = Some (json_stringify (book_toJSON (nd_book n)))"
    "map_get fs' (path_join (cx_dataDir c) ''messages.json'') = Some (json_stringify (messages_toJSON (nd_msgs n)))"
    "map_get fs' (path_join (cx_dataDir c) ''gate.json'') = Some (persist_gate (nd_gate n))"
    "other_files_kept c fs fs'"
  using persist_keeps [of c fs 3 n] by (simp_all add: fs'_def saved_files_def)

section \<open>A second boot\<close>

lemma andthen_Inr: "m s = (t, Inr x) \<Longrightarrow> andthen m f s = f x t"
  by (simp add: andthen_def)

lemma provision_cases:
  assumes "provisionAdminToken L h False d fs = (fs', Inr tok)"
  shows "env_or h ''ISLAND_ADMIN_TOKEN'' [] \<noteq> [] \<and> tok = env_or h ''ISLAND_ADMIN_TOKEN'' [] \<and> fs' = fs
    \<or> env_or h ''ISLAND_ADMIN_TOKEN'' [] = [] \<and> (\<exists>t. map_get fs (path_join d ''admin.token'') = Some t \<and> tok = trim t \<and> fs' = fs)
    \<or> env_or h ''ISLAND_ADMIN_TOKEN'' [] = [] \<and> tok = to_base64 L URLSAFE_NO_PADDING (ho_rand h 0)
       \<and> fs' = map_set (path_join d FIRSTRUN_MARKER) [] (map_set (path_join d ''admin.token'') tok fs)"
  using assms
  by (auto simp: provisionAdminToken_def write_files_def andthen_eq_Inr Let_def split: if_splits option.splits)

lemma provision_again:
  assumes "base64_ok L" "provisionAdminToken L h False d fs = (fs', Inr tok)"
    and "map_get gs (path_join d ''admin.token'') = map_get fs' (path_join d ''admin.token'')"
  shows "provisionAdminToken L (h\<lparr> ho_rand := r \<rparr>) False d gs = (gs, Inr tok)"
proof -
  have e: "env_or (h\<lparr> ho_rand := r \<rparr>) k v = env_or h k v" for k v by (simp add: env_or_def env_def)
  have ne: "path_join d ''admin.token'' \<noteq> path_join d FIRSTRUN_MARKER"
    by (simp add: FIRSTRUN_MARKER_def)
  show ?thesis
    using provision_cases [OF assms(2)] assms(3) ne trim_b64 [OF assms(1)]
    by (auto simp: provisionAdminToken_def e)
qed

lemma identity_cases:
  assumes "node_identity L h d fs = (fs', Inr i)"
  shows "loadIdentity L fs' d = Inr i" "map_has fs (path_join d ''ed25519.key'') \<longrightarrow> fs' = fs"
    "\<not> map_has fs (path_join d ''ed25519.key'') \<longrightarrow>
       fs' = saveIdentity L d (generateIdentity L (ho_rand h 1) (ho_rand h 2)) fs"
  using assms by (auto simp: node_identity_def write_files_def andthen_def split: prod.splits sum.splits if_splits)

lemma identity_again:
  assumes "loadIdentity L fs' d = Inr i" "\<forall>f \<in> {''ed25519.key'', ''x25519.key''}. map_get gs (path_join d f) = map_get fs' (path_join d f)"
  shows "node_identity L h d gs = (gs, Inr i)" "loadIdentity L gs d = Inr i"
proof -
  show load: "loadIdentity L gs d = Inr i" using assms by (simp add: loadIdentity_def read_file_def)
  have "\<exists>t. map_get gs (path_join d ''ed25519.key'') = Some t"
    using load by (auto simp: loadIdentity_def read_file_def res_eq)
  then have "map_has gs (path_join d ''ed25519.key'')" by (simp add: map_has_get)
  then show "node_identity L h d gs = (gs, Inr i)" using load by (simp add: node_identity_def andthen_def)
qed

lemma saved_book_back:
  assumes "book_wf b" "map_get fs (path_join d ''friends.json'') = Some (json_stringify (book_toJSON b))"
  shows "saved_book L fs d (bk_id b) (bk_label b) (bk_wg0 b) = Inr b"
proof -
  have "json_parse (number_of_token L) (json_stringify (book_toJSON b)) = Some (book_toJSON b)"
    unfolding json_stringify_def by (rule json_parse_print [OF quote_json_ok book_json_ok [OF assms(1)]])
  moreover have "set_of_json (Some (JArr (map JStr (bk_consumed b)))) = Inr (bk_consumed b)"
    using assms(1) by (intro set_of_strings) (simp add: book_wf_def)
  then have "book_fromJSON (bk_id b) (bk_label b) (bk_wg0 b) (book_toJSON b) = Inr b"
    by (simp add: book_fromJSON_def book_toJSON_def book_new_def)
  ultimately show ?thesis by (simp add: saved_book_def assms(2))
qed

lemma saved_messages_back:
  assumes "messages_ok b" "\<forall>(i, t) \<in> set (mb_seen b). safe_int t"
    and "map_get fs (path_join d ''messages.json'') = Some (json_stringify (messages_toJSON b))"
  shows "saved_messages L fs d = Inr b"
proof -
  have "json_ok (messages_toJSON b)"
    using assms(1,2) by (fastforce simp: messages_ok_def messages_toJSON_def from_entries_def stored_json_def
        list_all_iff split: option.splits)
  then have "json_parse (number_of_token L) (json_stringify (messages_toJSON b)) = Some (messages_toJSON b)"
    unfolding json_stringify_def by (rule json_parse_print [OF quote_json_ok])
  then show ?thesis by (simp add: saved_messages_def assms(3) message_book_fromJSON)
qed

lemma boot_cases:
  assumes "boot L num h a fs = (fs0, Inr (c, n0))" "\<not> ar_mock a"
  obtains fs1 b s m where
    "provisionAdminToken L h False (cx_dataDir c) fs = (fs1, Inr (cx_adminToken c))"
    "admin_app_of L h fs1 = Inr (cx_adminApp c)"
    "node_identity L h (env_or h ''ISLAND_IDENTITY_DIR'' (path_join (cx_dataDir c) ''identity'')) fs1 = (fs0, Inr (cx_identity c))"
    "saved_book L fs0 (cx_dataDir c) (cx_identity c) (cx_label c) (cx_wg0 c) = Inr b"
    "saved_messages L fs0 (cx_dataDir c) = Inr m" "share_of_env num h = Inr s"
    "nd_book n0 = b" "nd_msgs n0 = m" "nd_gate n0 = boot_gate L (map_get fs0 (path_join (cx_dataDir c) ''gate.json''))"
    "nd_files n0 = fs0" "\<not> cx_mock c"
  using assms
  by (auto simp: boot_def boot_state_def Let_def andthen_eq_Inr res_eq split: prod.splits)

lemma boot_again:
  assumes "boot L num h a fs = (fs0, Inr (c, n0))" "\<not> ar_mock a"
    and "provisionAdminToken L (h\<lparr> ho_rand := r \<rparr>) False (cx_dataDir c) gs = (gs, Inr (cx_adminToken c))"
    and "admin_app_of L h gs = Inr (cx_adminApp c)"
    and "node_identity L (h\<lparr> ho_rand := r \<rparr>) (env_or h ''ISLAND_IDENTITY_DIR'' (path_join (cx_dataDir c) ''identity'')) gs
      = (gs, Inr (cx_identity c))"
    and "saved_book L gs (cx_dataDir c) (cx_identity c) (cx_label c) (cx_wg0 c) = Inr b"
    and "saved_messages L gs (cx_dataDir c) = Inr m"
  shows "\<exists>n. boot L num (h\<lparr> ho_rand := r \<rparr>) a gs = (gs, Inr (c, n)) \<and> nd_book n = b \<and> nd_msgs n = m
    \<and> nd_gate n = boot_gate L (map_get gs (path_join (cx_dataDir c) ''gate.json'')) \<and> nd_limiter n = limiter_new 10 (5 * 60000)
    \<and> nd_files n = gs"
proof -
  have e: "env_or (h\<lparr> ho_rand := r \<rparr>) = env_or h" "env (h\<lparr> ho_rand := r \<rparr>) = env h"
    by (simp_all add: env_or_def env_def fun_eq_iff)
  have k: "admin_pubs (h\<lparr> ho_rand := r \<rparr>) = admin_pubs h" "enabled (h\<lparr> ho_rand := r \<rparr>) = enabled h"
    "status_label (h\<lparr> ho_rand := r \<rparr>) = status_label h" "share_of_env num (h\<lparr> ho_rand := r \<rparr>) = share_of_env num h"
    "resolveHost (h\<lparr> ho_rand := r \<rparr>) = resolveHost h"
    by (simp_all add: admin_pubs_def enabled_def status_label_def share_of_env_def resolveHost_def e fun_eq_iff cong: any_share.case_cong)
  have app: "admin_app_of L (h\<lparr> ho_rand := r \<rparr>) = admin_app_of L h"
    by (simp add: admin_app_of_def e k fun_eq_iff Let_def)
  show ?thesis
    using assms
    by (auto simp: boot_def boot_state_def mock_admin_def Let_def andthen_eq_Inr res_eq e k app split: prod.splits)
qed

lemmas names_eq = path_join_split js_def FIRSTRUN_MARKER_def

lemma first_boot_writes:
  assumes "provisionAdminToken L h False d fs = (fs1, Inr tok)" "node_identity L h d' fs1 = (fs0, Inr i)"
  shows "f \<in> {''friends.json'', ''messages.json'', ''gate.json''} \<Longrightarrow> map_get fs0 (path_join e f) = map_get fs (path_join e f)"
    and "map_get fs0 (path_join e ''admin.token'') = map_get fs1 (path_join e ''admin.token'')"
proof -
  have id: "map_get fs0 (path_join e g) = map_get fs1 (path_join e g)"
    if "g \<in> {''friends.json'', ''messages.json'', ''gate.json'', ''admin.token''}" for g
    using that identity_cases(2,3) [OF assms(2)]
    by (cases "map_has fs1 (path_join d' ''ed25519.key'')") (auto simp: saveIdentity_def names_eq)
  show "map_get fs0 (path_join e ''admin.token'') = map_get fs1 (path_join e ''admin.token'')" using id by simp
  assume f: "f \<in> {''friends.json'', ''messages.json'', ''gate.json''}"
  then have "map_get fs1 (path_join e f) = map_get fs (path_join e f)"
    using provision_cases [OF assms(1)] by (auto simp: names_eq)
  then show "map_get fs0 (path_join e f) = map_get fs (path_join e f)" using id [of f] f by auto
qed

lemma keys_stay:
  assumes "loadIdentity L fs1 k = Inr ai" "node_identity L h d fs1 = (fs0, Inr i)" "f \<in> {''ed25519.key'', ''x25519.key''}"
  shows "map_get fs0 (path_join k f) = map_get fs1 (path_join k f)"
proof (cases "map_has fs1 (path_join d ''ed25519.key'')")
  case True
  then show ?thesis using identity_cases(2) [OF assms(2)] by simp
next
  case False
  have "map_has fs1 (path_join k ''ed25519.key'')"
    using assms(1) by (auto simp: loadIdentity_def read_file_def res_eq map_has_get)
  then have "k \<noteq> d" using False by metis
  then show ?thesis
    using identity_cases(3) [OF assms(2)] False assms(3) by (auto simp: saveIdentity_def names_eq)
qed

lemma kept_elsewhere:
  assumes "other_files_kept c fs gs" "f \<in> {''admin.token'', ''ed25519.key'', ''x25519.key''}"
  shows "map_get gs (path_join e f) = map_get fs (path_join e f)"
proof -
  have "path_join e f \<notin> set (daemon_files c)" using assms(2) by (auto simp: daemon_files_def names_eq)
  then show ?thesis using assms(1) unfolding other_files_kept_def by blast
qed

text \<open>
  C10: a restart is invisible to the friends: a daemon whose first boot was in a directory without saved
  state, after any requests, interleaved in any way, and one \<open>persist\<close> that succeeds, boots again with
  the same identity, admin token and settings (whatever the randomness), with the same friends,
  pending requests, conversations and remembered ids, and with the same spent nonces; the gate is an
  island again and the failed attempts are forgotten.
\<close>

theorem reboot_restores:
  assumes "lib_ok (ex_lib x)" "boot (ex_lib x) num h a fs = (fs0, Inr (c, n0))" "\<not> ar_mock a"
    and "\<forall>f \<in> {''friends.json'', ''messages.json'', ''gate.json''}. map_get fs (path_join (cx_dataDir c) f) = None"
    and "reachable (\<lambda>n. n = n0) (served x c) n"
    and "\<forall>(k, t) \<in> set (mb_seen (nd_msgs n)) \<union> set (consumed (nd_gate n)). safe_int t"
    and "quiet o'" "4 \<le> io_disk o'"
  shows "\<exists>n1 n2. persist c o' n = (n1, Inr ())
    \<and> boot (ex_lib x) num (h\<lparr> ho_rand := r \<rparr>) a (nd_files n1) = (nd_files n1, Inr (c, n2))
    \<and> nd_book n2 = nd_book n \<and> nd_msgs n2 = nd_msgs n \<and> consumed (nd_gate n2) = consumed (nd_gate n)
    \<and> gstate (nd_gate n2) = \<lparr> mode_of = Island, closesAt = None \<rparr> \<and> nd_limiter n2 = limiter_new 10 (5 * 60000)"
proof -
  let ?L = "ex_lib x" and ?D = "cx_dataDir c"
  obtain fs1 b s m where one:
    "provisionAdminToken ?L h False ?D fs = (fs1, Inr (cx_adminToken c))" "admin_app_of ?L h fs1 = Inr (cx_adminApp c)"
    "node_identity ?L h (env_or h ''ISLAND_IDENTITY_DIR'' (path_join ?D ''identity'')) fs1 = (fs0, Inr (cx_identity c))"
    "saved_book ?L fs0 ?D (cx_identity c) (cx_label c) (cx_wg0 c) = Inr b" "saved_messages ?L fs0 ?D = Inr m"
    "share_of_env num h = Inr s" "nd_book n0 = b" "nd_msgs n0 = m"
    "nd_gate n0 = boot_gate ?L (map_get fs0 (path_join ?D ''gate.json''))" "nd_files n0 = fs0" "\<not> cx_mock c"
    by (rule boot_cases [OF assms(2,3)])
  have none: "map_get fs0 (path_join ?D f) = None" if "f \<in> {''friends.json'', ''messages.json'', ''gate.json''}" for f
    using first_boot_writes(1) [OF one(1,3) that, of ?D] assms(4) that by metis
  have fresh: "nd_book n0 = book_new (cx_identity c) (cx_label c) (cx_wg0 c)" "nd_msgs n0 = message_book_new" "nd_gate n0 = gate_new"
    using one(4,5,7-9) none by (simp_all add: saved_book_def saved_messages_def boot_gate_def)
  have start: "keepable c fs0 n0"
    using book_wf_machine.init_inv [of _ _ _ "nd_book n0"] message_machine.init_inv [of "nd_msgs n0"] one(10)
    by (simp add: keepable_def fresh book_init_def same_owner_def gate_new_def other_files_kept_def)
  have n: "book_wf (nd_book n)" "same_owner (book_new (cx_identity c) (cx_label c) (cx_wg0 c)) (nd_book n)"
    "messages_ok (nd_msgs n)" "wf_map (consumed (nd_gate n))" "other_files_kept c fs0 (nd_files n)"
    using served_keepable [OF assms(5) start] by (simp_all add: keepable_def)
  let ?gs = "foldl (\<lambda>fs (p, t). map_set p t fs) (nd_files n) (saved_files c n)"
  have kept: "other_files_kept c fs0 ?gs" using n(5) saved_lookups(4) [of c "nd_files n" n] by (simp add: other_files_kept_def)
  have "map_get ?gs (path_join ?D ''admin.token'') = map_get fs1 (path_join ?D ''admin.token'')"
    using kept_elsewhere [OF kept] first_boot_writes(2) [OF one(1,3)] by simp
  note token = provision_again [OF lib_okD(1) [OF assms(1)] one(1) this, of r]
  have app: "admin_app_of ?L h ?gs = Inr (cx_adminApp c)"
  proof (cases "env_or h ''ISLAND_ADMIN_KEY_DIR'' [] = []")
    case False
    then obtain ai where ai: "loadIdentity ?L fs1 (env_or h ''ISLAND_ADMIN_KEY_DIR'' []) = Inr ai"
      using one(2) by (auto simp: admin_app_of_def res_eq Let_def)
    then have "loadIdentity ?L ?gs (env_or h ''ISLAND_ADMIN_KEY_DIR'' []) = Inr ai"
      using keys_stay [OF ai one(3)] kept_elsewhere [OF kept] by (simp add: loadIdentity_def read_file_def)
    then show ?thesis using one(2) ai False by (simp add: admin_app_of_def Let_def)
  qed (use one(2) in \<open>simp add: admin_app_of_def Let_def\<close>)
  have ident: "node_identity ?L (h\<lparr> ho_rand := r \<rparr>) (env_or h ''ISLAND_IDENTITY_DIR'' (path_join ?D ''identity'')) ?gs
      = (?gs, Inr (cx_identity c))"
    by (rule identity_again [OF identity_cases(1) [OF one(3)]]) (use kept_elsewhere [OF kept] in simp)
  have book: "saved_book ?L ?gs ?D (cx_identity c) (cx_label c) (cx_wg0 c) = Inr (nd_book n)"
    using saved_book_back [OF n(1) saved_lookups(1)] n(2) by (simp add: same_owner_def book_new_def)
  have msgs: "saved_messages ?L ?gs ?D = Inr (nd_msgs n)"
    by (rule saved_messages_back [OF n(3) _ saved_lookups(2)]) (use assms(6) in auto)
  have gate: "boot_gate ?L (map_get ?gs (path_join ?D ''gate.json'')) = gate_new\<lparr> consumed := consumed (nd_gate n) \<rparr>"
    unfolding saved_lookups(3) by (rule boot_saved [OF n(4)]) (use assms(6) in auto)
  from boot_again [OF assms(2,3) token app ident book msgs] obtain n2 where
    "boot ?L num (h\<lparr> ho_rand := r \<rparr>) a ?gs = (?gs, Inr (c, n2))" "nd_book n2 = nd_book n" "nd_msgs n2 = nd_msgs n"
    "nd_gate n2 = gate_new\<lparr> consumed := consumed (nd_gate n) \<rparr>" "nd_limiter n2 = limiter_new 10 (5 * 60000)"
    unfolding gate by blast
  then show ?thesis using persist_quiet [OF assms(7,8) one(11), of n] by (auto simp: gate_new_def)
qed

definition demo_host :: host where
  "demo_host = \<lparr> ho_env = [], ho_home = js ''/home/pi'', ho_interfaces = [], ho_hostname = (\<lambda>_. None),
     ho_rand = (\<lambda>k. [of_nat k]), ho_writable = True, ho_registry = [], ho_events = [], ho_rows = ([], 0) \<rparr>"

lemma demo_env: "env demo_host k = None" "env_or demo_host k d = d"
  "ho_writable demo_host" "ho_rand demo_host k' = [of_nat k']" "ho_home demo_host = js ''/home/pi''"
  by (simp_all add: env_def env_or_def demo_host_def)

lemma demo_boot:
  obtains fs0 c n0 where
    "boot demo_lib (\<lambda>_. NaN) demo_host \<lparr> ar_mock = False, ar_host = [], ar_port = 8787 \<rparr> [] = (fs0, Inr (c, n0))"
    "mb_seen (nd_msgs n0) = []" "consumed (nd_gate n0) = []" "cx_adminToken c = to_base64 demo_lib URLSAFE_NO_PADDING [0]"
proof -
  let ?D = "path_join (js ''/home/pi'') ''.islandd''"
  let ?fs1 = "map_set (path_join ?D FIRSTRUN_MARKER) [] (map_set (path_join ?D ''admin.token'')
                (to_base64 demo_lib URLSAFE_NO_PADDING [0]) [])"
  let ?d = "path_join ?D ''identity''"
  let ?i = "generateIdentity demo_lib [1] [2]"
  let ?fs2 = "saveIdentity demo_lib ?d ?i ?fs1"
  have pubs: "admin_pubs demo_host = []" by (simp add: admin_pubs_def demo_env trim_def)
  have token: "provisionAdminToken demo_lib demo_host False ?D [] = (?fs1, Inr (to_base64 demo_lib URLSAFE_NO_PADDING [0]))"
    by (simp add: provisionAdminToken_def demo_env write_files_def andthen_def done_with_def Let_def del: update.simps)
  have new: "map_get ?fs1 (path_join ?d ''ed25519.key'') = None" by (simp add: names_eq)
  then have "\<not> map_has ?fs1 (path_join ?d ''ed25519.key'')" by (simp add: map_has_get)
  then have ident: "node_identity demo_lib demo_host ?d ?fs1 = (?fs2, Inr ?i)"
    using load_save_identity [OF demo_lib_ok]
    by (simp add: node_identity_def write_files_def andthen_def demo_env del: update.simps)
  have none: "map_get ?fs2 (path_join ?D f) = None" if "f \<in> {''friends.json'', ''messages.json'', ''gate.json''}" for f
    using first_boot_writes(1) [OF token ident that, of ?D] by simp
  have "share_of_env (\<lambda>_. NaN) demo_host = Inr (Mem (mem_new DEFAULT_SHARE_MAX_BYTES))"
    by (simp add: share_of_env_def buildShare_def demo_host_def)
  then have "\<exists>c n0. boot demo_lib (\<lambda>_. NaN) demo_host \<lparr> ar_mock = False, ar_host = [], ar_port = 8787 \<rparr> [] = (?fs2, Inr (c, n0))
      \<and> mb_seen (nd_msgs n0) = [] \<and> consumed (nd_gate n0) = []
      \<and> cx_adminToken c = to_base64 demo_lib URLSAFE_NO_PADDING [0]"
    using token ident none
    by (simp add: boot_def boot_state_def demo_env Let_def mock_admin_def pubs admin_keys_def admin_app_of_def numConfig_def
        andthen_Inr saved_book_def saved_messages_def boot_gate_def message_book_new_def gate_new_def del: update.simps)
  then show thesis using that by blast
qed

theorem reboot_restores_witness:
  "\<exists>c n n1 n2. persist c (demo_outside 0) n = (n1, Inr ())
     \<and> boot demo_lib (\<lambda>_. NaN) (demo_host\<lparr> ho_rand := \<lambda>_. [9] \<rparr>) \<lparr> ar_mock = False, ar_host = [], ar_port = 8787 \<rparr> (nd_files n1)
         = (nd_files n1, Inr (c, n2))
     \<and> nd_book n2 = nd_book n \<and> cx_adminToken c = to_base64 demo_lib URLSAFE_NO_PADDING [0]"
proof (rule demo_boot)
  fix fs0 c n0
  assume b: "boot demo_lib (\<lambda>_. NaN) demo_host \<lparr> ar_mock = False, ar_host = [], ar_port = 8787 \<rparr> [] = (fs0, Inr (c, n0))"
    "mb_seen (nd_msgs n0) = []" "consumed (nd_gate n0) = []" "cx_adminToken c = to_base64 demo_lib URLSAFE_NO_PADDING [0]"
  have x: "ex_lib demo_externals = demo_lib" by (simp add: demo_externals_def)
  have "reachable (\<lambda>n. n = n0) (served demo_externals c) n0" by (rule reachable.start) simp
  from reboot_restores [of demo_externals "\<lambda>_. NaN" demo_host _ "[]" fs0 c n0 n0 "demo_outside 0" "\<lambda>_. [9]", unfolded x, OF demo_lib_ok b(1) _ _ this]
  show ?thesis using b demo_quiet(1) by (auto simp: demo_outside_def)
qed

end
