(* ===== verification/Lengths.thy ===== *)
theory Lengths
  imports FriendCodeProps MeshProps
begin

text \<open>
  How long the texts of the daemon get: quoting, UTF-8, timestamps and base64, up to the bound of the
  friend codes, which shows that an invite and a reply always fit the body limit of the requests that
  carry them.
\<close>

section \<open>Strings of the language\<close>

lemma length_radix_str: "2 \<le> b \<Longrightarrow> 0 < n \<Longrightarrow> k < b ^ n \<Longrightarrow> length (radix_str b k) \<le> n"
proof (induction n arbitrary: k)
  case (Suc n)
  show ?case
  proof (cases "k < b")
    case False
    then have "n \<noteq> 0" using Suc.prems by (cases n) auto
    moreover have "k div b < b ^ n" using Suc.prems by (simp add: less_mult_imp_div_less mult.commute)
    ultimately show ?thesis using Suc.IH [of "k div b"] Suc.prems False by (simp add: radix_str_ge)
  qed (use Suc.prems in \<open>simp add: radix_str_less\<close>)
qed simp

lemma length_utf8_cp: "1 \<le> length (utf8_cp n)" "length (utf8_cp n) \<le> 4" "n < 0x10000 \<Longrightarrow> length (utf8_cp n) \<le> 3"
  "0x10000 \<le> n \<Longrightarrow> length (utf8_cp n) = 4"
  by (simp_all add: utf8_cp_def)

lemma length_text_encode: "length s \<le> length (text_encode s) \<and> length (text_encode s) \<le> 3 * length s"
proof -
  have "unat (c :: jschar) < 0x10000" for c using unsigned_less [of c, where 'a = nat] by simp
  then have one: "length (utf8_cp (if is_high c \<or> is_low c then 0xfffd else unat c)) \<le> 3" for c :: jschar
    by (intro length_utf8_cp(3)) auto
  have "length s \<le> length (concat (map utf8_cp (code_points s))) \<and> length (concat (map utf8_cp (code_points s))) \<le> 3 * length s"
  proof (induction s rule: code_points.induct)
    case (2 c)
    then show ?case using one [of c] length_utf8_cp(1) [of "if is_high c \<or> is_low c then 0xfffd else unat c"] by simp
  next
    case (3 c d cs)
    show ?case
    proof (cases "is_high c \<and> is_low d")
      case True
      then show ?thesis using 3(1) length_utf8_cp(4) by simp
    next
      case False
      show ?thesis
        using 3(2) [OF False] one [of c] length_utf8_cp(1) [of "if is_high c \<or> is_low c then 0xfffd else unat c"]
        unfolding code_points.simps if_not_P [OF False] by simp
    qed
  qed simp
  then show ?thesis by (simp add: text_encode_def)
qed

lemma length_esc_json: "1 \<le> length (esc_json c) \<and> length (esc_json c) \<le> 6"
proof -
  have "unat c < 16 ^ 4" using unsigned_less [of c, where 'a = nat] by simp
  then have "length (u_escape c) = 6"
    using length_radix_str [of 16 4 "unat c"] by (simp add: u_escape_def padStart_def)
  then show ?thesis by (simp add: esc_json_def)
qed

lemma length_esc_b64: "b64_char c \<Longrightarrow> length (esc_json c) \<le> 2"
  by (auto simp: b64_char_def esc_json_def is_high_def is_low_def word_le_nat_alt word_less_nat_alt)

lemma length_quote: "length (quote_json s) \<le> 6 * length s + 2"
proof -
  have "length (esc_json_str s) \<le> 6 * length s"
  proof (induction s rule: esc_json_str.induct)
    case (2 c)
    show ?case using length_esc_json [of c] by simp
  next
    case (3 c d cs)
    then show ?case using length_esc_json [of c] by (cases "is_high c \<and> is_low d") auto
  qed simp
  then show ?thesis by (simp add: quote_json_def)
qed

lemma length_quote_b64:
  assumes "\<forall>c \<in> set s. b64_char c"
  shows "length (quote_json s) \<le> 2 * length s + 2"
proof -
  have "length (esc_json_str s) \<le> 2 * length s" using assms
  proof (induction s rule: esc_json_str.induct)
    case (2 c)
    then show ?case using length_esc_b64 [of c] by simp
  next
    case (3 c d cs)
    then show ?case using length_esc_b64 [of c] by (cases "is_high c \<and> is_low d") auto
  qed simp
  then show ?thesis by (simp add: quote_json_def)
qed

section \<open>Timestamps\<close>

lemma length_iso_str:
  assumes "- max_time \<le> t" "t \<le> max_time"
  shows "length (iso_str t) \<le> 27"
proof -
  define d y m dt ms where "d = t div ms_per_day" and "y = year_of_day d"
    and "m = month_of (leap_year y) (d - day_from_year y)"
    and "dt = d - day_from_year y - month_start (leap_year y) m + 1" and "ms = nat (t mod ms_per_day)"
  note defs = this
  have str: "iso_str t = year_str y @ 0x2d # pad 2 (m + 1) @ 0x2d # pad 2 (nat dt) @ 0x54 # pad 2 (ms div 3600000)
      @ 0x3a # pad 2 (ms div 60000 mod 60) @ 0x3a # pad 2 (ms div 1000 mod 60) @ 0x2e # pad 3 (ms mod 1000) @ [0x5a]"
    by (simp add: iso_str_def Let_def defs)
  have "- 100000000 \<le> d" "d \<le> 100000000"
    using assms div_bounds [of 86400000 t] by (simp_all add: d_def ms_per_day_def max_time_def)
  then have y: "- 999999 \<le> y" "y \<le> 999999"
    unfolding y_def by (rule year_of_day_bound)+
  then have "nat y < 10 ^ 6" "nat (- y) < 10 ^ 6" "y \<le> 9999 \<Longrightarrow> nat y < 10 ^ 4" by (simp_all add: nat_less_iff)
  then have year: "length (year_str y) \<le> 7"
    using length_pad [of 4 "nat y"] length_pad [of 6 "nat y"] length_pad [of 6 "nat (- y)"] by (auto simp: year_str_def)
  have m: "m < 12" using month_upto_le [of "leap_year y" "d - day_from_year y" 11] by (simp add: m_def month_of_def)
  have dt: "1 \<le> dt" "dt \<le> 32"
    using day_of_month [OF day_of_year [of d]] by (simp_all add: dt_def m_def y_def)
  have ms: "ms < 86400000" by (simp add: ms_def ms_per_day_def nat_less_iff)
  have "length (pad 2 (m + 1)) = 2" "length (pad 2 (nat dt)) = 2" "length (pad 2 (ms div 3600000)) = 2"
    "length (pad 2 (ms div 60000 mod 60)) = 2" "length (pad 2 (ms div 1000 mod 60)) = 2"
    "length (pad 3 (ms mod 1000)) = 3"
    by (rule length_pad; use m dt ms_fields(1) [OF ms(1)] in simp)+
  then show ?thesis using year unfolding str by simp
qed

section \<open>The library\<close>

definition lengths_ok :: "lib \<Rightarrow> bool" where
  \<comment> \<open>libsodium: base64 takes at most four characters for three bytes, rounded up; a sealed box adds 48 bytes\<close>
  "lengths_ok L \<longleftrightarrow> (\<forall>v bs. length (to_base64 L v bs) \<le> 2 * length bs + 4)
     \<and> (\<forall>r m pk c. crypto_box_seal L r m pk = Some c \<longrightarrow> length c \<le> length m + 48)"

lemma length_toB64: "lengths_ok L \<Longrightarrow> length (to_base64 L v bs) \<le> 2 * length bs + 4"
  by (simp add: lengths_ok_def)

lemma demo_lengths_ok: "lengths_ok demo_lib"
proof -
  have "length (demo_b64 bs) = 2 * length bs" for bs by (induction bs) (simp_all add: demo_b64_def)
  then show ?thesis by (simp add: lengths_ok_def demo_lib_def)
qed

section \<open>Friend codes\<close>

lemma fits_b64:
  assumes "\<forall>c \<in> set s. b64_char c" "length s \<le> 30000" "length k \<le> 100" "\<forall>c \<in> set k. b64_char c"
  shows "fits_body (JObj [(k, JStr s)])"
proof -
  have "length (json_stringify (JObj [(k, JStr s)])) \<le> 60300"
    using length_quote_b64 [OF assms(1)] length_quote_b64 [OF assms(4)] assms(2,3) by (simp add: json_stringify_def)
  moreover have "\<forall>c \<in> set (json_stringify (JObj [(k, JStr s)])). c < 0x80"
  proof -
    have "\<forall>c \<in> set (esc_json_str s). c < 0x80" if "\<forall>c \<in> set s. b64_char c" for s
      using that
    proof (induction s rule: esc_json_str.induct)
      case (2 c)
      then show ?case by (auto simp: esc_json_def b64_char_def is_high_def is_low_def word_le_nat_alt word_less_nat_alt)
    next
      case (3 c d cs)
      moreover have "\<forall>x \<in> set (esc_json c). x < 0x80"
        using 3(3) by (auto simp: esc_json_def b64_char_def is_high_def is_low_def word_le_nat_alt word_less_nat_alt)
      moreover have "\<not> is_high c" using 3(3) by (auto simp: b64_char_def is_high_def word_le_nat_alt word_less_nat_alt)
      ultimately show ?case by auto
    qed simp
    from this [OF assms(1)] this [OF assms(4)] show ?thesis by (auto simp: json_stringify_def quote_json_def)
  qed
  then have "length (text_encode (json_stringify (JObj [(k, JStr s)]))) = length (json_stringify (JObj [(k, JStr s)]))"
    by (subst text_encode_ascii) simp_all
  ultimately show ?thesis by (simp add: fits_body_def MAX_JSON_BODY_def)
qed

lemma plain_keys: "\<forall>c \<in> set (js ''invite''). b64_char c" "\<forall>c \<in> set (js ''giver''). b64_char c" "\<forall>c \<in> set (js ''reply''). b64_char c"
  "\<forall>c \<in> set (js ''accept''). b64_char c" "length (js ''accept'') \<le> 100" "length (js ''invite'') \<le> 100" "length (js ''giver'') \<le> 100" "length (js ''reply'') \<le> 100"
  "\<forall>c \<in> set INVITE_PREFIX. b64_char c" "\<forall>c \<in> set REPLY_PREFIX. b64_char c" "length INVITE_PREFIX \<le> 100" "length REPLY_PREFIX \<le> 100"
  by (simp_all add: js_def b64_char_def INVITE_PREFIX_def REPLY_PREFIX_def)

lemma key_fits:
  assumes "base64_ok L" "lengths_ok L" "length bs = 32"
  shows "fits_body (JObj [(js ''giver'', JStr (toB64 L bs))])"
  using base64D(2) [OF assms(1), of ORIGINAL bs] length_toB64 [OF assms(2), of ORIGINAL bs] assms(3) plain_keys
  by (intro fits_b64) (simp_all add: toB64_def)

lemma length_packed:
  "u8_set buf i bs = Inr buf' \<Longrightarrow> length buf' = length buf" "set_u64 buf i n = Inr buf' \<Longrightarrow> length buf' = length buf"
  "length (u8_put buf i b) = length buf"
  by (auto simp: u8_set_def set_u64_def u8_put_def split: if_splits)

lemma invite_fits:
  assumes "base64_ok L" "lengths_ok L" "encodeInvite L t = Inr code"
  shows "fits_body (JObj [(js ''invite'', JStr code)])"
proof -
  obtain buf where buf: "code = INVITE_PREFIX @ to_base64 L URLSAFE_NO_PADDING buf" "length buf \<le> 673"
    using assms(3)
    by (auto simp: encodeInvite_def pack_invite_def res_eq Let_def dest!: length_packed(1,2) split: if_splits) (auto simp: length_packed(3))
  show ?thesis
    using base64D(2) [OF assms(1), of URLSAFE_NO_PADDING buf] length_toB64 [OF assms(2), of URLSAFE_NO_PADDING buf] buf plain_keys
    by (intro fits_b64) auto
qed

lemma length_printed_accept:
  assumes "length (peer_ed (acc_from a)) \<le> 68" "length (peer_x (acc_from a)) \<le> 68" "length (peer_label (acc_from a)) \<le> 255"
    and "length (peer_wg0 (acc_from a)) \<le> 255" "length (acc_ref a) \<le> 36" "length (acc_issued a) \<le> 27" "length (acc_sig a) \<le> 132"
    and "acc_v a = 1" "\<forall>s \<in> {peer_ed (acc_from a), peer_x (acc_from a), acc_ref a, acc_sig a}. \<forall>c \<in> set s. b64_char c"
  shows "length (text_encode (json_stringify (accept_json a))) \<le> 14800"
proof -
  have key: "length (quote_json (js k)) \<le> 6 * length k + 2" for k using length_quote [of "js k"] by (simp add: js_def)
  have field: "length (quote_json (peer_ed (acc_from a))) \<le> 138" "length (quote_json (peer_x (acc_from a))) \<le> 138"
    "length (quote_json (acc_ref a)) \<le> 74" "length (quote_json (acc_sig a)) \<le> 266"
    using assms(1,2,5,7,9) length_quote_b64 [of "peer_ed (acc_from a)"] length_quote_b64 [of "peer_x (acc_from a)"]
      length_quote_b64 [of "acc_ref a"] length_quote_b64 [of "acc_sig a"] by auto
  have "length (json_stringify (accept_json a)) \<le> 4900"
    using assms(3,4,6) field length_quote [of "peer_label (acc_from a)"] length_quote [of "peer_wg0 (acc_from a)"] length_quote [of "acc_issued a"]
      key [of "''v''"] key [of "''from''"] key [of "''ref''"] key [of "''issued''"] key [of "''sig''"] key [of "''ed25519''"]
      key [of "''x25519''"] key [of "''label''"] key [of "''wg0''"]
    by (simp add: json_stringify_def accept_json_def peerPubJson_def int_str_def assms(8) radix_str.simps)
  then show ?thesis using length_text_encode [of "json_stringify (accept_json a)"] by linarith
qed

lemma reply_blob:
  assumes "base64_ok L" "lengths_ok L" "sizes_ok L" "id_ok L i" "short_name lbl" "short_name w" "length (tok_nonce tok) \<le> 36"
    and "\<forall>c \<in> set (tok_nonce tok). b64_char c" "makeAccept L r i lbl w tok now = Inr blob"
  shows "length blob \<le> 29700" "\<forall>c \<in> set blob. b64_char c"
proof -
  obtain iss s pk c where acc: "toISOString now = Inr iss"
    "sign L (acceptSignable \<lparr> acc_v = 1, acc_from = peerPubOf L i lbl w, acc_ref = tok_nonce tok, acc_issued = iss, acc_sig = [] \<rparr>)
       (secretKey (ed25519 i)) = Inr s"
    "crypto_box_seal L r (text_encode (json_stringify (accept_json \<lparr> acc_v = 1, acc_from = peerPubOf L i lbl w, acc_ref = tok_nonce tok,
       acc_issued = iss, acc_sig = s \<rparr>))) pk = Some c" (is "crypto_box_seal L r (text_encode ?m) pk = _") "blob = toB64 L c"
    using assms(9) by (auto simp: makeAccept_def res_eq Let_def)
  have b64: "length (toB64 L bs) \<le> 2 * length bs + 4" for bs using length_toB64 [OF assms(2)] by (simp add: toB64_def)
  obtain sig where "s = toB64 L sig" "length sig = 64" using acc(2) assms(3) by (auto simp: sign_def res_eq sizes_ok_def)
  moreover have "length (publicKey (ed25519 i)) = 32" "length (boxPublicKey (x25519 i)) = 32"
    using assms(3,4) by (auto simp: sizes_ok_def id_ok_def)
  moreover have "length lbl \<le> 255" "length w \<le> 255"
    using assms(5,6) length_text_encode [of lbl] length_text_encode [of w] by (simp_all add: short_name_def)
  moreover have "length iss \<le> 27" using acc(1) length_iso_str by (auto simp: toISOString_eq)
  ultimately have "length (text_encode ?m) \<le> 14800"
    using b64 [of "publicKey (ed25519 i)"] b64 [of "boxPublicKey (x25519 i)"] b64 [of sig] assms(7,8) base64D(2) [OF assms(1)]
    by (intro length_printed_accept) (simp_all add: peerPubOf_def toB64_def)
  then have "length c \<le> 14848" using acc(3) assms(2) unfolding lengths_ok_def by fastforce
  then show "length blob \<le> 29700" using b64 [of c] acc(4) by simp
  show "\<forall>c \<in> set blob. b64_char c" using base64D(2) [OF assms(1), of ORIGINAL c] acc(4) by (simp add: toB64_def)
qed

lemma reply_fits:
  assumes "length blob \<le> 29700" "\<forall>c \<in> set blob. b64_char c"
  shows "fits_body (JObj [(js ''reply'', JStr (encodeReply blob))])" "fits_body (JObj [(js ''accept'', JStr blob)])"
  using assms plain_keys by (auto intro!: fits_b64 simp: encodeReply_def)

end
