(* ===== verification/CliProps.thy ===== *)
theory CliProps
  imports BootProps Lengths
begin

text \<open>
  The command line and the daemon together: the command that opens the gate from the operator's
  machine, against the dispatcher of the gate node.
\<close>

section \<open>A daemon behind the terminal\<close>

definition cli_arriving :: "jsstr \<Rightarrow> cli_request \<Rightarrow> call" where
  \<comment> \<open>the request of a command, as the daemon sees it\<close>
  "cli_arriving ip rq = (arriving ip (http_request.truncate rq))\<lparr> cl_opToken := rq_opToken rq \<rparr>"

definition daemon_at :: "externals \<Rightarrow> ctx \<Rightarrow> jsstr \<Rightarrow> outside \<Rightarrow> node server" where
  "daemon_at x c ip o' rq n = (case serve x c (cli_arriving ip rq) o' n of (n', r) \<Rightarrow> (n', Some r))"

lemma json_answer: "json_ok (JObj kvs) \<Longrightarrow> json_or_null L (json_response s (JObj kvs)) = JObj kvs"
  by (simp add: json_or_null_def response_json_object)

lemma json_response_ok: "http_ok (json_response s v) \<longleftrightarrow> 200 \<le> s \<and> s \<le> 299"
  by (simp add: http_ok_def)

lemma cli_read:
  assumes "quiet o'" "json_ok (JObj kvs)" "rq_body rq = text_encode (json_stringify (JObj kvs))"
  shows "readJson L (cli_arriving ip rq) o' n
    = (n, if fits_body (JObj kvs) then Inr kvs else throw PayloadTooLarge ''body too large'')"
proof -
  let ?t = "json_stringify (JObj kvs)"
  have dec: "text_decode (text_encode ?t) = ?t"
    using text_decode_encode [OF stringify_wf16 [OF assms(2)]] by (simp add: json_stringify_def)
  have parse: "json_parse (number_of_token L) ?t = Some (JObj kvs)"
    unfolding json_stringify_def by (rule json_parse_print [OF quote_json_ok assms(2)])
  show ?thesis
    using assms(1,3) dec parse
    by (auto simp: readJson_def cli_arriving_def arriving_def fits_body_def andthen_def await_def quiet_def json_body_def
        http_request.truncate_def lift_res_def)
qed

section \<open>The flags\<close>

definition plain_arg :: "jsstr \<Rightarrow> bool" where
  \<comment> \<open>an argument that is no flag\<close>
  "plain_arg s \<longleftrightarrow> s \<noteq> [] \<and> \<not> startsWith s (js ''--'')"

lemma parse_flag: "plain_arg v \<Longrightarrow> parse_flags ((js ''--'' @ k) # v # rest) f = parse_flags rest (map_set k v f)"
  by (simp add: plain_arg_def js_def startsWith_def)

section \<open>Opening the gate\<close>

lemma requireAdmin_ok:
  assumes "cl_adminToken q = cx_adminToken c" "cx_adminToken c \<noteq> []" "\<not> is_locked q o' n"
  shows "\<exists>l. requireAdmin sha c q o' n = (n\<lparr> nd_limiter := l \<rparr>, Inr ())"
proof (cases "cx_mock c")
  case True
  then have "requireAdmin sha c q o' n = (n\<lparr> nd_limiter := nd_limiter n \<rparr>, Inr ())" by (simp add: requireAdmin_def)
  then show ?thesis ..
next
  case False
  then show ?thesis
    using assms by (auto simp: requireAdmin_def is_locked_def case_prod_unfold tokenOk_def timingSafeEqual_def)
qed

lemma quiet_await: "quiet o' \<Longrightarrow> await o' k = done_with ()"
  by (simp add: await_def quiet_def done_with_def fun_eq_iff)

lemma gate_opens:
  assumes "quiet o'" "\<not> map_has (consumed (nd_gate n)) (cnonce cn)" "approve (io_decide o' (text_of cn))"
    and "io_exec o' VOpen = Inr ()" "toISOString (io_now o' 4) = Inr t" "toISOString (io_now o' 4 + ttlSeconds (cx_gate c) * 1000) = Inr s"
  obtains g where "gate_open c o' cn n = (n\<lparr> nd_gate := g \<rparr>, Inr \<lparr> opened = True,
        res_state = \<lparr> mode_of = Internet, closesAt = Some s \<rparr>, res_reason = reason_of (io_decide o' (text_of cn)) \<rparr>)"
    "gstate g = \<lparr> mode_of = Internet, closesAt = Some s \<rparr>" "map_has (consumed g) (cnonce cn)"
    "timer g = Some (io_now o' 5 + ttlSeconds (cx_gate c) * 1000, js ''auto-reclose (ttl)'')"
proof -
  let ?r = "reason_of (io_decide o' (text_of cn))" and ?now = "io_now o' 4"
  let ?g0 = "prune_consumed (cx_gate c) ?now (nd_gate n)"
  let ?g1 = "?g0\<lparr> consumed := map_set (cnonce cn) ?now (consumed ?g0) \<rparr>"
  have "\<not> map_has (consumed ?g0) (cnonce cn)" using assms(2) by (auto simp: prune_consumed_def)
  then have starts: "gate_begin (cx_gate c) cn ?now (nd_gate n) = (?g1, Inr ())" by (simp add: gate_begin_def Let_def)
  let ?g2 = "job_start (JOpen cn ?now ?r) ?g1"
  let ?g3 = "fst (open_ok (cx_gate c) (io_now o' 5) cn ?now ?r ?g2)"
  have g3: "gstate ?g3 = \<lparr> mode_of = Internet, closesAt = Some s \<rparr>"
    "timer ?g3 = Some (io_now o' 5 + ttlSeconds (cx_gate c) * 1000, js ''auto-reclose (ttl)'')"
    using open_ok_timer [OF assms(6)] by simp_all
  have spent: "map_has (consumed ?g3) (cnonce cn)"
    using job_done_consumed [of "cx_gate c" "io_now o' 5" "JOpen cn ?now ?r" True ?g2] by simp
  have ok: "snd (open_ok (cx_gate c) (io_now o' 5) cn ?now ?r ?g2)
      = Inr \<lparr> opened = True, res_state = gstate ?g3, res_reason = ?r \<rparr>"
    using assms(5,6) by (simp add: open_ok_def gate_log_def Let_def scheduleReclose_def)
  have "gate_open c o' cn n = (n\<lparr> nd_gate := ?g3 \<rparr>, Inr \<lparr> opened = True, res_state = gstate ?g3, res_reason = ?r \<rparr>)"
    using starts ok assms(3,4) by (simp add: gate_open_def quiet_await [OF assms(1)] on_gate_def andthen_def Let_def case_prod_unfold)
  then show thesis using that g3 spent by metis
qed

lemma route_canary:
  "is_route q POST ''/admin/canary'' \<Longrightarrow> route x c q o' n = admin_canary (ex_lib x) (ex_sha x) c q o' n"
  by (simp add: route_def route_home_def route_directory_def route_admin_def path_rest_def is_route_def)

definition open_answer :: "jsstr \<Rightarrow> jsstr \<Rightarrow> json" where
  "open_answer r s = JObj [(js ''opened'', JBool True), (js ''reason'', JStr r),
     (js ''gate'', gate_json \<lparr> mode_of = Internet, closesAt = Some s \<rparr>)]"

lemma canary_served:
  assumes "quiet o'" "4 \<le> io_disk o'" "is_route q POST ''/admin/canary''"
    and "cl_adminToken q = cx_adminToken c" "cx_adminToken c \<noteq> []" "\<not> is_locked q o' n"
    and "\<And>m. readJson (ex_lib x) q o' m = (m, Inr [(js ''blob'', JStr blob)])"
    and "verifyCanary (ex_lib x) (cx_identity c) blob (cx_adminVerify c) (cx_canaryKeyword c) (cx_canaryFreshnessS c) (io_now o' 3) = Inr cn"
    and "\<not> map_has (consumed (nd_gate n)) (cnonce cn)" "approve (io_decide o' (text_of cn))" "io_exec o' VOpen = Inr ()"
    and "toISOString (io_now o' 4) = Inr t" "toISOString (io_now o' 4 + ttlSeconds (cx_gate c) * 1000) = Inr s"
  obtains n' where "serve x c q o' n = (n', json_response 200 (open_answer (reason_of (io_decide o' (text_of cn))) s))"
    "gstate (nd_gate n') = \<lparr> mode_of = Internet, closesAt = Some s \<rparr>" "map_has (consumed (nd_gate n')) (cnonce cn)"
    "timer (nd_gate n') = Some (io_now o' 5 + ttlSeconds (cx_gate c) * 1000, js ''auto-reclose (ttl)'')"
proof -
  let ?r = "reason_of (io_decide o' (text_of cn))"
  obtain l where l: "requireAdmin (ex_sha x) c q o' n = (n\<lparr> nd_limiter := l \<rparr>, Inr ())"
    using requireAdmin_ok [OF assms(4-6)] by blast
  have "\<not> map_has (consumed (nd_gate (n\<lparr> nd_limiter := l \<rparr>))) (cnonce cn)" using assms(9) by simp
  then obtain g where g: "gate_open c o' cn (n\<lparr> nd_limiter := l \<rparr>) = (n\<lparr> nd_limiter := l, nd_gate := g \<rparr>,
      Inr \<lparr> opened = True, res_state = \<lparr> mode_of = Internet, closesAt = Some s \<rparr>, res_reason = ?r \<rparr>)"
    "gstate g = \<lparr> mode_of = Internet, closesAt = Some s \<rparr>" "map_has (consumed g) (cnonce cn)"
    "timer g = Some (io_now o' 5 + ttlSeconds (cx_gate c) * 1000, js ''auto-reclose (ttl)'')"
    by (rule gate_opens [OF assms(1) _ assms(10-13), where n = "n\<lparr> nd_limiter := l \<rparr>"])
  obtain fs where fs: "persist c o' (n\<lparr> nd_limiter := l, nd_gate := g \<rparr>) = (n\<lparr> nd_limiter := l, nd_gate := g, nd_files := fs \<rparr>, Inr ())"
    by (rule persist_ok [OF assms(1,2)])
  have "route x c q o' n = (n\<lparr> nd_limiter := l, nd_gate := g, nd_files := fs \<rparr>, Inr (json_response 200 (open_answer ?r s)))"
    unfolding route_canary [OF assms(3)] admin_canary_def
    using l assms(7,8) g(1) fs by (simp add: andthen_def str_field_def ok_json_def open_answer_def)
  then have run: "serve x c q o' n = (n\<lparr> nd_limiter := l, nd_gate := g, nd_files := fs \<rparr>, json_response 200 (open_answer ?r s))"
    by (simp add: serve_def answer_def)
  show thesis by (rule that [OF run]) (use g(2-4) in simp_all)
qed

lemma canary_too_large:
  assumes "is_route q POST ''/admin/canary''" "cl_adminToken q = cx_adminToken c" "cx_adminToken c \<noteq> []" "\<not> is_locked q o' n"
    and "\<And>m. readJson (ex_lib x) q o' m = (m, throw PayloadTooLarge ''body too large'')"
  obtains l where "serve x c q o' n = (n\<lparr> nd_limiter := l \<rparr>, json_response 413 (JObj [(js ''error'', JStr (js ''body too large''))]))"
proof -
  obtain l where "requireAdmin (ex_sha x) c q o' n = (n\<lparr> nd_limiter := l \<rparr>, Inr ())"
    using requireAdmin_ok [OF assms(2-4)] by blast
  then have "route x c q o' n = (n\<lparr> nd_limiter := l \<rparr>, throw PayloadTooLarge ''body too large'')"
    unfolding route_canary [OF assms(1)] admin_canary_def
    using assms(5) by (simp add: andthen_def throw_def)
  then show thesis by (intro that) (simp add: serve_def answer_def throw_def errorStatus_def)
qed

lemma open_answer_printed:
  assumes "s \<noteq> []"
  shows "canary_answer (open_answer r s) t = (t\<lparr> tm_out := tm_out t @ [Out (js ''Gate opened '' @ 0x2014 # 0x20 # r),
      Out (js ''gate: internet (recloses '' @ s @ js '')'')] \<rparr>, Inr 0)"
  using assms
  by (simp add: canary_answer_def open_answer_def gate_json_def opt_str_def mode_str_def andthen_def exit_with_def say_def js_def
      done_with_def lift_res_def)

lemma open_answer_ok: "json_ok (open_answer r s)"
  by (simp add: open_answer_def gate_json_def opt_str_def)

definition canary_argv :: "jsstr \<Rightarrow> jsstr \<Rightarrow> jsstr \<Rightarrow> jsstr \<Rightarrow> jsstr list" where
  \<comment> \<open>\<open>canary --admin-dir d --to-x25519 x --send url --admin-token t\<close>\<close>
  "canary_argv d toX url token =
     [js ''canary'', js ''--admin-dir'', d, js ''--to-x25519'', toX, js ''--send'', url, js ''--admin-token'', token]"

lemma canary_flags:
  assumes "plain_arg d" "plain_arg toX" "plain_arg url" "plain_arg token"
  shows "parseFlags (drop 1 (canary_argv d toX url token))
    = [(js ''admin-dir'', d), (js ''to-x25519'', toX), (js ''send'', url), (js ''admin-token'', token)]"
proof -
  have "js ''--admin-dir'' = js ''--'' @ js ''admin-dir''" "js ''--to-x25519'' = js ''--'' @ js ''to-x25519''"
    "js ''--send'' = js ''--'' @ js ''send''" "js ''--admin-token'' = js ''--'' @ js ''admin-token''"
    by (simp_all add: js_def)
  then show ?thesis using assms by (simp add: parseFlags_def canary_argv_def parse_flag del: parse_flags.simps(2))
qed

section \<open>How long a canary gets\<close>

fun json_width :: "json \<Rightarrow> nat" where
  \<comment> \<open>a bound on the canonical text: six characters for one\<close>
  "json_width JNull = 4"
| "json_width (JBool b) = 5"
| "json_width (JNum i) = length (int_str i)"
| "json_width (JDbl is_int t) = length t"
| "json_width (JStr s) = 6 * length s + 2"
| "json_width (JArr vs) = 2 + sum_list (map (\<lambda>v. json_width v + 1) vs)"
| "json_width (JObj kvs) = 2 + sum_list (map (\<lambda>kv. 6 * length (fst kv) + json_width (snd kv) + 4) kvs)"

lemma length_encodeString: "length (encodeString s) \<le> 6 * length s + 2"
proof -
  have "length (u_escape c) = 6" for c :: jschar
  proof -
    have "unat c < 16 ^ 4" using unsigned_less [of c, where 'a = nat] by simp
    then show ?thesis using length_radix_str [of 16 4 "unat c"] by (simp add: u_escape_def padStart_def)
  qed
  then have "length (encode_unit c) \<le> 6" for c by (simp add: encode_unit_def)
  then have "length (concat (map encode_unit s)) \<le> 6 * length s"
    by (induction s) (simp_all, metis add_le_mono mult_Suc_right add.commute)
  then show ?thesis by (simp add: encodeString_def)
qed

lemma length_joined: "length (join sep ts) \<le> sum_list (map (\<lambda>t. length t + length sep) ts)"
  by (induction sep ts rule: join.induct) simp_all

lemma sum_sort: "sum_list (map g (sort_key f xs)) = (sum_list (map g xs) :: nat)"
  by (metis mset_map mset_sort sum_mset_sum_list)

lemma length_print_norm: "length (print_json encodeString (norm_json v)) \<le> json_width v"
proof (induction v rule: json_induct)
  case (JArr vs)
  have "sum_list (map (\<lambda>v. length (print_json encodeString (norm_json v)) + 1) vs) \<le> sum_list (map (\<lambda>v. json_width v + 1) vs)"
    using JArr by (intro sum_list_mono) auto
  then show ?case
    using length_joined [of "[0x2c]" "map (\<lambda>v. print_json encodeString (norm_json v)) vs"] by (simp add: comp_def)
next
  case (JObj kvs)
  let ?t = "\<lambda>kv. encodeString (fst kv) @ 0x3a # print_json encodeString (norm_json (snd kv))"
  have "length (?t kv) + 1 \<le> 6 * length (fst kv) + json_width (snd kv) + 4" if "kv \<in> set kvs" for kv
    using JObj that length_encodeString [of "fst kv"] by fastforce
  then have "sum_list (map (\<lambda>kv. length (?t kv) + 1) kvs) \<le> sum_list (map (\<lambda>kv. 6 * length (fst kv) + json_width (snd kv) + 4) kvs)"
    by (intro sum_list_mono) auto
  moreover have "length (join [0x2c] (map ?t (sort_key fst kvs))) \<le> sum_list (map (\<lambda>kv. length (?t kv) + 1) kvs)"
    using length_joined [of "[0x2c]" "map ?t (sort_key fst kvs)"] sum_sort [of "\<lambda>kv. length (?t kv) + 1" fst kvs] by (simp add: comp_def)
  ultimately show ?case by (simp add: comp_def case_prod_beta)
next
  case (JStr s)
  show ?case using length_encodeString [of s] by simp
qed (simp_all add: js_def)

lemma length_canonical:
  assumes "json_ok v" "canonicalBytes v = Inr bs"
  shows "length bs \<le> json_width v"
proof -
  obtain t where t: "canonicalBytes v = Inr (text_encode t)" "canonicalize v = Inr t" "printable t"
    by (rule canonicalBytes_ok [OF assms(1)])
  have "t = print_json encodeString (norm_json v)"
    using t(2) encode_print [OF json_ok_no_float [OF assms(1)]] by (simp add: canonicalize_def)
  moreover have "length (text_encode t) = length t"
    by (subst text_encode_ascii) (simp_all add: printable_ascii [OF t(3)])
  ultimately show ?thesis using length_print_norm [of v] t(1) assms(2) by simp
qed

lemma canary_fits:
  assumes "base64_ok L" "lengths_ok L" "sizes_ok L" "id_ok L adm" "length rnd = 16" "length kw \<le> 255"
    and "makeCanary L rnd r adm kw (kw @ js '' open the gate'') toX now = Inr blob"
  shows "fits_body (JObj [(js ''blob'', JStr blob)])"
proof -
  have b64: "length (to_base64 L v bs) \<le> 2 * length bs + 4" for v bs by (rule length_toB64 [OF assms(2)])
  obtain iss where iss: "toISOString now = Inr iss" using assms(7) by (auto simp: makeCanary_def res_eq)
  let ?p = "canary_payload L adm kw (kw @ js '' open the gate'') rnd iss"
  obtain pk c where c: "sealSign L r ?p (secretKey (ed25519 adm)) pk = Inr c" "blob = toB64 L c"
    using assms(7) iss by (auto simp: makeCanary_def res_eq)
  obtain m sg inner where s: "crypto_sign_detached L m (secretKey (ed25519 adm)) = Some sg"
    "canonicalBytes (JObj [(js ''payload'', JObj ?p), (js ''sig'', JStr (to_base64 L ORIGINAL sg))]) = Inr inner"
    "crypto_box_seal L r inner pk = Some c"
    using c(1) by (auto simp: sealSign_def res_eq)
  have len: "length (publicKey (ed25519 adm)) = 32" "length sg = 64" "length iss \<le> 27"
    using assms(3,4) s(1) iss length_iso_str by (auto simp: sizes_ok_def id_ok_def toISOString_eq)
  have "json_ok (JObj [(js ''payload'', JObj ?p), (js ''sig'', JStr (to_base64 L ORIGINAL sg))])"
    by (simp add: canary_payload_def js_def)
  from length_canonical [OF this s(2)] have "length inner \<le> 6000"
    using b64 [of ORIGINAL "publicKey (ed25519 adm)"] b64 [of ORIGINAL rnd] b64 [of ORIGINAL sg] len assms(5,6)
    by (simp add: canary_payload_def toB64_def js_def)
  then have "length c \<le> 6048" using s(3) assms(2) unfolding lengths_ok_def by fastforce
  then have "length blob \<le> 30000" using b64 [of ORIGINAL c] c(2) by (simp add: toB64_def)
  then show ?thesis
    using base64D(2) [OF assms(1), of ORIGINAL c] c(2) by (intro fits_b64) (auto simp: toB64_def b64_char_def js_def)
qed

section \<open>The command and its request\<close>

lemma canary_request:
  assumes "url = js ''http://'' @ a" "0x2f \<notin> set a"
  shows "is_route (cli_arriving ip (canary_call url tok blob)) POST ''/admin/canary''"
    "cl_adminToken (cli_arriving ip (canary_call url tok blob)) = tok"
proof -
  have "dropWhile (\<lambda>k. k \<noteq> 0x2f) (a @ js ''/admin/canary'') = js ''/admin/canary''"
    using assms(2) by (induction a) (auto simp: js_def)
  then have "cl_path (cli_arriving ip (canary_call url tok blob)) = js ''/admin/canary''"
    by (simp add: cli_arriving_def arriving_def canary_call_def http_request.truncate_def assms(1) js_def)
  then show "is_route (cli_arriving ip (canary_call url tok blob)) POST ''/admin/canary''"
    by (simp add: is_route_def cli_arriving_def arriving_def canary_call_def http_request.truncate_def)
  show "cl_adminToken (cli_arriving ip (canary_call url tok blob)) = tok"
    by (simp add: cli_arriving_def arriving_def canary_call_def http_request.truncate_def)
qed

lemma canary_runs:
  assumes "\<forall>v \<in> {d, toX, url, token}. plain_arg v" "loadIdentity L (tm_files tm) d = Inr adm"
    and "makeCanary L (ho_rand h 0) (ho_rand h 1) adm kw (kw @ js '' open the gate'') toX now = Inr blob"
    and "kw = env_or h ''ISLAND_CANARY_KEYWORD'' (js ''GREEN18'')" "header_value token = Inr token"
    and "srv (canary_call url token blob) (tm_world tm) = (w, Some (json_response 200 (JObj kvs)))" "json_ok (JObj kvs)"
  shows "runCli L num srv h now (canary_argv d toX url token) tm = canary_answer (JObj kvs) (tm\<lparr> tm_world := w \<rparr>)"
proof -
  have some: "url \<noteq> []" "d \<noteq> []" "toX \<noteq> []" using assms(1) by (auto simp: plain_arg_def)
  have flags: "parseFlags (drop 1 (canary_argv d toX url token))
      = [(js ''admin-dir'', d), (js ''to-x25519'', toX), (js ''send'', url), (js ''admin-token'', token)]"
    by (rule canary_flags) (use assms(1) in auto)
  have sent: "send_request srv (canary_call url token blob) tm = (tm\<lparr> tm_world := w \<rparr>, Inr (json_response 200 (JObj kvs)))"
    by (subst send_plain) (simp_all add: canary_call_def assms(5) assms(6) [unfolded canary_call_def])
  have "runCli L num srv h now (canary_argv d toX url token) tm = mintCanary L srv h now (drop 1 (canary_argv d toX url token)) tm"
    by (simp add: runCli_def canary_argv_def js_def Let_def)
  also have "\<dots> = canary_answer (JObj kvs) (tm\<lparr> tm_world := w \<rparr>)"
    using assms(2-4) some sent json_answer [OF assms(7), of L 200]
    by (simp add: mintCanary_def flags [unfolded One_nat_def] flag_or_def Let_def on_files_def andthen_def json_response_ok)
  finally show ?thesis .
qed


lemma demo_key_text: "plain_arg (toB64 demo_lib (boxPublicKey (x25519 (demo_id b))))"
proof -
  have "toB64 demo_lib (boxPublicKey (x25519 (demo_id b))) = demo_b64 (b # replicate 31 b)"
    by (simp add: toB64_def demo_lib_def demo_id_def numeral_eq_Suc)
  moreover have "0x41 + ucast (drop_bit 4 b) \<noteq> (0x2d :: jschar)" 
  proof -
    have "\<not> 0x41 \<le> (0x2d :: jschar)" by simp
    then show ?thesis using demo_byte(1) [of b] by metis
  qed
  ultimately show ?thesis by (simp add: plain_arg_def demo_b64_def startsWith_def js_def)
qed


end
