(* ===== verification/Frontend.thy ===== *)
theory Frontend
  imports Sysinfo Url Machine
begin

text \<open>
  The first generation of the user interface (src/gui-and-app/frontend): api.ts, the view password, the
  requests and the polling hook as a state machine; format.ts; and what the components compute from a
  poll before they render it. The React runtime calls the effects: \<open>mount\<close> on mount and on a new
  interval or URL, \<open>unmount\<close> before the next one; the interval and \<open>refetch\<close> call \<open>tick\<close>.
\<close>

section \<open>format.ts\<close>

definition age :: "lib \<Rightarrow> jsstr option \<Rightarrow> int \<Rightarrow> jsstr" where
  \<comment> \<open>a time that does not parse makes every number NaN\<close>
  "age L stamp now =
     (case stamp of
        None \<Rightarrow> js ''never''
      | Some t \<Rightarrow>
          (case dateParse L t of
             None \<Rightarrow> js ''NaNhNaNm''
           | Some at \<Rightarrow>
               let secs = max 0 ((now - at) div 1000)
               in if secs < 60 then int_str secs @ js ''s''
                  else
                    let m = secs div 60; s = secs mod 60
                    in if m < 60 then int_str m @ js ''m'' @ padStart 2 0x30 (int_str s) @ js ''s''
                       else int_str (m div 60) @ js ''h'' @ padStart 2 0x30 (int_str (m mod 60)) @ js ''m''))"

function bytes_unit :: "nat \<Rightarrow> nat \<Rightarrow> nat" where
  \<comment> \<open>the loop: the index of the unit, at most that of the last one\<close>
  "bytes_unit n i = (if n \<ge> 1024 ^ (i + 2) \<and> i < 3 then bytes_unit n (i + 1) else i)"
  by pat_completeness auto
termination
  by (relation "measure (\<lambda>(n, i). 3 - i)") auto

declare bytes_unit.simps [simp del]

definition bytes_str :: "nat \<Rightarrow> jsstr" where
  \<comment> \<open>the divisions by 1024 are exact; \<open>toFixed\<close> and \<open>Math.round\<close> round halves up\<close>
  "bytes_str n =
     (if n < 1024 then radix_str 10 n @ js ''B''
      else
        let i = bytes_unit n 0; u = 1024 ^ (i + 1);
            tenths = (20 * n + u) div (2 * u)
        in (if n < 10 * u then radix_str 10 (tenths div 10) @ js ''.'' @ radix_str 10 (tenths mod 10)
            else radix_str 10 ((2 * n + u) div (2 * u))) @ js ([''K'', ''M'', ''G'', ''T''] ! i))"

section \<open>The view password\<close>

record web_response = http_response +
  rs_statusText :: jsstr

record web_request = http_request +
  rq_bearer :: "jsstr option" \<comment> \<open>the header \<open>Authorization\<close>\<close>

type_synonym session = "jsstr option" \<comment> \<open>\<open>viewToken\<close> in the session storage\<close>

definition authHeaders :: "session \<Rightarrow> jsstr option" where
  "authHeaders s = (case s of None \<Rightarrow> None | Some t \<Rightarrow> if t = [] then None else Some (js ''Bearer '' @ t))"

datatype failure = AuthRequiredError jsstr | OtherError jsstr

fun failure_message :: "failure \<Rightarrow> jsstr" where
  "failure_message (AuthRequiredError s) = s"
| "failure_message (OtherError s) = s"

definition web_ok :: "web_response \<Rightarrow> bool" where
  "web_ok r \<longleftrightarrow> http_ok (http_response.truncate r)"

definition web_json :: "lib \<Rightarrow> web_response \<Rightarrow> failure + json" where
  "web_json L r = (case response_json L (http_response.truncate r) of Inl e \<Rightarrow> Inl (OtherError (err_message e)) | Inr v \<Rightarrow> Inr v)"

definition status_line :: "web_response \<Rightarrow> jsstr" where
  "status_line r = radix_str 10 (rs_status r) @ 0x20 # rs_statusText r"

definition login :: "lib \<Rightarrow> (web_request \<Rightarrow> failure + web_response) \<Rightarrow> jsstr \<Rightarrow> session \<Rightarrow> session \<times> (failure + unit)" where
  \<comment> \<open>a token that is no string is stored as its string\<close>
  "login L net password s =
     (case net \<lparr> rq_method = POST, rq_url = js ''/api/login'', rq_token = [],
               rq_body = text_encode (json_stringify (JObj [(js ''password'', JStr password)])), rq_file = None, rq_bearer = None \<rparr> of
        Inl e \<Rightarrow> (s, Inl e)
      | Inr r \<Rightarrow>
          if \<not> web_ok r then (s, Inl (OtherError (js ''bad view password'')))
          else (case web_json L r of
                  Inl e \<Rightarrow> (s, Inl e)
                | Inr v \<Rightarrow> (case rbind (field v (js ''token'')) js_string_opt of
                              Inl e \<Rightarrow> (s, Inl (OtherError (err_message e)))
                            | Inr t \<Rightarrow> (Some t, Inr ()))))"

definition getJSON :: "lib \<Rightarrow> failure + web_response \<Rightarrow> session \<Rightarrow> session \<times> (failure + json)" where
  \<comment> \<open>what is made of the outcome of the fetch\<close>
  "getJSON L outcome s =
     (case outcome of
        Inl e \<Rightarrow> (s, Inl e)
      | Inr r \<Rightarrow>
          if rs_status r = 401 then (None, Inl (AuthRequiredError (js ''view password required'')))
          else if \<not> web_ok r then (s, Inl (OtherError (status_line r)))
          else (s, web_json L r))"

section \<open>Polling\<close>

record poll =
  pl_data :: json \<comment> \<open>\<open>null\<close> before the first read\<close>
  pl_stale :: bool
  pl_lastOk :: "int option"
  pl_error :: "jsstr option"
  pl_authRequired :: bool

record poller =
  po_poll :: poll
  po_lastOk :: "int option"
  po_alive :: bool
  po_ctrl :: "nat option" \<comment> \<open>the controller of the last request\<close>
  po_inflight :: bool
  po_running :: "(nat \<times> bool) list" \<comment> \<open>requests not settled yet, and whether they are aborted\<close>
  po_next :: nat

definition poller_new :: poller where
  "poller_new = \<lparr> po_poll = \<lparr> pl_data = JNull, pl_stale = False, pl_lastOk = None, pl_error = None, pl_authRequired = False \<rparr>,
     po_lastOk = None, po_alive = True, po_ctrl = None, po_inflight = False, po_running = [], po_next = 0 \<rparr>"

definition tick :: "poller \<Rightarrow> poller" where
  \<comment> \<open>up to the fetch\<close>
  "tick p =
     (if po_inflight p then p
      else p\<lparr> po_inflight := True, po_ctrl := Some (po_next p), po_running := po_running p @ [(po_next p, False)],
              po_next := po_next p + 1 \<rparr>)"

definition settle :: "lib \<Rightarrow> int \<Rightarrow> nat \<Rightarrow> bool \<Rightarrow> failure + web_response \<Rightarrow> poller \<Rightarrow> session \<Rightarrow> poller \<times> session" where
  \<comment> \<open>the rest of \<open>tick\<close>, when request \<open>i\<close> ended\<close>
  "settle L now i aborted outcome p s =
     (case getJSON L outcome s of (s', r) \<Rightarrow>
        let p' = (case r of
              Inr v \<Rightarrow>
                if \<not> po_alive p then p
                else p\<lparr> po_lastOk := Some now,
                       po_poll := \<lparr> pl_data = v, pl_stale = False, pl_lastOk = Some now, pl_error = None, pl_authRequired = False \<rparr> \<rparr>
            | Inl e \<Rightarrow>
                if \<not> po_alive p \<or> aborted then p
                else p\<lparr> po_poll := (po_poll p)\<lparr> pl_stale := True,
                         pl_authRequired := (case e of AuthRequiredError _ \<Rightarrow> True | OtherError _ \<Rightarrow> False),
                         pl_error := Some (failure_message e) \<rparr> \<rparr>)
        in (p'\<lparr> po_inflight := False, po_running := filter (\<lambda>(j, _). j \<noteq> i) (po_running p') \<rparr>, s'))"

definition unmount :: "poller \<Rightarrow> poller" where
  "unmount p = p\<lparr> po_alive := False, po_running := map (\<lambda>(j, a). (j, a \<or> po_ctrl p = Some j)) (po_running p) \<rparr>"

definition mount :: "poller \<Rightarrow> poller" where
  "mount p = tick (p\<lparr> po_alive := True \<rparr>)"

inductive poll_step :: "lib \<Rightarrow> poller \<times> session \<Rightarrow> poller \<times> session \<Rightarrow> bool" for L :: lib where
  Tick: "poll_step L (p, s) (tick p, s)"
| Settle: "(i, aborted) \<in> set (po_running p) \<Longrightarrow> poll_step L (p, s) (settle L now i aborted outcome p s)"
| Mount: "poll_step L (p, s) (mount p, s)"
| Unmount: "poll_step L (p, s) (unmount p, s)"
| Login: "poll_step L (p, s) (p, fst (login L net password s))"

section \<open>Mutations\<close>

definition uploadFile :: "lib \<Rightarrow> (web_request \<Rightarrow> failure + web_response) \<Rightarrow> session \<Rightarrow> jsstr \<times> jsstr \<times> bytes \<Rightarrow> failure + json" where
  "uploadFile L net s file =
     (case net \<lparr> rq_method = POST, rq_url = js ''/api/files'', rq_token = [], rq_body = [], rq_file = Some file,
               rq_bearer = authHeaders s \<rparr> of
        Inl e \<Rightarrow> Inl e
      | Inr r \<Rightarrow> if \<not> web_ok r then Inl (OtherError (js ''upload failed: '' @ status_line r)) else web_json L r)"

definition deleteFile :: "(web_request \<Rightarrow> failure + web_response) \<Rightarrow> session \<Rightarrow> nat \<Rightarrow> failure + unit" where
  "deleteFile net s i =
     (case net \<lparr> rq_method = DELETE, rq_url = js ''/api/files/'' @ radix_str 10 i, rq_token = [], rq_body = [], rq_file = None,
               rq_bearer = authHeaders s \<rparr> of
        Inl e \<Rightarrow> Inl e
      | Inr r \<Rightarrow> if \<not> web_ok r then Inl (OtherError (js ''delete failed: '' @ status_line r)) else Inr ())"

definition downloadUrl :: "nat \<Rightarrow> jsstr" where
  "downloadUrl i = js ''/api/files/'' @ radix_str 10 i @ js ''/download''"

section \<open>What the components show\<close>

datatype screen = LoginScreen | MainScreen "jsstr option" \<comment> \<open>with the error of the alarm, if the signal is lost\<close>

definition app_screen :: "poll \<Rightarrow> poll \<Rightarrow> poll \<Rightarrow> screen" where
  \<comment> \<open>\<open>App\<close>: of the node, the feed and the jails; an error of \<open>null\<close> renders as nothing\<close>
  "app_screen node ids jails =
     (if pl_authRequired node \<or> pl_authRequired ids \<or> pl_authRequired jails then LoginScreen
      else MainScreen (if pl_stale node \<and> pl_data node \<noteq> JNull
                       then Some (case pl_error node of None \<Rightarrow> [] | Some e \<Rightarrow> e) else None))"

definition live :: "poll \<Rightarrow> bool" where
  "live p \<longleftrightarrow> \<not> pl_stale p \<and> pl_data p \<noteq> JNull"

datatype 'a ladder = Awaiting | Empty | Rows "'a list"

fun readout :: "'a list option \<Rightarrow> 'a ladder" where
  "readout None = Awaiting"
| "readout (Some rows) = (if length rows = 0 then Empty else Rows rows)"

record ids_event =
  ie_id :: jsstr
  ie_at :: jsstr
  ie_node :: "jsstr option"
  ie_source :: jsstr
  ie_severity :: jsstr
  ie_subject :: jsstr
  ie_message :: jsstr

definition COLLAPSED :: nat where
  "COLLAPSED = 5"

datatype chip = Crit nat | Warn nat | AllClear

definition tally :: "ids_event list option \<Rightarrow> chip list" where
  "tally events =
     (let crit = (case events of None \<Rightarrow> 0 | Some es \<Rightarrow> length (filter (\<lambda>e. ie_severity e = js ''crit'') es));
          warn = (case events of None \<Rightarrow> 0 | Some es \<Rightarrow> length (filter (\<lambda>e. ie_severity e = js ''warn'') es))
      in if events = None \<or> events = Some [] then []
         else (if crit > 0 then [Crit crit] else []) @ (if warn > 0 then [Warn warn] else [])
            @ (if crit = 0 \<and> warn = 0 then [AllClear] else []))"

definition shown_events :: "bool \<Rightarrow> ids_event list \<Rightarrow> ids_event list" where
  "shown_events showAll rows = (if showAll then rows else take COLLAPSED rows)"

definition click_row :: "jsstr \<Rightarrow> jsstr option \<Rightarrow> jsstr option" where
  "click_row i open = (if open = Some i then None else Some i)"

definition banned_total :: "jail_status list option \<Rightarrow> nat" where
  "banned_total jails = (case jails of None \<Rightarrow> 0 | Some ls \<Rightarrow> foldl (\<lambda>n j. n + currently_banned j) 0 ls)"

record login_form =
  lf_password :: jsstr
  lf_busy :: bool
  lf_err :: "jsstr option"

definition onSubmit :: "lib \<Rightarrow> (web_request \<Rightarrow> failure + web_response) \<Rightarrow> login_form \<Rightarrow> session \<Rightarrow> login_form \<times> session \<times> bool" where
  \<comment> \<open>the last part: was \<open>onAuthed\<close> called\<close>
  "onSubmit L net f s =
     (case login L net (lf_password f) s of
        (s', Inr _) \<Rightarrow> (f\<lparr> lf_busy := False, lf_err := None \<rparr>, s', True)
      | (s', Inl _) \<Rightarrow> (f\<lparr> lf_busy := False, lf_err := Some (js ''rejected '' @ 0x2014 # js '' wrong view password''), lf_password := [] \<rparr>,
                        s', False))"

record files_panel =
  fp_busy :: bool
  fp_err :: "jsstr option"

definition onPick :: "lib \<Rightarrow> (web_request \<Rightarrow> failure + web_response) \<Rightarrow> session \<Rightarrow> (jsstr \<times> jsstr \<times> bytes) option
    \<Rightarrow> files_panel \<times> poller \<Rightarrow> files_panel \<times> poller" where
  "onPick L net s file st =
     (case file of
        None \<Rightarrow> st
      | Some fl \<Rightarrow>
          (case uploadFile L net s fl of
             Inr _ \<Rightarrow> ((fst st)\<lparr> fp_busy := False, fp_err := None \<rparr>, tick (snd st))
           | Inl e \<Rightarrow> ((fst st)\<lparr> fp_busy := False, fp_err := Some (failure_message e) \<rparr>, snd st)))"

definition onDelete :: "(web_request \<Rightarrow> failure + web_response) \<Rightarrow> session \<Rightarrow> nat \<Rightarrow> files_panel \<times> poller \<Rightarrow> files_panel \<times> poller" where
  "onDelete net s i st =
     (case deleteFile net s i of
        Inr _ \<Rightarrow> ((fst st)\<lparr> fp_err := None \<rparr>, tick (snd st))
      | Inl e \<Rightarrow> ((fst st)\<lparr> fp_err := Some (failure_message e) \<rparr>, snd st))"

end
