(* ===== verification/FrontendProps.thy ===== *)
theory FrontendProps
  imports Frontend
begin

text \<open>
  The invariant of the polling hook and what it means on the screen; sizes and ages.
\<close>

section \<open>The polling hook\<close>

definition poll_ok :: "poller \<Rightarrow> bool" where
  "poll_ok p \<longleftrightarrow> length (po_running p) \<le> 1 \<and> (po_inflight p \<longleftrightarrow> po_running p \<noteq> [])
     \<and> (\<forall>(i, a) \<in> set (po_running p). po_ctrl p = Some i)
     \<and> pl_lastOk (po_poll p) = po_lastOk p \<and> (pl_stale (po_poll p) \<longleftrightarrow> pl_error (po_poll p) \<noteq> None)
     \<and> (pl_authRequired (po_poll p) \<longrightarrow> pl_stale (po_poll p))
     \<and> (pl_lastOk (po_poll p) = None \<longrightarrow> pl_data (po_poll p) = JNull)"

lemma tick_ok: "poll_ok p \<Longrightarrow> poll_ok (tick p)"
  by (auto simp: poll_ok_def tick_def)

lemma mount_ok: "poll_ok p \<Longrightarrow> poll_ok (mount p)"
  unfolding mount_def by (rule tick_ok) (auto simp: poll_ok_def)

lemma unmount_ok: "poll_ok p \<Longrightarrow> poll_ok (unmount p)"
  by (auto simp: poll_ok_def unmount_def)

lemma settled_list: "length xs \<le> 1 \<Longrightarrow> (i, a) \<in> set xs \<Longrightarrow> xs = [(i, a)]"
  by (cases xs) auto

lemma settle_ok:
  assumes "poll_ok p" "(i, a) \<in> set (po_running p)"
  shows "poll_ok (fst (settle L now i a outcome p s))"
proof -
  have run: "po_running p = [(i, a)]" using assms settled_list by (auto simp: poll_ok_def)
  obtain s' r where g: "getJSON L outcome s = (s', r)" by (meson surj_pair)
  show ?thesis
  proof (cases r)
    case (Inl e)
    then show ?thesis using assms(1) run unfolding poll_ok_def settle_def g by (cases e; simp; blast)
  next
    case (Inr v)
    then show ?thesis using assms(1) run unfolding poll_ok_def settle_def g by (simp; blast)
  qed
qed

inductive_cases poll_stepE: "poll_step L (p, s) ps"

interpretation poll_machine: machine "\<lambda>ps. fst ps = poller_new" "poll_step L" "\<lambda>ps. poll_ok (fst ps)" for L
proof
  show "poll_ok (fst ps)" if "fst ps = poller_new" for ps :: "poller \<times> session"
    using that by (simp add: poll_ok_def poller_new_def)
  show "poll_ok (fst qs)" if "poll_ok (fst ps)" "poll_step L ps qs" for ps qs :: "poller \<times> session"
    using that(2,1) by (cases rule: poll_step.cases) (auto intro: tick_ok mount_ok unmount_ok settle_ok)
qed

text \<open>
  C38: in every state that ticks, answers, mounts and logins can lead to, a poll has at most one request
  in the air and is marked busy exactly then; LIVE is shown only after a successful read with no failure
  since; a failure keeps the last data on the screen, and the login screen comes only from a refused
  read. A request that ends, however it ends, frees the poll for the next tick.
\<close>

theorem poll_shows_last_read:
  assumes "reachable (\<lambda>ps. fst ps = poller_new) (poll_step L) (p, s)"
  shows "length (po_running p) \<le> 1 \<and> (po_inflight p \<longleftrightarrow> po_running p \<noteq> [])
    \<and> (live (po_poll p) \<longrightarrow> pl_lastOk (po_poll p) \<noteq> None \<and> pl_error (po_poll p) = None \<and> \<not> pl_authRequired (po_poll p))
    \<and> (pl_lastOk (po_poll p) = None \<longrightarrow> pl_data (po_poll p) = JNull)
    \<and> (\<forall>(i, a) \<in> set (po_running p). let q = fst (settle L now i a outcome p s) in
         \<not> po_inflight q
       \<and> (case snd (getJSON L outcome s) of
            Inr v \<Rightarrow> po_alive p \<longrightarrow> pl_data (po_poll q) = v \<and> \<not> pl_stale (po_poll q)
          | Inl e \<Rightarrow> pl_data (po_poll q) = pl_data (po_poll p) \<and> pl_lastOk (po_poll q) = pl_lastOk (po_poll p)
              \<and> (po_alive p \<and> \<not> a \<longrightarrow> pl_stale (po_poll q))))"
proof -
  have ok: "poll_ok p" using poll_machine.reachable_inv [OF assms] by simp
  have one: "let q = fst (settle L now i a outcome p s) in \<not> po_inflight q
       \<and> (case snd (getJSON L outcome s) of
            Inr v \<Rightarrow> po_alive p \<longrightarrow> pl_data (po_poll q) = v \<and> \<not> pl_stale (po_poll q)
          | Inl e \<Rightarrow> pl_data (po_poll q) = pl_data (po_poll p) \<and> pl_lastOk (po_poll q) = pl_lastOk (po_poll p)
              \<and> (po_alive p \<and> \<not> a \<longrightarrow> pl_stale (po_poll q)))" for i a
    by (cases "getJSON L outcome s", cases "snd (getJSON L outcome s)") (simp_all add: settle_def)
  show ?thesis using ok one by (auto simp: poll_ok_def live_def)
qed

theorem poll_shows_last_read_witness:
  "\<exists>p s. po_inflight p \<and> length (po_running p) = 1 \<and> po_inflight (tick poller_new)
     \<and> \<not> po_inflight (fst (settle demo_lib 7 0 False (Inl (OtherError [])) p s))"
proof -
  let ?p = "tick poller_new"
  have p: "po_running ?p = [(0, False)]" "po_inflight ?p" by (simp_all add: tick_def poller_new_def)
  have start: "reachable (\<lambda>ps. fst ps = poller_new) (poll_step demo_lib) (poller_new, None)"
    by (rule reachable.start) simp
  have "poll_step demo_lib (poller_new, None) (?p, None)" by (rule poll_step.Tick)
  then have "reachable (\<lambda>ps. fst ps = poller_new) (poll_step demo_lib) (?p, None)" by (rule reachable.next_step [OF start])
  from poll_shows_last_read [OF this, of 7 "Inl (OtherError [])"] p show ?thesis by (auto simp: Let_def)
qed

section \<open>Where the code falls short\<close>

text \<open>
  a refresh asked for while a poll is in the air is dropped: after an upload during a poll the list on the
  screen is the one from before it until the next tick.
\<close>

theorem refetch_dropped:
  assumes "po_inflight p"
  shows "tick p = p" "uploadFile L net s file = Inr v \<Longrightarrow> snd (onPick L net s (Some file) (f, p)) = p"
  using assms by (simp_all add: tick_def onPick_def)

section \<open>Sizes\<close>

lemma bytes_unit_bounds:
  "i \<le> 3 \<Longrightarrow> 1024 ^ (i + 1) \<le> n \<Longrightarrow> bytes_unit n i \<le> 3 \<and> 1024 ^ (bytes_unit n i + 1) \<le> n
    \<and> (bytes_unit n i < 3 \<longrightarrow> n < 1024 ^ (bytes_unit n i + 2))"
proof (induction n i rule: bytes_unit.induct)
  case (1 n i)
  show ?case
  proof (cases "n \<ge> 1024 ^ (i + 2) \<and> i < 3")
    case True
    then have "bytes_unit n i = bytes_unit n (i + 1)" by (subst bytes_unit.simps) simp
    then show ?thesis using 1(1) [OF True] True by simp
  next
    case False
    then have "bytes_unit n i = i" by (subst bytes_unit.simps) (simp only: if_False)
    then show ?thesis using False 1(2,3) by auto
  qed
qed

end
