(* ===== verification/BootTypes.thy ===== *)
theory BootTypes
  imports BootProps
begin

text \<open>
  What every successful boot establishes about the context and the first state, whatever the
  environment and the data directory hold.
\<close>

section \<open>The gate of a booted node\<close>

lemma load_entries_state: "gstate (fst (load_entries L es g)) = gstate g \<and> timer (fst (load_entries L es g)) = timer g
    \<and> recloseAttempts (fst (load_entries L es g)) = recloseAttempts g"
  by (induction es arbitrary: g) (auto simp: load_entry_def Let_def split: sum.splits prod.splits json.splits list.splits)

lemma boot_gate_closed: "gstate (boot_gate L saved) = \<lparr> mode_of = Island, closesAt = None \<rparr> \<and> timer (boot_gate L saved) = None"
  using load_entries_state
  by (auto simp: boot_gate_def loadConsumed_def gate_new_def split: option.splits json.splits sum.splits prod.splits)

section \<open>The context\<close>

lemma parseArgs_port: "parseArgs num h argv = Inr a \<Longrightarrow> 0 < ar_port a"
  unfolding parseArgs_def rbind_eq_Inr
proof (elim exE conjE)
  fix p
  assume p: "numConfig num (env h ''ISLAND_PORT'') ''ISLAND_PORT'' 8787 = Inr p"
    "parse_args num argv \<lparr> ar_mock = False, ar_host = [], ar_port = p \<rparr> = Inr a"
  show "0 < ar_port a" using parse_args_port [OF p(2)] numConfig_positive [OF p(1)] by simp
qed

lemma saved_book_owner: "saved_book L fs d i lbl w = Inr b \<Longrightarrow> same_owner (book_new i lbl w) b"
  by (auto simp: saved_book_def book_fromJSON_def res_eq same_owner_def book_new_def split: option.splits)

lemma boot_state_typed:
  assumes "keys_ok L" "boot_state L num h a d lbl w fs = (fs', Inr (i, b, s, m, g))"
  shows "id_ok L i \<and> same_owner (book_new i lbl w) b \<and> gstate g = \<lparr> mode_of = Island, closesAt = None \<rparr> \<and> timer g = None
    \<and> (ar_mock a \<longrightarrow> fs' = fs)"
proof (cases "ar_mock a")
  case True
  then show ?thesis
    using assms by (auto simp: boot_state_def Let_def generate_id_ok same_owner_def gate_new_def)
next
  case False
  then obtain fs1 where "node_identity L h (env_or h ''ISLAND_IDENTITY_DIR'' (path_join d ''identity'')) fs = (fs1, Inr i)"
    "saved_book L fs1 d i lbl w = Inr b" "g = boot_gate L (map_get fs1 (path_join d ''gate.json''))"
    using assms(2) by (auto simp: boot_state_def andthen_eq_Inr res_eq)
  then show ?thesis
    using False load_id_ok [OF identity_cases(1)] saved_book_owner boot_gate_closed by metis
qed

lemma boot_parts:
  assumes "boot L num h a fs = (fs', Inr (c, n))"
  obtains fs1 keys p where
    "numConfig num (env h ''ISLAND_PEER_PORT'') ''ISLAND_PEER_PORT'' (ar_port a) = Inr p" "cx_peerPort c = nat p"
    "provisionAdminToken L h (ar_mock a) (cx_dataDir c) fs = (fs1, Inr (cx_adminToken c))"
    "numConfig num (env h ''ISLAND_CANARY_FRESHNESS'') ''ISLAND_CANARY_FRESHNESS'' 120 = Inr (cx_canaryFreshnessS c)"
    "numConfig num (env h ''ISLAND_GATE_TTL'') ''ISLAND_GATE_TTL'' 2700 = Inr (ttlSeconds (cx_gate c))"
    "noncePruneSeconds (cx_gate c) = 3600"
    "admin_keys L (case mock_admin L h a of None \<Rightarrow> admin_pubs h | Some m \<Rightarrow> [toB64 L (publicKey (ed25519 m))]) = Inr keys"
    "cx_adminVerify c = adminVerify keys" "cx_mockAdmin c = mock_admin L h a"
    "boot_state L num h a (cx_dataDir c) (cx_label c) (cx_wg0 c) fs1
      = (fs', Inr (cx_identity c, nd_book n, nd_share n, nd_msgs n, nd_gate n))"
    "cx_mock c = ar_mock a" "nd_limiter n = limiter_new 10 (5 * 60000)" "nd_files n = fs'"
  using assms
  by (auto simp: boot_def Let_def andthen_eq_Inr split: prod.splits)

text \<open>
  C37: a boot that succeeds has a sound context, whatever the environment holds: the lifetime of an open
  gate, the freshness window and the ports are positive; the identity's key pairs belong together; a
  canary key verifies only if it is on the configured allowlist and decodes, or, on a mock node without
  an allowlist, is the throwaway admin's; nonces are kept for an hour, so the replay guard outlasts the
  window exactly if the window is at most half of it. The first state is an island with no timer, the
  book belongs to the node, and the limiter allows ten attempts in five minutes. A mock node writes no
  file.
\<close>

theorem boot_well_typed:
  assumes "lib_ok L" "parseArgs num h argv = Inr a" "boot L num h a fs = (fs', Inr (c, n))"
  shows "0 < ttlSeconds (cx_gate c) \<and> 0 < cx_canaryFreshnessS c \<and> 0 < cx_peerPort c \<and> 0 < ar_port a \<and> id_ok L (cx_identity c)
    \<and> (\<forall>ed k. cx_adminVerify c ed = Some k \<longleftrightarrow> fromB64 L ed = Inr k
         \<and> (case cx_mockAdmin c of None \<Rightarrow> ed \<in> set (admin_pubs h) | Some m \<Rightarrow> ed = toB64 L (publicKey (ed25519 m))))
    \<and> (cx_mockAdmin c \<noteq> None \<longleftrightarrow> cx_mock c \<and> admin_pubs h = [])
    \<and> (2 * cx_canaryFreshnessS c \<le> noncePruneSeconds (cx_gate c) \<longleftrightarrow> cx_canaryFreshnessS c \<le> 1800)
    \<and> gstate (nd_gate n) = \<lparr> mode_of = Island, closesAt = None \<rparr> \<and> timer (nd_gate n) = None
    \<and> same_owner (book_new (cx_identity c) (cx_label c) (cx_wg0 c)) (nd_book n)
    \<and> nd_limiter n = limiter_new 10 (5 * 60000) \<and> (cx_mock c \<longrightarrow> fs' = fs \<and> cx_adminToken c = [])"
proof -
  obtain fs1 keys p where one:
    "numConfig num (env h ''ISLAND_PEER_PORT'') ''ISLAND_PEER_PORT'' (ar_port a) = Inr p" "cx_peerPort c = nat p"
    "provisionAdminToken L h (ar_mock a) (cx_dataDir c) fs = (fs1, Inr (cx_adminToken c))"
    "numConfig num (env h ''ISLAND_CANARY_FRESHNESS'') ''ISLAND_CANARY_FRESHNESS'' 120 = Inr (cx_canaryFreshnessS c)"
    "numConfig num (env h ''ISLAND_GATE_TTL'') ''ISLAND_GATE_TTL'' 2700 = Inr (ttlSeconds (cx_gate c))"
    "noncePruneSeconds (cx_gate c) = 3600"
    "admin_keys L (case mock_admin L h a of None \<Rightarrow> admin_pubs h | Some m \<Rightarrow> [toB64 L (publicKey (ed25519 m))]) = Inr keys"
    "cx_adminVerify c = adminVerify keys" "cx_mockAdmin c = mock_admin L h a"
    "boot_state L num h a (cx_dataDir c) (cx_label c) (cx_wg0 c) fs1
      = (fs', Inr (cx_identity c, nd_book n, nd_share n, nd_msgs n, nd_gate n))"
    "cx_mock c = ar_mock a" "nd_limiter n = limiter_new 10 (5 * 60000)" "nd_files n = fs'"
    by (rule boot_parts [OF assms(3)])
  have port: "0 < ar_port a" by (rule parseArgs_port [OF assms(2)])
  have positive: "0 < ttlSeconds (cx_gate c)" "0 < cx_canaryFreshnessS c" "0 < cx_peerPort c"
    using numConfig_positive [OF one(5)] numConfig_positive [OF one(4)] numConfig_positive [OF one(1) port] one(2) by simp_all
  have state: "id_ok L (cx_identity c)" "same_owner (book_new (cx_identity c) (cx_label c) (cx_wg0 c)) (nd_book n)"
    "gstate (nd_gate n) = \<lparr> mode_of = Island, closesAt = None \<rparr>" "timer (nd_gate n) = None" "cx_mock c \<longrightarrow> fs' = fs1"
    using boot_state_typed [OF lib_okD(4) [OF assms(1)] one(10)] one(11) by simp_all
  have token: "cx_mock c \<longrightarrow> fs1 = fs \<and> cx_adminToken c = []"
    using one(3,11) by (auto simp: provisionAdminToken_def)
  have keys: "cx_adminVerify c ed = Some k \<longleftrightarrow> fromB64 L ed = Inr k
      \<and> (case cx_mockAdmin c of None \<Rightarrow> ed \<in> set (admin_pubs h) | Some m \<Rightarrow> ed = toB64 L (publicKey (ed25519 m)))" for ed k
    using admin_keys_get [OF one(7), of ed k] unfolding one(8,9) adminVerify_def by (auto split: option.splits)
  have "cx_mockAdmin c \<noteq> None \<longleftrightarrow> cx_mock c \<and> admin_pubs h = []" unfolding one(9,11) by (simp add: mock_admin_def)
  then show ?thesis using port positive state token keys one(6,12) by simp
qed

theorem boot_well_typed_witness:
  "\<exists>a fs c n. parseArgs (\<lambda>_. NaN) demo_host [] = Inr a \<and> boot demo_lib (\<lambda>_. NaN) demo_host a [] = (fs, Inr (c, n))
     \<and> id_ok demo_lib (cx_identity c) \<and> nd_limiter n = limiter_new 10 (5 * 60000)"
proof (rule demo_boot)
  fix fs0 c n0
  assume b: "boot demo_lib (\<lambda>_. NaN) demo_host \<lparr> ar_mock = False, ar_host = [], ar_port = 8787 \<rparr> [] = (fs0, Inr (c, n0))"
  have a: "parseArgs (\<lambda>_. NaN) demo_host [] = Inr \<lparr> ar_mock = False, ar_host = [], ar_port = 8787 \<rparr>"
    by (simp add: parseArgs_def demo_env numConfig_def)
  from boot_well_typed [OF demo_lib_ok a b] a b show ?thesis by blast
qed

end
