(* ===== verification/SigningProps.thy ===== *)
theory SigningProps
  imports FriendsProps RegistryProps EventsProps MessagesProps GateProps
begin

text \<open>
  One key signs seven kinds of statements: invites, accepts, revoke notices, directory records, event
  reports, messages and canaries. The canonical text keeps them apart: the same bytes are never two
  statements.
\<close>

datatype statement =
    Token friend_token
  | Accept friend_accept
  | Revoke friend_revoke
  | Record registry_record
  | Report event_report
  | Message lib jsstr identity jsstr jsstr jsstr
  | Canary lib identity jsstr jsstr bytes jsstr

fun signed_payload :: "statement \<Rightarrow> payload" where
  "signed_payload (Token t) = tokenSignable t"
| "signed_payload (Accept a) = acceptSignable a"
| "signed_payload (Revoke r) = revokeSignable r"
| "signed_payload (Record r) = registrySignable r"
| "signed_payload (Report r) = reportSignable r"
| "signed_payload (Message L uuid self rcpt body ts) = message_payload L uuid self rcpt body ts"
| "signed_payload (Canary L adm kw words rnd iss) = canary_payload L adm kw words rnd iss"

fun kind_key :: "statement \<Rightarrow> jsstr" where
  \<comment> \<open>a field that only statements of this kind have\<close>
  "kind_key (Token t) = js ''expires''"
| "kind_key (Accept a) = js ''ref''"
| "kind_key (Revoke r) = js ''target''"
| "kind_key (Record r) = js ''ed25519''"
| "kind_key (Report r) = js ''events''"
| "kind_key (Message L uuid self rcpt body ts) = js ''typ''"
| "kind_key (Canary L adm kw words rnd iss) = js ''keyword''"

lemmas signed_payloads = tokenSignable_def acceptSignable_def revokeSignable_def registrySignable_def reportSignable_def
  message_payload_def canary_payload_def

lemma kind_key_mine: "map_get (signed_payload s) (kind_key s) \<noteq> None"
  by (cases s) (simp_all add: signed_payloads)

lemma kind_key_only: "map_get (signed_payload s) (kind_key t) \<noteq> None \<Longrightarrow> kind_key s = kind_key t"
  by (cases s; cases t) (simp_all add: signed_payloads)

text \<open>
  C8: a signature means one thing: if two statements a node can sign have the same canonical bytes (with
  the numbers and event lists in them valid), they are of the same kind and agree in every field, so
  a signature given for one is never evidence of another.
\<close>

theorem signatures_mean_one_thing:
  assumes "json_ok (JObj (signed_payload s))" "json_ok (JObj (signed_payload t))"
    and "canonicalBytes (JObj (signed_payload s)) = canonicalBytes (JObj (signed_payload t))"
  shows "kind_key s = kind_key t
    \<and> (\<forall>k. map_option norm_json (map_get (signed_payload s) k) = map_option norm_json (map_get (signed_payload t) k))"
proof -
  have same: "map_option norm_json (map_get (signed_payload s) k) = map_option norm_json (map_get (signed_payload t) k)" for k
    by (rule norm_json_eq_obj [OF assms(1,2) canonicalBytes_inject [OF assms]])
  then have "map_get (signed_payload t) (kind_key s) \<noteq> None"
    using kind_key_mine [of s] by (metis option.map_disc_iff)
  then show ?thesis using same kind_key_only [of t s] by simp
qed

theorem signatures_mean_one_thing_witness:
  "\<exists>g. kind_key (Token g) = js ''expires'' \<and> (\<forall>r x. canonicalBytes (JObj (signed_payload (Token g)))
      = canonicalBytes (JObj (signed_payload (Token (g\<lparr> tok_sig := x \<rparr>))))
      \<and> map_option norm_json (map_get (signed_payload (Token g)) (js ''nonce''))
        = map_option norm_json (map_get (signed_payload (Token (g\<lparr> tok_sig := x \<rparr>))) (js ''nonce''))
      \<and> canonicalBytes (JObj (signed_payload (Token g))) \<noteq> canonicalBytes (JObj (signed_payload (Record r))))"
proof -
  define g where "g = \<lparr> tok_v = 1, tok_from = peerPubOf demo_lib (demo_id 1) (js ''node'') (js ''10.42.0.5''),
    tok_nonce = [7], tok_issued = iso_str 0, tok_expires = iso_str 60000, tok_sig = [] \<rparr>"
  have ok: "json_ok (JObj (signed_payload (Token (g\<lparr> tok_sig := x \<rparr>))))" "json_ok (JObj (signed_payload (Record r)))" for x r
    by (simp_all add: g_def tokenSignable_def registrySignable_def peerPubJson_def safe_int_def max_safe_def)
  have g: "g\<lparr> tok_sig := [] \<rparr> = g" by (simp add: g_def)
  have sig: "canonicalBytes (JObj (signed_payload (Token g))) = canonicalBytes (JObj (signed_payload (Token (g\<lparr> tok_sig := x \<rparr>))))" for x
    by (simp add: tokenSignable_def)
  have "canonicalBytes (JObj (signed_payload (Token g))) \<noteq> canonicalBytes (JObj (signed_payload (Record r)))" for r
    using signatures_mean_one_thing [of "Token g" "Record r"] ok(1) [of "[]"] ok(2) [of r] unfolding g by auto
  moreover have "map_option norm_json (map_get (signed_payload (Token g)) (js ''nonce''))
      = map_option norm_json (map_get (signed_payload (Token (g\<lparr> tok_sig := x \<rparr>))) (js ''nonce''))" for x
    using signatures_mean_one_thing [OF _ _ sig [of x]] ok(1) [of "[]"] ok(1) [of x] unfolding g by blast
  ultimately show ?thesis using sig by (intro exI [of _ g]) simp
qed

end
