(* ===== verification/HandshakeProps.thy ===== *)
theory HandshakeProps
  imports CliProps Lengths
begin

text \<open>
  Two operators become friends from their terminals: the three commands of the command line, each against
  the dispatcher of its own node, and what the two nodes know afterwards.
\<close>

section \<open>A command of the local operator\<close>

definition LOCAL :: jsstr where
  "LOCAL = js ''127.0.0.1''"

definition free_at :: "jsstr \<Rightarrow> node \<Rightarrow> bool" where
  \<comment> \<open>the address is not locked out, at any time\<close>
  "free_at k n \<longleftrightarrow> 0 < lim_max (nd_limiter n) \<and> (\<forall>now. \<not> snd (locked now k (nd_limiter n)))"

lemma free_at_update [simp]:
  "free_at k (n\<lparr> nd_book := b \<rparr>) = free_at k n" "free_at k (n\<lparr> nd_files := fs \<rparr>) = free_at k n"
  by (simp_all add: free_at_def)

definition local_call :: "host \<Rightarrow> string \<Rightarrow> payload \<Rightarrow> call" where
  "local_call h path kvs = cli_arriving LOCAL (cli_call h path (Some (JObj kvs)))"

lemma local_operator: "isOperator sha c (local_call h path kvs)" "limiter_key (local_call h path kvs) = LOCAL"
  by (simp_all add: isOperator_def manageOk_def operatorOk_def LOOPBACK_def local_call_def cli_arriving_def arriving_def
      limiter_key_def LOCAL_def)

lemma local_guard:
  assumes "free_at LOCAL n"
  obtains l where "requireOperator sha c (local_call h path kvs) o' n = (n\<lparr> nd_limiter := l \<rparr>, Inr ())"
    "\<forall>m. free_at LOCAL (m\<lparr> nd_limiter := l \<rparr>)"
proof -
  let ?l = "fst (locked (io_now o' 0) LOCAL (nd_limiter n))"
  have "lim_max ?l = lim_max (nd_limiter n)" by (simp add: locked_def case_prod_unfold)
  then have "free_at LOCAL (m\<lparr> nd_limiter := reset LOCAL ?l \<rparr>)" for m
    using assms by (simp add: free_at_def snd_locked reset_def hits_of_def)
  moreover have "requireOperator sha c (local_call h path kvs) o' n = (n\<lparr> nd_limiter := reset LOCAL ?l \<rparr>, Inr ())"
    using assms by (simp add: requireOperator_def local_operator free_at_def case_prod_unfold)
  ultimately show thesis using that by blast
qed

lemma local_route:
  assumes "ADDR h = js ''http://'' @ a" "0x2f \<notin> set a"
  shows "is_route (local_call h (CHR ''/'' # path) kvs) POST (CHR ''/'' # path)"
proof -
  have "dropWhile (\<lambda>k. k \<noteq> 0x2f) (a @ 0x2f # p) = 0x2f # p" for p :: jsstr
    using assms(2) by (induction a) auto
  then have "cl_path (local_call h (CHR ''/'' # path) kvs) = js (CHR ''/'' # path)"
    by (simp add: local_call_def cli_arriving_def arriving_def cli_call_def http_request.truncate_def assms(1) js_def)
  then show ?thesis
    by (simp add: is_route_def local_call_def cli_arriving_def arriving_def cli_call_def http_request.truncate_def)
qed

lemma local_body:
  assumes "quiet o'" "json_ok (JObj kvs)" "fits_body (JObj kvs)"
  shows "readJson L (local_call h path kvs) o' n = (n, Inr kvs)"
  unfolding local_call_def using assms(3) by (subst cli_read [OF assms(1,2)]) (simp_all add: cli_call_def)

definition daemon_for :: "externals \<Rightarrow> ctx \<Rightarrow> (cli_request \<Rightarrow> outside) \<Rightarrow> node server" where
  \<comment> \<open>the node under its operator's terminal: each request meets the world as it then is\<close>
  "daemon_for x c os rq = daemon_at x c LOCAL (os rq) rq"

definition plain_tokens :: "host \<Rightarrow> bool" where
  \<comment> \<open>the tokens of the environment are sent as they are\<close>
  "plain_tokens h \<longleftrightarrow> header_value (ADMIN h) = Inr (ADMIN h) \<and> header_value (OP h) = Inr (OP h)"

lemma send_call:
  "plain_tokens h \<Longrightarrow> send_request srv (cli_call h path body) t
    = (case srv (cli_call h path body) (tm_world t) of (w, r) \<Rightarrow> (t\<lparr> tm_world := w \<rparr>, of_lib ''Unable to connect'' r))"
  by (rule send_plain) (simp_all add: plain_tokens_def cli_call_def)

lemma req_answered:
  assumes "plain_tokens h" "serve x c (local_call h path kvs) (os (cli_call h path (Some (JObj kvs)))) (tm_world tm) = (n', json_response 200 (JObj ans))"
    and "json_ok (JObj ans)"
  shows "req L (daemon_for x c os) h path (Some (JObj kvs)) tm = (tm\<lparr> tm_world := n' \<rparr>, Inr (JObj ans))"
proof -
  have "send_request (daemon_for x c os) (cli_call h path (Some (JObj kvs))) tm
      = (tm\<lparr> tm_world := n' \<rparr>, Inr (json_response 200 (JObj ans)))"
    using assms(2) by (simp add: send_call [OF assms(1)] daemon_for_def daemon_at_def local_call_def)
  then show ?thesis using json_answer [OF assms(3)] by (simp add: req_def andthen_def json_response_ok)
qed

lemma req_refused:
  assumes "plain_tokens h"
    and "serve x c (local_call h path kvs) (os (cli_call h path (Some (JObj kvs)))) (tm_world tm)
      = (n', json_response 400 (JObj [(js ''error'', JStr msg)]))" "msg \<noteq> []"
  shows "req L (daemon_for x c os) h path (Some (JObj kvs)) tm = (tm\<lparr> tm_world := n' \<rparr>, Inl (Err JsError msg))"
proof -
  have "send_request (daemon_for x c os) (cli_call h path (Some (JObj kvs))) tm
      = (tm\<lparr> tm_world := n' \<rparr>, Inr (json_response 400 (JObj [(js ''error'', JStr msg)])))"
    using assms(2) by (simp add: send_call [OF assms(1)] daemon_for_def daemon_at_def local_call_def)
  then show ?thesis using json_answer [of "[(js ''error'', JStr msg)]" L 400] assms(3)
    by (simp add: req_def andthen_def json_response_ok http_error_def lift_res_def)
qed

section \<open>The four requests\<close>

lemma friend_routes:
  "is_route q POST ''/api/friends/token'' \<Longrightarrow> route x c q o' n = issue_invite (ex_lib x) (ex_sha x) c q o' n"
  "is_route q POST ''/api/friends/receive'' \<Longrightarrow> route x c q o' n = receive_invite (ex_lib x) (ex_sha x) c q o' n"
  "is_route q POST ''/api/friends/accept'' \<Longrightarrow> route x c q o' n = accept_request (ex_lib x) (ex_sha x) c q o' n"
  "is_route q POST ''/api/friends/confirm'' \<Longrightarrow> route x c q o' n = confirm_reply (ex_lib x) (ex_sha x) c q o' n"
  "is_route q POST ''/api/friends/accept-inbound'' \<Longrightarrow> route x c q o' n = accept_inbound (ex_lib x) c q o' n"
  by (simp_all add: route_def route_home_def route_directory_def route_admin_def route_friends_def path_rest_def is_route_def)

lemma saved:
  assumes "quiet o'" "4 \<le> io_disk o'" "\<forall>m. free_at LOCAL (m\<lparr> nd_limiter := l \<rparr>)"
  obtains n' where "persist c o' (n\<lparr> nd_limiter := l, nd_book := b \<rparr>) = (n', Inr ())" "nd_book n' = b" "free_at LOCAL n'"
proof -
  obtain fs where fs: "persist c o' (n\<lparr> nd_limiter := l, nd_book := b \<rparr>) = (n\<lparr> nd_limiter := l, nd_book := b, nd_files := fs \<rparr>, Inr ())"
    by (rule persist_ok [OF assms(1,2)])
  have free: "free_at LOCAL (n\<lparr> nd_limiter := l, nd_book := b, nd_files := fs \<rparr>)"
    using assms(3) by (simp only: free_at_update simp_thms)
  show thesis by (rule that [OF fs _ free]) simp
qed

lemma invite_served:
  assumes "quiet o'" "4 \<le> io_disk o'" "free_at LOCAL n" "is_route q POST ''/api/friends/token''" "q = local_call h path kvs"
    and "kvs = [(js ''ttlSeconds'', JNum ttl)]" "\<And>m. readJson (ex_lib x) q o' m = (m, Inr kvs)"
    and "issueToken (ex_lib x) (io_rand o' 0) ttl (io_now o' 3) (nd_book n) = (b, Inr tok)" "encodeInvite (ex_lib x) tok = Inr code"
  obtains n' where "serve x c q o' n = (n', json_response 200 (JObj [(js ''invite'', JStr code)]))" "nd_book n' = b" "free_at LOCAL n'"
proof -
  obtain l where l: "requireOperator (ex_sha x) c q o' n = (n\<lparr> nd_limiter := l \<rparr>, Inr ())" "\<forall>m. free_at LOCAL (m\<lparr> nd_limiter := l \<rparr>)"
    unfolding assms(5) by (rule local_guard [where sha = "ex_sha x" and c = c and h = h and path = path and kvs = kvs and o' = o', OF assms(3)])
  obtain n' where n': "persist c o' (n\<lparr> nd_limiter := l, nd_book := b \<rparr>) = (n', Inr ())" "nd_book n' = b" "free_at LOCAL n'"
    by (rule saved [OF assms(1,2) l(2)])
  have "serve x c q o' n = (n', json_response 200 (JObj [(js ''invite'', JStr code)]))"
    using l(1) assms(6-9) n'(1)
    by (simp add: serve_def friend_routes(1) [OF assms(4)] issue_invite_def andthen_def on_book_def ok_json_def answer_def)
  then show thesis using n'(2,3) by (rule that)
qed

lemma receive_served:
  assumes "quiet o'" "4 \<le> io_disk o'" "free_at LOCAL n" "is_route q POST ''/api/friends/receive''" "q = local_call h path kvs"
    and "kvs = [(js ''invite'', JStr code)]" "code \<noteq> []" "\<And>m. readJson (ex_lib x) q o' m = (m, Inr kvs)"
    and "decodeInvite (ex_lib x) code = Inr tok" "receive (ex_lib x) tok (io_now o' 3) (nd_book n) = (b, Inr p)"
  obtains n' where "serve x c q o' n = (n', json_response 200 (JObj [(js ''request'', peerPubJson p)]))" "nd_book n' = b" "free_at LOCAL n'"
proof -
  obtain l where l: "requireOperator (ex_sha x) c q o' n = (n\<lparr> nd_limiter := l \<rparr>, Inr ())" "\<forall>m. free_at LOCAL (m\<lparr> nd_limiter := l \<rparr>)"
    unfolding assms(5) by (rule local_guard [where sha = "ex_sha x" and c = c and h = h and path = path and kvs = kvs and o' = o', OF assms(3)])
  obtain n' where n': "persist c o' (n\<lparr> nd_limiter := l, nd_book := b \<rparr>) = (n', Inr ())" "nd_book n' = b" "free_at LOCAL n'"
    by (rule saved [OF assms(1,2) l(2)])
  have "serve x c q o' n = (n', json_response 200 (JObj [(js ''request'', peerPubJson p)]))"
    using l(1) assms(6-10) n'(1)
    by (simp add: serve_def friend_routes(2) [OF assms(4)] receive_invite_def andthen_def on_book_def ok_json_def answer_def str_field_def)
  then show thesis using n'(2,3) by (rule that)
qed

lemma accept_served:
  assumes "quiet o'" "4 \<le> io_disk o'" "free_at LOCAL n" "is_route q POST ''/api/friends/accept''" "q = local_call h path kvs"
    and "kvs = [(js ''giver'', JStr giver)]" "\<And>m. readJson (ex_lib x) q o' m = (m, Inr kvs)"
    and "accept (ex_lib x) (io_rand o' 0) giver (io_now o' 3) (nd_book n) = (b, Inr blob)"
  obtains n' delivered where "serve x c q o' n
      = (n', json_response 200 (JObj [(js ''reply'', JStr (encodeReply blob)), (js ''delivered'', JBool delivered)]))"
    "nd_book n' = b" "free_at LOCAL n'"
proof -
  obtain l where l: "requireOperator (ex_sha x) c q o' n = (n\<lparr> nd_limiter := l \<rparr>, Inr ())" "\<forall>m. free_at LOCAL (m\<lparr> nd_limiter := l \<rparr>)"
    unfolding assms(5) by (rule local_guard [where sha = "ex_sha x" and c = c and h = h and path = path and kvs = kvs and o' = o', OF assms(3)])
  obtain n' where n': "persist c o' (n\<lparr> nd_limiter := l, nd_book := b \<rparr>) = (n', Inr ())" "nd_book n' = b" "free_at LOCAL n'"
    by (rule saved [OF assms(1,2) l(2)])
  have "\<exists>d. serve x c q o' n = (n', json_response 200 (JObj [(js ''reply'', JStr (encodeReply blob)), (js ''delivered'', JBool d)]))"
    using l(1) assms(1,6-8) n'(1)
    by (simp add: serve_def friend_routes(3) [OF assms(4)] accept_request_def andthen_def on_book_def ok_json_def answer_def str_field_def
        deliver_def quiet_def) blast
  then show thesis using n'(2,3) that by blast
qed

lemma accept_delivers:
  \<comment> \<open>the acceptance is posted to the giver, and the answer says whether that arrived\<close>
  assumes "quiet o'" "4 \<le> io_disk o'" "free_at LOCAL n" "is_route q POST ''/api/friends/accept''" "q = local_call h path kvs"
    and "kvs = [(js ''giver'', JStr giver)]" "\<And>m. readJson (ex_lib x) q o' m = (m, Inr kvs)"
    and "accept (ex_lib x) (io_rand o' 0) giver (io_now o' 3) (nd_book n) = (b, Inr blob)"
    and "friend giver b = Some fr" "peer_wg0 (fr_peer fr) \<noteq> []"
  shows "snd (serve x c q o' n) = json_response 200 (JObj [(js ''reply'', JStr (encodeReply blob)), (js ''delivered'',
      JBool (case fetch (io_net o') (http_post (peerUrl (peer_wg0 (fr_peer fr)) (cx_peerPort c) (js ''/api/friends/accept-inbound''))
                    (JObj [(js ''accept'', JStr blob)])) of Inl _ \<Rightarrow> False | Inr r \<Rightarrow> http_ok r))])"
proof -
  obtain l where l: "requireOperator (ex_sha x) c q o' n = (n\<lparr> nd_limiter := l \<rparr>, Inr ())" "\<forall>m. free_at LOCAL (m\<lparr> nd_limiter := l \<rparr>)"
    unfolding assms(5) by (rule local_guard [where sha = "ex_sha x" and c = c and h = h and path = path and kvs = kvs and o' = o', OF assms(3)])
  obtain n' where n': "persist c o' (n\<lparr> nd_limiter := l, nd_book := b \<rparr>) = (n', Inr ())" "nd_book n' = b" "free_at LOCAL n'"
    by (rule saved [OF assms(1,2) l(2)])
  show ?thesis
    using l(1) assms(1,6-10) n'(1,2)
    by (simp add: serve_def friend_routes(3) [OF assms(4)] accept_request_def andthen_def on_book_def ok_json_def answer_def str_field_def
        deliver_def quiet_def asks_def)
qed

lemma confirm_served:
  assumes "quiet o'" "4 \<le> io_disk o'" "free_at LOCAL n" "is_route q POST ''/api/friends/confirm''" "q = local_call h path kvs"
    and "kvs = [(js ''reply'', JStr reply)]" "reply \<noteq> []" "\<And>m. readJson (ex_lib x) q o' m = (m, Inr kvs)"
    and "decodeReply reply = Inr blob" "confirm (ex_lib x) blob (io_now o' 3) (nd_book n) = (b, Inr fr)"
  obtains n' where "serve x c q o' n = (n', json_response 200 (JObj [(js ''friend'', record_json fr)]))" "nd_book n' = b" "free_at LOCAL n'"
proof -
  obtain l where l: "requireOperator (ex_sha x) c q o' n = (n\<lparr> nd_limiter := l \<rparr>, Inr ())" "\<forall>m. free_at LOCAL (m\<lparr> nd_limiter := l \<rparr>)"
    unfolding assms(5) by (rule local_guard [where sha = "ex_sha x" and c = c and h = h and path = path and kvs = kvs and o' = o', OF assms(3)])
  obtain n' where n': "persist c o' (n\<lparr> nd_limiter := l, nd_book := b \<rparr>) = (n', Inr ())" "nd_book n' = b" "free_at LOCAL n'"
    by (rule saved [OF assms(1,2) l(2)])
  have "serve x c q o' n = (n', json_response 200 (JObj [(js ''friend'', record_json fr)]))"
    using l(1) assms(6-10) n'(1)
    by (simp add: serve_def friend_routes(4) [OF assms(4)] confirm_reply_def andthen_def on_book_def ok_json_def answer_def str_field_def)
  then show thesis using n'(2,3) by (rule that)
qed

lemma confirm_refused:
  assumes "quiet o'" "free_at LOCAL n" "is_route q POST ''/api/friends/confirm''" "q = local_call h path kvs"
    and "kvs = [(js ''reply'', JStr reply)]" "reply \<noteq> []" "\<And>m. readJson (ex_lib x) q o' m = (m, Inr kvs)"
    and "decodeReply reply = Inr blob" "confirm (ex_lib x) blob (io_now o' 3) (nd_book n) = (nd_book n, throw FriendError msg)"
  obtains n' where "serve x c q o' n = (n', json_response 400 (JObj [(js ''error'', JStr (js msg))]))" "nd_book n' = nd_book n"
proof -
  obtain l where l: "requireOperator (ex_sha x) c q o' n = (n\<lparr> nd_limiter := l \<rparr>, Inr ())"
    unfolding assms(4) by (rule local_guard [where sha = "ex_sha x" and c = c and h = h and path = path and kvs = kvs and o' = o', OF assms(2)])
  have "serve x c q o' n = (n\<lparr> nd_limiter := l \<rparr>, json_response 400 (JObj [(js ''error'', JStr (js msg))]))"
    using l assms(5-9)
    by (simp add: serve_def friend_routes(4) [OF assms(3)] confirm_reply_def andthen_def on_book_def answer_def str_field_def throw_def
        errorStatus_def)
  then show thesis by (rule that) simp
qed

lemma inbound_served:
  assumes "quiet o'" "4 \<le> io_disk o'" "is_route q POST ''/api/friends/accept-inbound''"
    and "\<And>m. readJson (ex_lib x) q o' m = (m, Inr [(js ''accept'', JStr blob)])"
    and "confirm (ex_lib x) blob (io_now o' 3) (nd_book n) = (b, Inr fr)"
  obtains n' where "serve x c q o' n = (n', json_response 200 (JObj [(js ''ok'', JBool True), (js ''friend'', JStr (peer_label (fr_peer fr)))]))"
    "nd_book n' = b" "free_at k n \<Longrightarrow> free_at k n'"
proof -
  obtain fs where fs: "persist c o' (n\<lparr> nd_book := b \<rparr>) = (n\<lparr> nd_book := b, nd_files := fs \<rparr>, Inr ())"
    by (rule persist_ok [OF assms(1,2)])
  have "serve x c q o' n = (n\<lparr> nd_book := b, nd_files := fs \<rparr>,
      json_response 200 (JObj [(js ''ok'', JBool True), (js ''friend'', JStr (peer_label (fr_peer fr)))]))"
    using assms(4,5) fs
    by (simp add: serve_def friend_routes(5) [OF assms(3)] accept_inbound_def andthen_def on_book_def ok_json_def answer_def str_field_def)
  then show thesis by (rule that) simp_all
qed

section \<open>The commands\<close>

definition calm :: "outside \<Rightarrow> bool" where
  \<comment> \<open>no other request runs in between, and the disk has room for the state files\<close>
  "calm o' \<longleftrightarrow> quiet o' \<and> 4 \<le> io_disk o'"

definition invite_argv :: "jsstr list" where
  "invite_argv = [js ''friend'', js ''invite'']"

definition accept_argv :: "jsstr \<Rightarrow> jsstr list" where
  "accept_argv code = [js ''friend'', js ''accept'', code]"

definition confirm_argv :: "jsstr \<Rightarrow> jsstr list" where
  "confirm_argv reply = [js ''friend'', js ''confirm'', reply]"

lemma friend_argv:
  "runCli L num srv h now invite_argv = caught (friend_invite L num srv h [])"
  "runCli L num srv h now (accept_argv code) = caught (if code = [] then usage h else friend_accept_cmd L srv h code)"
  "runCli L num srv h now (confirm_argv reply) = caught (if reply = [] then usage h else friend_confirm L srv h reply)"
  by (simp_all add: runCli_def friend_command_def invite_argv_def accept_argv_def confirm_argv_def Let_def js_def)

lemma ttl_fits: "fits_body (JObj [(js ''ttlSeconds'', JNum 86400)])"
proof -
  have num: "int_str 86400 = js ''86400''"
    by (simp add: int_str_def radix_str.simps digit_char_def js_def)
  have "quote_json (js ''ttlSeconds'') = 0x22 # js ''ttlSeconds'' @ [0x22]" by code_simp
  then have printed: "json_stringify (JObj [(js ''ttlSeconds'', JNum 86400)]) = 0x7b # 0x22 # js ''ttlSeconds'' @ 0x22 # 0x3a # js ''86400'' @ [0x7d]"
    by (simp add: json_stringify_def num)
  have "text_encode (json_stringify (JObj [(js ''ttlSeconds'', JNum 86400)]))
      = map (\<lambda>c. of_nat (unat c)) (json_stringify (JObj [(js ''ttlSeconds'', JNum 86400)]))"
    unfolding printed by (rule text_encode_ascii) (simp add: js_def)
  then have "length (text_encode (json_stringify (JObj [(js ''ttlSeconds'', JNum 86400)]))) = 20"
    "length (json_stringify (JObj [(js ''ttlSeconds'', JNum 86400)])) = 20"
    unfolding printed by (simp_all add: js_def)
  then show ?thesis by (simp add: fits_body_def MAX_JSON_BODY_def)
qed

lemma invite_command:
  assumes "os (cli_call h ''/api/friends/token'' (Some (JObj [(js ''ttlSeconds'', JNum 86400)]))) = o'" "calm o'"
    and "free_at LOCAL (tm_world tm)" "ADDR h = js ''http://'' @ a" "0x2f \<notin> set a"
    and "issueToken (ex_lib x) (io_rand o' 0) 86400 (io_now o' 3) (nd_book (tm_world tm)) = (b, Inr tok)"
    and "encodeInvite (ex_lib x) tok = Inr code"
    and plain: "plain_tokens h"
  obtains tm' where "runCli (ex_lib x) num (daemon_for x c os) h now invite_argv tm = (tm', Inr 0)"
    "tm_out tm' = tm_out tm @ [Out (js ''Send this invite to your friend:'' @ [0xa]), OutValue (Some (JStr code))]"
    "nd_book (tm_world tm') = b" "free_at LOCAL (tm_world tm')"
proof -
  have calm: "quiet o'" "4 \<le> io_disk o'" using assms(2) by (simp_all add: calm_def)
  obtain n' where n': "serve x c (local_call h ''/api/friends/token'' [(js ''ttlSeconds'', JNum 86400)]) o' (tm_world tm)
      = (n', json_response 200 (JObj [(js ''invite'', JStr code)]))" "nd_book n' = b" "free_at LOCAL n'"
    by (rule invite_served [OF calm assms(3) local_route [OF assms(4,5)] HOL.refl HOL.refl
          local_body [OF calm(1) _ ttl_fits, where L = "ex_lib x"] assms(6,7), where c = c]) (simp_all add: safe_int_def max_safe_def)
  have "runCli (ex_lib x) num (daemon_for x c os) h now invite_argv tm
      = (tm\<lparr> tm_world := n', tm_out := tm_out tm @ [Out (js ''Send this invite to your friend:'' @ [0xa]), OutValue (Some (JStr code))] \<rparr>, Inr 0)"
    using req_answered [where os = os, OF plain n'(1) [folded assms(1)], of "ex_lib x"]
    by (simp add: friend_argv caught_def friend_invite_def ttl_json_def andthen_def lift_res_def field_def say_def exit_with_def done_with_def)
  then show thesis by (rule that) (use n'(2,3) in simp_all)
qed

lemma reply_not_Nil [simp]: "encodeReply blob \<noteq> []"
  by (simp add: encodeReply_def REPLY_PREFIX_def js_def)

lemma accept_command:
  assumes "os (cli_call h ''/api/friends/receive'' (Some (JObj [(js ''invite'', JStr code)]))) = o1" "calm o1"
    and "os (cli_call h ''/api/friends/accept'' (Some (JObj [(js ''giver'', JStr (peer_ed p))]))) = o2" "calm o2"
    and "free_at LOCAL (tm_world tm)" "ADDR h = js ''http://'' @ a" "0x2f \<notin> set a" "code \<noteq> []"
    and "fits_body (JObj [(js ''invite'', JStr code)])" "fits_body (JObj [(js ''giver'', JStr (peer_ed p))])"
    and "decodeInvite (ex_lib x) code = Inr tok" "receive (ex_lib x) tok (io_now o1 3) (nd_book (tm_world tm)) = (b1, Inr p)"
    and "accept (ex_lib x) (io_rand o2 0) (peer_ed p) (io_now o2 3) b1 = (b2, Inr blob)"
    and plain: "plain_tokens h"
  obtains tm' where "runCli (ex_lib x) num (daemon_for x c os) h now (accept_argv code) tm = (tm', Inr 0)"
    "tm_out tm' = tm_out tm @ [Out (js ''Connected to '' @ peer_label p @ js ''. Send this reply back to them:'' @ [0xa]),
       OutValue (Some (JStr (encodeReply blob)))]"
    "nd_book (tm_world tm') = b2" "free_at LOCAL (tm_world tm')"
proof -
  have calm: "quiet o1" "4 \<le> io_disk o1" "quiet o2" "4 \<le> io_disk o2" using assms(2,4) by (simp_all add: calm_def)
  obtain n1 where n1: "serve x c (local_call h ''/api/friends/receive'' [(js ''invite'', JStr code)]) o1 (tm_world tm)
      = (n1, json_response 200 (JObj [(js ''request'', peerPubJson p)]))" "nd_book n1 = b1" "free_at LOCAL n1"
    by (rule receive_served [OF calm(1,2) assms(5) local_route [OF assms(6,7)] HOL.refl HOL.refl assms(8)
          local_body [OF calm(1) _ assms(9), where L = "ex_lib x"] assms(11,12), where c = c]) simp_all
  obtain n2 d where n2: "serve x c (local_call h ''/api/friends/accept'' [(js ''giver'', JStr (peer_ed p))]) o2 n1
      = (n2, json_response 200 (JObj [(js ''reply'', JStr (encodeReply blob)), (js ''delivered'', JBool d)]))"
      "nd_book n2 = b2" "free_at LOCAL n2"
    by (rule accept_served [OF calm(3,4) n1(3) local_route [OF assms(6,7)] HOL.refl HOL.refl
          local_body [OF calm(3) _ assms(10), where L = "ex_lib x"] assms(13) [folded n1(2)], where c = c]) simp_all
  let ?t1 = "tm\<lparr> tm_world := n1 \<rparr>"
  have r1: "req (ex_lib x) (daemon_for x c os) h ''/api/friends/receive'' (Some (JObj [(js ''invite'', JStr code)])) tm
      = (?t1, Inr (JObj [(js ''request'', peerPubJson p)]))"
    by (rule req_answered [OF plain]) (use n1(1) assms(1) in simp_all)
  have r2: "req (ex_lib x) (daemon_for x c os) h ''/api/friends/accept'' (Some (JObj [(js ''giver'', JStr (peer_ed p))])) ?t1
      = (?t1\<lparr> tm_world := n2 \<rparr>, Inr (JObj [(js ''reply'', JStr (encodeReply blob)), (js ''delivered'', JBool d)]))"
    by (rule req_answered [OF plain]) (use n2(1) assms(3) in simp_all)
  have "runCli (ex_lib x) num (daemon_for x c os) h now (accept_argv code) tm
      = (tm\<lparr> tm_world := n2, tm_out := tm_out tm @ [Out (js ''Connected to '' @ peer_label p @ js ''. Send this reply back to them:'' @ [0xa]),
          OutValue (Some (JStr (encodeReply blob)))] \<rparr>, Inr 0)"
    using assms(8) r1 r2
    by (simp add: friend_argv caught_def friend_accept_cmd_def andthen_def lift_res_def field_def field_of_def opt_entry_def
        peerPubJson_def js_string_opt_def say_def exit_with_def done_with_def)
  then show thesis by (rule that) (use n2(2,3) in simp_all)
qed

lemma confirm_command:
  assumes "os (cli_call h ''/api/friends/confirm'' (Some (JObj [(js ''reply'', JStr reply)]))) = o'" "calm o'"
    and "free_at LOCAL (tm_world tm)" "ADDR h = js ''http://'' @ a" "0x2f \<notin> set a" "reply \<noteq> []"
    and "fits_body (JObj [(js ''reply'', JStr reply)])" "decodeReply reply = Inr blob"
    and "confirm (ex_lib x) blob (io_now o' 3) (nd_book (tm_world tm)) = (b, Inr fr)"
    and plain: "plain_tokens h"
  obtains tm' where "runCli (ex_lib x) num (daemon_for x c os) h now (confirm_argv reply) tm = (tm', Inr 0)"
    "tm_out tm' = tm_out tm @ [Out (js ''Friendship complete: '' @ peer_label (fr_peer fr))]"
    "nd_book (tm_world tm') = b"
proof -
  have calm: "quiet o'" "4 \<le> io_disk o'" using assms(2) by (simp_all add: calm_def)
  obtain n' where n': "serve x c (local_call h ''/api/friends/confirm'' [(js ''reply'', JStr reply)]) o' (tm_world tm)
      = (n', json_response 200 (JObj [(js ''friend'', record_json fr)]))" "nd_book n' = b" "free_at LOCAL n'"
    by (rule confirm_served [OF calm assms(3) local_route [OF assms(4,5)] HOL.refl HOL.refl assms(6)
          local_body [OF calm(1) _ assms(7), where L = "ex_lib x"] assms(8,9), where c = c]) simp_all
  have "json_ok (record_json fr)" by (simp add: record_json_def)
  then have "req (ex_lib x) (daemon_for x c os) h ''/api/friends/confirm'' (Some (JObj [(js ''reply'', JStr reply)])) tm
      = (tm\<lparr> tm_world := n' \<rparr>, Inr (JObj [(js ''friend'', record_json fr)]))"
    by (intro req_answered [OF plain]) (use n'(1) assms(1) in simp_all)
  then have "runCli (ex_lib x) num (daemon_for x c os) h now (confirm_argv reply) tm
      = (tm\<lparr> tm_world := n', tm_out := tm_out tm @ [Out (js ''Friendship complete: '' @ peer_label (fr_peer fr))] \<rparr>, Inr 0)"
    using assms(6)
    by (simp add: friend_argv caught_def friend_confirm_def andthen_def lift_res_def field_def field_of_def record_json_def
        peerPubJson_def js_string_opt_def say_def exit_with_def done_with_def)
  then show thesis by (rule that) (use n'(2) in simp_all)
qed

lemma confirm_again:
  assumes "os (cli_call h ''/api/friends/confirm'' (Some (JObj [(js ''reply'', JStr reply)]))) = o'" "quiet o'"
    and "free_at LOCAL (tm_world tm)" "ADDR h = js ''http://'' @ a" "0x2f \<notin> set a" "reply \<noteq> []"
    and "fits_body (JObj [(js ''reply'', JStr reply)])" "decodeReply reply = Inr blob"
    and "confirm (ex_lib x) blob (io_now o' 3) (nd_book (tm_world tm)) = (nd_book (tm_world tm), throw FriendError msg)" "js msg \<noteq> []"
    and plain: "plain_tokens h"
  obtains tm' where "runCli (ex_lib x) num (daemon_for x c os) h now (confirm_argv reply) tm = (tm', Inr 1)"
    "tm_out tm' = tm_out tm @ [ErrLine (js ''error: '' @ js msg)]" "nd_book (tm_world tm') = nd_book (tm_world tm)"
proof -
  obtain n' where n': "serve x c (local_call h ''/api/friends/confirm'' [(js ''reply'', JStr reply)]) o' (tm_world tm)
      = (n', json_response 400 (JObj [(js ''error'', JStr (js msg))]))" "nd_book n' = nd_book (tm_world tm)"
    by (rule confirm_refused [OF assms(2,3) local_route [OF assms(4,5)] HOL.refl HOL.refl assms(6)
          local_body [OF assms(2) _ assms(7), where L = "ex_lib x"] assms(8,9), where c = c]) simp_all
  have "req (ex_lib x) (daemon_for x c os) h ''/api/friends/confirm'' (Some (JObj [(js ''reply'', JStr reply)])) tm
      = (tm\<lparr> tm_world := n' \<rparr>, Inl (Err JsError (js msg)))"
    by (intro req_refused [OF plain]) (use n'(1) assms(1,10) in simp_all)
  then have "runCli (ex_lib x) num (daemon_for x c os) h now (confirm_argv reply) tm
      = (tm\<lparr> tm_world := n', tm_out := tm_out tm @ [ErrLine (js ''error: '' @ js msg)] \<rparr>, Inr 1)"
    using assms(6) by (simp add: friend_argv caught_def friend_confirm_def andthen_def exit_with_def say_def done_with_def)
  then show thesis by (rule that) (use n'(2) in simp_all)
qed

lemma confirmed_spent:
  assumes "confirm L blob t b = (b', Inr fr)"
  shows "confirm L blob t' b' = (b', throw FriendError ''accept does not match any open offer'')"
  using assms
  by (auto simp: confirm_def Let_def split: sum.splits option.splits if_splits)

lemma reply_roundtrip:
  assumes "base64_ok L" "accept L r giver t b = (b2, Inr blob)"
  shows "decodeReply (encodeReply blob) = Inr blob"
proof -
  obtain bs where "blob = toB64 L bs"
    using assms(2) by (auto simp: accept_def makeAccept_def res_eq Let_def split: option.splits if_splits sum.splits)
  then show ?thesis
    using assms(1) by (simp add: decodeReply_def encodeReply_def toB64_def trim_b64 startsWith_def)
qed

lemma inbound_route:
  assumes "0x2f \<notin> set w"
  shows "is_route (arriving ip (http_post (peerUrl w port (js ''/api/friends/accept-inbound'')) v)) POST ''/api/friends/accept-inbound''"
proof -
  have path: "js ''/api/friends/accept-inbound'' = 0x2f # js ''api/friends/accept-inbound''" by (simp add: js_def)
  have "cl_path (arriving ip (http_post (peerUrl w port (js ''/api/friends/accept-inbound'')) v)) = js ''/api/friends/accept-inbound''"
    unfolding path by (rule arriving_path [OF assms])
  then show ?thesis by (simp add: is_route_def arriving_def http_post_def)
qed

section \<open>Friendship\<close>

definition befriended :: "lib \<Rightarrow> book \<Rightarrow> book \<Rightarrow> book \<Rightarrow> book \<Rightarrow> bool" where
  \<comment> \<open>\<open>a'\<close> has the owner of \<open>b\<close> as a friend and \<open>b'\<close> the owner of \<open>a\<close>, as they call themselves, with one nonce\<close>
  "befriended L a b a' b' \<longleftrightarrow> (\<exists>ra rb.
       friend (selfEd L b) a' = Some ra \<and> fr_peer ra = peerPubOf L (bk_id b) (bk_label b) (bk_wg0 b)
     \<and> friend (selfEd L a) b' = Some rb \<and> fr_peer rb = peerPubOf L (bk_id a) (bk_label a) (bk_wg0 a)
     \<and> fr_nonce ra = fr_nonce rb)"

lemma handshake_whenever:
  \<comment> \<open>the times at which an invite and a reply come in may depend on them\<close>
  assumes hs: "lib_ok L" "id_ok L (bk_id a)" "id_ok L (bk_id b)" "selfEd L a \<noteq> selfEd L b"
      "toB64 L rnd \<notin> set (bk_consumed a)" "toB64 L rnd \<notin> set (bk_consumed b)"
    and times: "- max_time \<le> t0" "0 \<le> ttl" "t0 + ttl * 1000 \<le> max_time"
    and late: "\<forall>x. - max_time \<le> t1 x \<and> t1 x \<le> t0 + ttl * 1000" "- max_time \<le> t2" "t2 \<le> t0 + ttl * 1000"
      "\<forall>x. - max_time \<le> t3 x \<and> t3 x \<le> t0 + ttl * 1000"
  obtains tok blob a1 b1 b2 a2 ra rb where
    "issueToken L rnd ttl t0 a = (a1, Inr tok)"
    "receive L tok (t1 tok) b = (b1, Inr (peerPubOf L (bk_id a) (bk_label a) (bk_wg0 a)))"
    "accept L r (selfEd L a) t2 b1 = (b2, Inr blob)"
    "confirm L blob (t3 blob) a1 = (a2, Inr ra)"
    "friend (selfEd L b) a2 = Some ra" "fr_peer ra = peerPubOf L (bk_id b) (bk_label b) (bk_wg0 b)"
    "friend (selfEd L a) b2 = Some rb" "fr_peer rb = peerPubOf L (bk_id a) (bk_label a) (bk_wg0 a)"
    "fr_nonce ra = fr_nonce rb"
proof -
  note run = handshake_run [OF hs]
  have ok: "\<forall>t \<in> {t0, t1 x, t2, t3 y}. - max_time \<le> t \<and> t \<le> t0 + ttl * 1000" for x y using times late by auto
  obtain tok a1 where 1: "issueToken L rnd ttl t0 a = (a1, Inr tok)" by (rule run [OF ok times(3)])
  obtain b1 b2 blob where 2: "receive L tok (t1 tok) b = (b1, Inr (peerPubOf L (bk_id a) (bk_label a) (bk_wg0 a)))"
    "accept L r (selfEd L a) t2 b1 = (b2, Inr blob)"
    by (rule run [OF ok [of tok] times(3), of r]) (use 1 in auto)
  show thesis by (rule run [OF ok [of tok blob] times(3), of r]) (use 1 2 that in auto)
qed

lemma handshake_fits:
  assumes "base64_ok L" "lengths_ok L" "sizes_ok L" "id_ok L (bk_id b)" "short_name (bk_label b)" "short_name (bk_wg0 b)"
    and "tok_nonce tok = toB64 L rnd" "length rnd = 16"
    and "receive L tok t1 b = (b1, Inr p)" "accept L r (peer_ed p) t2 b1 = (b2, Inr blob)"
  shows "fits_body (JObj [(js ''reply'', JStr (encodeReply blob))])" "fits_body (JObj [(js ''accept'', JStr blob)])"
proof -
  have made: "makeAccept L r (bk_id b) (bk_label b) (bk_wg0 b) tok t2 = Inr blob"
    using assms(9,10) by (auto simp: receive_def accept_def Let_def split: sum.splits if_splits option.splits)
  have nonce: "length (tok_nonce tok) \<le> 36" "\<forall>c \<in> set (tok_nonce tok). b64_char c"
    using base64D(2) [OF assms(1), of ORIGINAL rnd] length_toB64 [OF assms(2), of ORIGINAL rnd] assms(7,8) by (simp_all add: toB64_def)
  show "fits_body (JObj [(js ''reply'', JStr (encodeReply blob))])" "fits_body (JObj [(js ''accept'', JStr blob)])"
    using reply_fits [OF reply_blob [OF assms(1-6) nonce made]] by simp_all
qed

lemma handshake_codes:
  \<comment> \<open>the handshake of the books with the texts that carry it\<close>
  assumes L: "lib_ok L" "sizes_ok L" "lengths_ok L" and ids: "id_ok L (bk_id a)" "id_ok L (bk_id b)" "selfEd L a \<noteq> selfEd L b"
    and names: "\<forall>s \<in> {bk_label a, bk_wg0 a, bk_label b, bk_wg0 b}. short_name s"
    and rnd: "length rnd = 16" "toB64 L rnd \<notin> set (bk_consumed a)" "toB64 L rnd \<notin> set (bk_consumed b)"
    and times: "0 \<le> t0" "0 \<le> ttl" "t0 + ttl * 1000 \<le> max_time"
    and late: "\<forall>x. - max_time \<le> t1 x \<and> t1 x \<le> t0 + ttl * 1000" "- max_time \<le> t2" "t2 \<le> t0 + ttl * 1000"
      "\<forall>x. - max_time \<le> t3 x \<and> t3 x \<le> t0 + ttl * 1000"
  obtains tok code blob a1 b1 b2 a2 ra where
    "issueToken L rnd ttl t0 a = (a1, Inr tok)" "encodeInvite L tok = Inr code" "decodeInvite L code = Inr tok" "code \<noteq> []"
    "receive L tok (t1 code) b = (b1, Inr (peerPubOf L (bk_id a) (bk_label a) (bk_wg0 a)))"
    "accept L r (selfEd L a) t2 b1 = (b2, Inr blob)" "decodeReply (encodeReply blob) = Inr blob"
    "confirm L blob (t3 (encodeReply blob)) a1 = (a2, Inr ra)" "peer_label (fr_peer ra) = bk_label b" "befriended L a b a2 b2"
    "fits_body (JObj [(js ''invite'', JStr code)])" "fits_body (JObj [(js ''giver'', JStr (selfEd L a))])"
    "fits_body (JObj [(js ''reply'', JStr (encodeReply blob))])" "fits_body (JObj [(js ''accept'', JStr blob)])"
proof -
  let ?pa = "peerPubOf L (bk_id a) (bk_label a) (bk_wg0 a)" and ?code = "\<lambda>tok. case encodeInvite L tok of Inr code \<Rightarrow> code"
  note b64 = lib_okD(1) [OF L(1)]
  have short: "short_name (bk_label a)" "short_name (bk_wg0 a)" "short_name (bk_label b)" "short_name (bk_wg0 b)"
    using names by blast+
  have pa: "peer_ed ?pa = selfEd L a" by (simp add: peerPubOf_def selfEd_def)
  have late': "\<forall>x. - max_time \<le> t1 (?code x) \<and> t1 (?code x) \<le> t0 + ttl * 1000"
    "\<forall>x. - max_time \<le> t3 (encodeReply x) \<and> t3 (encodeReply x) \<le> t0 + ttl * 1000" using late by blast+
  have t0: "- max_time \<le> t0" using times(1) by (simp add: max_time_def)
  obtain tok blob a1 b1 b2 a2 ra rb where hs: "issueToken L rnd ttl t0 a = (a1, Inr tok)"
    "receive L tok (t1 (?code tok)) b = (b1, Inr ?pa)" "accept L r (selfEd L a) t2 b1 = (b2, Inr blob)"
    "confirm L blob (t3 (encodeReply blob)) a1 = (a2, Inr ra)"
    "friend (selfEd L b) a2 = Some ra" "fr_peer ra = peerPubOf L (bk_id b) (bk_label b) (bk_wg0 b)"
    "friend (selfEd L a) b2 = Some rb" "fr_peer rb = ?pa" "fr_nonce ra = fr_nonce rb"
    by (rule handshake_whenever [OF L(1) ids rnd(2,3) t0 times(2,3) late'(1) late(2,3) late'(2), where r = r])
  have made: "makeToken L rnd (bk_id a) (bk_label a) (bk_wg0 a) ttl t0 = Inr tok"
    using hs(1) by (auto simp: issueToken_def split: sum.splits)
  obtain code where code: "encodeInvite L tok = Inr code" "decodeInvite L code = Inr tok" "startsWith code INVITE_PREFIX"
    by (rule token_invite [OF b64 L(2) ids(1) made rnd(1) times(1) _ short(1,2)]) (use times in simp)
  have code': "code \<noteq> []" "?code tok = code" using code(1,3) by (auto simp: startsWith_def INVITE_PREFIX_def js_def)
  have ed: "length (publicKey (ed25519 (bk_id a))) = 32" using L(2) ids(1) by (auto simp: sizes_ok_def id_ok_def)
  show thesis
  proof (rule that [OF hs(1) code(1,2) code'(1) hs(2) [unfolded code'(2)] hs(3) reply_roundtrip [OF b64 hs(3)] hs(4)])
    show "peer_label (fr_peer ra) = bk_label b" by (simp add: hs(6) peerPubOf_def)
    show "befriended L a b a2 b2" using hs(5-9) by (auto simp: befriended_def)
    show "fits_body (JObj [(js ''giver'', JStr (selfEd L a))])" using key_fits [OF b64 L(3) ed] by (simp add: selfEd_def)
  qed (rule invite_fits [OF b64 L(3) code(1)] handshake_fits [OF b64 L(3,2) ids(2) short(3,4) makeToken_fields(3) [OF made] rnd(1) hs(2), unfolded pa, OF hs(3)])+
qed

lemma delivered_first:
  \<comment> \<open>the acceptance reaches the inviter's node by itself; the command that would confirm it is refused\<close>
  assumes "calm o'" "calm (os (cli_call h ''/api/friends/confirm'' (Some (JObj [(js ''reply'', JStr (encodeReply blob))]))))"
    and "free_at LOCAL (tm_world tm)" "ADDR h = js ''http://'' @ a" "0x2f \<notin> set a" "plain_tokens h" "0x2f \<notin> set w"
    and "fits_body (JObj [(js ''reply'', JStr (encodeReply blob))])" "fits_body (JObj [(js ''accept'', JStr blob)])"
    and "decodeReply (encodeReply blob) = Inr blob" "confirm (ex_lib x) blob (io_now o' 3) (nd_book (tm_world tm)) = (b, Inr fr)"
  obtains n' tm' where "serve x c (arriving ip (http_post (peerUrl w port (js ''/api/friends/accept-inbound'')) (JObj [(js ''accept'', JStr blob)])))
        o' (tm_world tm) = (n', json_response 200 (JObj [(js ''ok'', JBool True), (js ''friend'', JStr (peer_label (fr_peer fr)))]))"
    "nd_book n' = b" "runCli (ex_lib x) num (daemon_for x c os) h now (confirm_argv (encodeReply blob)) (tm\<lparr> tm_world := n' \<rparr>) = (tm', Inr 1)"
    "tm_out tm' = tm_out tm @ [ErrLine (js ''error: '' @ js ''accept does not match any open offer'')]" "nd_book (tm_world tm') = b"
proof -
  let ?rq = "http_post (peerUrl w port (js ''/api/friends/accept-inbound'')) (JObj [(js ''accept'', JStr blob)])"
  have quiet: "quiet o'" "4 \<le> io_disk o'" "quiet (os (cli_call h ''/api/friends/confirm'' (Some (JObj [(js ''reply'', JStr (encodeReply blob))]))))"
    using assms(1,2) by (simp_all add: calm_def)
  have read: "readJson (ex_lib x) (arriving ip ?rq) o' m = (m, Inr [(js ''accept'', JStr blob)])" for m
    by (rule readJson_arriving [OF quiet(1) _ assms(9)]) simp
  obtain n' where n': "serve x c (arriving ip ?rq) o' (tm_world tm)
      = (n', json_response 200 (JObj [(js ''ok'', JBool True), (js ''friend'', JStr (peer_label (fr_peer fr)))]))"
    "nd_book n' = b" "free_at LOCAL n'"
    by (rule inbound_served [OF quiet(1,2) inbound_route [OF assms(7)] read assms(11), where c = c and k = LOCAL]) (use assms(3) in blast)
  let ?t = "tm\<lparr> tm_world := n' \<rparr>"
  have free: "free_at LOCAL (tm_world ?t)" using n'(3) by simp
  have spent: "confirm (ex_lib x) blob t (nd_book (tm_world ?t))
      = (nd_book (tm_world ?t), throw FriendError ''accept does not match any open offer'')" for t
    using confirmed_spent [OF assms(11)] n'(2) by simp
  have said: "js ''accept does not match any open offer'' \<noteq> []" by (simp add: js_def)
  obtain tm' where "runCli (ex_lib x) num (daemon_for x c os) h now (confirm_argv (encodeReply blob)) ?t = (tm', Inr 1)"
    "tm_out tm' = tm_out ?t @ [ErrLine (js ''error: '' @ js ''accept does not match any open offer'')]"
    "nd_book (tm_world tm') = nd_book (tm_world ?t)"
    by (rule confirm_again [where x = x and h = h and os = os and tm = ?t and reply = "encodeReply blob" and blob = blob and num = num and now = now
          and msg = "''accept does not match any open offer''" and c = c, OF HOL.refl quiet(3) free assms(4,5) reply_not_Nil assms(8,10) spent said assms(6)])
  then show thesis using that n'(1,2) by simp
qed

text \<open>
  C13: two operators become friends from their terminals. \<open>islandd friend invite\<close> on one node prints an
  invite and \<open>friend accept\<close> of that invite on the other node prints a reply; both exit with 0. Then there
  are two ways. If the acceptance that the second node posts (\<open>accept_delivers\<close>) does not reach the
  first node, \<open>friend confirm\<close> of the reply completes the friendship, prints the other's label and exits
  with 0. If it does reach it, at any time within the day and from any address, that alone completes the
  friendship, and \<open>friend confirm\<close> of the printed reply changes nothing and exits with 1 and the error
  that no open offer matches. Either way each node ends with the other's keys, label and address under
  the same nonce. It needs a fresh nonce, labels and addresses of at most 255 bytes, an address of the
  first node without a slash, clocks within the day the invite lives, nodes not locked out, room on the
  disk and no other request in between; the codes always fit the body limit.
\<close>

theorem cli_friendship:
  assumes "lib_ok L" "sizes_ok L" "lengths_ok L" "ex_lib xA = L" "ex_lib xB = L"
    and "bA = nd_book (tm_world tmA)" "bB = nd_book (tm_world tmB)" "id_ok L (bk_id bA)" "id_ok L (bk_id bB)" "selfEd L bA \<noteq> selfEd L bB"
    and "\<forall>s \<in> {bk_label bA, bk_wg0 bA, bk_label bB, bk_wg0 bB}. short_name s" "0x2f \<notin> set (bk_wg0 bA)"
    and "free_at LOCAL (tm_world tmA)" "free_at LOCAL (tm_world tmB)"
    and "ADDR hA = js ''http://'' @ a" "0x2f \<notin> set a" "ADDR hB = js ''http://'' @ b" "0x2f \<notin> set b" "plain_tokens hA" "plain_tokens hB"
    and "\<forall>rq. calm (osA rq) \<and> calm (osB rq)" "calm oD"
    and "osA (cli_call hA ''/api/friends/token'' (Some (JObj [(js ''ttlSeconds'', JNum 86400)]))) = o'"
    and "0 \<le> io_now o' 3" "io_now o' 3 + 86400000 \<le> max_time" "length (io_rand o' 0) = 16"
    and "toB64 L (io_rand o' 0) \<notin> set (bk_consumed bA)" "toB64 L (io_rand o' 0) \<notin> set (bk_consumed bB)"
    and "\<forall>rq. \<bar>io_now (osA rq) 3\<bar> \<le> io_now o' 3 + 86400000 \<and> \<bar>io_now (osB rq) 3\<bar> \<le> io_now o' 3 + 86400000"
    and "\<bar>io_now oD 3\<bar> \<le> io_now o' 3 + 86400000"
  shows "\<exists>code tmA1 blob tmB1 tmA2 nA tmA3.
      runCli L num (daemon_for xA cA osA) hA now invite_argv tmA = (tmA1, Inr 0)
    \<and> tm_out tmA1 = tm_out tmA @ [Out (js ''Send this invite to your friend:'' @ [0xa]), OutValue (Some (JStr code))]
    \<and> runCli L num (daemon_for xB cB osB) hB now (accept_argv code) tmB = (tmB1, Inr 0)
    \<and> tm_out tmB1 = tm_out tmB @ [Out (js ''Connected to '' @ bk_label bA @ js ''. Send this reply back to them:'' @ [0xa]),
          OutValue (Some (JStr (encodeReply blob)))]
    \<and> runCli L num (daemon_for xA cA osA) hA now (confirm_argv (encodeReply blob)) tmA1 = (tmA2, Inr 0)
    \<and> tm_out tmA2 = tm_out tmA1 @ [Out (js ''Friendship complete: '' @ bk_label bB)]
    \<and> befriended L bA bB (nd_book (tm_world tmA2)) (nd_book (tm_world tmB1))
    \<and> serve xA cA (arriving ip (http_post (peerUrl (bk_wg0 bA) (cx_peerPort cB) (js ''/api/friends/accept-inbound''))
          (JObj [(js ''accept'', JStr blob)]))) oD (tm_world tmA1)
        = (nA, json_response 200 (JObj [(js ''ok'', JBool True), (js ''friend'', JStr (bk_label bB))]))
    \<and> befriended L bA bB (nd_book nA) (nd_book (tm_world tmB1))
    \<and> runCli L num (daemon_for xA cA osA) hA now (confirm_argv (encodeReply blob)) (tmA1\<lparr> tm_world := nA \<rparr>) = (tmA3, Inr 1)
    \<and> tm_out tmA3 = tm_out tmA1 @ [ErrLine (js ''error: '' @ js ''accept does not match any open offer'')]
    \<and> nd_book (tm_world tmA3) = nd_book nA"
proof -
  let ?t0 = "io_now o' 3" and ?pa = "peerPubOf L (bk_id bA) (bk_label bA) (bk_wg0 bA)"
  let ?o1 = "\<lambda>code. osB (cli_call hB ''/api/friends/receive'' (Some (JObj [(js ''invite'', JStr code)])))"
  let ?o2 = "osB (cli_call hB ''/api/friends/accept'' (Some (JObj [(js ''giver'', JStr (selfEd L bA))])))"
  let ?o3 = "\<lambda>reply. osA (cli_call hA ''/api/friends/confirm'' (Some (JObj [(js ''reply'', JStr reply)])))"
  have calm: "calm (osA rq)" "calm (osB rq)" for rq using assms(21) by blast+
  have pa: "peer_ed ?pa = selfEd L bA" "peer_label ?pa = bk_label bA" by (simp_all add: peerPubOf_def selfEd_def)
  have day: "?t0 + 86400 * 1000 \<le> max_time" "(0::int) \<le> 86400" using assms(25) by simp_all
  have range: "- max_time \<le> k \<and> k \<le> ?t0 + 86400 * 1000" if "\<bar>k\<bar> \<le> ?t0 + 86400000" for k
    using that assms(25) by (auto simp: abs_le_iff)
  have late: "- max_time \<le> io_now (osA rq) 3 \<and> io_now (osA rq) 3 \<le> ?t0 + 86400 * 1000"
    "- max_time \<le> io_now (osB rq) 3 \<and> io_now (osB rq) 3 \<le> ?t0 + 86400 * 1000" for rq
    using range assms(29) by blast+
  note codes = handshake_codes [OF assms(1-3,8-11,26-28,24) day(2,1), where ?t1.0 = "\<lambda>code. io_now (?o1 code) 3" and ?t2.0 = "io_now ?o2 3"
      and r = "io_rand ?o2 0"]
  obtain tok code blob a1 b1 b2 a2 ra where hs: "issueToken L (io_rand o' 0) 86400 ?t0 bA = (a1, Inr tok)"
    "encodeInvite L tok = Inr code" "decodeInvite L code = Inr tok" "code \<noteq> []"
    "receive L tok (io_now (?o1 code) 3) bB = (b1, Inr ?pa)"
    "accept L (io_rand ?o2 0) (selfEd L bA) (io_now ?o2 3) b1 = (b2, Inr blob)" "decodeReply (encodeReply blob) = Inr blob"
    "confirm L blob (io_now (?o3 (encodeReply blob)) 3) a1 = (a2, Inr ra)" "peer_label (fr_peer ra) = bk_label bB" "befriended L bA bB a2 b2"
    and fits: "fits_body (JObj [(js ''invite'', JStr code)])" "fits_body (JObj [(js ''giver'', JStr (selfEd L bA))])"
    "fits_body (JObj [(js ''reply'', JStr (encodeReply blob))])" "fits_body (JObj [(js ''accept'', JStr blob)])"
    by (rule codes [where ?t3.0 = "\<lambda>reply. io_now (?o3 reply) 3"]) (use late in blast)+
  obtain d2 rd where inbound: "confirm L blob (io_now oD 3) a1 = (d2, Inr rd)" "peer_label (fr_peer rd) = bk_label bB" "befriended L bA bB d2 b2"
    by (rule codes [where ?t3.0 = "\<lambda>reply. io_now oD 3"]) (use late range [OF assms(30)] hs(1,2,5,6) in auto)
  obtain tmA1 where A1: "runCli L num (daemon_for xA cA osA) hA now invite_argv tmA = (tmA1, Inr 0)"
    "tm_out tmA1 = tm_out tmA @ [Out (js ''Send this invite to your friend:'' @ [0xa]), OutValue (Some (JStr code))]"
    "nd_book (tm_world tmA1) = a1" "free_at LOCAL (tm_world tmA1)"
    by (rule invite_command [where x = xA and tm = tmA and h = hA and os = osA and tok = tok and b = a1 and code = code
          and c = cA and num = num and now = now and a = a and o' = o', unfolded assms(4)])
      (use calm(1) assms(6,13,15,16,19,23) hs(1,2) in auto)
  obtain tmB1 where B1: "runCli L num (daemon_for xB cB osB) hB now (accept_argv code) tmB = (tmB1, Inr 0)"
    "tm_out tmB1 = tm_out tmB @ [Out (js ''Connected to '' @ bk_label bA @ js ''. Send this reply back to them:'' @ [0xa]),
       OutValue (Some (JStr (encodeReply blob)))]" "nd_book (tm_world tmB1) = b2"
    by (rule accept_command [where x = xB and tm = tmB and h = hB and os = osB and tok = tok and ?b1.0 = b1 and ?b2.0 = b2 and code = code
          and c = cB and num = num and now = now and a = b and p = ?pa and blob = blob, unfolded assms(5) pa, OF HOL.refl _ HOL.refl])
      (use calm(2) assms(7,14,17,18,20) hs(3-6) fits in auto)
  obtain tmA2 where A2: "runCli L num (daemon_for xA cA osA) hA now (confirm_argv (encodeReply blob)) tmA1 = (tmA2, Inr 0)"
    "tm_out tmA2 = tm_out tmA1 @ [Out (js ''Friendship complete: '' @ peer_label (fr_peer ra))]" "nd_book (tm_world tmA2) = a2"
    by (rule confirm_command [where x = xA and tm = tmA1 and h = hA and os = osA and b = a2 and reply = "encodeReply blob"
          and c = cA and num = num and now = now and a = a and fr = ra and blob = blob, unfolded assms(4), OF HOL.refl])
      (use calm(1) assms(15,16,19) A1(3,4) hs(7,8) fits in auto)
  obtain nA tmA3 where nA: "serve xA cA (arriving ip (http_post (peerUrl (bk_wg0 bA) (cx_peerPort cB) (js ''/api/friends/accept-inbound''))
        (JObj [(js ''accept'', JStr blob)]))) oD (tm_world tmA1)
      = (nA, json_response 200 (JObj [(js ''ok'', JBool True), (js ''friend'', JStr (peer_label (fr_peer rd)))]))" "nd_book nA = d2"
    "runCli L num (daemon_for xA cA osA) hA now (confirm_argv (encodeReply blob)) (tmA1\<lparr> tm_world := nA \<rparr>) = (tmA3, Inr 1)"
    "tm_out tmA3 = tm_out tmA1 @ [ErrLine (js ''error: '' @ js ''accept does not match any open offer'')]" "nd_book (tm_world tmA3) = d2"
    by (rule delivered_first [where x = xA, unfolded assms(4), OF assms(22) calm(1) A1(4) assms(15,16,19,12) fits(3,4) hs(7)
          inbound(1) [folded A1(3)], where c = cA and num = num and now = now and ip = ip and port = "cx_peerPort cB"])
  show ?thesis
    using A1(1,2) B1 A2 nA hs(9,10) inbound(2,3)
    by (intro exI [of _ code] exI [of _ tmA1] exI [of _ blob] exI [of _ tmB1] exI [of _ tmA2] exI [of _ nA] exI [of _ tmA3]) simp
qed

lemma demo_free: "free_at k (demo_node c)"
  by (simp add: free_at_def demo_node_def limiter_new_def snd_locked hits_of_def)

theorem cli_friendship_witness:
  "\<exists>code tmA1 blob tmB1 tmA2 nA tmA3.
     (let c = \<lambda>k. demo_ctx k (js ''10.42.0.5''); d = \<lambda>k. daemon_for demo_externals (c k) (\<lambda>_. (demo_outside 0)\<lparr> io_rand := \<lambda>_. replicate 16 7 \<rparr>);
          t = \<lambda>k. \<lparr> tm_world = demo_node (c k), tm_files = [], tm_out = [] \<rparr>
      in runCli demo_lib (\<lambda>_. NaN) (d 1) demo_host 0 invite_argv (t 1) = (tmA1, Inr 0)
       \<and> runCli demo_lib (\<lambda>_. NaN) (d 2) demo_host 0 (accept_argv code) (t 2) = (tmB1, Inr 0)
       \<and> runCli demo_lib (\<lambda>_. NaN) (d 1) demo_host 0 (confirm_argv (encodeReply blob)) tmA1 = (tmA2, Inr 0)
       \<and> befriended demo_lib (demo_book 1) (demo_book 2) (nd_book (tm_world tmA2)) (nd_book (tm_world tmB1))
       \<and> befriended demo_lib (demo_book 1) (demo_book 2) (nd_book nA) (nd_book (tm_world tmB1))
       \<and> runCli demo_lib (\<lambda>_. NaN) (d 1) demo_host 0 (confirm_argv (encodeReply blob)) (tmA1\<lparr> tm_world := nA \<rparr>) = (tmA3, Inr 1))"
proof -
  let ?c = "\<lambda>k. demo_ctx k (js ''10.42.0.5'')" and ?o = "(demo_outside 0)\<lparr> io_rand := \<lambda>_. replicate 16 7 \<rparr>"
  let ?t = "\<lambda>k. \<lparr> tm_world = demo_node (?c k), tm_files = [], tm_out = [] \<rparr>"
  have book: "nd_book (demo_node (?c k)) = demo_book k" for k by (simp add: demo_node_def demo_ctx_def demo_book_def)
  have calm: "calm ?o" by (simp add: calm_def quiet_def demo_outside_def)
  have node: "nd_book (tm_world (?t k)) = demo_book k" "free_at LOCAL (tm_world (?t k))" for k by (simp_all add: book demo_free)
  have book_ok: "id_ok demo_lib (bk_id (nd_book (tm_world (?t k))))" "n \<notin> set (bk_consumed (nd_book (tm_world (?t k))))" for k n
    unfolding node by (simp_all add: demo_id_ok)
  have names: "\<forall>s \<in> {bk_label (nd_book (tm_world (?t 1))), bk_wg0 (nd_book (tm_world (?t 1))),
      bk_label (nd_book (tm_world (?t 2))), bk_wg0 (nd_book (tm_world (?t 2)))}. short_name s"
    unfolding node using demo_book_names by blast
  have other: "selfEd demo_lib (nd_book (tm_world (?t 1))) \<noteq> selfEd demo_lib (nd_book (tm_world (?t 2)))"
    unfolding node by (simp add: demo_book_self)
  have addr: "ADDR demo_host = js ''http://'' @ js ''127.0.0.1:8787''" "0x2f \<notin> set (js ''127.0.0.1:8787'')"
    by (simp_all add: ADDR_def demo_env js_def)
  have o: "0 \<le> io_now ?o 3" "io_now ?o 3 + 86400000 \<le> max_time" "length (io_rand ?o 0) = 16"
    "\<forall>rq :: cli_request. \<bar>io_now ?o 3\<bar> \<le> io_now ?o 3 + 86400000 \<and> \<bar>io_now ?o 3\<bar> \<le> io_now ?o 3 + 86400000"
    "\<bar>io_now ?o 3\<bar> \<le> io_now ?o 3 + 86400000"
    by (simp_all add: demo_outside_def max_time_def)
  have tokens: "plain_tokens demo_host" by (simp add: plain_tokens_def ADMIN_def OP_def demo_env)
  have slash: "0x2f \<notin> set (bk_wg0 (nd_book (tm_world (?t 1))))" unfolding node by (simp add: demo_book_def book_new_def js_def)
  have x: "ex_lib demo_externals = demo_lib" by (simp add: demo_externals_def)
  have "\<forall>rq :: cli_request. calm ?o \<and> calm ?o" using calm by blast
  note run = cli_friendship [where osA = "\<lambda>_. ?o" and osB = "\<lambda>_. ?o" and cA = "?c 1" and cB = "?c 2" and now = 0 and num = "\<lambda>_. NaN",
    OF demo_lib_ok demo_sizes_ok demo_lengths_ok x x HOL.refl HOL.refl book_ok(1) book_ok(1) other names slash node(2) node(2) addr addr
      tokens tokens this calm HOL.refl o(1-3) book_ok(2) book_ok(2) o(4) o(5), unfolded node]
  show ?thesis unfolding Let_def using run by blast
qed

end
