(* ===== verification/ErrorProps.thy ===== *)
theory ErrorProps
  imports HandshakeProps
begin

text \<open>
  What an error answer of the daemon means: the request changed nothing. A handler is a sequence of steps
  that change nothing but the limiter, then at most one step that changes a component or refuses, then
  steps that cannot fail; the rules of \<open>atomic_intros\<close> follow that shape.
\<close>

section \<open>Handlers that change nothing when they refuse\<close>

definition unchanged :: "node \<Rightarrow> node \<Rightarrow> bool" where
  \<comment> \<open>friends, conversations, files shared, directory, reports, saved state and the state of the gate\<close>
  "unchanged n n' \<longleftrightarrow> nd_book n' = nd_book n \<and> mb_logs (nd_msgs n') = mb_logs (nd_msgs n) \<and> nd_share n' = nd_share n
     \<and> nd_registry n' = nd_registry n \<and> nd_events n' = nd_events n \<and> nd_files n' = nd_files n
     \<and> gstate (nd_gate n') = gstate (nd_gate n)"

definition still :: "(node, 'a) act \<Rightarrow> bool" where
  "still m \<longleftrightarrow> (\<forall>n. unchanged n (fst (m n)))"

definition clean :: "(node, 'a) act \<Rightarrow> bool" where
  \<comment> \<open>an exception leaves everything as it was\<close>
  "clean m \<longleftrightarrow> (\<forall>n e. snd (m n) = Inl e \<longrightarrow> unchanged n (fst (m n)))"

definition total :: "(node, 'a) act \<Rightarrow> bool" where
  "total m \<longleftrightarrow> (\<forall>n. \<exists>r. snd (m n) = Inr r)"

definition sure :: "handler \<Rightarrow> bool" where
  \<comment> \<open>answers, and not with an error\<close>
  "sure m \<longleftrightarrow> (\<forall>n. \<exists>r. snd (m n) = Inr r \<and> rs_status r < 400)"

definition atomic :: "(book \<Rightarrow> bool) \<Rightarrow> handler \<Rightarrow> bool" where
  "atomic B m \<longleftrightarrow> (\<forall>n. B (nd_book n) \<longrightarrow> (case snd (m n) of Inl _ \<Rightarrow> unchanged n (fst (m n))
     | Inr r \<Rightarrow> rs_status r < 400 \<or> unchanged n (fst (m n))))"

named_theorems still_intros \<open>actions that change nothing but the limiter\<close>
named_theorems clean_intros \<open>actions that change nothing when they throw\<close>
named_theorems total_intros \<open>actions that do not throw\<close>

lemma unchanged_refl [simp]: "unchanged n n"
  by (simp add: unchanged_def)

lemma unchanged_trans: "unchanged n m \<Longrightarrow> unchanged m k \<Longrightarrow> unchanged n k"
  by (simp add: unchanged_def)

lemma unchanged_limiter [simp]: "unchanged n (n\<lparr> nd_limiter := l \<rparr>)"
  by (simp add: unchanged_def)

lemma still_same: "(\<And>n. fst (m n) = n) \<Longrightarrow> still m"
  by (simp add: still_def)

lemma still_pure [still_intros]:
  "still (done_with x)" "still (lift_res r)" "still (asks g)" "still (\<lambda>n. (n, f n))" "still (ok_json kvs)" "still (not_found msg)"
  by (rule still_same, simp add: ok_json_def not_found_def)+

lemma still_andthen: "still m \<Longrightarrow> (\<And>x. still (f x)) \<Longrightarrow> still (andthen m f)"
  unfolding still_def andthen_def case_prod_unfold
  by (auto split: sum.splits) (metis fst_conv unchanged_trans)+

lemma still_guards [still_intros]:
  "still (requireOperator sha c q o')" "still (requireAdmin sha c q o')" "still (authorizeShare L sha c q)"
  by (auto simp: still_def requireOperator_def requireAdmin_def authorizeShare_def Let_def split: prod.splits option.splits)

lemma quiet_others: "quiet o' \<Longrightarrow> io_others o' k n = n"
  by (simp add: quiet_def)

lemma still_await [still_intros]: "quiet o' \<Longrightarrow> still (await o' k)"
  by (rule still_same) (simp add: await_def quiet_others)

lemma still_readJson [still_intros]: "quiet o' \<Longrightarrow> still (readJson L q o')"
  unfolding readJson_def by (auto intro!: still_andthen still_intros)

lemma still_gateView [still_intros]: "quiet o' \<Longrightarrow> still (gateView L c o')"
  unfolding gateView_def Let_def by (auto intro!: still_andthen still_intros split: prod.splits)

lemma still_share [still_intros]:
  "quiet o' \<Longrightarrow> still (on_share o' (share_list L net))" "quiet o' \<Longrightarrow> still (on_share o' (share_get net i))"
  by (rule still_same, simp add: on_share_def share_list_def share_get_def quiet_others split: any_share.splits)+

lemma still_stores [still_intros]: "still (on_registry (\<lambda>s. (s, r s)))" "still (on_events (\<lambda>b s. (s, r' s)))"
  by (rule still_same, simp add: on_registry_def on_events_def split: option.splits)+

lemma atomic_still: "still m \<Longrightarrow> atomic B m"
  by (auto simp: atomic_def still_def split: sum.splits)

lemma atomic_seq:
  assumes "still m" "\<And>x. atomic B (f x)"
  shows "atomic B (andthen m f)"
  unfolding atomic_def
proof (intro allI impI)
  fix n :: node
  assume B: "B (nd_book n)"
  have m: "unchanged n (fst (m n))" using assms(1) unfolding still_def ..
  then have "B (nd_book (fst (m n)))" using B by (simp add: unchanged_def)
  then have f: "case snd (f x (fst (m n))) of Inl _ \<Rightarrow> unchanged (fst (m n)) (fst (f x (fst (m n))))
      | Inr r \<Rightarrow> rs_status r < 400 \<or> unchanged (fst (m n)) (fst (f x (fst (m n))))" for x
    using assms(2) [of x] unfolding atomic_def by blast
  show "case snd (andthen m f n) of Inl _ \<Rightarrow> unchanged n (fst (andthen m f n))
      | Inr r \<Rightarrow> rs_status r < 400 \<or> unchanged n (fst (andthen m f n))"
  proof (cases "snd (m n)")
    case (Inl e)
    then show ?thesis using m by (simp add: andthen_def case_prod_unfold)
  next
    case (Inr x)
    then show ?thesis using f [of x] unchanged_trans [OF m]
      by (cases "snd (f x (fst (m n)))") (auto simp: andthen_def case_prod_unfold)
  qed
qed

lemma atomic_commit_or:
  assumes "clean m" "\<And>n x. B (nd_book n) \<Longrightarrow> snd (m n) = Inr x \<Longrightarrow> sure (f x) \<or> unchanged n (fst (m n)) \<and> still (f x)"
  shows "atomic B (andthen m f)"
  unfolding atomic_def
proof (intro allI impI)
  fix n :: node
  assume B: "B (nd_book n)"
  show "case snd (andthen m f n) of Inl _ \<Rightarrow> unchanged n (fst (andthen m f n))
      | Inr r \<Rightarrow> rs_status r < 400 \<or> unchanged n (fst (andthen m f n))"
  proof (cases "snd (m n)")
    case (Inl e)
    then show ?thesis using assms(1) unfolding clean_def by (simp add: andthen_def case_prod_unfold)
  next
    case (Inr x)
    then have run: "andthen m f n = f x (fst (m n))" by (simp add: andthen_def case_prod_unfold)
    from assms(2) [OF B Inr] show ?thesis
    proof
      assume "sure (f x)"
      then obtain r where "snd (f x (fst (m n))) = Inr r" "rs_status r < 400" unfolding sure_def by blast
      then show ?thesis by (simp add: run)
    next
      assume "unchanged n (fst (m n)) \<and> still (f x)"
      then have "unchanged n (fst (f x (fst (m n))))" unfolding still_def by (blast intro: unchanged_trans)
      then show ?thesis by (simp add: run split: sum.splits)
    qed
  qed
qed

lemma atomic_commit: "clean m \<Longrightarrow> (\<And>x. sure (f x)) \<Longrightarrow> atomic B (andthen m f)"
  by (rule atomic_commit_or) blast+

lemma sure_ok: "sure (ok_json kvs)" "sure (done_with (json_response 200 v))" "sure (done_with (json_response 201 v))"
  "sure (done_with \<lparr> rs_status = 204, rs_type = ty, rs_disposition = d, rs_body = b \<rparr>)"
  by (simp_all add: sure_def ok_json_def json_response_def)

lemma sure_seq:
  assumes "total m" "\<And>x. sure (f x)"
  shows "sure (andthen m f)"
  unfolding sure_def
proof
  fix n
  obtain x where "snd (m n) = Inr x" using assms(1) unfolding total_def by blast
  moreover have "\<exists>r. snd (f x (fst (m n))) = Inr r \<and> rs_status r < 400" using assms(2) [of x] unfolding sure_def by blast
  ultimately show "\<exists>r. snd (andthen m f n) = Inr r \<and> rs_status r < 400" by (simp add: andthen_def case_prod_unfold)
qed

lemma total_pure [total_intros]:
  "total (done_with x)" "total (asks g)" "total (deliver c o' w p v)" "total (store_message peer sm)" "total (await o' k)"
  by (simp_all add: total_def deliver_def store_message_def on_msgs_def await_def)

lemma total_if [total_intros]: "total m \<Longrightarrow> total m' \<Longrightarrow> total (if b then m else m')"
  by simp

lemma total_persist [total_intros]: "4 \<le> io_disk o' \<Longrightarrow> total (persist c o')"
  by (simp add: total_def persist_def Let_def)

section \<open>The steps that change a component\<close>

definition dated :: "int \<Rightarrow> bool" where
  \<comment> \<open>a time the language can print\<close>
  "dated t \<longleftrightarrow> - max_time \<le> t \<and> t \<le> max_time"

lemma dated_iso: "dated t \<Longrightarrow> toISOString t = Inr (iso_str t)"
  by (simp add: dated_def toISOString_eq)

lemma clean_book: "(\<And>b e. snd (f b) = Inl e \<Longrightarrow> fst (f b) = b) \<Longrightarrow> clean (on_book f)"
  by (simp add: clean_def on_book_def case_prod_unfold unchanged_def)

lemma clean_friending [clean_intros]:
  "clean (on_book (issueToken L rnd ttl t))" "clean (on_book (receive L tok t))" "clean (on_book (accept L r giver t))"
  "dated t \<Longrightarrow> clean (on_book (confirm L blob t))" "clean (on_book (receiveRevoke L nt))"
  by (rule clean_book, auto simp: issueToken_def receive_def accept_def confirm_def receiveRevoke_def dated_iso Let_def makeAccept_def res_eq
      split: sum.splits option.splits if_splits)+

lemma clean_stores [clean_intros]:
  "clean (on_registry (announce_route L body t))" "clean (on_events (\<lambda>b. report_route L lbl b body' t'))"
proof -
  have "fst (announce_route L body t s) = s" if "snd (announce_route L body t s) = Inl e" for s e
    using that announce_untyped_refused
    by (auto simp: announce_route_def registerAnnounce_def rmap_def split: option.splits json.splits sum.splits if_splits)
  then show "clean (on_registry (announce_route L body t))"
    by (auto simp: clean_def on_registry_def case_prod_unfold unchanged_def split: option.splits)
  have "fst (report_route L lbl b body' t' s) = s" if "snd (report_route L lbl b body' t' s) = Inl e" for b s e
    using that by (auto simp: report_route_def Let_def split: option.splits sum.splits if_splits)
  then show "clean (on_events (\<lambda>b. report_route L lbl b body' t'))"
    by (auto simp: clean_def on_events_def case_prod_unfold unchanged_def split: option.splits)
qed

lemma no_row_removed: "length (filter P xs) = length xs \<Longrightarrow> filter P xs = xs"
  by (metis filter_id_conv length_filter_less nat_neq_iff)

lemma clean_share [clean_intros]:
  assumes "quiet o'"
  shows "clean (on_share o' (share_add L net name content node ctype t))" "clean (on_share o' (share_remove net i))"
proof -
  have 1: "fst (share_add L net name content node ctype t s) = s" if "snd (share_add L net name content node ctype t s) = Inl e" for s e
    using that by (cases s) (auto simp: share_add_def mem_add_def sql_add_def Let_def split: if_splits)
  have "fst (sql_remove i t) = t" if "snd (sql_remove i t) = Inl e" for t e
    using that no_row_removed [of "\<lambda>r. sf_id r \<noteq> i" "sql_rows t"] length_filter_le [of "\<lambda>r. sf_id r \<noteq> i" "sql_rows t"]
    by (auto simp: sql_remove_def Let_def split: if_splits)
  then have 2: "fst (share_remove net i s) = s" if "snd (share_remove net i s) = Inl e" for s e
    using that by (cases s) (auto simp: share_remove_def mem_remove_def split: option.splits)
  have "clean (on_share o' f)" if "\<And>s e. snd (f s) = Inl e \<Longrightarrow> fst (f s) = s" for f :: "any_share \<Rightarrow> any_share \<times> 'a res"
    using that by (auto simp: clean_def on_share_def case_prod_unfold Let_def unchanged_def quiet_others [OF assms] split: any_share.splits)
  from this [OF 1] show "clean (on_share o' (share_add L net name content node ctype t))" .
  have "clean (on_share o' f)" if "\<And>s e. snd (f s) = Inl e \<Longrightarrow> fst (f s) = s" for f :: "any_share \<Rightarrow> any_share \<times> unit res"
    using that by (auto simp: clean_def on_share_def case_prod_unfold Let_def unchanged_def quiet_others [OF assms] split: any_share.splits)
  from this [OF 2] show "clean (on_share o' (share_remove net i))" .
qed

lemma open_logs: "mb_logs (fst (openMessage L self blob vk (Some (markSeen t)) t' m)) = mb_logs m"
  using openMessage_book [of L self blob vk "markSeen t" t' m] by (auto simp: markSeen_def Let_def)

lemma still_open [still_intros]: "still (on_msgs (openMessage L self blob vk (Some (markSeen t)) t'))"
  by (simp add: still_def on_msgs_def case_prod_unfold unchanged_def open_logs)

lemma still_begin: "still (on_gate (gate_begin cfg cn t))"
  by (simp add: still_def on_gate_def case_prod_unfold unchanged_def gate_begin_def Let_def prune_consumed_def)

lemma clean_gate [clean_intros]:
  assumes "quiet o'" "dated (io_now o' 4)"
  shows "clean (gate_open c o' cn)" "clean (gate_close o' r)"
proof -
  have log: "snd (gate_log t act adm r g) = Inr ()" if "dated t" for t act adm r g
    using that by (simp add: gate_log_def dated_iso)
  show "clean (gate_open c o' cn)"
    using still_begin [of "cx_gate c" cn "io_now o' 4"] assms(2)
    by (auto simp: clean_def still_def gate_open_def andthen_def await_def quiet_others [OF assms(1)] on_gate_def case_prod_unfold unchanged_def
        gate_deny_def open_ok_def open_fail_def scheduleReclose_def log Let_def split: sum.splits if_splits)
  show "clean (gate_close o' r)"
    using assms(2)
    by (auto simp: clean_def gate_close_def andthen_def await_def quiet_others [OF assms(1)] on_gate_def case_prod_unfold unchanged_def
        close_ok_def close_fail_def scheduleReclose_def log Let_def split: sum.splits)
qed

section \<open>Every handler\<close>

lemma atomic_pure: "atomic B (done_with r)" "atomic B (lift_res e)" "atomic B (ok_json kvs)" "atomic B (not_found msg)"
  by (rule atomic_still, rule still_pure)+

lemma atomic_branch:
  "(b \<Longrightarrow> atomic B m) \<Longrightarrow> (\<not> b \<Longrightarrow> atomic B m') \<Longrightarrow> atomic B (if b then m else m')"
  "(x = None \<Longrightarrow> atomic B m) \<Longrightarrow> (\<And>y. x = Some y \<Longrightarrow> atomic B (f y)) \<Longrightarrow> atomic B (case x of None \<Rightarrow> m | Some y \<Rightarrow> f y)"
  "(\<And>a b. atomic B (g a b)) \<Longrightarrow> atomic B (case q of (a, b) \<Rightarrow> g a b)"
  by (auto split: option.splits prod.splits)

lemma atomic_delete:
  assumes "quiet o'" "4 \<le> io_disk o'"
  shows "atomic B (delete_friend L c o' seg)"
  unfolding delete_friend_def
proof (rule atomic_seq [OF still_pure(2)], rule atomic_commit_or)
  fix peer
  let ?m = "on_book (issueRevoke L (io_rand o' 0) peer (io_now o' 3))"
  have kept: "fst (?m n) = n" if "(\<exists>e. snd (?m n) = Inl e) \<or> snd (?m n) = Inr None" for n
    using that by (auto simp: on_book_def issueRevoke_def case_prod_unfold Let_def split: option.splits sum.splits)
  then show "clean ?m" unfolding clean_def by (metis unchanged_refl)
  fix n :: node and x assume x: "snd (?m n) = Inr x"
  show "sure (case x of None \<Rightarrow> not_found (js ''no such friend'')
      | Some (notice, wg0) \<Rightarrow> andthen (persist c o') (\<lambda>_. andthen (if wg0 \<noteq> []
          then deliver c o' wg0 ''/api/friends/revoke-inbound'' (JObj [(js ''notice'', revoke_json notice)]) else done_with False)
        (\<lambda>delivered. ok_json [(js ''ok'', JBool True), (js ''peer_notified'', JBool delivered)])))
    \<or> unchanged n (fst (?m n)) \<and> still (case x of None \<Rightarrow> not_found (js ''no such friend'')
      | Some (notice, wg0) \<Rightarrow> andthen (persist c o') (\<lambda>_. andthen (if wg0 \<noteq> []
          then deliver c o' wg0 ''/api/friends/revoke-inbound'' (JObj [(js ''notice'', revoke_json notice)]) else done_with False)
        (\<lambda>delivered. ok_json [(js ''ok'', JBool True), (js ''peer_notified'', JBool delivered)])))"
  proof (cases x)
    case None
    then show ?thesis using x kept [of n] by (simp add: still_intros)
  next
    case (Some nw)
    then show ?thesis by (cases nw) (auto intro!: sure_seq sure_ok total_intros assms(2))
  qed
qed

lemma clean_store: "clean (store_message peer sm)"
  by (simp add: clean_def store_message_def on_msgs_def)

lemma atomic_handlers:
  assumes "quiet o'" "4 \<le> io_disk o'" "dated (io_now o' 3)" "dated (io_now o' 4)"
  shows "atomic B (home L num sha c q o')" "atomic B (gate_status L c o')" "atomic B (registry_announce L q o')"
    "atomic B (events_report L c q o')" "atomic B (admin_events L sha c q o')" "atomic B (admin_canary L sha c q o')"
    "atomic B (admin_gate_log L sha c q o')" "atomic B (admin_gate_close L sha c q o')" "atomic B (api_gate_open L sha c q o')"
    "atomic B (canary_mint L c q o')" "atomic B (receive_invite L sha c q o')" "atomic B (accept_request L sha c q o')"
    "atomic B (confirm_reply L sha c q o')" "atomic B (add_by_code L sha c q o')" "atomic B (own_identity L sha c q o')"
    "atomic B (friend_request L c q o')" "atomic B (accept_inbound L c q o')" "atomic B (revoke_inbound L c q o')"
    "atomic B (read_thread cmp sha c q o')" "atomic B (send_message L sha c q o')" "atomic B (message_inbound L c q o')"
    "atomic B (files_list L sha c q o')" "atomic B (files_add L sha c q o')" "atomic B (files_download L sha c q o' i)"
    "atomic B (files_delete L sha c q o' i)" "atomic B (health c)" "atomic B (friends_view)"
  unfolding home_def gate_status_def registry_announce_def events_report_def admin_events_def admin_canary_def admin_gate_log_def
    admin_gate_close_def api_gate_open_def canary_mint_def receive_invite_def accept_request_def confirm_reply_def add_by_code_def
    own_identity_def friend_request_def accept_inbound_def revoke_inbound_def read_thread_def send_message_def message_inbound_def
    files_list_def files_add_def files_download_def files_delete_def health_def friends_view_def
  by (rule atomic_branch atomic_pure | (rule atomic_seq, (rule still_intros | rule assms)+)
    | (rule atomic_commit, (rule clean_intros clean_store | rule assms)+, intro sure_seq sure_ok total_intros assms))+

lemma atomic_firstrun: "atomic B (firstrun c o')"
  by (simp add: atomic_def firstrun_def Let_def ok_json_def json_response_def)

lemma atomic_resolve: "atomic B (registry_resolve L seg)"
  unfolding registry_resolve_def by (rule atomic_still [OF still_stores(1)])

lemma issued_encodes:
  assumes "base64_ok L" "sizes_ok L" "id_ok L (bk_id b)" "length rnd = 16"
    and "length (text_encode (bk_label b)) \<le> 255" "length (text_encode (bk_wg0 b)) \<le> 255"
    and "issueToken L rnd ttl t b = (b', Inr tok)"
  shows "\<exists>code. encodeInvite L tok = Inr code"
proof -
  have made: "makeToken L rnd (bk_id b) (bk_label b) (bk_wg0 b) ttl t = Inr tok"
    using assms(7) by (auto simp: issueToken_def split: sum.splits)
  note f = makeToken_fields [OF made]
  obtain sig where sig: "tok_sig tok = toB64 L sig" "length sig = 64"
    using f(5) assms(2) by (auto simp: sign_def res_eq sizes_ok_def)
  have len: "length (publicKey (ed25519 (bk_id b))) = 32" "length (boxPublicKey (x25519 (bk_id b))) = 32"
    using assms(2,3) by (auto simp: sizes_ok_def id_ok_def)
  have iss: "toISOString t = Inr (tok_issued tok)" using made by (auto simp: makeToken_def res_eq Let_def)
  show ?thesis
    using encode_packed [OF assms(1) _ _ f(3) [unfolded toB64_def] sig(1) [unfolded toB64_def] len assms(4) sig(2) iss f(4)] assms(5,6)
    by (simp add: f(2) peerPubOf_def toB64_def)
qed

definition invitable :: "lib \<Rightarrow> book \<Rightarrow> bool" where
  \<comment> \<open>keys of their lengths, and a label and address that fit an invite\<close>
  "invitable L b \<longleftrightarrow> id_ok L (bk_id b) \<and> length (text_encode (bk_label b)) \<le> 255 \<and> length (text_encode (bk_wg0 b)) \<le> 255"

lemma atomic_invite:
  assumes "base64_ok L" "sizes_ok L" "quiet o'" "4 \<le> io_disk o'" "length (io_rand o' 0) = 16"
  shows "atomic (invitable L) (issue_invite L sha c q o')"
  unfolding issue_invite_def
proof (rule atomic_seq [OF still_guards(1)], rule atomic_seq [OF still_readJson [OF assms(3)]], rule atomic_commit_or [OF clean_friending(1)])
  fix body n tok and x :: unit
  let ?ttl = "case map_get body (js ''ttlSeconds'') of Some (JNum i) \<Rightarrow> i | _ \<Rightarrow> 86400"
  assume B: "invitable L (nd_book n)" and tok: "snd (on_book (issueToken L (io_rand o' 0) ?ttl (io_now o' 3)) n) = Inr tok"
  then obtain b' where "issueToken L (io_rand o' 0) ?ttl (io_now o' 3) (nd_book n) = (b', Inr tok)"
    by (cases "issueToken L (io_rand o' 0) ?ttl (io_now o' 3) (nd_book n)") (simp add: on_book_def)
  from issued_encodes [OF assms(1,2) _ assms(5) _ _ this] B obtain code where "encodeInvite L tok = Inr code"
    unfolding invitable_def by blast
  then have "total (lift_res (encodeInvite L tok) :: (node, jsstr) act)" by (simp add: total_def lift_res_def)
  then have "sure (andthen (persist c o') (\<lambda>_. andthen (lift_res (encodeInvite L tok)) (\<lambda>invite. ok_json [(js ''invite'', JStr invite)])))"
    by (intro sure_seq sure_ok total_persist assms(4))
  then show "sure (andthen (persist c o') (\<lambda>_. andthen (lift_res (encodeInvite L tok)) (\<lambda>invite. ok_json [(js ''invite'', JStr invite)])))
      \<or> unchanged n (fst (on_book (issueToken L (io_rand o' 0) ?ttl (io_now o' 3)) n))
        \<and> still (andthen (persist c o') (\<lambda>_. andthen (lift_res (encodeInvite L tok)) (\<lambda>invite. ok_json [(js ''invite'', JStr invite)])))" ..
qed

lemma atomic_route:
  assumes "base64_ok (ex_lib x)" "sizes_ok (ex_lib x)" "quiet o'" "4 \<le> io_disk o'" "dated (io_now o' 3)" "dated (io_now o' 4)"
    and "length (io_rand o' 0) = 16"
  shows "atomic (invitable (ex_lib x)) (route x c q o')"
proof -
  note a = atomic_handlers [OF assms(3-6)] atomic_firstrun atomic_resolve atomic_invite [OF assms(1-4,7)] atomic_delete [OF assms(3,4)] atomic_pure
  have guarded: "atomic B (andthen (requireAdmin sha c q o') (\<lambda>_. m))" "atomic B (andthen (requireOperator sha c q o') (\<lambda>_. m))"
    if "atomic B m" for B sha m
    by (rule atomic_seq [OF still_guards(2) that], rule atomic_seq [OF still_guards(1) that])
  let ?A = "atomic (invitable (ex_lib x))"
  have s1: "route_home x c q o' = Some h \<Longrightarrow> ?A h" for h
    unfolding route_home_def by (auto split: if_splits intro!: a guarded)
  have s2: "route_directory x c q o' n = Some h \<Longrightarrow> ?A h" for h n
    unfolding route_directory_def by (auto split: if_splits intro!: a guarded)
  have s3: "route_admin x c q o' = Some h \<Longrightarrow> ?A h" for h
    unfolding route_admin_def by (auto split: if_splits intro!: a guarded)
  have s4: "route_friends x c q o' = Some h \<Longrightarrow> ?A h" for h
    unfolding route_friends_def by (auto split: if_splits intro!: a guarded)
  have s5: "route_messages x c q o' = Some h \<Longrightarrow> ?A h" for h
    unfolding route_messages_def by (auto split: if_splits intro!: a guarded)
  have s6: "route_files x c q o' = Some h \<Longrightarrow> ?A h" for h
    unfolding route_files_def by (auto split: if_splits intro!: a guarded)
  have s7: "route_page x q = Some h \<Longrightarrow> ?A h" for h
    unfolding route_page_def by (auto split: if_splits intro!: a guarded)
  show ?thesis
    unfolding atomic_def
  proof (intro allI impI)
    fix n :: node
    assume B: "invitable (ex_lib x) (nd_book n)"
    let ?h = "first_of [route_home x c q o', route_directory x c q o' n, route_admin x c q o', route_friends x c q o',
      route_messages x c q o', route_files x c q o', route_page x q]"
    have "atomic (invitable (ex_lib x)) (case ?h of Some h \<Rightarrow> h | None \<Rightarrow> not_found (js ''not found''))"
    proof (cases ?h)
      case (Some h)
      then show ?thesis using first_of_in [OF Some] s1 s2 s3 s4 s5 s6 s7 by (metis empty_iff empty_set option.simps(5) set_ConsD)
    qed (simp add: atomic_pure)
    moreover have "route x c q o' n = (case ?h of Some h \<Rightarrow> h | None \<Rightarrow> not_found (js ''not found'')) n"
      by (simp add: route_def split: option.splits)
    ultimately show "case snd (route x c q o' n) of Inl _ \<Rightarrow> unchanged n (fst (route x c q o' n))
        | Inr r \<Rightarrow> rs_status r < 400 \<or> unchanged n (fst (route x c q o' n))"
      using B unfolding atomic_def by metis
  qed
qed

text \<open>
  C14: on a node whose disk takes the state files and whose own label and address fit an invite, an
  error answer means that nothing happened: if no other request runs in between and the clock can be
  printed, then after a request that is answered with an error status friends, conversations, shared files,
  directory, reports, saved files and the state of the gate are what they were before it (only the attempt
  limiter, spent ids and timers may differ). Both conditions are needed: a state file that cannot be
  written is answered with 500 after the change in memory, and the route that issues tokens keeps the
  offer whose label is too long to be encoded. Tokens and acceptances in the bodies have the declared types.
\<close>

theorem refused_changes_nothing:
  assumes "base64_ok (ex_lib x)" "sizes_ok (ex_lib x)" "quiet o'" "4 \<le> io_disk o'" "length (io_rand o' 0) = 16"
    and "dated (io_now o' 3)" "dated (io_now o' 4)" "invitable (ex_lib x) (nd_book n)"
    and "serve x c q o' n = (n', r)" "400 \<le> rs_status r"
  shows "unchanged n n'"
proof -
  have "case snd (route x c q o' n) of Inl _ \<Rightarrow> unchanged n (fst (route x c q o' n))
      | Inr r \<Rightarrow> rs_status r < 400 \<or> unchanged n (fst (route x c q o' n))"
    using atomic_route [OF assms(1-4,6,7,5)] assms(8) unfolding atomic_def by blast
  moreover have "n' = fst (route x c q o' n)" "r = answer (snd (route x c q o' n))"
    using assms(9) by (auto simp: serve_def apsnd_def map_prod_def case_prod_unfold)
  ultimately show ?thesis using assms(10) by (auto simp: answer_def split: sum.splits)
qed

definition demo_operator :: call where
  "demo_operator = (demo_call POST ''/api/friends/accept'' LOCAL)\<lparr> cl_text := Inr (js ''{}'') \<rparr>"

theorem refused_changes_nothing_witness:
  "\<exists>n' r. serve demo_externals (demo_ctx 1 (js ''10.42.0.5'')) demo_operator ((demo_outside 0)\<lparr> io_rand := \<lambda>_. replicate 16 7 \<rparr>)
       (demo_node (demo_ctx 1 (js ''10.42.0.5''))) = (n', r)
     \<and> rs_status r = 400 \<and> unchanged (demo_node (demo_ctx 1 (js ''10.42.0.5''))) n'"
proof -
  let ?c = "demo_ctx 1 (js ''10.42.0.5'')" and ?o = "(demo_outside 0)\<lparr> io_rand := \<lambda>_. replicate 16 7 \<rparr>" and ?q = demo_operator
  let ?n = "demo_node ?c"
  have op: "isOperator sha ?c ?q" for sha
    by (simp add: isOperator_def manageOk_def operatorOk_def LOOPBACK_def demo_operator_def demo_call_def LOCAL_def)
  have "\<not> snd (locked now k (nd_limiter ?n))" for now k by (simp add: demo_node_def limiter_new_def snd_locked hits_of_def)
  then obtain l where l: "requireOperator sha ?c ?q ?o ?n = (?n\<lparr> nd_limiter := l \<rparr>, Inr ())" for sha
    using op by (simp add: requireOperator_def case_prod_unfold)
  have "json_parse num (js ''{}'') = Some (JObj [])" for num by code_simp
  then have body: "readJson L ?q ?o m = (m, Inr [])" for L m
    by (simp add: readJson_def demo_operator_def demo_call_def await_def andthen_def lift_res_def json_body_def demo_outside_def MAX_JSON_BODY_def)
  have "is_route ?q POST ''/api/friends/accept''" by (simp add: is_route_def demo_operator_def demo_call_def)
  from friend_routes(3) [OF this] have "snd (serve demo_externals ?c ?q ?o ?n) = json_response 400 (JObj [(js ''error'', JStr (js ''no pending request from that peer''))])"
    using l body by (simp add: serve_def accept_request_def andthen_def lift_res_def str_field_def js_string_opt_def on_book_def accept_def
        demo_node_def book_new_def throw_def answer_def errorStatus_def)
  then obtain n' r where s: "serve demo_externals ?c ?q ?o ?n = (n', r)" "rs_status r = 400"
    by (cases "serve demo_externals ?c ?q ?o ?n") (simp add: json_response_def)
  have "unchanged ?n n'"
  proof (rule refused_changes_nothing [OF _ _ _ _ _ _ _ _ s(1)])
    show "base64_ok (ex_lib demo_externals)" "sizes_ok (ex_lib demo_externals)"
      using lib_okD(1) [OF demo_lib_ok] demo_sizes_ok by (simp_all add: demo_externals_def)
    show "quiet ?o" "4 \<le> io_disk ?o" "length (io_rand ?o 0) = 16" "dated (io_now ?o 3)" "dated (io_now ?o 4)"
      by (simp_all add: quiet_def demo_outside_def dated_def max_time_def)
    have "nd_book ?n = demo_book 1" by (simp add: demo_node_def demo_ctx_def demo_book_def)
    then show "invitable (ex_lib demo_externals) (nd_book ?n)"
      using demo_book_names [of 1] by (simp add: invitable_def demo_externals_def demo_id_ok short_name_def)
  qed (use s(2) in simp)
  then show ?thesis using s by blast
qed

end
