(* ===== verification/Loops.thy ===== *)
theory Loops
  imports Complex_Main ErrorProps FrontendProps "HOL-Library.While_Combinator"
begin

text \<open>
  The loops of the sources as they are written, with their indices and their assignments, run by
  \<open>while_option\<close>, whose value is \<open>None\<close> when a loop does not end. Each returns, with a result that is
  said without the loop: which ids are kept, which value a flag has, what the unit is, what the
  escaped string reads as; and with the value of the definition the rest of the development uses.
\<close>

section \<open>The loops\<close>

definition seen_loop :: "(jsstr, int) jsmap \<Rightarrow> (jsstr, int) jsmap option" where
  \<comment> \<open>messages.ts, \<open>markSeen\<close>: delete the first key while there are too many\<close>
  "seen_loop m = while_option (\<lambda>m. length m \<ge> MAX_SEEN_IDS) (\<lambda>m. map_del (fst (hd m)) m) m"

definition flags_turn :: "jsstr list \<Rightarrow> nat \<times> (jsstr, jsstr) jsmap \<Rightarrow> nat \<times> (jsstr, jsstr) jsmap" where
  "flags_turn argv = (\<lambda>(i, f).
     let a = argv ! i
     in if a = [] \<or> \<not> startsWith a (js ''--'') then (i + 1, f)
        else if i + 1 < length argv \<and> argv ! (i + 1) \<noteq> [] \<and> \<not> startsWith (argv ! (i + 1)) (js ''--'')
        then (i + 2, map_set (drop 2 a) (argv ! (i + 1)) f)
        else (i + 1, map_set (drop 2 a) (js ''true'') f))"

definition flags_loop :: "jsstr list \<Rightarrow> (jsstr, jsstr) jsmap option" where
  \<comment> \<open>cli.ts, \<open>parseFlags\<close>\<close>
  "flags_loop argv = map_option snd (while_option (\<lambda>(i, f). i < length argv) (flags_turn argv) (0, []))"

definition next_arg :: "jsstr list \<Rightarrow> nat \<Rightarrow> jsstr option" where
  \<comment> \<open>\<open>argv[++i]\<close>\<close>
  "next_arg argv i = (if i + 1 < length argv then Some (argv ! (i + 1)) else None)"

definition args_turn :: "(jsstr \<Rightarrow> js_number) \<Rightarrow> jsstr list \<Rightarrow> (nat \<times> args) res \<Rightarrow> (nat \<times> args) res" where
  "args_turn num argv st =
     rbind st (\<lambda>(i, a).
       if argv ! i = js ''--mock'' then Inr (i + 1, a\<lparr> ar_mock := True \<rparr>)
       else if argv ! i = js ''--host''
       then Inr (i + 2, a\<lparr> ar_host := (case next_arg argv i of None \<Rightarrow> [] | Some v \<Rightarrow> v) \<rparr>)
       else if argv ! i = js ''--port''
       then rmap (\<lambda>p. (i + 2, a\<lparr> ar_port := p \<rparr>)) (numConfig num (next_arg argv i) ''--port'' 8787)
       else errs JsError ''unknown argument: '' (argv ! i))"

definition args_loop :: "(jsstr \<Rightarrow> js_number) \<Rightarrow> jsstr list \<Rightarrow> args \<Rightarrow> args res option" where
  \<comment> \<open>main.ts, \<open>parseArgs\<close>: an exception ends the loop\<close>
  "args_loop num argv a = map_option (rmap snd)
     (while_option (\<lambda>st. case st of Inl _ \<Rightarrow> False | Inr (i, _) \<Rightarrow> i < length argv) (args_turn num argv) (Inr (0, a)))"

definition unit_loop :: "nat \<Rightarrow> (rat \<times> nat) option" where
  \<comment> \<open>format.ts, \<open>bytes\<close>: \<open>v /= 1024\<close> is exact in binary\<close>
  "unit_loop n = while_option (\<lambda>(v, i). v \<ge> 1024 \<and> i < 3) (\<lambda>(v, i). (v / 1024, i + 1)) (of_nat n / 1024, 0)"

definition string_loop :: "jsstr \<Rightarrow> jsstr option" where
  \<comment> \<open>canonical.ts, \<open>encodeString\<close>\<close>
  "string_loop s = map_option (\<lambda>(i, out). out @ [0x22])
     (while_option (\<lambda>(i, out). i < length s) (\<lambda>(i, out). (i + 1, out @ encode_unit (s ! i))) (0, [0x22]))"

section \<open>They return\<close>

lemma while_turn: "b s \<Longrightarrow> while_option b c s = while_option b c (c s)"
  by (subst while_option_unfold) simp

lemma while_end: "\<not> b s \<Longrightarrow> while_option b c s = Some s"
  by (subst while_option_unfold) simp

lemma del_first: "distinct (map fst (e # m)) \<Longrightarrow> map_del (fst e) (e # m) = m"
  by (cases e) (simp add: map_del_absent)

lemma seen_returns: "distinct (map fst m) \<Longrightarrow> seen_loop m = Some (evict m)"
proof (induction m)
  case Nil
  then show ?case by (simp add: seen_loop_def while_end MAX_SEEN_IDS_def)
next
  case (Cons e m)
  then show ?case
    using while_turn [of "\<lambda>m. length m \<ge> MAX_SEEN_IDS" "e # m" "\<lambda>m. map_del (fst (hd m)) m"] del_first [OF Cons.prems]
    by (cases "length (e # m) \<ge> MAX_SEEN_IDS") (simp_all add: seen_loop_def while_end)
qed

lemma flags_return:
  "map_option snd (while_option (\<lambda>(i, f). i < length argv) (flags_turn argv) (i, f)) = Some (parse_flags (drop i argv) f)"
proof (induction "length argv - i" arbitrary: i f rule: less_induct)
  case less
  show ?case
  proof (cases "i < length argv")
    case True
    then have d: "drop i argv = argv ! i # drop (i + 1) argv" by (simp add: Cons_nth_drop_Suc)
    obtain j g where t: "flags_turn argv (i, f) = (j, g)" by (cases "flags_turn argv (i, f)")
    then have "i < j" by (auto simp: flags_turn_def Let_def split: if_splits)
    then have "map_option snd (while_option (\<lambda>(i, f). i < length argv) (flags_turn argv) (j, g)) = Some (parse_flags (drop j argv) g)"
      using True by (intro less) simp
    moreover have "parse_flags (drop i argv) f = parse_flags (drop j argv) g"
    proof (cases "i + 1 < length argv")
      case True
      then have "drop (i + 1) argv = argv ! (i + 1) # drop (i + 2) argv" by (simp add: Cons_nth_drop_Suc)
      then show ?thesis using t True unfolding d by (auto simp: flags_turn_def Let_def split: if_splits)
    next
      case False
      then have "drop (i + 1) argv = []" by simp
      then show ?thesis using t False unfolding d by (auto simp: flags_turn_def Let_def split: if_splits)
    qed
    ultimately show ?thesis using True by (simp add: while_turn t)
  qed (simp add: while_end)
qed

lemma args_return:
  "map_option (rmap snd) (while_option (\<lambda>st. case st of Inl _ \<Rightarrow> False | Inr (i, _) \<Rightarrow> i < length argv) (args_turn num argv) (Inr (i, a)))
     = Some (parse_args num (drop i argv) a)"
proof (induction "length argv - i" arbitrary: i a rule: less_induct)
  case less
  let ?b = "\<lambda>st :: (nat \<times> args) res. case st of Inl _ \<Rightarrow> False | Inr (i, _) \<Rightarrow> i < length argv"
  show ?case
  proof (cases "i < length argv")
    case True
    then have d: "drop i argv = argv ! i # drop (i + 1) argv" by (simp add: Cons_nth_drop_Suc)
    have rest: "drop (i + 1) argv = (case next_arg argv i of None \<Rightarrow> [] | Some v \<Rightarrow> v # drop (i + 2) argv)"
      by (simp add: next_arg_def Cons_nth_drop_Suc)
    define run where "run st = map_option (rmap snd) (while_option ?b (args_turn num argv) st)" for st
    have IH: "run (Inr (j, e)) = Some (parse_args num (drop j argv) e)" if "i < j" for j e
      unfolding run_def using that True by (intro less) simp
    have stop: "run (Inl e) = Some (Inl e)" for e by (simp add: run_def while_end)
    have "run (Inr (i, a)) = run (args_turn num argv (Inr (i, a)))"
      unfolding run_def by (subst while_turn) (use True in simp_all)
    also have "\<dots> = Some (parse_args num (argv ! i # drop (i + 1) argv) a)"
    proof (cases "next_arg argv i")
      case None
      then have last: "drop (i + 2) argv = []" "drop (i + 1) argv = []" by (auto simp: next_arg_def split: if_splits)
      show ?thesis
        using None stop IH [of "i + 1"] IH [of "i + 2"] last
        by (cases "numConfig num None ''--port'' 8787") (simp_all add: args_turn_def errs_def)
    next
      case (Some v)
      then show ?thesis
        using stop IH [of "i + 1"] IH [of "i + 2"] rest
        by (cases "numConfig num (Some v) ''--port'' 8787") (simp_all add: args_turn_def errs_def)
    qed
    finally show ?thesis unfolding run_def d .
  qed (simp add: while_end)
qed

lemma unit_returns:
  "while_option (\<lambda>(v :: rat, i). v \<ge> 1024 \<and> i < 3) (\<lambda>(v, i). (v / 1024, i + 1)) (of_nat n / 1024 ^ (i + 1), i)
     = Some (of_nat n / 1024 ^ (bytes_unit n i + 1), bytes_unit n i)"
proof (induction n i rule: bytes_unit.induct)
  case (1 n i)
  have "(of_nat n / 1024 ^ (i + 1) :: rat) \<ge> 1024 \<longleftrightarrow> (of_nat n :: rat) \<ge> of_nat (1024 ^ (i + 2))"
    by (simp add: le_divide_eq)
  then have guard: "(of_nat n / 1024 ^ (i + 1) :: rat) \<ge> 1024 \<longleftrightarrow> n \<ge> 1024 ^ (i + 2)" unfolding of_nat_le_iff .
  show ?case
  proof (cases "n \<ge> 1024 ^ (i + 2) \<and> i < 3")
    case True
    have step: "bytes_unit n i = bytes_unit n (i + 1)" using True by (subst bytes_unit.simps) (simp only: if_True simp_thms)
    have next_v: "(of_nat n / 1024 ^ (i + 1) :: rat) / 1024 = of_nat n / 1024 ^ (i + 1 + 1)" by simp
    have turn: "while_option (\<lambda>(v :: rat, i). v \<ge> 1024 \<and> i < 3) (\<lambda>(v, i). (v / 1024, i + 1)) (of_nat n / 1024 ^ (i + 1), i)
        = while_option (\<lambda>(v :: rat, i). v \<ge> 1024 \<and> i < 3) (\<lambda>(v, i). (v / 1024, i + 1))
            (of_nat n / 1024 ^ (i + 1) / 1024, i + 1)"
      by (subst while_turn) (use True guard in simp_all)
    show ?thesis
      using 1 [OF True] unfolding turn next_v by (simp only: step [symmetric])
  next
    case False
    then have "bytes_unit n i = i" by (subst bytes_unit.simps) (simp only: if_False)
    then show ?thesis using False guard by (subst while_end) auto
  qed
qed

lemma unit_result:
  assumes "unit_loop n = Some (v, i)"
  shows "v * 1024 ^ (i + 1) = of_nat n" "i \<le> 3" "v < 1024 \<or> i = 3" "1024 \<le> n \<Longrightarrow> 1 \<le> v" "i = bytes_unit n 0"
proof -
  have r: "v = of_nat n / 1024 ^ (i + 1)" "i = bytes_unit n 0"
    using assms unit_returns [of n 0] by (simp_all add: unit_loop_def)
  then show "v * 1024 ^ (i + 1) = of_nat n" "i = bytes_unit n 0" by simp_all
  have stop: "\<not> (case (v, i) of (v, i) \<Rightarrow> v \<ge> 1024 \<and> i < 3)"
    by (rule while_option_stop [OF assms [unfolded unit_loop_def]])
  have small: "bytes_unit n i \<le> 3" if "i \<le> 3" for i
    using that by (induction n i rule: bytes_unit.induct) (subst bytes_unit.simps, simp)
  then show "i \<le> 3" using r(2) by simp
  with stop show "v < 1024 \<or> i = 3" by auto
  assume "1024 \<le> n"
  then have "1024 ^ (i + 1) \<le> n" using bytes_unit_bounds [of 0 n] r(2) by simp
  then have "(of_nat (1024 ^ (i + 1)) :: rat) \<le> of_nat n" unfolding of_nat_le_iff .
  then show "1 \<le> v" by (simp add: r(1) le_divide_eq)
qed

lemma string_returns:
  "while_option (\<lambda>(i, out). i < length s) (\<lambda>(i, out). (i + 1, out @ encode_unit (s ! i))) (i, out)
     = Some (max i (length s), out @ concat (map encode_unit (drop i s)))"
proof (induction "length s - i" arbitrary: i out rule: less_induct)
  case less
  show ?case
  proof (cases "i < length s")
    case True
    then have "drop i s = s ! i # drop (Suc i) s" by (simp add: Cons_nth_drop_Suc)
    then show ?thesis using True less [of "i + 1" "out @ encode_unit (s ! i)"] by (simp add: while_turn)
  qed (simp add: while_end)
qed

section \<open>Their results\<close>

definition flag_value :: "jsstr list \<Rightarrow> jsstr" where
  \<comment> \<open>the value of a flag, from the words after it\<close>
  "flag_value post = (case post of v # _ \<Rightarrow> if v \<noteq> [] \<and> \<not> startsWith v (js ''--'') then v else js ''true'' | [] \<Rightarrow> js ''true'')"

fun last_flag :: "jsstr list \<Rightarrow> jsstr \<Rightarrow> jsstr option" where
  "last_flag [] k = None"
| "last_flag (a # rest) k =
     (case last_flag rest k of Some v \<Rightarrow> Some v | None \<Rightarrow> if a = js ''--'' @ k then Some (flag_value rest) else None)"

lemma starts_dashes: "startsWith a (js ''--'') \<longleftrightarrow> (\<exists>k. a = js ''--'' @ k)"
  by (auto simp: startsWith_def) (metis append_take_drop_id)

lemma flag_get: "map_get (parse_flags argv f) k = (case last_flag argv k of Some v \<Rightarrow> Some v | None \<Rightarrow> map_get f k)"
proof (induction argv f rule: parse_flags.induct)
  case (2 a rest f)
  show ?case
  proof (cases "a = [] \<or> \<not> startsWith a (js ''--'')")
    case True
    then have "a \<noteq> js ''--'' @ k" by (auto simp: startsWith_def js_def)
    then show ?thesis using 2(1) True by (simp split: option.splits)
  next
    case False
    then obtain k' where k': "a = js ''--'' @ k'" by (auto simp: starts_dashes)
    have dash: "startsWith (js ''--'' @ k') (js ''--'')" by (auto simp: starts_dashes)
    have d: "drop 2 a = k'" by (simp add: k' js_def)
    show ?thesis
    proof (cases rest)
      case Nil
      then show ?thesis using k' by (simp add: d dash flag_value_def)
    next
      case (Cons v rest')
      show ?thesis
      proof (cases "v \<noteq> [] \<and> \<not> startsWith v (js ''--'')")
        case True
        then have v: "v \<noteq> js ''--'' @ k" by (auto simp: starts_dashes)
        have p: "parse_flags (a # rest) f = parse_flags rest' (map_set k' v f)"
          using True by (simp only: parse_flags.simps Cons k' d dash) simp
        show ?thesis
          using 2(2) [OF False Cons True] v True unfolding p k' Cons
          by (simp add: d flag_value_def split: option.splits)
      next
        case False': False
        then have v: "flag_value rest = js ''true''" by (auto simp: flag_value_def Cons)
        have p: "parse_flags (a # rest) f = parse_flags rest (map_set k' (js ''true'') f)"
          using False' unfolding Cons k' parse_flags.simps(2) [of _ "v # rest'"]
          by (simp only: d dash) (auto simp: js_def)
        show ?thesis
          using 2(3) [OF False Cons False'] unfolding p last_flag.simps v by (simp add: k' d split: option.splits)
      qed
    qed
  qed
qed simp

lemma last_flag_iff:
  "last_flag argv k = Some v \<longleftrightarrow>
     (\<exists>pre post. argv = pre @ (js ''--'' @ k) # post \<and> js ''--'' @ k \<notin> set post \<and> v = flag_value post)"
proof -
  have none: "last_flag argv k = None \<longleftrightarrow> js ''--'' @ k \<notin> set argv" for argv
    by (induction argv) (auto split: option.splits)
  show ?thesis
  proof (induction argv)
    case (Cons a rest)
    show ?case
    proof (cases "last_flag rest k")
      case None
      then have "js ''--'' @ k \<notin> set rest" using none by blast
      then show ?thesis using None by (auto simp: Cons_eq_append_conv)
    next
      case (Some w)
      then have "js ''--'' @ k \<in> set rest" using none [of rest] by auto
      then show ?thesis using Some Cons.IH by (auto simp: Cons_eq_append_conv)
    qed
  qed simp
qed

text \<open>
  C15: every loop of the sources that is not a plain iteration ends, with a result that does not
  depend on how it got there. The eviction of message ids keeps the newest 4095; \<open>parseFlags\<close> gives a
  flag the word after its last occurrence unless that is a flag or empty, then \<open>true\<close>; the search for
  a unit ends with the value in units of \<open>1024 ^ (i + 1)\<close>, below 1024 unless the unit is the last, and
  at least one; the escaped string reads back, as JSON, as the string. \<open>parseArgs\<close> skips ahead in its
  body and can end by an exception: it ends, with the value of the model's parser. The other values
  are those of the model too.
\<close>

theorem loops_return:
  assumes "distinct (map fst m)"
  shows "seen_loop m = Some (drop (length m - 4095) m) \<and> evict m = drop (length m - 4095) m
    \<and> (\<exists>f. flags_loop argv = Some f \<and> f = parseFlags argv
        \<and> (\<forall>k v. map_get f k = Some v \<longleftrightarrow>
            (\<exists>pre post. argv = pre @ (js ''--'' @ k) # post \<and> js ''--'' @ k \<notin> set post
               \<and> v = (case post of w # _ \<Rightarrow> if w \<noteq> [] \<and> \<not> startsWith w (js ''--'') then w else js ''true''
                               | [] \<Rightarrow> js ''true''))))
    \<and> args_loop num argv a = Some (parse_args num argv a)
    \<and> (\<exists>v i. unit_loop n = Some (v, i) \<and> i = bytes_unit n 0 \<and> v * 1024 ^ (i + 1) = of_nat n \<and> i \<le> 3
        \<and> (v < 1024 \<or> i = 3) \<and> (1024 \<le> n \<longrightarrow> 1 \<le> v))
    \<and> (\<exists>t. string_loop s = Some t \<and> t = encodeString s \<and> json_parse num_of t = Some (JStr s))"
proof (intro conjI)
  have "length m + 1 - MAX_SEEN_IDS = length m - 4095" by (simp add: MAX_SEEN_IDS_def)
  then show "seen_loop m = Some (drop (length m - 4095) m)" "evict m = drop (length m - 4095) m"
    using seen_returns [OF assms] evict_drop [of m] by simp_all
  have "flags_loop argv = Some (parseFlags argv)"
    using flags_return [of argv 0 "[]"] by (simp add: flags_loop_def parseFlags_def)
  moreover have "map_get (parseFlags argv) k = last_flag argv k" for k
    by (simp add: parseFlags_def flag_get split: option.splits)
  ultimately show "\<exists>f. flags_loop argv = Some f \<and> f = parseFlags argv
        \<and> (\<forall>k v. map_get f k = Some v \<longleftrightarrow>
            (\<exists>pre post. argv = pre @ (js ''--'' @ k) # post \<and> js ''--'' @ k \<notin> set post
               \<and> v = (case post of w # _ \<Rightarrow> if w \<noteq> [] \<and> \<not> startsWith w (js ''--'') then w else js ''true''
                               | [] \<Rightarrow> js ''true'')))"
    by (simp add: last_flag_iff flag_value_def)
  show "args_loop num argv a = Some (parse_args num argv a)"
    using args_return [of argv num 0 a] by (simp add: args_loop_def)
  have u: "unit_loop n = Some (of_nat n / 1024 ^ (bytes_unit n 0 + 1), bytes_unit n 0)"
    using unit_returns [of n 0] by (simp add: unit_loop_def)
  show "\<exists>v i. unit_loop n = Some (v, i) \<and> i = bytes_unit n 0 \<and> v * 1024 ^ (i + 1) = of_nat n \<and> i \<le> 3
        \<and> (v < 1024 \<or> i = 3) \<and> (1024 \<le> n \<longrightarrow> 1 \<le> v)"
    using u unit_result [OF u] by blast
  have "string_loop s = Some (encodeString s)"
    using string_returns [of s 0 "[0x22]"] by (simp add: string_loop_def encodeString_def)
  moreover have "json_parse num_of (encodeString s) = Some (JStr s)"
    using json_parse_print [OF encodeString_ok, of "JStr s" num_of] by simp
  ultimately show "\<exists>t. string_loop s = Some t \<and> t = encodeString s \<and> json_parse num_of t = Some (JStr s)" by blast
qed

theorem loops_return_witness:
  "seen_loop [(js ''a'', 1), (js ''b'', 2)] = Some [(js ''a'', 1), (js ''b'', 2)]
   \<and> (\<exists>f. flags_loop [js ''--send'', js ''u'', js ''--x''] = Some f)
   \<and> (\<exists>v. unit_loop 5000000 = Some (v, 1) \<and> v * 1048576 = 5000000)"
proof -
  have d: "distinct (map fst [(js ''a'', 1 :: int), (js ''b'', 2)])" by (simp add: js_def)
  have "bytes_unit 5000000 0 = 1" by (simp add: bytes_unit.simps)
  then show ?thesis
    using loops_return [OF d, of "[js ''--send'', js ''u'', js ''--x'']" "\<lambda>_. NaN" undefined 5000000 "[]" "\<lambda>_. JNull"]
    by (auto simp: power2_eq_square)
qed

end
