(* ===== verification/View.thy ===== *)
theory View
  imports Frontend Share
begin

text \<open>
  The components of src/gui-and-app/frontend/src/components and App.tsx: what they render, as a tree of
  elements, texts and the handlers attached to them. A component gets its poll and the poll's data at
  its declared type (the code casts the answer without a check); the locale's clock format is an
  argument. A child that is \<open>false\<close>, \<open>null\<close> or the empty string renders as nothing.
\<close>

section \<open>Elements\<close>

datatype action = Pick | Remove nat | ToggleAll | ToggleRow jsstr | Submit | TypePassword

datatype attr = AStr jsstr | ABool bool | ANum nat | On action

datatype view = Txt jsstr | Tag string "(string \<times> attr) list" "view list"

definition cls :: "string \<Rightarrow> string \<times> attr" where
  "cls c = (''className'', AStr (js c))"

abbreviation span :: "string \<Rightarrow> view list \<Rightarrow> view" where
  "span c vs \<equiv> Tag ''span'' [cls c] vs"

abbreviation boxed :: "string \<Rightarrow> view list \<Rightarrow> view" where
  \<comment> \<open>a \<open>div\<close> with a class\<close>
  "boxed c vs \<equiv> Tag ''div'' [cls c] vs"

abbreviation cell :: "string \<Rightarrow> view list \<Rightarrow> view" where
  "cell c vs \<equiv> Tag ''td'' [cls c] vs"

definition num_txt :: "nat \<Rightarrow> view" where
  "num_txt n = Txt (radix_str 10 n)"

definition DASH :: jsstr where
  "DASH = [0x2014]"

definition or_dash :: "jsstr option \<Rightarrow> jsstr" where
  \<comment> \<open>\<open>s ?? "-"\<close>, with a long dash\<close>
  "or_dash s = (case s of None \<Rightarrow> DASH | Some t \<Rightarrow> t)"

definition shown_if :: "jsstr option \<Rightarrow> (jsstr \<Rightarrow> view) \<Rightarrow> view list" where
  \<comment> \<open>\<open>{s && <x/>}\<close>: nothing for \<open>null\<close> and for the empty string\<close>
  "shown_if s f = (case s of None \<Rightarrow> [] | Some t \<Rightarrow> if t = [] then [] else [f t])"

section \<open>StatusBar\<close>

record node_info =
  ni_name :: jsstr
  ni_role :: jsstr
  ni_wg :: jsstr

definition statusBar :: "(jsstr \<Rightarrow> jsstr) \<Rightarrow> poll \<Rightarrow> node_info option \<Rightarrow> view" where
  "statusBar clk p node = Tag ''header'' [cls ''statusbar'']
     [boxed ''brand''
        [span ''glyph'' [Txt [0x25c7]],
         span ''node-name'' [Txt (or_dash (map_option ni_name node))],
         span ''dim'' [Txt (js ''/''), Txt (case node of None \<Rightarrow> js ''wg0'' | Some n \<Rightarrow> ni_wg n)],
         span ''role-tag'' [Txt (case node of None \<Rightarrow> js ''?'' | Some n \<Rightarrow> ni_role n)]],
      boxed ''link''
        [span (if live p then ''link-dot up'' else ''link-dot down'') [],
         span (if live p then ''s-ok'' else ''s-degraded'') [Txt (if live p then js ''LIVE'' else js ''SIGNAL LOST'')],
         span ''dim'' [Txt (case pl_lastOk p of None \<Rightarrow> js ''no read yet''
                                            | Some t \<Rightarrow> js ''last read '' @ clk (iso_str t))]]]"

section \<open>Readout\<close>

definition readout_view :: "'a list option \<Rightarrow> jsstr \<Rightarrow> ('a list \<Rightarrow> view list) \<Rightarrow> view list" where
  "readout_view rows none content =
     (case readout rows of
        Awaiting \<Rightarrow> [boxed ''empty'' [Txt (js ''awaiting first read'' @ [0x2026])]]
      | Empty \<Rightarrow> [boxed ''empty'' [Txt none]]
      | Rows rs \<Rightarrow> content rs)"

section \<open>JailsPanel\<close>

definition jail_row :: "jail_status \<Rightarrow> view" where
  "jail_row j = Tag ''tr'' [(''key'', AStr (jail j)), cls (if currently_banned j \<noteq> 0 then ''row sev-crit'' else ''row sev-info'')]
     [cell ''col-rail'' [],
      cell ''src-tag'' [Txt (jail j)],
      cell ''num dim'' [num_txt (currently_banned j), Txt (js '' banned '' @ 0xb7 # 0x20 # []), num_txt (total_banned j), Txt (js '' total'')],
      cell ''peer-name'' [Txt (let s = join (js '', '') (banned_ips j) in if s = [] then DASH else s)]]"

definition panel_head :: "string \<Rightarrow> view list \<Rightarrow> view" where
  "panel_head title tags = boxed ''panel-head'' [Tag ''h2'' [] [Txt (js title)], boxed ''tally'' tags]"

definition jails_panel :: "jail_status list option \<Rightarrow> view" where
  "jails_panel jails = Tag ''section'' [cls ''panel'', (''aria-label'', AStr (js ''fail2ban jails''))]
     (panel_head ''JAILS''
        (span ''dim'' [Txt (js ''this node'')] #
         (case jails of
            None \<Rightarrow> []
          | Some _ \<Rightarrow> if banned_total jails > 0 then [span ''chip chip-crit'' [num_txt (banned_total jails), Txt (js '' BANNED'')]]
                      else [span ''chip chip-ok'' [Txt (js ''NONE BANNED'')]])) #
      readout_view jails (js ''no jails reporting'')
        (\<lambda>rows. [Tag ''table'' [cls ''readout''] [Tag ''tbody'' [] (map jail_row rows)]]))"

section \<open>IdsFeed\<close>

definition sev_label :: "jsstr \<Rightarrow> view list" where
  \<comment> \<open>\<open>SEV_LABEL[s]\<close>: a severity that is none of the three renders as nothing\<close>
  "sev_label s =
     (if s = js ''info'' then [Txt (js ''INFO'')] else if s = js ''warn'' then [Txt (js ''WARN'')]
      else if s = js ''crit'' then [Txt (js ''CRIT'')] else [])"

definition chip_view :: "chip \<Rightarrow> view" where
  "chip_view ch =
     (case ch of
        Crit n \<Rightarrow> span ''chip chip-crit'' [num_txt n, Txt (js '' CRIT'')]
      | Warn n \<Rightarrow> span ''chip chip-warn'' [num_txt n, Txt (js '' WARN'')]
      | AllClear \<Rightarrow> span ''chip chip-ok'' [Txt (js ''ALL CLEAR'')])"

definition event_rows :: "(jsstr \<Rightarrow> jsstr) \<Rightarrow> jsstr option \<Rightarrow> ids_event \<Rightarrow> view list" where
  "event_rows clk openId e =
     (let isOpen = (openId = Some (ie_id e))
      in Tag ''tr'' [(''className'', AStr (js ''row sev-'' @ ie_severity e @ (if isOpen then js '' open'' else []))),
                     (''onClick'', On (ToggleRow (ie_id e))), (''aria-expanded'', ABool isOpen)]
           [cell ''col-rail'' [],
            cell ''num dim'' [Txt (clk (ie_at e))],
            Tag ''td'' [(''className'', AStr (js ''state-label v-'' @ ie_severity e))] (sev_label (ie_severity e)),
            cell ''peer-name'' [Txt (or_dash (ie_node e))],
            cell ''src-tag'' [Txt (ie_source e)],
            cell ''peer-name'' [Txt (ie_subject e)],
            cell ''evt-cell'' [span ''evt-msg'' [Txt (ie_message e)],
                               span ''evt-caret'' [Txt (if isOpen then [0x25be] else [0x25b8])]]]
         # (if isOpen then
              [Tag ''tr'' [(''className'', AStr (js ''detail sev-'' @ ie_severity e))]
                 [cell ''col-rail'' [],
                  Tag ''td'' [(''colSpan'', ANum 6)] [boxed ''detail-box'' [Txt (ie_message e)]]]]
            else []))"

definition feed_head :: view where
  "feed_head = Tag ''thead'' [] [Tag ''tr'' []
     (Tag ''th'' [cls ''col-rail''] [] #
      map (\<lambda>h. Tag ''th'' [] [Txt (js h)]) [''TIME'', ''SEV'', ''NODE'', ''SOURCE'', ''SUBJECT'', ''EVENT''])]"

record feed_state =
  fe_showAll :: bool
  fe_openId :: "jsstr option"

definition feed_rows :: "(jsstr \<Rightarrow> jsstr) \<Rightarrow> feed_state \<Rightarrow> ids_event list \<Rightarrow> view list" where
  "feed_rows clk fs rows =
     boxed (if fe_showAll fs then ''feed feed-scroll'' else ''feed'')
       [Tag ''table'' [cls ''readout ids'']
          [feed_head, Tag ''tbody'' [] (concat (map (event_rows clk (fe_openId fs)) (shown_events (fe_showAll fs) rows)))]]
     # (if length rows > COLLAPSED then
          [Tag ''button'' [cls ''feed-more'', (''onClick'', On ToggleAll), (''aria-expanded'', ABool (fe_showAll fs))]
             [Txt (if fe_showAll fs then 0x25b4 # js '' SHOW LESS''
                   else 0x25be # js '' SHOW ALL ('' @ radix_str 10 (length rows) @ js '')'')]]
        else [])"

definition ids_feed :: "(jsstr \<Rightarrow> jsstr) \<Rightarrow> feed_state \<Rightarrow> ids_event list option \<Rightarrow> view" where
  "ids_feed clk fs events = Tag ''section'' [cls ''panel'', (''aria-label'', AStr (js ''ids feed''))]
     (panel_head ''IDS FEED''
        (case events of
           None \<Rightarrow> []
         | Some es \<Rightarrow> if es = [] then []
                      else span ''dim'' [num_txt (length es), Txt (js '' EVENTS'')] # map chip_view (tally events)) #
      readout_view events (js ''no events'') (feed_rows clk fs))"

section \<open>Files\<close>

definition file_tr :: "lib \<Rightarrow> int \<Rightarrow> shared_file \<Rightarrow> view" where
  "file_tr L now f = Tag ''tr'' [(''key'', ANum (sf_id f)), cls ''row'']
     [cell ''col-rail'' [],
      cell ''peer-name'' [Txt (sf_name f)],
      cell ''num dim'' [Txt (bytes_str (sf_size f))],
      cell ''src-tag'' [Txt (sf_node f)],
      cell ''num dim'' [Txt (age L (Some (sf_modified f)) now), Txt (js '' ago'')],
      cell ''col-act''
        [Tag ''a'' [cls ''act'', (''href'', AStr (downloadUrl (sf_id f)))] [Txt (js ''get'')],
         Tag ''button'' [cls ''act act-del'', (''onClick'', On (Remove (sf_id f)))] [Txt (js ''del'')]]]"

definition files_head :: view where
  "files_head = Tag ''thead'' [] [Tag ''tr'' []
     [Tag ''th'' [cls ''col-rail''] [], Tag ''th'' [] [Txt (js ''NAME'')], Tag ''th'' [cls ''num''] [Txt (js ''SIZE'')],
      Tag ''th'' [] [Txt (js ''NODE'')], Tag ''th'' [cls ''num''] [Txt (js ''MODIFIED'')], Tag ''th'' [cls ''col-act''] [Txt (js ''ACTIONS'')]]]"

definition files_view :: "lib \<Rightarrow> int \<Rightarrow> files_snapshot option \<Rightarrow> files_panel \<Rightarrow> view" where
  "files_view L now snap fp = Tag ''section'' [cls ''panel'', (''aria-label'', AStr (js ''file share''))]
     (panel_head ''FILES''
        [span ''dim'' [Txt (or_dash (map_option snap_root snap))],
         span ''src-tag'' [Txt (case snap of None \<Rightarrow> js ''wg0'' | Some s \<Rightarrow> snap_bind s)],
         Tag ''label'' [cls ''btn'']
           [Txt (if fp_busy fp then js ''UPLOADING'' @ [0x2026] else js ''+ UPLOAD''),
            Tag ''input'' [(''type'', AStr (js ''file'')), (''onChange'', On Pick), (''disabled'', ABool (fp_busy fp)), (''hidden'', ABool True)] []]]
      # shown_if (fp_err fp) (\<lambda>e. boxed ''up-err'' [Txt (js ''upload error '' @ 0x2014 # js '' ''), Txt e])
      @ (case snap of
           None \<Rightarrow> [boxed ''empty'' [Txt (js ''awaiting first read'' @ [0x2026])]]
         | Some s \<Rightarrow>
             if length (snap_files s) = 0 then [boxed ''empty'' [Txt (js ''share empty '' @ 0x2014 # js '' upload a file'')]]
             else [Tag ''table'' [cls ''readout''] [files_head, Tag ''tbody'' [] (map (file_tr L now) (snap_files s))]]))"

section \<open>LoginGate\<close>

definition loginGate :: "login_form \<Rightarrow> view" where
  "loginGate f = Tag ''div'' [cls ''gate'', (''role'', AStr (js ''dialog'')), (''aria-label'', AStr (js ''view password''))]
     [Tag ''form'' [cls ''gate-box'', (''onSubmit'', On Submit)]
        ([Tag ''h2'' [] [Txt (js ''RESTRICTED '' @ 0x2014 # js '' IDS MESH'')],
          Tag ''p'' [cls ''dim''] [Txt (js ''master aggregate '' @ 0xb7 # js '' view password required'')],
          Tag ''input'' [(''type'', AStr (js ''password'')), (''autoFocus'', ABool True), (''value'', AStr (lf_password f)),
             (''onChange'', On TypePassword), (''disabled'', ABool (lf_busy f)), (''placeholder'', AStr (js ''view password'')),
             (''aria-label'', AStr (js ''view password''))] []]
         @ shown_if (lf_err f) (\<lambda>e. boxed ''gate-err'' [Txt e])
         @ [Tag ''button'' [cls ''btn'', (''type'', AStr (js ''submit'')), (''disabled'', ABool (lf_busy f \<or> lf_password f = []))]
              [Txt (if lf_busy f then js ''CHECKING'' @ [0x2026] else js ''UNLOCK'')]])]"

section \<open>App\<close>

record ui =
  ui_node :: "node_info option"
  ui_files :: "files_snapshot option"
  ui_ids :: "ids_event list option"
  ui_jails :: "jail_status list option"
  ui_login :: login_form
  ui_panel :: files_panel
  ui_feed :: feed_state

definition app :: "lib \<Rightarrow> (jsstr \<Rightarrow> jsstr) \<Rightarrow> int \<Rightarrow> poll \<Rightarrow> poll \<Rightarrow> poll \<Rightarrow> ui \<Rightarrow> view" where
  \<comment> \<open>the polls of the node, the feed and the jails\<close>
  "app L clk now node ids jails u =
     (case app_screen node ids jails of
        LoginScreen \<Rightarrow> loginGate (ui_login u)
      | MainScreen alarm \<Rightarrow> boxed ''app''
          (statusBar clk node (ui_node u) #
           (case alarm of
              None \<Rightarrow> []
            | Some e \<Rightarrow> [Tag ''div'' [cls ''alarm'', (''role'', AStr (js ''alert''))]
                 [Txt (js ''SIGNAL LOST '' @ 0x2014 # js '' showing last known state (''), Txt e,
                  Txt (js ''). A silent node is itself the alarm.'')]]) @
           [Tag ''main'' [cls ''grid'']
              [files_view L now (ui_files u) (ui_panel u), jails_panel (ui_jails u), ids_feed clk (ui_feed u) (ui_ids u)],
            Tag ''footer'' [cls ''footer''] [span ''dim'' [Txt (js ''su495 island '' @ 0xb7 # js '' IDS mesh'')],
                                            span ''dim'' [Txt (js ''admin '' @ 0x2014 # js '' pending'')]]]))"

section \<open>What a screen offers\<close>

fun attr_actions :: "string \<times> attr \<Rightarrow> action list" where
  "attr_actions (k, On a) = [a]"
| "attr_actions (k, v) = []"

fun actions :: "view \<Rightarrow> action list" where
  \<comment> \<open>the handlers a user can reach, in the order of the page\<close>
  "actions (Txt s) = []"
| "actions (Tag t as vs) = concat (map attr_actions as) @ concat (map actions vs)"

fun links :: "view \<Rightarrow> jsstr list" where
  "links (Txt s) = []"
| "links (Tag t as vs) = concat (map (\<lambda>(k, a). case a of AStr u \<Rightarrow> if k = ''href'' then [u] else [] | _ \<Rightarrow> []) as) @ concat (map links vs)"

fun texts :: "view \<Rightarrow> jsstr list" where
  "texts (Txt s) = [s]"
| "texts (Tag t as vs) = concat (map texts vs)"

end
