(* ===== verification/Page.thy ===== *)
theory Page
  imports View
begin

text \<open>
  The running page: App.tsx with its four polls, the session of api.ts and the state of the components,
  and what happens when an interval fires, an answer arrives or the user does one of the things that the
  page offers. A handler runs to its end in one step; the polls go on at their own pace.
\<close>

section \<open>The feeds\<close>

datatype feed = NodeFeed | FilesFeed | IdsFeed | JailsFeed

fun feed_url :: "feed \<Rightarrow> jsstr" where
  "feed_url NodeFeed = js ''/api/node''"
| "feed_url FilesFeed = js ''/api/files''"
| "feed_url IdsFeed = js ''/api/ids''"
| "feed_url JailsFeed = js ''/api/jails''"

definition POLL_MS :: int where
  "POLL_MS = 2000"

definition feed_request :: "session \<Rightarrow> feed \<Rightarrow> web_request" where
  \<comment> \<open>what \<open>getJSON\<close> fetches\<close>
  "feed_request s w = \<lparr> rq_method = GET, rq_url = feed_url w, rq_token = [], rq_body = [], rq_file = None, rq_bearer = authHeaders s \<rparr>"

record casts =
  \<comment> \<open>\<open>as T\<close>: an answer at its declared type, \<open>null\<close> before the first read\<close>
  ca_node :: "json \<Rightarrow> node_info option"
  ca_files :: "json \<Rightarrow> files_snapshot option"
  ca_ids :: "json \<Rightarrow> ids_event list option"
  ca_jails :: "json \<Rightarrow> jail_status list option"

section \<open>The page\<close>

record page =
  pg_polls :: "feed \<Rightarrow> poller"
  pg_session :: session
  pg_login :: login_form
  pg_panel :: files_panel
  pg_feed :: feed_state

definition page_new :: "session \<Rightarrow> page" where
  "page_new s = \<lparr> pg_polls = (\<lambda>w. mount poller_new), pg_session = s,
     pg_login = \<lparr> lf_password = [], lf_busy = False, lf_err = None \<rparr>,
     pg_panel = \<lparr> fp_busy = False, fp_err = None \<rparr>,
     pg_feed = \<lparr> fe_showAll = False, fe_openId = None \<rparr> \<rparr>"

definition poll_of :: "page \<Rightarrow> feed \<Rightarrow> poll" where
  "poll_of pg w = po_poll (pg_polls pg w)"

definition page_screen :: "page \<Rightarrow> screen" where
  "page_screen pg = app_screen (poll_of pg NodeFeed) (poll_of pg IdsFeed) (poll_of pg JailsFeed)"

definition page_view :: "lib \<Rightarrow> (jsstr \<Rightarrow> jsstr) \<Rightarrow> casts \<Rightarrow> int \<Rightarrow> page \<Rightarrow> view" where
  "page_view L clk ca now pg =
     app L clk now (poll_of pg NodeFeed) (poll_of pg IdsFeed) (poll_of pg JailsFeed)
       \<lparr> ui_node = ca_node ca (pl_data (poll_of pg NodeFeed)), ui_files = ca_files ca (pl_data (poll_of pg FilesFeed)),
         ui_ids = ca_ids ca (pl_data (poll_of pg IdsFeed)), ui_jails = ca_jails ca (pl_data (poll_of pg JailsFeed)),
         ui_login = pg_login pg, ui_panel = pg_panel pg, ui_feed = pg_feed pg \<rparr>"

section \<open>Handlers\<close>

definition with_poll :: "feed \<Rightarrow> poller \<Rightarrow> page \<Rightarrow> page" where
  "with_poll w p pg = pg\<lparr> pg_polls := (pg_polls pg)(w := p) \<rparr>"

definition onAuthed :: "page \<Rightarrow> page" where
  \<comment> \<open>all four are read again\<close>
  "onAuthed pg = pg\<lparr> pg_polls := (\<lambda>w. tick (pg_polls pg w)) \<rparr>"

fun handle :: "lib \<Rightarrow> (web_request \<Rightarrow> failure + web_response) \<Rightarrow> (jsstr \<times> jsstr \<times> bytes) option \<Rightarrow> jsstr \<Rightarrow> action \<Rightarrow> page \<Rightarrow> page" where
  \<comment> \<open>the file that was picked and the text of the field are what the browser hands over\<close>
  "handle L net file typed Pick pg =
     (case onPick L net (pg_session pg) file (pg_panel pg, pg_polls pg FilesFeed) of
        (fp, p) \<Rightarrow> with_poll FilesFeed p (pg\<lparr> pg_panel := fp \<rparr>))"
| "handle L net file typed (Remove i) pg =
     (case onDelete net (pg_session pg) i (pg_panel pg, pg_polls pg FilesFeed) of
        (fp, p) \<Rightarrow> with_poll FilesFeed p (pg\<lparr> pg_panel := fp \<rparr>))"
| "handle L net file typed ToggleAll pg = pg\<lparr> pg_feed := (pg_feed pg)\<lparr> fe_showAll := \<not> fe_showAll (pg_feed pg) \<rparr> \<rparr>"
| "handle L net file typed (ToggleRow i) pg = pg\<lparr> pg_feed := (pg_feed pg)\<lparr> fe_openId := click_row i (fe_openId (pg_feed pg)) \<rparr> \<rparr>"
| "handle L net file typed TypePassword pg = pg\<lparr> pg_login := (pg_login pg)\<lparr> lf_password := typed \<rparr> \<rparr>"
| "handle L net file typed Submit pg =
     (case onSubmit L net (pg_login pg) (pg_session pg) of
        (f, s, authed) \<Rightarrow>
          let pg1 = pg\<lparr> pg_login := f, pg_session := s \<rparr>
          in if authed then onAuthed pg1 else pg1)"

definition settle_feed :: "lib \<Rightarrow> int \<Rightarrow> (failure + web_response) \<Rightarrow> feed \<Rightarrow> page \<Rightarrow> page" where
  \<comment> \<open>the request in the air ended\<close>
  "settle_feed L now outcome w pg =
     (case po_running (pg_polls pg w) of
        [] \<Rightarrow> pg
      | (i, a) # _ \<Rightarrow> (case settle L now i a outcome (pg_polls pg w) (pg_session pg) of
                       (p, s) \<Rightarrow> with_poll w p (pg\<lparr> pg_session := s \<rparr>)))"

inductive page_step :: "lib \<Rightarrow> (web_request \<Rightarrow> failure + web_response) \<Rightarrow> page \<Rightarrow> page \<Rightarrow> bool"
  for L :: lib and net :: "web_request \<Rightarrow> failure + web_response" where
  Ticked: "page_step L net pg (with_poll w (tick (pg_polls pg w)) pg)"
| Settled: "page_step L net pg (settle_feed L now outcome w pg)"
| Handled: "a \<in> set (actions (page_view L clk ca now pg)) \<Longrightarrow> page_step L net pg (handle L net file typed a pg)"

inductive_cases page_stepE: "page_step L net pg pg'"

end
