(* ===== verification/ViewProps.thy ===== *)
theory ViewProps
  imports View FrontendProps
begin

text \<open>
  What the rendered screen lets a user do and read, computed from the tree of elements.
\<close>

section \<open>Parts of a screen\<close>

lemmas part_defs = cls_def num_txt_def panel_head_def readout_view_def

lemma shown_if_part [simp]:
  "(\<And>t. actions (f t) = []) \<Longrightarrow> concat (map actions (shown_if s f)) = []"
  "(\<And>t. links (f t) = []) \<Longrightarrow> concat (map links (shown_if s f)) = []"
  by (cases s; simp add: shown_if_def)+

lemma actions_status: "actions (statusBar clk p node) = []" "links (statusBar clk p node) = []"
  by (simp_all add: statusBar_def part_defs)

lemma actions_jails: "actions (jails_panel jails) = []" "links (jails_panel jails) = []"
  by (simp_all add: jails_panel_def jail_row_def part_defs comp_def split: option.splits ladder.splits)

lemma concat_one: "concat (map (\<lambda>x. [f x]) xs) = map f xs"
  by (induction xs) simp_all

lemma actions_event: "concat (map actions (event_rows clk i e)) = [ToggleRow (ie_id e)]" "concat (map links (event_rows clk i e)) = []"
  by (simp_all add: event_rows_def part_defs sev_label_def Let_def)

lemma actions_rows:
  "concat (map actions (concat (map (event_rows clk i) es))) = map (\<lambda>e. ToggleRow (ie_id e)) es"
  "concat (map links (concat (map (event_rows clk i) es))) = []"
  by (induction es) (simp_all add: actions_event)

lemma actions_chips: "concat (map actions (map chip_view cs)) = []" "concat (map links (map chip_view cs)) = []"
  by (induction cs) (simp_all add: chip_view_def part_defs split: chip.splits)

definition listed :: "'a list option \<Rightarrow> 'a list" where
  "listed xs = (case xs of None \<Rightarrow> [] | Some ys \<Rightarrow> ys)"

lemma actions_feed:
  "actions (ids_feed clk fs events) = map (\<lambda>e. ToggleRow (ie_id e)) (shown_events (fe_showAll fs) (listed events))
     @ (if length (listed events) > COLLAPSED then [ToggleAll] else [])" (is ?A)
  "links (ids_feed clk fs events) = []" (is ?L)
proof -
  have head: "actions feed_head = []" "links feed_head = []" by (simp_all add: feed_head_def part_defs)
  show ?A ?L
    using actions_chips [of "tally events"]
    by (cases events; simp add: ids_feed_def feed_rows_def part_defs listed_def shown_events_def COLLAPSED_def actions_rows head comp_def)+
qed

lemma actions_files:
  "actions (files_view L now snap fp) = Pick # map (\<lambda>f. Remove (sf_id f)) (listed (map_option snap_files snap))"
  "links (files_view L now snap fp) = map (\<lambda>f. downloadUrl (sf_id f)) (listed (map_option snap_files snap))"
proof -
  have head: "actions files_head = []" "links files_head = []" by (simp_all add: files_head_def part_defs)
  have row: "actions (file_tr L now f) = [Remove (sf_id f)]" "links (file_tr L now f) = [downloadUrl (sf_id f)]" for f
    by (simp_all add: file_tr_def part_defs)
  show "actions (files_view L now snap fp) = Pick # map (\<lambda>f. Remove (sf_id f)) (listed (map_option snap_files snap))"
    "links (files_view L now snap fp) = map (\<lambda>f. downloadUrl (sf_id f)) (listed (map_option snap_files snap))"
    by (simp_all add: files_view_def part_defs listed_def head row comp_def concat_one split: option.splits)
qed

lemma actions_login: "actions (loginGate f) = [Submit, TypePassword]" "links (loginGate f) = []"
  by (simp_all add: loginGate_def part_defs split: option.splits)

text \<open>
  C39: a screen offers exactly what it lists: the login screen offers the password field and its form and
  no link, and nothing of the data is in it; the main screen offers an upload, for each file of the last
  read one deletion and one download link, of that file's own id and in the order of the list, for each
  event shown its detail, and the switch of the feed when there are more events than it shows.
\<close>

theorem screen_offers:
  "case app_screen node ids jails of
     LoginScreen \<Rightarrow> actions (app L clk now node ids jails u) = [Submit, TypePassword] \<and> links (app L clk now node ids jails u) = []
       \<and> app L clk now node ids jails u = app L clk now node ids jails (u\<lparr> ui_node := n, ui_files := fs, ui_ids := es, ui_jails := js' \<rparr>)
   | MainScreen _ \<Rightarrow>
       (let files = listed (map_option snap_files (ui_files u)); events = listed (ui_ids u)
        in actions (app L clk now node ids jails u) =
             Pick # map (\<lambda>f. Remove (sf_id f)) files
             @ map (\<lambda>e. ToggleRow (ie_id e)) (if fe_showAll (ui_feed u) then events else take 5 events)
             @ (if length events > 5 then [ToggleAll] else [])
         \<and> links (app L clk now node ids jails u) = map (\<lambda>f. js ''/api/files/'' @ radix_str 10 (sf_id f) @ js ''/download'') files)"
proof (cases "app_screen node ids jails")
  case LoginScreen
  then show ?thesis by (simp add: app_def actions_login)
next
  case (MainScreen alarm)
  note part = app_def actions_status actions_jails actions_feed actions_files part_defs Let_def shown_events_def COLLAPSED_def downloadUrl_def
  show ?thesis by (cases alarm; simp add: MainScreen part)
qed

section \<open>What can be read on it\<close>

lemma texts_status: "set (texts (statusBar clk p node)) \<supseteq> {if live p then js ''LIVE'' else js ''SIGNAL LOST''}"
  by (simp add: statusBar_def part_defs)

lemma texts_files:
  assumes "f \<in> set (snap_files s)"
  shows "sf_name f \<in> set (texts (files_view L now (Some s) fp))" "sf_node f \<in> set (texts (files_view L now (Some s) fp))"
proof -
  have ne: "snap_files s \<noteq> []" using assms by auto
  have "{sf_name f, sf_node f} \<subseteq> set (texts (file_tr L now f))" by (simp add: file_tr_def part_defs)
  then show "sf_name f \<in> set (texts (files_view L now (Some s) fp))" "sf_node f \<in> set (texts (files_view L now (Some s) fp))"
    using assms ne by (auto simp: files_view_def part_defs)
qed

end
