(* ===== verification/PageProps.thy ===== *)
theory PageProps
  imports Page ViewProps
begin

text \<open>
  The polls of the page keep the invariant of the hook, and signing in leads back to the data.
\<close>

section \<open>The invariant of the page\<close>

definition page_ok :: "page \<Rightarrow> bool" where
  "page_ok pg \<longleftrightarrow> (\<forall>w. poll_ok (pg_polls pg w) \<and> po_alive (pg_polls pg w))"

lemma poller_new_ok: "poll_ok poller_new"
  by (simp add: poll_ok_def poller_new_def)

lemma alive_kept [simp]: "po_alive (tick p) = po_alive p" "po_alive (fst (settle L now i a outcome p s)) = po_alive p"
  by (auto simp: tick_def settle_def split: prod.splits sum.splits)

lemma with_poll_ok: "page_ok pg \<Longrightarrow> poll_ok p \<Longrightarrow> po_alive p \<Longrightarrow> page_ok (with_poll w p pg)"
  by (simp add: page_ok_def with_poll_def)

lemma file_handlers_ok:
  "page_ok pg \<Longrightarrow> poll_ok (snd (onPick L net s file (fp, pg_polls pg w))) \<and> po_alive (snd (onPick L net s file (fp, pg_polls pg w)))"
  "page_ok pg \<Longrightarrow> poll_ok (snd (onDelete net s i (fp, pg_polls pg w))) \<and> po_alive (snd (onDelete net s i (fp, pg_polls pg w)))"
  by (auto simp: page_ok_def onPick_def onDelete_def tick_ok split: option.splits sum.splits)

lemma handle_ok:
  assumes "page_ok pg"
  shows "page_ok (handle L net file typed a pg)"
proof (cases a)
  case Submit
  then show ?thesis using assms
    by (auto simp: page_ok_def onAuthed_def tick_ok Let_def split: prod.splits)
next
  case Pick
  show ?thesis unfolding Pick handle.simps case_prod_beta
    by (rule with_poll_ok) (use assms file_handlers_ok(1) [OF assms] in \<open>simp_all add: page_ok_def\<close>)
next
  case (Remove i)
  show ?thesis unfolding Remove handle.simps case_prod_beta
    by (rule with_poll_ok) (use assms file_handlers_ok(2) [OF assms] in \<open>simp_all add: page_ok_def\<close>)
qed (use assms in \<open>simp_all add: page_ok_def\<close>)

lemma settle_feed_ok:
  assumes "page_ok pg"
  shows "page_ok (settle_feed L now outcome w pg)"
proof (cases "po_running (pg_polls pg w)")
  case (Cons ia rest)
  obtain i a where ia: "ia = (i, a)" by (meson surj_pair)
  have q: "poll_ok (fst (settle L now i a outcome (pg_polls pg w) (pg_session pg)))"
    by (rule settle_ok) (use assms Cons ia in \<open>simp_all add: page_ok_def\<close>)
  have "settle_feed L now outcome w pg = with_poll w (fst (settle L now i a outcome (pg_polls pg w) (pg_session pg)))
      (pg\<lparr> pg_session := snd (settle L now i a outcome (pg_polls pg w) (pg_session pg)) \<rparr>)"
    by (simp add: settle_feed_def Cons ia case_prod_beta)
  then show ?thesis using q assms by (simp add: page_ok_def with_poll_def)
qed (use assms in \<open>simp add: settle_feed_def\<close>)

interpretation page_machine: machine "\<lambda>pg. \<exists>s. pg = page_new s" "page_step L net" page_ok for L net
proof
  show "page_ok pg" if "\<exists>s. pg = page_new s" for pg
    using that mount_ok [OF poller_new_ok] by (auto simp: page_ok_def page_new_def mount_def poller_new_def)
  show "page_ok pg'" if "page_ok pg" "page_step L net pg pg'" for pg pg'
    using that(2)
  proof cases
    case (Ticked w)
    show ?thesis unfolding Ticked by (rule with_poll_ok) (use that(1) in \<open>simp_all add: page_ok_def tick_ok\<close>)
  qed (simp_all add: settle_feed_ok handle_ok that(1))
qed

section \<open>Answers\<close>

definition fresh_read :: "json \<Rightarrow> poller \<Rightarrow> bool" where
  \<comment> \<open>the poll shows the data of a read that ended well, and waits for the next one\<close>
  "fresh_read v p \<longleftrightarrow> po_running p = [] \<and> pl_data (po_poll p) = v \<and> \<not> pl_stale (po_poll p) \<and> \<not> pl_authRequired (po_poll p)"

lemma settle_feed_good:
  assumes "page_ok pg" "pg_session pg = s" "po_running (pg_polls pg w) \<noteq> []" "getJSON L outcome s = (s, Inr v)"
  shows "fresh_read v (pg_polls (settle_feed L now outcome w pg) w)" "pg_session (settle_feed L now outcome w pg) = s"
    "w' \<noteq> w \<Longrightarrow> pg_polls (settle_feed L now outcome w pg) w' = pg_polls pg w'"
proof -
  obtain i a where run: "po_running (pg_polls pg w) = [(i, a)]"
  proof (cases "po_running (pg_polls pg w)")
    case (Cons ia rest)
    have "length (po_running (pg_polls pg w)) \<le> 1" using assms(1) by (simp add: page_ok_def poll_ok_def)
    then show ?thesis using that Cons by (cases ia) simp
  qed (use assms(3) in simp)
  have "po_alive (pg_polls pg w)" using assms(1) by (simp add: page_ok_def)
  then show "fresh_read v (pg_polls (settle_feed L now outcome w pg) w)" "pg_session (settle_feed L now outcome w pg) = s"
    "w' \<noteq> w \<Longrightarrow> pg_polls (settle_feed L now outcome w pg) w' = pg_polls pg w'"
    using run assms(2,4) by (simp_all add: settle_feed_def settle_def with_poll_def fresh_read_def)
qed

lemma settle_all:
  assumes "page_ok pg" "pg_session pg = s" "distinct ws" "\<forall>w \<in> set ws. po_running (pg_polls pg w) \<noteq> [] \<and> getJSON L (outcome w) s = (s, Inr (data w))"
  shows "let pg' = fold (\<lambda>w. settle_feed L (now w) (outcome w) w) ws pg
    in pg_session pg' = s \<and> (\<forall>w \<in> set ws. fresh_read (data w) (pg_polls pg' w)) \<and> (\<forall>w. w \<notin> set ws \<longrightarrow> pg_polls pg' w = pg_polls pg w)"
  using assms
proof (induction ws arbitrary: pg)
  case (Cons w ws)
  let ?pg = "settle_feed L (now w) (outcome w) w pg"
  have good: "fresh_read (data w) (pg_polls ?pg w)" "pg_session ?pg = s" "\<And>w'. w' \<noteq> w \<Longrightarrow> pg_polls ?pg w' = pg_polls pg w'"
    using settle_feed_good [where pg = pg and s = s and w = w and L = L and outcome = "outcome w" and v = "data w" and now = "now w"] Cons.prems
    by simp_all
  have "page_ok ?pg" by (rule settle_feed_ok [OF Cons.prems(1)])
  moreover have "\<forall>v \<in> set ws. po_running (pg_polls ?pg v) \<noteq> [] \<and> getJSON L (outcome v) s = (s, Inr (data v))"
    using Cons.prems(3,4) good(3) by (metis distinct.simps(2) list.set_intros(2))
  moreover have "distinct ws" "w \<notin> set ws" using Cons.prems(3) by simp_all
  ultimately have rest: "let pg' = fold (\<lambda>w. settle_feed L (now w) (outcome w) w) ws ?pg
    in pg_session pg' = s \<and> (\<forall>w \<in> set ws. fresh_read (data w) (pg_polls pg' w)) \<and> (\<forall>w. w \<notin> set ws \<longrightarrow> pg_polls pg' w = pg_polls ?pg w)"
    using Cons.IH [of ?pg] good(2) by blast
  let ?F = "fold (\<lambda>w. settle_feed L (now w) (outcome w) w) ws ?pg"
  have "pg_session ?F = s" "\<And>v. v \<in> set ws \<Longrightarrow> fresh_read (data v) (pg_polls ?F v)" "\<And>v. v \<notin> set ws \<Longrightarrow> pg_polls ?F v = pg_polls ?pg v"
    using rest by (simp_all add: Let_def)
  moreover from this(3) have "fresh_read (data w) (pg_polls ?F w)" using good(1) \<open>w \<notin> set ws\<close> by simp
  ultimately show ?case using good(3) by (simp add: Let_def)
qed simp

text \<open>
  C18: signing in leads to the data: in every state the page can be in, a submit that the backend answers
  with a token keeps the token and leaves every poll with one request in the air, and when the four
  answers come with their data, in any order and at any time, the page is the main screen without an
  alarm, with that data, and still holds the token.
\<close>

theorem login_unlocks:
  assumes "reachable (\<lambda>pg. \<exists>s. pg = page_new s) (page_step L net) pg"
    and "login L net (lf_password (pg_login pg)) (pg_session pg) = (Some t, Inr ())"
    and "distinct ws" "set ws = {NodeFeed, FilesFeed, IdsFeed, JailsFeed}"
    and "\<forall>w. getJSON L (outcome w) (Some t) = (Some t, Inr (data w))"
  shows "let pg1 = handle L net file typed Submit pg; pg2 = fold (\<lambda>w. settle_feed L (now w) (outcome w) w) ws pg1
    in pg_session pg1 = Some t \<and> (\<forall>w. length (po_running (pg_polls pg1 w)) = 1)
       \<and> page_screen pg2 = MainScreen None \<and> (\<forall>w. pl_data (poll_of pg2 w) = data w) \<and> pg_session pg2 = Some t"
proof -
  let ?pg1 = "handle L net file typed Submit pg"
  let ?pg2 = "fold (\<lambda>w. settle_feed L (now w) (outcome w) w) ws ?pg1"
  have ok: "page_ok pg" by (rule page_machine.reachable_inv [OF assms(1)])
  have ok1: "page_ok ?pg1" by (rule handle_ok [OF ok])
  have one: "pg_session ?pg1 = Some t" "\<And>w. pg_polls ?pg1 w = tick (pg_polls pg w)"
    using assms(2) by (simp_all add: onSubmit_def onAuthed_def)
  have air: "length (po_running (tick (pg_polls pg w))) = 1" for w
    using ok by (auto simp: page_ok_def poll_ok_def tick_def le_Suc_eq)
  have every: "w \<in> set ws" for w unfolding assms(4) by (cases w) simp_all
  have "\<forall>w \<in> set ws. po_running (pg_polls ?pg1 w) \<noteq> [] \<and> getJSON L (outcome w) (Some t) = (Some t, Inr (data w))"
    using air assms(5) unfolding one(2) by (metis length_0_conv zero_neq_one)
  from settle_all [OF ok1 one(1) assms(3) this]
  have two: "pg_session ?pg2 = Some t" "\<And>w. fresh_read (data w) (pg_polls ?pg2 w)" using every by (simp_all add: Let_def)
  then have "page_screen ?pg2 = MainScreen None" "pl_data (poll_of ?pg2 w) = data w" for w
    by (simp_all add: page_screen_def app_screen_def poll_of_def fresh_read_def)
  then show ?thesis using one air two(1) by (simp add: Let_def)
qed

definition web_answer :: "(jsstr \<times> json) list \<Rightarrow> web_response" where
  "web_answer kvs = http_response.extend (json_response 200 (JObj kvs)) (web_response.fields (js ''OK''))"

lemma web_answer_read:
  assumes "json_ok (JObj kvs)"
  shows "web_ok (web_answer kvs)" "web_json L (web_answer kvs) = Inr (JObj kvs)" "getJSON L (Inr (web_answer kvs)) s = (s, Inr (JObj kvs))"
proof -
  have cut: "http_response.truncate (web_answer kvs) = json_response 200 (JObj kvs)" "rs_status (web_answer kvs) = 200"
    by (simp_all add: web_answer_def http_response.defs web_response.defs json_response_def)
  show read: "web_ok (web_answer kvs)" "web_json L (web_answer kvs) = Inr (JObj kvs)"
    by (simp_all add: web_ok_def web_json_def cut http_ok_def response_json_object [OF assms])
  show "getJSON L (Inr (web_answer kvs)) s = (s, Inr (JObj kvs))" by (simp add: getJSON_def read cut)
qed

theorem login_unlocks_witness:
  "\<exists>net pg2. login demo_lib net [] None = (Some (js ''t''), Inr ()) \<and> page_screen pg2 = MainScreen None \<and> pg_session pg2 = Some (js ''t'')"
proof -
  let ?net = "\<lambda>_ :: web_request. Inr (web_answer [(js ''token'', JStr (js ''t''))]) :: failure + web_response"
  let ?ws = "[JailsFeed, NodeFeed, FilesFeed, IdsFeed]"
  have ok: "json_ok (JObj [(js ''token'', JStr (js ''t''))])" "json_ok (JObj [])" by code_simp+
  have start: "reachable (\<lambda>pg. \<exists>s. pg = page_new s) (page_step demo_lib ?net) (page_new None)" by (rule reachable.start) blast
  have form: "lf_password (pg_login (page_new None)) = []" "pg_session (page_new None) = None" by (simp_all add: page_new_def)
  have token: "login demo_lib ?net [] None = (Some (js ''t''), Inr ())"
  proof -
    have "rbind (field (JObj [(js ''token'', JStr (js ''t''))]) (js ''token'')) js_string_opt = Inr (js ''t'')" by code_simp
    then show ?thesis by (simp add: login_def web_answer_read [OF ok(1)])
  qed
  have ws: "distinct ?ws" "set ?ws = {NodeFeed, FilesFeed, IdsFeed, JailsFeed}" by auto
  have data: "\<forall>w :: feed. getJSON demo_lib (Inr (web_answer [])) (Some (js ''t'')) = (Some (js ''t''), Inr (JObj []))"
    by (simp add: web_answer_read [OF ok(2)])
  from login_unlocks [where t = "js ''t''", OF start, unfolded form, OF token ws data] token show ?thesis
    unfolding Let_def by blast
qed

lemma login_refused:
  assumes "login L net (lf_password (pg_login pg)) (pg_session pg) = (s', Inl e)"
  shows "handle L net file typed Submit pg = pg\<lparr> pg_login := pg_login (handle L net file typed Submit pg) \<rparr>"
    "lf_password (pg_login (handle L net file typed Submit pg)) = []"
proof -
  have "s' = pg_session pg" using assms by (auto simp: login_def split: sum.splits if_splits)
  then show "handle L net file typed Submit pg = pg\<lparr> pg_login := pg_login (handle L net file typed Submit pg) \<rparr>"
    "lf_password (pg_login (handle L net file typed Submit pg)) = []" using assms by (simp_all add: onSubmit_def)
qed

section \<open>Where the code falls short\<close>

text \<open>
  a read that was sent before the sign-in and is refused after it takes the new token away: \<open>tick\<close> keeps
  the old request, and its 401 clears the session whatever it holds by then. The user is asked again.
\<close>

theorem stale_refusal_logs_out:
  assumes "page_ok pg" "po_running (pg_polls pg w) = [(i, False)]" "w \<in> {NodeFeed, IdsFeed, JailsFeed}"
    and "login L net (lf_password (pg_login pg)) (pg_session pg) = (Some t, Inr ())" "rs_status r = 401"
  shows "let pg1 = handle L net file typed Submit pg; pg2 = settle_feed L now (Inr r) w pg1
    in pg_session pg1 = Some t \<and> pg_session pg2 = None \<and> page_screen pg2 = LoginScreen"
proof -
  let ?pg1 = "handle L net file typed Submit pg"
  have one: "pg_session ?pg1 = Some t" "pg_polls ?pg1 w = pg_polls pg w" "po_alive (pg_polls pg w)"
    using assms(1,2,4) by (auto simp: onSubmit_def onAuthed_def page_ok_def poll_ok_def tick_def Let_def)
  then show ?thesis using assms(2,3,5)
    by (auto simp: Let_def settle_feed_def settle_def getJSON_def with_poll_def page_screen_def app_screen_def poll_of_def)
qed

end
