(* ===== verification/Startup.thy ===== *)
theory Startup
  imports Cli
begin

text \<open>
  The process: the commands it runs (\<open>runCmd\<close> and the argument vectors of sysinfo.ts, the helper and
  the model of main.ts), what it prints, and \<open>main\<close>, from the arguments to an exit code, an uncaught
  exception or a daemon that listens and pushes its events, at once and then each minute. A child process is its exit
  code and output; \<open>None\<close> is a spawn that throws. Of a start that throws only the error is represented,
  not the lines printed before.
\<close>

section \<open>Child processes\<close>

record child =
  ch_exit :: int
  ch_stdout :: bytes

type_synonym spawner = "jsstr list \<Rightarrow> child option"

definition runCmd :: "spawner \<Rightarrow> jsstr list \<Rightarrow> jsstr option" where
  "runCmd sp argv =
     (case sp argv of None \<Rightarrow> None
      | Some ch \<Rightarrow> if ch_exit ch = 0 then Some (text_decode (ch_stdout ch)) else None)"

definition FAIL2BAN_ARGV :: "jsstr list" where
  "FAIL2BAN_ARGV = map js [''journalctl'', ''-u'', ''fail2ban'', ''-o'', ''json'', ''--since'', ''-24h'', ''-n'', ''500'']"

definition SELFHEAL_UNIT :: "host \<Rightarrow> jsstr" where
  "SELFHEAL_UNIT h = or_else (env_or h ''ISLAND_SELFHEAL_UNIT'' []) (js ''wg-selfheal@*'')"

definition DAEMON_ARGV :: "host \<Rightarrow> jsstr list" where
  "DAEMON_ARGV h = [js ''journalctl'', js ''-u'', SELFHEAL_UNIT h] @ map js [''-o'', ''json'', ''--since'', ''-24h'', ''-n'', ''300'']"

definition wg_argv :: "jsstr \<Rightarrow> jsstr list" where
  "wg_argv iface = [js ''wg'', js ''show'', iface, js ''dump'']"

section \<open>The gate's helper and model\<close>

record noop_gate =
  ng_opens :: nat
  ng_closes :: nat

fun noop_run :: "verb \<Rightarrow> noop_gate \<Rightarrow> noop_gate \<times> unit res" where
  "noop_run VOpen s = (s\<lparr> ng_opens := ng_opens s + 1 \<rparr>, Inr ())"
| "noop_run VClose s = (s\<lparr> ng_closes := ng_closes s + 1 \<rparr>, Inr ())"

definition gate_cmd :: "host \<Rightarrow> jsstr" where
  "gate_cmd h = env_or h ''ISLAND_GATE_CMD'' (js ''sudo /usr/local/sbin/island-gate'')"

definition gateExec :: "host \<Rightarrow> bool \<Rightarrow> spawner \<Rightarrow> verb \<Rightarrow> unit res" where
  "gateExec h mock sp v =
     (if mock then snd (noop_run v \<lparr> ng_opens = 0, ng_closes = 0 \<rparr>)
      else case sp (shell_base (gate_cmd h) @ [verb_str v]) of
             None \<Rightarrow> throw JsError ''ENOENT''
           | Some ch \<Rightarrow> shell_run (\<lambda>_. ch_exit ch) (gate_cmd h) v)"

definition completion :: "lib \<Rightarrow> network \<Rightarrow> jsstr \<Rightarrow> jsstr \<Rightarrow> json res" where
  \<comment> \<open>the request to the model and its parsed answer\<close>
  "completion L net url body =
     rbind (fetch net \<lparr> rq_method = POST, rq_url = url, rq_token = [], rq_body = text_encode body, rq_file = None \<rparr>)
       (response_json L)"

definition llama :: "lib \<Rightarrow> host \<Rightarrow> bool \<Rightarrow> network \<Rightarrow> jsstr \<Rightarrow> decision" where
  "llama L h mock net =
     (if mock then mock_decide
      else llama_decide L (completion L net) (env_or h ''ISLAND_LLAMA_URL'' (js ''http://127.0.0.1:8080'')))"

definition wired :: "lib \<Rightarrow> host \<Rightarrow> ctx \<Rightarrow> spawner \<Rightarrow> outside \<Rightarrow> outside" where
  \<comment> \<open>the outside world of a request, with the program's own helpers in it\<close>
  "wired L h c sp o' = o'\<lparr>
     io_wg := runCmd sp (wg_argv (cx_wgIface c)), io_journal := runCmd sp FAIL2BAN_ARGV, io_selfheal := runCmd sp (DAEMON_ARGV h),
     io_exec := gateExec h (cx_mock c) sp, io_decide := llama L h (cx_mock c) (io_net o') \<rparr>"

section \<open>What a start prints\<close>

definition bool_str :: "bool \<Rightarrow> jsstr" where
  "bool_str b = (if b then js ''true'' else js ''false'')"

definition host_lines :: "host \<Rightarrow> bool \<Rightarrow> jsstr \<Rightarrow> line list" where
  \<comment> \<open>the warning of \<open>resolveHost\<close>\<close>
  "host_lines h mock wgIface =
     (let addrs = (case map_get (ho_interfaces h) wgIface of None \<Rightarrow> [] | Some as \<Rightarrow> as)
      in if env_or h ''ISLAND_WG0'' [] \<noteq> [] \<or> mock \<or> list_ex (\<lambda>a. \<not> ia_internal a) addrs then []
         else [ErrLine (0x26a0 # 0x20 # wgIface @ js '' has no address '' @ 0x2014
                 # js '' binding 127.0.0.1. Pass --host or ISLAND_HOST to override.'')])"

definition token_lines :: "lib \<Rightarrow> host \<Rightarrow> bool \<Rightarrow> jsstr \<Rightarrow> files \<Rightarrow> line list" where
  "token_lines L h mock dataDir fs =
     (let e = env_or h ''ISLAND_ADMIN_TOKEN'' []; p = path_join dataDir ''admin.token''
      in if mock then []
         else if e \<noteq> [] then
           (if length e < 16 then [ErrLine (0x26a0 # js '' ISLAND_ADMIN_TOKEN is short '' @ 0x2014 # js '' use a long random value.'')] else [])
         else if map_has fs p then []
         else [Out (0x0a # js ''  Admin token:  '' @ to_base64 L URLSAFE_NO_PADDING (ho_rand h 0) @ 0x0a
                 # js ''  Shown once when you first open /admin, then removed.'' @ 0x0a # js ''  Also saved to '' @ p @ [0x0a])])"

definition identity_lines :: "bool \<Rightarrow> jsstr \<Rightarrow> files \<Rightarrow> line list" where
  "identity_lines mock d fs =
     (if mock \<or> map_has fs (path_join d ''ed25519.key'') then []
      else [Out (js ''generated this node's identity in '' @ d)])"

definition listening_line :: "jsstr \<Rightarrow> nat \<Rightarrow> bool \<Rightarrow> line" where
  "listening_line hst port mock =
     Out (js ''islandd '' @ js VERSION @ js '' listening on http://'' @ hst @ 0x3a # radix_str 10 port
          @ js '' (mock='' @ bool_str mock @ js '')'')"

definition announce_line :: "jsstr res \<Rightarrow> line" where
  "announce_line r =
     (case r of
        Inr code \<Rightarrow> Out (js ''announced to registry '' @ 0x2014 # js '' your friend code: '' @ code)
      | Inl e \<Rightarrow> ErrLine (0x26a0 # js '' registry announce failed: '' @ err_message e))"

section \<open>Main\<close>

definition PUSH_MS :: int where
  "PUSH_MS = 60000"

record process =
  pr_host :: jsstr
  pr_port :: nat
  pr_node :: node
  pr_announcing :: bool \<comment> \<open>the announce has not been answered\<close>
  pr_first :: bool \<comment> \<open>the push made at the start has not been answered\<close>
  pr_push :: "int option" \<comment> \<open>when the interval fires next\<close>
  pr_log :: "line list"

datatype started = Exited nat | Crashed err | Running ctx process

definition listen_on :: "(jsstr \<Rightarrow> int \<Rightarrow> (jsstr \<times> nat) res) \<Rightarrow> host \<Rightarrow> args \<Rightarrow> int \<Rightarrow> line list \<Rightarrow> ctx \<Rightarrow> node \<Rightarrow> started" where
  \<comment> \<open>\<open>listen\<close> is \<open>Bun.serve\<close>: the name and port it bound, or what it threw\<close>
  "listen_on listen h a now ls c n =
     (case listen (bind_host h a c) (ar_port a) of
        Inl e \<Rightarrow> Crashed e
      | Inr (hst, port) \<Rightarrow> Running c
          \<lparr> pr_host = hst, pr_port = port, pr_node = n, pr_announcing = (cx_registryUrl c \<noteq> []),
            pr_first = (cx_eventsUrl c \<noteq> []), pr_push = (if cx_eventsUrl c = [] then None else Some (now + PUSH_MS)),
            pr_log = ls @ [listening_line hst port (ar_mock a)] \<rparr>)"

definition start_daemon :: "lib \<Rightarrow> (jsstr \<Rightarrow> js_number) \<Rightarrow> (jsstr \<Rightarrow> int \<Rightarrow> (jsstr \<times> nat) res) \<Rightarrow> host \<Rightarrow> int \<Rightarrow> jsstr list
    \<Rightarrow> files \<Rightarrow> files \<times> started" where
  "start_daemon L num listen h now argv fs =
     (case parseArgs num h argv of
        Inl e \<Rightarrow> (fs, Crashed e)
      | Inr a \<Rightarrow>
          (case boot L num h a fs of
             (fs', Inl e) \<Rightarrow> (fs', Crashed e)
           | (fs', Inr (c, n)) \<Rightarrow>
               let idDir = env_or h ''ISLAND_IDENTITY_DIR'' (path_join (cx_dataDir c) ''identity'');
                   ls = host_lines h (ar_mock a) (cx_wgIface c) @ token_lines L h (ar_mock a) (cx_dataDir c) fs
                        @ identity_lines (ar_mock a) idDir fs
               in (fs', listen_on listen h a now ls c n)))"

definition main :: "lib \<Rightarrow> (jsstr \<Rightarrow> js_number) \<Rightarrow> (jsstr \<Rightarrow> int \<Rightarrow> (jsstr \<times> nat) res) \<Rightarrow> 'w server \<Rightarrow> host \<Rightarrow> int \<Rightarrow> jsstr list
    \<Rightarrow> 'w terminal \<Rightarrow> 'w terminal \<times> started" where
  "main L num listen srv h now argv t =
     (if is_command argv then
        (case runCli L num srv h now argv t of
           (t', Inr code) \<Rightarrow> (t', Exited code)
         | (t', Inl e) \<Rightarrow> (t', Crashed e))
      else
        (case start_daemon L num listen h now argv (tm_files t) of (fs, r) \<Rightarrow> (t\<lparr> tm_files := fs \<rparr>, r)))"

end
