(* ===== verification/StartupProps.thy ===== *)
theory StartupProps
  imports Startup BootTypes DaemonProps
begin

text \<open>
  What a start of the program does to the machine it runs on, and what the running process adds to the
  components: requests, reclose timers, the pushes and the answer of the registry are its only steps.
\<close>

section \<open>Files that a start leaves alone\<close>

definition keeps_files :: "files \<Rightarrow> files \<Rightarrow> bool" where
  \<comment> \<open>no saved state and no token is overwritten, and no key of a directory that has a signing key\<close>
  "keeps_files fs gs \<longleftrightarrow>
     (\<forall>d. \<forall>f \<in> {''friends.json'', ''messages.json'', ''gate.json'', ''admin.token''}.
        map_has fs (path_join d f) \<longrightarrow> map_get gs (path_join d f) = map_get fs (path_join d f))
   \<and> (\<forall>d. map_has fs (path_join d ''ed25519.key'') \<longrightarrow>
        (\<forall>f \<in> {''ed25519.key'', ''x25519.key''}. map_get gs (path_join d f) = map_get fs (path_join d f)))"

lemma keeps_refl: "keeps_files fs fs"
  by (simp add: keeps_files_def)

lemma keeps_trans:
  assumes "keeps_files fs gs" "keeps_files gs hs"
  shows "keeps_files fs hs"
  using assms unfolding keeps_files_def map_has_get by (metis insertI1)

definition framed :: "('s \<Rightarrow> files) \<Rightarrow> ('s, 'a) act \<Rightarrow> bool" where
  "framed f m \<longleftrightarrow> (\<forall>s. keeps_files (f s) (f (fst (m s))))"

named_theorems framed_intros \<open>actions that leave such files alone\<close>

lemma framed_andthen [framed_intros]: "framed f m \<Longrightarrow> (\<And>v. framed f (k v)) \<Longrightarrow> framed f (andthen m k)"
  unfolding framed_def andthen_def by (auto split: prod.splits sum.splits) (metis fst_conv keeps_trans)+

lemma framed_at: "framed f k \<Longrightarrow> keeps_files (f s) (f (fst (m s))) \<Longrightarrow> keeps_files (f s) (f (fst (andthen m (\<lambda>_. k) s)))"
  unfolding framed_def andthen_def by (auto split: prod.splits sum.splits) (metis fst_conv keeps_trans)

lemma framed_pure [framed_intros]:
  "framed f (done_with v)" "framed f (lift_res r)" "framed f (asks g)" "framed id (\<lambda>fs. (fs, k fs))"
  by (simp_all add: framed_def done_with_def lift_res_def asks_def keeps_refl)

lemma framed_terminal [framed_intros]:
  "framed tm_files (say l)" "framed tm_files (send_request srv rq)" "framed id m \<Longrightarrow> framed tm_files (on_files m)"
  by (auto simp: framed_def say_def send_request_def on_files_def keeps_refl split: prod.splits sum.splits) (metis fst_conv id_apply)

lemma framed_exit [framed_intros]: "framed tm_files (exit_with l n)"
  unfolding exit_with_def by (intro framed_intros)

lemma framed_caught [framed_intros]:
  assumes "framed tm_files m"
  shows "framed tm_files (caught m)"
proof -
  have "keeps_files (tm_files t) (tm_files (fst (caught m t)))" for t
  proof (cases "snd (m t)")
    case (Inl e)
    have "keeps_files (tm_files (fst (m t))) (tm_files (fst (exit_with (ErrLine (js ''error: '' @ err_message e)) 1 (fst (m t)))))"
      by (rule framed_exit [unfolded framed_def, rule_format])
    moreover have "caught m t = exit_with (ErrLine (js ''error: '' @ err_message e)) 1 (fst (m t))"
      using Inl by (cases "m t") (simp add: caught_def)
    ultimately show ?thesis using assms keeps_trans by (metis framed_def)
  next
    case (Inr n)
    then show ?thesis using assms by (auto simp: caught_def framed_def split: prod.splits) (metis fst_conv)
  qed
  then show ?thesis by (simp add: framed_def)
qed

lemma keeps_save:
  assumes "\<not> map_has fs (path_join d ''ed25519.key'')"
  shows "keeps_files fs (saveIdentity L d i fs)"
proof -
  have other: "map_get (saveIdentity L d i fs) (path_join e f) = map_get fs (path_join e f)"
    if "f \<in> {''friends.json'', ''messages.json'', ''gate.json'', ''admin.token''} \<or> f \<in> {''ed25519.key'', ''x25519.key''} \<and> e \<noteq> d" for e f
    using that by (auto simp: saveIdentity_def names_eq)
  then show ?thesis using assms unfolding keeps_files_def by metis
qed

lemma framed_provision [framed_intros]: "framed id (provisionAdminToken L h mock d)"
proof -
  have "keeps_files fs (fst (provisionAdminToken L h mock d fs))" for fs
  proof (cases "map_get fs (path_join d ''admin.token'')")
    case None
    then have "keeps_files fs (map_set (path_join d FIRSTRUN_MARKER) [] (map_set (path_join d ''admin.token'') tok fs))" for tok
      unfolding keeps_files_def map_has_get by (auto simp: names_eq)
    then show ?thesis using None
      by (simp add: provisionAdminToken_def write_files_def andthen_def done_with_def throw_def keeps_refl Let_def)
  next
    case (Some t)
    then show ?thesis by (simp add: provisionAdminToken_def keeps_refl)
  qed
  then show ?thesis by (simp add: framed_def)
qed

lemma framed_identity [framed_intros]: "framed id (node_identity L h d)"
proof -
  have "framed id (\<lambda>fs. if map_has fs (path_join d ''ed25519.key'') then (fs, Inr ())
      else write_files h (saveIdentity L d (generateIdentity L (ho_rand h 1) (ho_rand h 2))) fs)"
    unfolding framed_def by (simp add: write_files_def keeps_refl keeps_save)
  then show ?thesis unfolding node_identity_def by (intro framed_intros)
qed

lemma framed_boot: "framed id (boot L num h a)"
proof -
  have state: "framed id (boot_state L num h a d l w)" for d l w
    unfolding boot_state_def Let_def by (cases "ar_mock a"; simp; intro framed_intros)
  show ?thesis unfolding boot_def Let_def case_prod_beta by (intro framed_intros state)
qed

lemma framed_keygen [framed_intros]: "framed tm_files (keygen L h d :: ('w terminal, nat) act)"
proof -
  have "keeps_files (tm_files t) (tm_files (fst (keygen L h d t)))" for t :: "'w terminal"
  proof (cases "map_has (tm_files t) (path_join d ''ed25519.key'')")
    case True
    then have "keygen L h d t = exit_with (ErrLine (js ''refusing to overwrite an existing identity in '' @ d)) 1 t"
      by (simp add: keygen_def andthen_def asks_def)
    then show ?thesis using framed_exit by (metis framed_def)
  next
    case False
    let ?i = "generateIdentity L (ho_rand h 1) (ho_rand h 2)"
    have "keeps_files (tm_files t) (tm_files (fst (on_files (write_files h (saveIdentity L d ?i)) t)))"
      using False by (simp add: on_files_def write_files_def keeps_refl keeps_save)
    moreover have "framed tm_files (\<lambda>t. andthen (say l) (\<lambda>_. exit_with l' 0) t)" for l l'
      by (intro framed_intros)
    ultimately show ?thesis using False
      by (auto simp: keygen_def Let_def asks_def intro!: framed_at simp del: One_nat_def)
  qed
  then show ?thesis by (simp add: framed_def)
qed

lemma framed_if [framed_intros]:
  "(b \<Longrightarrow> framed f m) \<Longrightarrow> (\<not> b \<Longrightarrow> framed f k) \<Longrightarrow> framed f (if b then m else k)"
  by simp

lemma framed_req [framed_intros]: "framed tm_files (req L srv h path body)"
  unfolding req_def Let_def by (intro framed_intros)

lemma framed_say_each [framed_intros]: "framed tm_files (say_each g vs)"
  by (induction vs) (simp add: framed_def done_with_def keeps_refl, auto intro!: framed_intros)

lemma framed_commands [framed_intros]:
  "framed tm_files (usage h)" "framed tm_files (friend_invite L num srv h rest)" "framed tm_files (friend_accept_cmd L srv h code)"
  "framed tm_files (friend_confirm L srv h reply)" "framed tm_files (friend_list L srv h)" "framed tm_files (canary_answer j)"
  unfolding usage_def friend_invite_def friend_accept_cmd_def friend_confirm_def friend_list_def canary_answer_def Let_def
  by (intro framed_intros)+

lemma framed_mint [framed_intros]: "framed tm_files (mintCanary L srv h now argv)"
  unfolding mintCanary_def Let_def by (intro framed_intros)

lemma framed_cli: "framed tm_files (runCli L num srv h now argv)"
  unfolding runCli_def friend_command_def Let_def by (intro framed_intros)

section \<open>Exit codes\<close>

definition exits :: "('s, nat) act \<Rightarrow> bool" where
  "exits m \<longleftrightarrow> (\<forall>s n. snd (m s) = Inr n \<longrightarrow> n \<in> {0, 1, 2})"

named_theorems exits_intros \<open>commands that end with one of the three codes\<close>

lemma exits_andthen [exits_intros]: "(\<And>v. exits (k v)) \<Longrightarrow> exits (andthen m k)"
  unfolding exits_def andthen_def by (auto split: prod.splits sum.splits)

lemma exits_code [exits_intros]: "n \<in> {0, 1, 2} \<Longrightarrow> exits (exit_with l n)" "n \<in> {0, 1, 2} \<Longrightarrow> exits (done_with n)"
  by (auto simp: exits_def exit_with_def andthen_def say_def done_with_def)

lemma exits_if [exits_intros]: "(b \<Longrightarrow> exits m) \<Longrightarrow> (\<not> b \<Longrightarrow> exits k) \<Longrightarrow> exits (if b then m else k)"
  by simp

lemma exits_caught [exits_intros]: "exits m \<Longrightarrow> exits (caught m)"
  unfolding exits_def caught_def exit_with_def andthen_def say_def done_with_def
  by (auto split: prod.splits sum.splits) (metis One_nat_def neq0_conv snd_conv)

lemma exits_cli: "exits (runCli L num srv h now argv)"
proof -
  have answer: "exits (canary_answer j)" for j :: json
    unfolding canary_answer_def Let_def by (intro exits_intros) simp_all
  have use: "exits (usage h)" unfolding usage_def by (intro exits_intros) simp
  have keys: "exits (keygen L h d)" for d
    unfolding keygen_def Let_def by (intro exits_intros) simp_all
  have mint: "exits (mintCanary L srv h now as)" for as
    unfolding mintCanary_def Let_def by (intro exits_intros answer) simp_all
  have friend: "exits (friend_invite L num srv h rest)" "exits (friend_accept_cmd L srv h code)" "exits (friend_confirm L srv h reply)"
    "exits (friend_list L srv h)" for rest code reply
    unfolding friend_invite_def friend_accept_cmd_def friend_confirm_def friend_list_def Let_def
    by (intro exits_intros; simp)+
  show ?thesis unfolding runCli_def friend_command_def Let_def by (intro exits_intros use keys mint friend)
qed

section \<open>Starts\<close>

definition identity_dir :: "host \<Rightarrow> ctx \<Rightarrow> jsstr" where
  "identity_dir h c = env_or h ''ISLAND_IDENTITY_DIR'' (path_join (cx_dataDir c) ''identity'')"

lemma start_running:
  assumes "start_daemon L num listen h now argv fs = (fs', Running c p)"
  obtains a where "parseArgs num h argv = Inr a" "boot L num h a fs = (fs', Inr (c, pr_node p))"
    "listen (bind_host h a c) (ar_port a) = Inr (pr_host p, pr_port p)"
    "pr_announcing p \<longleftrightarrow> cx_registryUrl c \<noteq> []" "pr_first p \<longleftrightarrow> cx_eventsUrl c \<noteq> []" "pr_push p = (if cx_eventsUrl c = [] then None else Some (now + PUSH_MS))"
  using assms
  by (auto simp: start_daemon_def listen_on_def Let_def split: sum.splits prod.splits)

lemma start_framed: "keeps_files fs (fst (start_daemon L num listen h now argv fs))"
  using framed_boot [unfolded framed_def, of L num h]
  by (auto simp: start_daemon_def Let_def keeps_refl split: sum.splits prod.splits) (metis fst_conv id_apply)+

lemma booted_identity:
  assumes "boot L num h a fs = (fs', Inr (c, n))"
  shows "nd_files n = fs'" "cx_mock c = ar_mock a"
    "\<not> ar_mock a \<Longrightarrow> loadIdentity L fs' (identity_dir h c) = Inr (cx_identity c)"
    "ar_mock a \<Longrightarrow> fs' = fs \<and> node_init c DEFAULT_SHARE_MAX_BYTES n"
proof -
  show "nd_files n = fs'" "cx_mock c = ar_mock a"
    using assms by (auto simp: boot_def Let_def andthen_eq_Inr split: prod.splits)
  show "loadIdentity L fs' (identity_dir h c) = Inr (cx_identity c)" if "\<not> ar_mock a"
    by (rule boot_cases [OF assms that]) (simp add: identity_dir_def identity_cases(1))
  show "fs' = fs \<and> node_init c DEFAULT_SHARE_MAX_BYTES n" if "ar_mock a"
    using assms that
    by (auto simp: boot_def boot_state_def provisionAdminToken_def node_init_def Let_def andthen_eq_Inr lift_res_def done_with_def)
qed

text \<open>
  C16: starting the program, or running one of its commands, overwrites no saved friends, messages,
  nonces or admin token of any directory, and no private key of a directory that has a signing key,
  whatever the arguments, the environment and the files; the running daemon, which saves its own state,
  is not meant. A command that ends by itself ends with 0, 1 or 2; one that throws is \<open>Crashed\<close>. A bad
  argument or setting of the port throws before anything is touched. A daemon that starts listens at
  its argument, its setting or its mesh address, the first of them that is not empty, less a final
  colon and digits (so not at a bare IPv6 address that ends in digits, \<open>ipv6_address_cut\<close>), sees
  the files as they are, and either is a mock that wrote nothing or has on disk the identity it runs under.
\<close>

theorem start_keeps_secrets:
  assumes "main L num listen srv h now argv t = (t', r)"
  shows "keeps_files (tm_files t) (tm_files t')
    \<and> (\<not> is_command argv \<and> parseArgs num h argv = Inl e \<longrightarrow> t' = t \<and> r = Crashed e)
    \<and> (case r of
          Exited code \<Rightarrow> is_command argv \<and> code \<in> {0, 1, 2}
        | Crashed _ \<Rightarrow> True
        | Running c p \<Rightarrow> \<not> is_command argv \<and> tm_out t' = tm_out t \<and> tm_world t' = tm_world t \<and> nd_files (pr_node p) = tm_files t'
            \<and> (\<exists>a. parseArgs num h argv = Inr a \<and> cx_mock c = ar_mock a
                 \<and> listen (strip_port (or_else (ar_host a) (or_else (env_or h ''ISLAND_HOST'' []) (cx_wg0 c)))) (ar_port a)
                     = Inr (pr_host p, pr_port p))
            \<and> (if cx_mock c then t' = t else loadIdentity L (tm_files t') (identity_dir h c) = Inr (cx_identity c)))"
proof (cases "is_command argv")
  case True
  have "keeps_files (tm_files t) (tm_files t')"
    using framed_cli [unfolded framed_def, rule_format, of t L num srv h now argv] assms True
    by (auto simp: main_def split: prod.splits sum.splits)
  moreover have "case r of Exited code \<Rightarrow> code \<in> {0, 1, 2} | Crashed _ \<Rightarrow> True | Running c p \<Rightarrow> False"
    using exits_cli [unfolded exits_def, rule_format, of L num srv h now argv t] assms True
    by (auto simp: main_def split: prod.splits sum.splits)
  ultimately show ?thesis using True by (auto split: started.splits)
next
  case False
  obtain fs where d: "start_daemon L num listen h now argv (tm_files t) = (fs, r)" "t' = t\<lparr> tm_files := fs \<rparr>"
    using assms False by (auto simp: main_def split: prod.splits)
  have "keeps_files (tm_files t) fs" using start_framed [of "tm_files t" L num listen h now argv] d(1) by simp
  moreover have "t' = t \<and> r = Crashed e" if "parseArgs num h argv = Inl e"
    using d that by (simp add: start_daemon_def)
  moreover have "nd_files (pr_node p) = fs \<and> (\<exists>a. parseArgs num h argv = Inr a \<and> cx_mock c = ar_mock a
      \<and> listen (bind_host h a c) (ar_port a) = Inr (pr_host p, pr_port p))
      \<and> (if cx_mock c then t' = t else loadIdentity L fs (identity_dir h c) = Inr (cx_identity c))" if "r = Running c p" for c p
    by (rule start_running [OF d(1) [unfolded that]]) (use booted_identity d(2) in auto)
  moreover have "r \<noteq> Exited code" for code
    using d(1) by (auto simp: start_daemon_def listen_on_def Let_def split: sum.splits prod.splits)
  ultimately show ?thesis using False d(2) by (cases r) (auto simp: bind_host_def)
qed

theorem start_keeps_secrets_witness:
  "\<exists>t' c p. main demo_lib (\<lambda>_. NaN) (\<lambda>hst _. Inr (hst, 8787)) (\<lambda>_ w. (w, None)) demo_host 0 [] \<lparr> tm_world = (), tm_files = [], tm_out = [] \<rparr>
       = (t', Running c p)
     \<and> loadIdentity demo_lib (tm_files t') (identity_dir demo_host c) = Inr (cx_identity c)"
proof (rule demo_boot)
  let ?t = "\<lparr> tm_world = (), tm_files = [], tm_out = [] \<rparr>"
  let ?m = "main demo_lib (\<lambda>_. NaN) (\<lambda>hst _. Inr (hst, 8787)) (\<lambda>_ w. (w, None)) demo_host 0 [] ?t"
  fix fs0 c n0
  assume b: "boot demo_lib (\<lambda>_. NaN) demo_host \<lparr> ar_mock = False, ar_host = [], ar_port = 8787 \<rparr> [] = (fs0, Inr (c, n0))"
  have a: "parseArgs (\<lambda>_. NaN) demo_host [] = Inr \<lparr> ar_mock = False, ar_host = [], ar_port = 8787 \<rparr>"
    by (simp add: parseArgs_def demo_env numConfig_def)
  obtain t' p where m: "?m = (t', Running c p)" "\<not> cx_mock c"
    using a b booted_identity(2) [OF b] by (auto simp: main_def is_command_def start_daemon_def listen_on_def Let_def)
  from start_keeps_secrets [OF m(1)] m show ?thesis by auto
qed

section \<open>The running process\<close>

inductive process_step :: "externals \<Rightarrow> host \<Rightarrow> ctx \<Rightarrow> spawner \<Rightarrow> process \<Rightarrow> process \<Rightarrow> bool"
  for x :: externals and h :: host and c :: ctx and sp :: spawner where
  Serve: "fair (ex_lib x) c o' \<Longrightarrow> process_step x h c sp p (p\<lparr> pr_node := fst (serve x c q (wired (ex_lib x) h c sp o') (pr_node p)) \<rparr>)"
| Reclosed: "timer (nd_gate (pr_node p)) = Some (due, r) \<Longrightarrow> due \<le> io_now o' 4 \<Longrightarrow> fair (ex_lib x) c o'
    \<Longrightarrow> process_step x h c sp p (p\<lparr> pr_node := fst (gate_close (wired (ex_lib x) h c sp o') r
          ((pr_node p)\<lparr> nd_gate := (nd_gate (pr_node p))\<lparr> timer := None \<rparr> \<rparr>)) \<rparr>)"
| Announced: "pr_announcing p \<Longrightarrow> announce_self (ex_lib x) c o' = Some r
    \<Longrightarrow> process_step x h c sp p (p\<lparr> pr_announcing := False, pr_log := pr_log p @ [announce_line r] \<rparr>)"
| First: "pr_first p \<Longrightarrow> push_events (ex_lib x) (ex_num x) c (wired (ex_lib x) h c sp o') (pr_node p) = Some sent
    \<Longrightarrow> process_step x h c sp p (p\<lparr> pr_first := False \<rparr>)"
| Pushed: "pr_push p = Some t \<Longrightarrow> t \<le> io_now o' 0 \<Longrightarrow> push_events (ex_lib x) (ex_num x) c (wired (ex_lib x) h c sp o') (pr_node p) = Some sent
    \<Longrightarrow> process_step x h c sp p (p\<lparr> pr_push := Some (t + PUSH_MS) \<rparr>)"

lemma wired_fair: "fair L c o' \<Longrightarrow> fair L c (wired L h c sp o')"
  by (simp add: fair_def wired_def)

lemma process_step_moves:
  assumes "process_step x h c sp p p'"
  shows "steps (node_move (ex_lib x) c) (pr_node p) (pr_node p')"
  using assms
proof cases
  case (Serve o' q)
  then show ?thesis using serve_runs [OF wired_fair [OF Serve(2)]] by simp
next
  case (Reclosed due r o')
  let ?m = "(pr_node p)\<lparr> nd_gate := (nd_gate (pr_node p))\<lparr> timer := None \<rparr> \<rparr>"
  have "node_move (ex_lib x) c (pr_node p) ?m" by (rule node_move.Gate [OF gate_move.Fire])
  moreover have "steps (node_move (ex_lib x) c) ?m (fst (gate_close (wired (ex_lib x) h c sp o') r ?m))"
    using runs_gate_calls(2) [OF wired_fair [OF Reclosed(4)]] by (simp add: runs_def)
  ultimately show ?thesis using Reclosed(1) steps_trans [OF steps_single] by simp
qed (simp_all add: steps.refl)

lemma process_moves:
  \<comment> \<open>whatever the process does, its node moves as the components do; a mock node keeps their invariants\<close>
  assumes "main (ex_lib x) num listen srv h now argv t = (t', Running c p0)" "steps (process_step x h c sp) p0 p"
  shows "steps (node_move (ex_lib x) c) (pr_node p0) (pr_node p)
    \<and> (cx_mock c \<longrightarrow> daemon_ok (ex_lib x) c DEFAULT_SHARE_MAX_BYTES (pr_node p))"
proof -
  have moves: "steps (node_move (ex_lib x) c) (pr_node p0) (pr_node p)"
    using assms(2) by induction (auto intro: steps.refl steps_trans dest: process_step_moves)
  obtain fs where d: "start_daemon (ex_lib x) num listen h now argv (tm_files t) = (fs, Running c p0)"
    using assms(1) by (auto simp: main_def split: prod.splits sum.splits if_splits)
  obtain a where a: "boot (ex_lib x) num h a (tm_files t) = (fs, Inr (c, pr_node p0))"
    by (rule start_running [OF d]) blast
  have "daemon_ok (ex_lib x) c DEFAULT_SHARE_MAX_BYTES (pr_node p)" if "cx_mock c"
  proof -
    have "node_init c DEFAULT_SHARE_MAX_BYTES (pr_node p0)" using booted_identity(2,4) [OF a] that by simp
    then show ?thesis by (rule component_machine.steps_inv [OF moves node_init_ok])
  qed
  then show ?thesis using moves by blast
qed

section \<open>The commands and the address of a process\<close>

lemma commands_fixed:
  \<comment> \<open>no request reaches a command line: five argument vectors are all that a process ever runs\<close>
  assumes "\<forall>argv \<in> {wg_argv (cx_wgIface c), FAIL2BAN_ARGV, DAEMON_ARGV h, shell_base (gate_cmd h) @ [js ''open''],
      shell_base (gate_cmd h) @ [js ''close'']}. sp argv = sp' argv"
  shows "wired L h c sp o' = wired L h c sp' o'"
proof -
  have "gateExec h m sp v = gateExec h m sp' v" for m v
    using assms by (cases v) (simp_all add: gateExec_def split: option.splits)
  then have "gateExec h m sp = gateExec h m sp'" for m by (rule ext)
  then show ?thesis using assms by (simp add: wired_def runCmd_def)
qed

lemma ipv6_address_cut:
  \<comment> \<open>the pattern that removes a port removes the last group of an IPv6 address\<close>
  "strip_port (js ''fd00::1'') = js ''fd00:''" "strip_port (js ''::1'') = js '':''" "strip_port (js ''10.42.0.1:8787'') = js ''10.42.0.1''"
  by code_simp+

end
