(* ===== verification/RemoteProps.thy ===== *)
theory RemoteProps
  imports MeshProps
begin

text \<open>
  The file share across the mesh: the client of share.ts on one node against the routes of the node
  that keeps the files.
\<close>

section \<open>A share kept by the node itself\<close>

definition is_local :: "any_share \<Rightarrow> bool" where
  "is_local s \<longleftrightarrow> (case s of Remote _ \<Rightarrow> False | _ \<Rightarrow> True)"

definition local_list :: "any_share \<Rightarrow> files_snapshot" where
  "local_list s = (case s of Mem m \<Rightarrow> mem_list m | Sql t \<Rightarrow> sql_list t
     | Remote b \<Rightarrow> \<lparr> snap_root = [], snap_bind = [], snap_files = [] \<rparr>)"

definition share_abs :: "any_share \<Rightarrow> share_spec" where
  "share_abs s = (case s of Mem m \<Rightarrow> mem_abs m | Sql t \<Rightarrow> sql_abs t | Remote b \<Rightarrow> spec_new (\<lambda>n. n) 0)"

definition keeps_share :: "nat \<Rightarrow> any_share \<Rightarrow> bool" where
  "keeps_share mx s \<longleftrightarrow> is_local s \<and> share_ok mx s"

lemma keeps_cases:
  assumes "keeps_share mx s"
  obtains (Mem) m where "s = Mem m" "mem_inv m" "spec_ok (mem_abs m)" "sp_max (mem_abs m) = mx"
  | (Sql) t where "s = Sql t" "sql_inv t" "spec_ok (sql_abs t)" "sp_max (sql_abs t) = mx"
  using assms by (cases s) (auto simp: keeps_share_def is_local_def share_ok_def mem_abs_def sql_abs_def)

lemma keeps_mem: "keeps_share mx (Mem m) \<longleftrightarrow> mem_inv m \<and> spec_ok (mem_abs m) \<and> sp_max (mem_abs m) = mx"
  by (simp add: keeps_share_def is_local_def share_ok_def mem_abs_def)

lemma keeps_sql: "keeps_share mx (Sql t) \<longleftrightarrow> sql_inv t \<and> spec_ok (sql_abs t) \<and> sp_max (sql_abs t) = mx"
  by (simp add: keeps_share_def is_local_def share_ok_def sql_abs_def)

lemma spec_max [simp]:
  "sp_max (fst (spec_add n c d t now s)) = sp_max s" "sp_max (fst (spec_remove i s)) = sp_max s"
  by (simp_all add: spec_add_def spec_remove_def split: option.splits)

lemma apfst_eq: "apfst f p = q \<longleftrightarrow> f (fst p) = fst q \<and> snd p = snd q"
  by (cases p; cases q) auto

interpretation local_share: file_share "\<lambda>s. snap_files (local_list s)" "share_add L net" "\<lambda>i s. snd (share_get net i s)"
  "share_remove net" share_abs "keeps_share mx" for L net mx
proof
  fix s assume s: "keeps_share mx s"
  show "snap_files (local_list s) = spec_list (share_abs s)"
    using s by (cases rule: keeps_cases) (simp_all add: local_list_def share_abs_def mem.list_spec sql.list_spec)
  show "snd (share_get net i s) = spec_get i (share_abs s)" for i
    using s by (cases rule: keeps_cases) (simp_all add: share_get_def share_abs_def mem.get_spec sql.get_spec)
  show "keeps_share mx (fst (share_add L net n c d t now s))
      \<and> apfst share_abs (share_add L net n c d t now s) = spec_add n c d t now (share_abs s)" for n c d t now
    using s
  proof (cases rule: keeps_cases)
    case (Mem m)
    note a = mem.add_spec [OF Mem(2), of n c d t now, unfolded apfst_eq]
    show ?thesis using a spec_add_ok [OF Mem(3), of n c d t now] Mem(4)
      by (simp add: Mem(1) share_add_def share_abs_def keeps_mem apfst_eq)
  next
    case (Sql u)
    note a = sql.add_spec [OF Sql(2), of n c d t now, unfolded apfst_eq]
    show ?thesis using a spec_add_ok [OF Sql(3), of n c d t now] Sql(4)
      by (simp add: Sql(1) share_add_def share_abs_def keeps_sql apfst_eq)
  qed
  show "keeps_share mx (fst (share_remove net i s)) \<and> apfst share_abs (share_remove net i s) = spec_remove i (share_abs s)" for i
    using s
  proof (cases rule: keeps_cases)
    case (Mem m)
    note a = mem.remove_spec [OF Mem(2), of i, unfolded apfst_eq]
    show ?thesis using a spec_remove_ok [OF Mem(3), of i] Mem(4)
      by (simp add: Mem(1) share_remove_def share_abs_def keeps_mem apfst_eq)
  next
    case (Sql u)
    note a = sql.remove_spec [OF Sql(2), of i, unfolded apfst_eq]
    show ?thesis using a spec_remove_ok [OF Sql(3), of i] Sql(4)
      by (simp add: Sql(1) share_remove_def share_abs_def keeps_sql apfst_eq)
  qed
qed

section \<open>Requests to the keeper\<close>

definition file_arriving :: "jsstr \<Rightarrow> http_request \<Rightarrow> call" where
  \<comment> \<open>a request as \<open>arriving\<close>, with its multipart field\<close>
  "file_arriving ip rq = (arriving ip rq)\<lparr> cl_form := Inr (rq_file rq) \<rparr>"

definition keeper :: "externals \<Rightarrow> ctx \<Rightarrow> jsstr \<Rightarrow> outside \<Rightarrow> node \<Rightarrow> network" where
  \<comment> \<open>the network as the client at this address sees it: the keeper's answers\<close>
  "keeper x c ip o' n rq = Some (snd (serve x c (file_arriving ip rq) o' n))"

definition plain_base :: "jsstr \<Rightarrow> bool" where
  "plain_base base \<longleftrightarrow> (\<exists>h. base = js ''http://'' @ h \<and> 0x2f \<notin> set h)"

lemma file_path:
  assumes "plain_base base" "rq_url rq = base @ 0x2f # p"
  shows "cl_path (file_arriving ip rq) = 0x2f # p"
proof -
  obtain h where h: "base = js ''http://'' @ h" "0x2f \<notin> set h" using assms(1) by (auto simp: plain_base_def)
  have "dropWhile (\<lambda>c. c \<noteq> 0x2f) (h @ 0x2f # p) = 0x2f # p" using h(2) by (induction h) auto
  then show ?thesis using assms(2) h(1) by (simp add: file_arriving_def arriving_def js_def)
qed

definition sharer :: "ctx \<Rightarrow> node \<Rightarrow> jsstr \<Rightarrow> friend_record \<Rightarrow> bool" where
  \<comment> \<open>a friend's address, and no way in but that\<close>
  "sharer c n ip fr \<longleftrightarrow> friendByWg0 ip (nd_book n) = Some fr \<and> \<not> cx_mock c \<and> ip \<notin> set LOOPBACK"

lemma sharer_guard:
  assumes "sharer c n ip fr" "rq_token rq = []"
  shows "authorizeShare L sha c (file_arriving ip rq) n = (n, Inr (peer_ed (fr_peer fr)))"
  using assms
  by (simp add: authorizeShare_def sharer_def isOperator_def manageOk_def operatorOk_def tokenOk_def file_arriving_def arriving_def)

lemma local_on_share:
  "is_local (fst (f (nd_share n))) \<Longrightarrow> on_share o' f n = (n\<lparr> nd_share := fst (f (nd_share n)) \<rparr>, snd (f (nd_share n)))"
  by (cases "f (nd_share n)") (auto simp: on_share_def is_local_def Let_def split: any_share.splits)

lemma same_share [simp]: "n\<lparr> nd_share := nd_share n \<rparr> = n" for n :: node
  by simp

section \<open>What the keeper answers\<close>

lemmas route_parts = route_def route_home_def route_directory_def route_admin_def route_friends_def route_messages_def route_files_def
  is_route_def path_rest_def file_id_def

lemma route_list:
  assumes "cl_method q = GET" "cl_path q = js ''/api/files''"
  shows "route x c q o' n = files_list (ex_lib x) (ex_sha x) c q o' n"
  using assms by (simp add: route_parts js_def startsWith_def)

lemma route_add:
  assumes "cl_method q = POST" "cl_path q = js ''/api/files''"
  shows "route x c q o' n = files_add (ex_lib x) (ex_sha x) c q o' n"
  using assms by (simp add: route_parts js_def startsWith_def)

lemma id_digits: "takeWhile is_digit (radix_str 10 i @ s) = radix_str 10 i @ takeWhile is_digit s"
  "dropWhile is_digit (radix_str 10 i @ s) = dropWhile is_digit s" "radix_str 10 i \<noteq> []"
  using radix_10_digits [of _ i] by (auto simp: takeWhile_append2 dropWhile_append2)

lemma id_all: "takeWhile is_digit (radix_str 10 i) = radix_str 10 i" "dropWhile is_digit (radix_str 10 i) = []"
  using id_digits(1,2) [of i "[]"] by (simp_all only: append_Nil2 takeWhile.simps dropWhile.simps)

lemma route_download:
  assumes "cl_method q = GET" "cl_path q = js ''/api/files/'' @ radix_str 10 i @ js ''/download''"
  shows "route x c q o' n = files_download (ex_lib x) (ex_sha x) c q o' i n"
proof -
  have "file_id q ''/download'' = Some i"
    using assms(2) by (simp add: file_id_def path_rest_def startsWith_def js_def id_digits nat_of_digits_radix is_digit_def)
  then show ?thesis using assms by (simp add: route_parts(1-8) path_rest_def js_def startsWith_def)
qed

lemma route_delete:
  assumes "cl_method q = DELETE" "cl_path q = js ''/api/files/'' @ radix_str 10 i"
  shows "route x c q o' n = files_delete (ex_lib x) (ex_sha x) c q o' i n"
proof -
  have "file_id q [] = Some i"
    using assms(2) by (simp add: file_id_def path_rest_def startsWith_def js_def nat_of_digits_radix id_all id_digits(3))
  then show ?thesis using assms by (simp add: route_parts(1-8) path_rest_def js_def startsWith_def)
qed

definition up_request :: "jsstr \<Rightarrow> jsstr \<times> jsstr \<times> bytes \<Rightarrow> http_request" where
  "up_request base f = \<lparr> rq_method = POST, rq_url = base @ js ''/api/files'', rq_token = [], rq_body = [], rq_file = Some f \<rparr>"

definition delete_request :: "jsstr \<Rightarrow> nat \<Rightarrow> http_request" where
  "delete_request base i = \<lparr> rq_method = DELETE, rq_url = base @ js ''/api/files/'' @ radix_str 10 i, rq_token = [], rq_body = [], rq_file = None \<rparr>"

lemma js_path: "js ''/api/files'' = 0x2f # js ''api/files''" "js ''/api/files/'' = 0x2f # js ''api/files/''"
  by (simp_all add: js_def)

lemma local_results:
  assumes "is_local s"
  shows "share_list L net s = (s, Inr (local_list s))" "fst (share_get net i s) = s" "is_local (fst (share_add L net nm content who ty now s))"
    "is_local (fst (share_remove net i s))"
  using assms by (cases s; simp add: is_local_def share_list_def local_list_def share_get_def share_add_def share_remove_def)+

lemma keeper_list:
  assumes "plain_base base" "sharer c n ip fr" "is_local (nd_share n)"
  shows "serve x c (file_arriving ip (http_get (base @ js ''/api/files''))) o' n
    = (n, json_response 200 (snapshot_json (local_list (nd_share n))))"
proof -
  let ?q = "file_arriving ip (http_get (base @ js ''/api/files''))"
  have q: "cl_method ?q = GET" "cl_path ?q = js ''/api/files''"
    using file_path [OF assms(1), of "http_get (base @ js ''/api/files'')" "js ''api/files''"]
    by (simp_all add: file_arriving_def arriving_def http_get_def js_path)
  have "rq_token (http_get (base @ js ''/api/files'')) = []" by (simp add: http_get_def)
  note guard = sharer_guard [OF assms(2) this, of "ex_lib x" "ex_sha x"]
  show ?thesis
    using guard local_results(1) [OF assms(3)] assms(3)
    by (simp add: serve_def route_list [OF q] files_list_def andthen_def local_on_share answer_def done_with_def)
qed

lemma keeper_add:
  assumes "plain_base base" "sharer c n ip fr" "is_local (nd_share n)" "quiet o'" "length content \<le> MAX_UPLOAD"
    and "share_add (ex_lib x) (io_net o') nm content (peer_ed (fr_peer fr)) (if ty = [] then None else Some ty) (io_now o' 3) (nd_share n) = (s', r)"
  shows "serve x c (file_arriving ip (up_request base (nm, ty, content))) o' n
    = (n\<lparr> nd_share := s' \<rparr>, answer (rmap (\<lambda>f. json_response 201 (shared_file_json f)) r))"
proof -
  let ?rq = "up_request base (nm, ty, content)" and ?q = "file_arriving ip (up_request base (nm, ty, content))"
  have q: "cl_method ?q = POST" "cl_path ?q = js ''/api/files''" "cl_form ?q = Inr (Some (nm, ty, content))"
    using file_path [OF assms(1), of ?rq "js ''api/files''"]
    by (simp_all add: file_arriving_def arriving_def up_request_def js_path)
  have "rq_token ?rq = []" by (simp add: up_request_def)
  note guard = sharer_guard [OF assms(2) this, of "ex_lib x" "ex_sha x"]
  have loc: "is_local s'" using local_results(3) [OF assms(3)] assms(6) by (metis fst_conv)
  have wait: "await o' 0 n = (n, Inr ())" using assms(4) by (simp add: await_def quiet_def)
  have put: "on_share o' (share_add (ex_lib x) (io_net o') nm content (peer_ed (fr_peer fr)) (if ty = [] then None else Some ty) (io_now o' 3)) n
      = (n\<lparr> nd_share := s' \<rparr>, r)"
    using local_on_share [of "share_add (ex_lib x) (io_net o') nm content (peer_ed (fr_peer fr)) (if ty = [] then None else Some ty) (io_now o' 3)" n o']
      loc assms(6) by simp
  show ?thesis
    using guard wait put assms(5) q(3)
    by (cases r) (simp_all add: serve_def route_add [OF q(1,2)] files_add_def andthen_def lift_res_def done_with_def rmap_def)
qed

lemma keeper_get:
  assumes "plain_base base" "sharer c n ip fr" "is_local (nd_share n)" "snd (share_get (io_net o') i (nd_share n)) = r"
  shows "serve x c (file_arriving ip (http_get (base @ js ''/api/files/'' @ radix_str 10 i @ js ''/download''))) o' n
    = (n, answer (rbind r (\<lambda>f. rmap (\<lambda>d. \<lparr> rs_status = 200,
        rs_type = Some (case fc_type f of None \<Rightarrow> js ''application/octet-stream'' | Some t \<Rightarrow> if t = [] then js ''application/octet-stream'' else t),
        rs_disposition = Some d, rs_body = fc_content f \<rparr>) (disposition (fc_name f)))))"
proof -
  let ?rq = "http_get (base @ js ''/api/files/'' @ radix_str 10 i @ js ''/download'')"
  have q: "cl_method (file_arriving ip ?rq) = GET" "cl_path (file_arriving ip ?rq) = js ''/api/files/'' @ radix_str 10 i @ js ''/download''"
    using file_path [OF assms(1), of ?rq "js ''api/files/'' @ radix_str 10 i @ js ''/download''"]
    by (simp_all add: file_arriving_def arriving_def http_get_def js_path)
  have "rq_token ?rq = []" by (simp add: http_get_def)
  note guard = sharer_guard [OF assms(2) this, of "ex_lib x" "ex_sha x"]
  have put: "on_share o' (share_get (io_net o') i) n = (n, r)"
    using local_on_share [of "share_get (io_net o') i" n o'] local_results(2) [OF assms(3), of "io_net o'" i] assms(3,4) by simp
  show ?thesis
    using guard put
    by (cases r; cases "disposition (fc_name (projr r))")
      (simp_all add: serve_def route_download [OF q] files_download_def andthen_def lift_res_def done_with_def rmap_def rbind_def)
qed

lemma keeper_remove:
  assumes "plain_base base" "sharer c n ip fr" "is_local (nd_share n)" "share_remove (io_net o') i (nd_share n) = (s', r)"
  shows "serve x c (file_arriving ip (delete_request base i)) o' n
    = (n\<lparr> nd_share := s' \<rparr>, answer (rmap (\<lambda>_. \<lparr> rs_status = 204, rs_type = None, rs_disposition = None, rs_body = [] \<rparr>) r))"
proof -
  let ?rq = "delete_request base i"
  have q: "cl_method (file_arriving ip ?rq) = DELETE" "cl_path (file_arriving ip ?rq) = js ''/api/files/'' @ radix_str 10 i"
    using file_path [OF assms(1), of ?rq "js ''api/files/'' @ radix_str 10 i"]
    by (simp_all add: file_arriving_def arriving_def delete_request_def js_path)
  have "rq_token ?rq = []" by (simp add: delete_request_def)
  note guard = sharer_guard [OF assms(2) this, of "ex_lib x" "ex_sha x"]
  have put: "on_share o' (share_remove (io_net o') i) n = (n\<lparr> nd_share := s' \<rparr>, r)"
    using local_on_share [of "share_remove (io_net o') i" n o'] local_results(4) [OF assms(3), of "io_net o'" i] assms(4) by simp
  show ?thesis
    using guard put
    by (cases r) (simp_all add: serve_def route_delete [OF q] files_delete_def andthen_def done_with_def rmap_def)
qed

section \<open>What the client makes of it\<close>

lemma shared_file_trip: "shared_file_of_json (shared_file_json f) = Inr f"
  by (simp add: shared_file_of_json_def shared_file_json_def js_def)

lemma snapshot_trip: "snapshot_of_json (snapshot_json s) = Inr s"
proof -
  have "mapR shared_file_of_json (map shared_file_json fs) = Inr fs" for fs
    by (induction fs) (simp_all add: shared_file_trip)
  then show ?thesis by (simp add: snapshot_of_json_def snapshot_json_def js_def)
qed

definition readable :: "shared_file \<Rightarrow> bool" where
  "readable f \<longleftrightarrow> safe_int (int (sf_id f)) \<and> safe_int (int (sf_size f))"

lemma file_json_ok: "readable f \<Longrightarrow> json_ok (shared_file_json f)"
  by (simp add: shared_file_json_def readable_def js_def)

lemma snapshot_json_ok: "list_all readable (snap_files s) \<Longrightarrow> json_ok (snapshot_json s)"
  by (auto simp: snapshot_json_def js_def list_all_iff file_json_ok)

lemma ascii_no_quote: "takeWhile (\<lambda>d. d \<noteq> 0x22) (ascii_name name @ 0x22 # s) = ascii_name name"
  by (induction name) (simp_all add: ascii_name_def)

lemma header_name:
  assumes "disposition name = Inr d" "name \<noteq> []"
  shows "filenameFromDisposition (Some d) = ascii_name name"
proof -
  obtain star where d: "d = js ''attachment; filename='' @ 0x22 # ascii_name name @ 0x22 # star"
    using assms(1) by (auto simp: disposition_def rmap_def split: sum.splits)
  have "ascii_name name \<noteq> []" using assms(2) by (simp add: ascii_name_def)
  then have "disposition_name d = Some (ascii_name name)"
    unfolding d by (simp add: js_def startsWith_def ascii_no_quote)
  then show ?thesis by (simp add: filenameFromDisposition_def)
qed

lemma disposition_defined: "wf16 name \<Longrightarrow> \<exists>d. disposition name = Inr d"
  by (simp add: disposition_def star_name_def encodeURIComponent_def rmap_def)

section \<open>The abstract share after an upload\<close>

lemma spec_sizes:
  assumes "finite (dom (sp_files s))"
  shows "sum_list (map sf_size (spec_list s)) = spec_total s"
proof -
  let ?g = "\<lambda>i. sf_size (the (sp_files s i))"
  have "sum_list (map sf_size (spec_list s)) = sum_list (rev (map ?g (sorted_list_of_set (dom (sp_files s)))))"
    by (simp add: spec_list_def comp_def file_info_def rev_map)
  also have "\<dots> = (\<Sum>i \<in> dom (sp_files s). ?g i)"
    using assms by (simp add: sum_list_rev sum_list_distinct_conv_sum_set)
  finally show ?thesis by (simp add: spec_total_def)
qed

lemma keeps_wf_name: "keeps_share mx s \<Longrightarrow> wf16 n \<Longrightarrow> sp_keep (share_abs s) n = n"
  by (erule keeps_cases) (simp_all add: share_abs_def mem_abs_def sql_abs_def sql_text_wf)

lemma spec_upload:
  assumes "spec_ok s" "spec_total s + length content \<le> sp_max s"
    and "spec_add nm content who ty now s = (s', r)" "sp_keep s (sanitizeFileName nm) = sanitizeFileName nm"
  defines "f \<equiv> file_info (new_row (sp_next s) nm content who ty now)"
  shows "r = Inr f" "spec_list s' = f # spec_list s" "spec_get (sf_id f) s' = Inr (content_of (new_row (sp_next s) nm content who ty now))"
    "snd (spec_remove (sf_id f) s') = Inr ()" "spec_list (fst (spec_remove (sf_id f) s')) = spec_list s"
    "spec_get (sf_id f) (fst (spec_remove (sf_id f) s')) = no_file (sf_id f)"
proof -
  let ?k = "sp_next s" and ?row = "new_row (sp_next s) nm content who ty now"
  have r: "r = Inr f" and s': "s' = s\<lparr> sp_files := (sp_files s)(?k \<mapsto> ?row), sp_next := ?k + 1 \<rparr>"
    using assms(2-4) by (auto simp: spec_add_def f_def kept_def new_row_def)
  have id: "sf_id f = ?k" by (simp add: f_def)
  have less: "i < ?k" if "i \<in> dom (sp_files s)" for i using assms(1) that by (auto simp: spec_ok_def)
  have new: "sp_files s ?k = None" using less [of ?k] by auto
  have fin: "finite (dom (sp_files s))" using assms(1) by (simp add: spec_ok_def)
  have "sorted_list_of_set (insert ?k (dom (sp_files s))) = sorted_list_of_set (dom (sp_files s)) @ [?k]"
    using fin less new by (subst sorted_list_of_set_insert) (auto intro!: sorted_insort_is_snoc simp: less_imp_le)
  moreover have "map (\<lambda>i. file_info (the (((sp_files s)(?k \<mapsto> ?row)) i))) (rev (sorted_list_of_set (dom (sp_files s))))
      = map (\<lambda>i. file_info (the (sp_files s i))) (rev (sorted_list_of_set (dom (sp_files s))))"
    using less fin by (intro map_cong) auto
  ultimately show "spec_list s' = f # spec_list s" by (simp add: spec_list_def s' f_def)
  show "r = Inr f" by (rule r)
  show "spec_get (sf_id f) s' = Inr (content_of ?row)" by (simp add: spec_get_def s' id)
  have undone: "fst (spec_remove (sf_id f) s') = s'\<lparr> sp_files := sp_files s \<rparr>"
    using new by (auto simp: spec_remove_def s' id fun_eq_iff)
  show "snd (spec_remove (sf_id f) s') = Inr ()" by (simp add: spec_remove_def s' id)
  show "spec_list (fst (spec_remove (sf_id f) s')) = spec_list s" unfolding undone by (simp add: spec_list_def)
  show "spec_get (sf_id f) (fst (spec_remove (sf_id f) s')) = no_file (sf_id f)" unfolding undone using new by (simp add: spec_get_def id)
qed

section \<open>The client's operations\<close>

lemma file_requests [simp]: "rq_token (up_request base f) = []" "rq_token (delete_request base i) = []"
  by (simp_all add: up_request_def delete_request_def)

lemma fetch_keeper: "rq_token rq = [] \<Longrightarrow> fetch (keeper x c ip o' n) rq = Inr (snd (serve x c (file_arriving ip rq) o' n))"
  by (simp add: fetch_plain keeper_def of_lib_def)

lemma remote_list_keeper:
  assumes "plain_base base" "sharer c n ip fr" "is_local (nd_share n)" "list_all readable (snap_files (local_list (nd_share n)))"
  shows "remote_list L (keeper x c ip o' n) base = Inr (local_list (nd_share n))"
proof -
  obtain kvs where kvs: "snapshot_json (local_list (nd_share n)) = JObj kvs" by (simp add: snapshot_json_def)
  have "response_json L (json_response 200 (snapshot_json (local_list (nd_share n)))) = Inr (snapshot_json (local_list (nd_share n)))"
    using response_json_object [of kvs L 200] snapshot_json_ok [OF assms(4)] unfolding kvs by simp
  then show ?thesis
    using keeper_list [OF assms(1-3), of x o'] by (simp add: remote_list_def fetch_keeper http_ok_def snapshot_trip)
qed

lemma remote_add_keeper:
  assumes "plain_base base" "sharer c n ip fr" "is_local (nd_share n)" "quiet o'" "length content \<le> MAX_UPLOAD"
    and "ty = blob_type (case ctype of None \<Rightarrow> js ''application/octet-stream'' | Some t \<Rightarrow> t)"
    and "share_add (ex_lib x) (io_net o') (sanitizeFileName name) content (peer_ed (fr_peer fr)) (if ty = [] then None else Some ty)
           (io_now o' 3) (nd_share n) = (s', Inr f)" "readable f"
  shows "remote_add L (keeper x c ip o' n) base name content who ctype = Inr f"
    and "fst (serve x c (file_arriving ip (up_request base (sanitizeFileName name, ty, content))) o' n) = n\<lparr> nd_share := s' \<rparr>"
proof -
  note added = keeper_add [OF assms(1-5,7)]
  then show "fst (serve x c (file_arriving ip (up_request base (sanitizeFileName name, ty, content))) o' n) = n\<lparr> nd_share := s' \<rparr>" by simp
  obtain kvs where kvs: "shared_file_json f = JObj kvs" by (simp add: shared_file_json_def)
  have "response_json L (json_response 201 (shared_file_json f)) = Inr (shared_file_json f)"
    using response_json_object [of kvs L 201] file_json_ok [OF assms(8)] unfolding kvs by simp
  then show "remote_add L (keeper x c ip o' n) base name content who ctype = Inr f"
    using added by (simp add: remote_add_def fetch_keeper up_request_def assms(6) [symmetric] http_ok_def shared_file_trip answer_def)
qed

lemma remote_get_keeper:
  assumes "plain_base base" "sharer c n ip fr" "is_local (nd_share n)"
  shows "snd (share_get (io_net o') i (nd_share n)) = Inr f \<Longrightarrow> wf16 (fc_name f) \<Longrightarrow> fc_name f \<noteq> [] \<Longrightarrow>
      remote_get (keeper x c ip o' n) base i = Inr \<lparr> fc_name = ascii_name (fc_name f),
        fc_type = Some (case fc_type f of None \<Rightarrow> js ''application/octet-stream'' | Some t \<Rightarrow> if t = [] then js ''application/octet-stream'' else t),
        fc_content = fc_content f \<rparr>"
    and "snd (share_get (io_net o') i (nd_share n)) = no_file i \<Longrightarrow> remote_get (keeper x c ip o' n) base i = no_file i"
proof -
  note got = keeper_get [OF assms, of o' i]
  show "remote_get (keeper x c ip o' n) base i = no_file i" if "snd (share_get (io_net o') i (nd_share n)) = no_file i"
    using got [OF that, of x] by (simp add: remote_get_def fetch_keeper answer_def no_file_def errs_def errorStatus_def)
  show "remote_get (keeper x c ip o' n) base i = Inr \<lparr> fc_name = ascii_name (fc_name f),
        fc_type = Some (case fc_type f of None \<Rightarrow> js ''application/octet-stream'' | Some t \<Rightarrow> if t = [] then js ''application/octet-stream'' else t),
        fc_content = fc_content f \<rparr>"
    if r: "snd (share_get (io_net o') i (nd_share n)) = Inr f" and w: "wf16 (fc_name f)" and ne: "fc_name f \<noteq> []"
  proof -
    obtain d where d: "disposition (fc_name f) = Inr d" using disposition_defined [OF w] by blast
    show ?thesis using got [OF r, of x] header_name [OF d ne] d
      by (simp add: remote_get_def fetch_keeper answer_def http_ok_def)
  qed
qed

lemma remote_remove_keeper:
  assumes "plain_base base" "sharer c n ip fr" "is_local (nd_share n)" "share_remove (io_net o') i (nd_share n) = (s', Inr ())"
  shows "remote_remove (keeper x c ip o' n) base i = Inr ()"
    and "fst (serve x c (file_arriving ip (delete_request base i)) o' n) = n\<lparr> nd_share := s' \<rparr>"
  using keeper_remove [OF assms, of x]
  by (simp_all add: remote_remove_def fetch_keeper delete_request_def [symmetric] answer_def http_ok_def)

text \<open>
  C17: a file travels between friends over the node that keeps the share: what one friend's node uploads is
  stored once, under the uploader's key and its cleaned name, at the head of the list that another friend's
  node reads; that node gets the very bytes, with the stored type and the printable part of the name; its
  removal gives back the list from before the upload, and the file is then missing for everyone. The keeper
  may have either local backend; the file has to fit the upload limit and the quota.
\<close>

theorem file_travels:
  assumes "ty = blob_type (case ctype of None \<Rightarrow> js ''application/octet-stream'' | Some t \<Rightarrow> t)"
    and "stored = sanitizeFileName (sanitizeFileName name)"
    and "n1 = fst (serve x c (file_arriving ip1 (up_request base (sanitizeFileName name, ty, content))) o1 n)"
    and "plain_base base" "keeps_share mx (nd_share n)" "sharer c n ip1 fr1" "sharer c n ip2 fr2" "quiet o1"
    and "length content \<le> 25 * 1024 * 1024" "sum_list (map sf_size (snap_files (local_list (nd_share n)))) + length content \<le> mx"
    and "wf16 stored" "list_all readable (snap_files (local_list (nd_share n1)))"
  shows "\<exists>f n2. remote_add L (keeper x c ip1 o1 n) base name content who ctype = Inr f
    \<and> sf_name f = stored \<and> sf_size f = length content \<and> sf_node f = peer_ed (fr_peer fr1)
    \<and> remote_list L (keeper x c ip2 o2 n1) base = Inr (local_list (nd_share n1))
    \<and> snap_files (local_list (nd_share n1)) = f # snap_files (local_list (nd_share n))
    \<and> remote_get (keeper x c ip2 o2 n1) base (sf_id f) = Inr \<lparr> fc_name = ascii_name stored,
         fc_type = Some (if ty = [] then js ''application/octet-stream'' else ty), fc_content = content \<rparr>
    \<and> remote_remove (keeper x c ip2 o3 n1) base (sf_id f) = Inr ()
    \<and> n2 = fst (serve x c (file_arriving ip2 (delete_request base (sf_id f))) o3 n1)
    \<and> snap_files (local_list (nd_share n2)) = snap_files (local_list (nd_share n))
    \<and> remote_get (keeper x c ip1 o4 n2) base (sf_id f) = no_file (sf_id f)"
proof -
  let ?nm = "sanitizeFileName name" and ?key = "peer_ed (fr_peer fr1)" and ?ct = "if ty = [] then None else Some ty" and ?now = "io_now o1 3"
  let ?s = "share_abs (nd_share n)" and ?row = "new_row (sp_next (share_abs (nd_share n))) (sanitizeFileName name) content (peer_ed (fr_peer fr1)) (if ty = [] then None else Some ty) (io_now o1 3)"
  let ?f = "file_info ?row"
  have keep: "keeps_share mx (nd_share n)" "is_local (nd_share n)" using assms(5) by (simp_all add: keeps_share_def)
  have spec: "spec_ok ?s" "sp_max ?s = mx"
    using keep(1) by (cases rule: keeps_cases; simp add: share_abs_def)+
  have list0: "snap_files (local_list (nd_share n)) = spec_list ?s" by (rule local_share.list_spec [OF keep(1)])
  have room: "spec_total ?s + length content \<le> sp_max ?s"
    using assms(10) spec spec_sizes [of ?s] by (simp add: list0 spec_ok_def)
  obtain s1 r where add: "share_add (ex_lib x) (io_net o1) ?nm content ?key ?ct ?now (nd_share n) = (s1, r)" by (meson surj_pair)
  have one: "keeps_share mx s1" "spec_add ?nm content ?key ?ct ?now ?s = (share_abs s1, r)"
    using local_share.add_spec [OF keep(1), of "ex_lib x" "io_net o1" ?nm content ?key ?ct ?now] add by auto
  note up = spec_upload [OF spec(1) room one(2) keeps_wf_name [OF keep(1) assms(11) [unfolded assms(2)]]]
  have loc1: "is_local s1" using one(1) by (simp add: keeps_share_def)
  have n1: "n1 = n\<lparr> nd_share := s1 \<rparr>"
    using keeper_add [OF assms(4,6) keep(2) assms(8) _ add] assms(9) by (simp add: assms(3) MAX_UPLOAD_def)
  have list1: "snap_files (local_list s1) = ?f # spec_list ?s" using local_share.list_spec [OF one(1)] up(2) by simp
  have "readable ?f" using assms(12) list1 n1 by simp
  then have added: "remote_add L (keeper x c ip1 o1 n) base name content who ctype = Inr ?f"
    using remote_add_keeper(1) [OF assms(4,6) keep(2) assms(8) _ assms(1) add [unfolded up(1)]] assms(9)
    by (simp add: MAX_UPLOAD_def)
  have who2: "sharer c n1 ip2 fr2" using assms(7) by (simp add: n1 sharer_def)
  have share1: "nd_share n1 = s1" by (simp add: n1)
  have listed: "remote_list L (keeper x c ip2 o2 n1) base = Inr (local_list (nd_share n1))"
    by (rule remote_list_keeper [OF assms(4) who2]) (simp_all add: share1 loc1 assms(12) [unfolded share1])
  have "snd (share_get (io_net o2) (sf_id ?f) (nd_share n1)) = Inr (content_of ?row)"
    using local_share.get_spec [OF one(1), of "io_net o2"] up(3) by (simp add: share1)
  moreover have "fc_name (content_of ?row) = stored" "stored \<noteq> []"
    using sanitize_safe [of ?nm] by (simp_all add: content_of_def assms(2) safe_name_def)
  ultimately have got: "remote_get (keeper x c ip2 o2 n1) base (sf_id ?f) = Inr \<lparr> fc_name = ascii_name stored,
         fc_type = Some (if ty = [] then js ''application/octet-stream'' else ty), fc_content = content \<rparr>"
    using remote_get_keeper(1) [OF assms(4) who2, of o2 "sf_id ?f" "content_of ?row" x] assms(11) loc1
    by (simp add: share1 content_of_def new_row_def)
  obtain s2 r2 where del: "share_remove (io_net o3) (sf_id ?f) (nd_share n1) = (s2, r2)" by (meson surj_pair)
  have two: "keeps_share mx s2" "spec_remove (sf_id ?f) (share_abs s1) = (share_abs s2, r2)"
    using local_share.remove_spec [OF one(1), of "io_net o3" "sf_id ?f"] del by (auto simp: share1)
  then have r2: "r2 = Inr ()" using up(4) by simp
  let ?n2 = "fst (serve x c (file_arriving ip2 (delete_request base (sf_id ?f))) o3 n1)"
  note gone = remote_remove_keeper [OF assms(4) who2 _ del [unfolded r2], unfolded share1, OF loc1, of x]
  have list2: "snap_files (local_list (nd_share ?n2)) = snap_files (local_list (nd_share n))"
    using local_share.list_spec [OF two(1)] two(2) up(5) unfolding gone(2) by (simp add: list0)
  have loc2: "is_local (nd_share ?n2)" and who1: "sharer c ?n2 ip1 fr1"
    using two(1) assms(6) unfolding gone(2) by (simp_all add: keeps_share_def sharer_def n1)
  have "snd (share_get (io_net o4) (sf_id ?f) (nd_share ?n2)) = no_file (sf_id ?f)"
    using local_share.get_spec [OF two(1), of "io_net o4"] two(2) up(6) unfolding gone(2) by simp
  then have missing: "remote_get (keeper x c ip1 o4 ?n2) base (sf_id ?f) = no_file (sf_id ?f)"
    by (rule remote_get_keeper(2) [OF assms(4) who1 loc2])
  have meta: "sf_name ?f = stored" "sf_size ?f = length content" "sf_node ?f = ?key"
    by (simp_all add: file_info_def new_row_def assms(2))
  have "snap_files (local_list (nd_share n1)) = ?f # snap_files (local_list (nd_share n))" by (simp only: share1 list1 list0)
  then show ?thesis using added meta listed got gone(1) list2 missing by blast
qed

definition demo_sharer :: "string \<Rightarrow> string \<Rightarrow> friend_record" where
  "demo_sharer k w = \<lparr> fr_peer = \<lparr> peer_ed = js k, peer_x = [], peer_label = js k, peer_wg0 = js w \<rparr>, fr_state = AreFriends,
     fr_nonce = [], fr_since = [] \<rparr>"

definition demo_keeper :: node where
  "demo_keeper = (demo_node (demo_ctx 1 (js ''10.42.0.1'')))\<lparr> nd_book := (book_new (demo_id 1) (js ''node'') (js ''10.42.0.1''))
     \<lparr> bk_friends := [(js ''sirius'', demo_sharer ''sirius'' ''10.42.0.5''), (js ''altair'', demo_sharer ''altair'' ''10.42.0.6'')] \<rparr> \<rparr>"

lemma demo_sharers:
  "sharer (demo_ctx 1 (js ''10.42.0.1'')) demo_keeper (js ''10.42.0.5'') (demo_sharer ''sirius'' ''10.42.0.5'')"
  "sharer (demo_ctx 1 (js ''10.42.0.1'')) demo_keeper (js ''10.42.0.6'') (demo_sharer ''altair'' ''10.42.0.6'')"
proof -
  have mesh: "meshWg0 (js ''10.42.0.5'') = Some (js ''10.42.0.5'')" "meshWg0 (js ''10.42.0.6'') = Some (js ''10.42.0.6'')" by code_simp+
  show "sharer (demo_ctx 1 (js ''10.42.0.1'')) demo_keeper (js ''10.42.0.5'') (demo_sharer ''sirius'' ''10.42.0.5'')"
    "sharer (demo_ctx 1 (js ''10.42.0.1'')) demo_keeper (js ''10.42.0.6'') (demo_sharer ''altair'' ''10.42.0.6'')"
    unfolding sharer_def friendByWg0_def mesh
    by (simp_all add: demo_keeper_def demo_sharer_def book_new_def listFriends_def demo_ctx_def LOOPBACK_def js_def)
qed

theorem file_travels_witness:
  "\<exists>f n1. remote_add demo_lib (keeper demo_externals (demo_ctx 1 (js ''10.42.0.1'')) (js ''10.42.0.5'') (demo_outside 0) demo_keeper)
       (js ''http://10.42.0.1:8787'') (js ''a.txt'') [104, 105] [] None = Inr f
     \<and> sf_node f = js ''sirius''
     \<and> remote_get (keeper demo_externals (demo_ctx 1 (js ''10.42.0.1'')) (js ''10.42.0.6'') (demo_outside 0) n1) (js ''http://10.42.0.1:8787'') (sf_id f)
       = Inr \<lparr> fc_name = js ''a.txt'', fc_type = Some (js ''application/octet-stream''), fc_content = [104, 105] \<rparr>"
proof -
  let ?c = "demo_ctx 1 (js ''10.42.0.1'')" and ?base = "js ''http://10.42.0.1:8787''" and ?ty = "js ''application/octet-stream''"
  have octet: "blob_type ?ty = ?ty" by code_simp
  have clean: "sanitizeFileName (js ''a.txt'') = js ''a.txt''" "ascii_name (js ''a.txt'') = js ''a.txt''" by code_simp+
  have base: "plain_base ?base" unfolding plain_base_def by (rule exI [of _ "js ''10.42.0.1:8787''"]) (simp add: js_def)
  have share: "nd_share demo_keeper = Mem (mem_new 1000)" by (simp add: demo_keeper_def demo_node_def)
  have empty: "spec_ok (mem_abs (mem_new 1000))" using spec_new_ok(1) [of 1000] by (simp add: mem_abs_def mem_new_def spec_new_def)
  have keep: "keeps_share 1000 (nd_share demo_keeper)"
    unfolding share keeps_mem using empty by (simp add: mem_inv_def mem_new_def mem_abs_def)
  have small: "sum_list (map sf_size (snap_files (local_list (nd_share demo_keeper)))) + length [104, 105 :: byte] \<le> 1000"
    by (simp add: share local_list_def mem_list_def mem_new_def sort_by_def)
  let ?rq = "up_request ?base (sanitizeFileName (js ''a.txt''), ?ty, [104, 105])"
  let ?n1 = "fst (serve demo_externals ?c (file_arriving (js ''10.42.0.5'') ?rq) (demo_outside 0) demo_keeper)"
  have stored: "snap_files (local_list (nd_share ?n1)) = [file_info (new_row 1 (js ''a.txt'') [104, 105] (js ''sirius'') (Some ?ty) 0)]"
  proof -
    have "is_local (nd_share demo_keeper)" "length [104, 105 :: byte] \<le> MAX_UPLOAD" by (simp_all add: share is_local_def MAX_UPLOAD_def)
    note put = keeper_add [where x = demo_externals and nm = "js ''a.txt''" and ty = ?ty, OF base demo_sharers(1) this(1) demo_quiet(1) [of 0] this(2) surjective_pairing]
    have ty: "?ty \<noteq> []" by (simp add: js_def)
    show ?thesis unfolding clean put
      by (simp add: share ty share_add_def mem_add_def mem_new_def Let_def local_list_def mem_list_def sort_by_def demo_sharer_def demo_outside_def)
  qed
  have read: "list_all readable (snap_files (local_list (nd_share ?n1)))"
    unfolding stored by (simp add: readable_def file_info_def new_row_def safe_int_def max_safe_def)
  have wf: "wf16 (js ''a.txt'')" by code_simp
  have limit: "length [104, 105 :: byte] \<le> 25 * 1024 * 1024" by simp
  from file_travels [where ty = ?ty and ctype = None and name = "js ''a.txt''" and stored = "js ''a.txt''" and x = demo_externals and ?o1.0 = "demo_outside 0" and ?o2.0 = "demo_outside 0" and L = demo_lib and who = "[]",
      OF _ _ HOL.refl base keep demo_sharers demo_quiet(1) limit small]
    clean wf read octet
  obtain f where f: "remote_add demo_lib (keeper demo_externals ?c (js ''10.42.0.5'') (demo_outside 0) demo_keeper) ?base (js ''a.txt'') [104, 105] [] None = Inr f"
    "sf_node f = peer_ed (fr_peer (demo_sharer ''sirius'' ''10.42.0.5''))"
    "remote_get (keeper demo_externals ?c (js ''10.42.0.6'') (demo_outside 0) ?n1) ?base (sf_id f)
       = Inr \<lparr> fc_name = ascii_name (js ''a.txt''), fc_type = Some (if ?ty = [] then ?ty else ?ty), fc_content = [104, 105] \<rparr>"
    by auto
  then show ?thesis by (intro exI [of _ f] exI [of _ ?n1]) (simp add: demo_sharer_def clean)
qed

end
