(* ===== verification/Spec2Isabelle.thy ===== *)
theory Spec2Isabelle
  imports GateProps MessagesProps RateLimit Auth RegistryProps ShareProps EventsProps DaemonProps MeshProps CliProps FrontendProps
    BootTypes SigningProps Lengths HandshakeProps ErrorProps Loops PageProps StartupProps RemoteProps
begin

text \<open>
  The island daemon of vpn-pi (src/island/src), verified as a shallow embedding: the TypeScript of
  \<open>core/\<close>, \<open>main.ts\<close> and \<open>cli.ts\<close> as functions, and the first user interface
  (src/gui-and-app/frontend).

  The program. Each node of a WireGuard mesh runs one daemon. It has an identity (a signing and a sealing
  key pair), a book of friends, conversations, a file share, and a gate: the firewall of the gate node is
  closed (an island) until an administrator sends a canary, a signed and sealed request, which a language
  model must approve; the gate then closes by itself. Two nodes can be directory and security
  collector. Everything that crosses the mesh is signed over its canonical JSON text.

  How values are represented. A string is the list of its UTF-16 units (\<open>jsstr\<close>), bytes are 8-bit
  words, a \<open>Map\<close> is its list of entries in insertion order, a number is an integer where the source has
  whole numbers (a fractional one is a separate constructor of \<open>json\<close> that no claim relies on), a date is
  its milliseconds. An exception is \<open>Inl (Err class message)\<close>. Time, randomness, the network, the model,
  the firewall helper and the outputs of commands are arguments. libsodium and what the language
  leaves to the implementation are a record \<open>lib\<close>; its documented laws are \<open>lib_ok\<close> (round trips of
  base64, of signing and of sealing), \<open>sizes_ok\<close> (key and signature lengths) and \<open>lengths_ok\<close> (how long
  base64 and a sealed box get), and \<open>demo_lib\<close> has them all. A header leaves \<open>fetch\<close> as \<open>header_value\<close>
  has it: trimmed, and refused if it is no byte string.

  The theories, in the order of the code.
  \<^item> \<open>Prelude\<close> (strings, exceptions, maps), \<open>JsJson\<close>, \<open>JsJsonFacts\<close> (JSON text and its round trip; the
    parser's fuel is one more than the length of the text, and each value consumes a character, so it is
    always enough), \<open>Utf8\<close>, \<open>JsDate\<close>, \<open>Url\<close>, \<open>Wire\<close>: what the sources use of the language.
    \<open>Machine\<close>: reachable states and the one rule for invariants.
  \<^item> \<open>Canonical\<close> (canonical.ts), \<open>Sodium\<close> (codec.ts, identity.ts), \<open>Envelope\<close> (envelope.ts).
  \<^item> \<open>Canary\<close>, \<open>Gate\<close>, \<open>GateFacts\<close>, \<open>GateProps\<close> (canary.ts, gate.ts). The two asynchronous methods of the
    gate are cut at their awaits; \<open>gate_step\<close> interleaves calls, answers of the model, helper runs and
    timers in every order, and \<open>gate_life\<close> adds saves of the nonces and restarts of the process. What the
    helper does to the firewall (\<open>egress_after\<close>) is not assumed from its exit code: a failed open can have
    opened, a close that exits 0 can have closed nothing. Only where a property says so is the helper
    \<open>sound\<close>, which deploy/island-gate is not (\<open>partial_open_not_reclosed\<close>, \<open>silent_close_not_retried\<close>).
  \<^item> \<open>Friends\<close>, \<open>FriendsFacts\<close>, \<open>FriendsProps\<close> (friends.ts), \<open>FriendCode\<close>, \<open>FriendCodeProps\<close> (friendcode.ts).
    \<open>Lengths\<close>: codes and replies fit the body limit.
  \<^item> \<open>Messages\<close>, \<open>MessagesFacts\<close>, \<open>MessagesProps\<close> (messages.ts). The interface \<open>SeenIds\<close> is a locale; the
    message book provides it.
  \<^item> \<open>RateLimit\<close>, \<open>Auth\<close> (ratelimit.ts, auth.ts); \<open>Registry\<close>, \<open>RegistryProps\<close> (registry.ts); \<open>Share\<close>,
    \<open>ShareFacts\<close>, \<open>ShareProps\<close> (share.ts; the contract of a share is a locale with two providers; a text
    column of SQLite keeps UTF-8, \<open>sql_text\<close>), \<open>RemoteProps\<close> (its client against the routes of the keeper);
    \<open>Sysinfo\<close>, \<open>Events\<close>, \<open>EventsProps\<close> (sysinfo.ts, events.ts).
  \<^item> \<open>Daemon\<close> (main.ts: context, guards, bodies, \<open>persist\<close>, delivery, status codes), \<open>Routes\<close> and
    \<open>Router\<close> (every handler and the dispatcher \<open>serve\<close>). A handler transforms the node and ends in a
    response or an exception. At each await on the body, the disk, the network, the model or the helper,
    \<open>io_others\<close> is what other requests do to the node; \<open>fair\<close> says that they only make the moves of the
    components, and \<open>DaemonFacts\<close> shows that every handler does the same (\<open>runs_route\<close>), so that the
    invariants of the components hold of the daemon under every interleaving.
  \<^item> \<open>Boot\<close> (main.ts: settings, arguments, \<open>boot\<close>, what \<open>main\<close> starts), \<open>Cli\<close> (cli.ts, against a world
    that every request may change) and \<open>Startup\<close>, \<open>StartupProps\<close> (\<open>main\<close>, from the arguments to an exit
    code, an exception or a listening process; the child processes; the steps of the running process:
    requests, reclose timers, the push at the start and each minute, the answer of the registry).
  \<^item> \<open>Frontend\<close>, \<open>FrontendProps\<close>: the polling hook as a state machine, formats, the requests; \<open>View\<close>,
    \<open>ViewProps\<close>: the elements each component renders; \<open>Page\<close>, \<open>PageProps\<close>: the page as a state machine
    over the four polls, the form and the buttons.
  \<^item> \<open>Loops\<close>: the loops of the sources that are no plain iteration, with their indices and assignments
    under \<open>while_option\<close>, end, with which results.

  What the properties show.
  \<^item> The gate: \<open>GateProps\<close>. Under every interleaving, restarts included, the internet state always has a
    way back; with a sound helper egress is time-boxed; a failing close is retried until it works; a
    canary is what a fresh payload signed by an allowlisted key says, and opens once, over restarts
    too if its nonce was saved. \<open>CliProps\<close> runs the operator's command against the dispatcher of the gate
    node up to the open gate.
  \<^item> Friends and messages: no friend without a signature of its key, single use of tokens, accepts and
    notices; a handshake and its end are mutual; only friends' messages are accepted, once, in bounded
    memory; \<open>MeshProps\<close> sends a message through the routes of two daemons, \<open>HandshakeProps\<close> makes two
    operators friends from their terminals, whether or not the acceptance is delivered by itself.
    \<open>SigningProps\<close>: the bytes of one kind of statement are never those of another.
  \<^item> The daemon: \<open>daemon_invariant\<close>, \<open>stranger_confined\<close> (what a caller without credentials can do),
    \<open>guesses_bounded\<close> (how many tokens can be tried), \<open>reboot_restores\<close> (a second boot gives back what
    \<open>persist\<close> saved), \<open>boot_well_typed\<close>, \<open>refused_changes_nothing\<close> (\<open>ErrorProps\<close>: an error answer after a
    working disk means no change) and \<open>start_keeps_secrets\<close> (starts and commands overwrite no secret).
  \<^item> Codes, directory, share and security feed: round trips, authenticity of what the network answers,
    equivalence of the two share backends, a file's way over the node that keeps the share, the journal
    replay against its reference.
  \<^item> The page: it shows what was last read, offers what its lists hold, and a sign-in unlocks it.
  Where the code falls short of its comments, the theories prove that too, in sections of that name.

  Not modelled. Bun's server and the scheduling of its timers, React's reconciliation, the bundled page, the
  initialisation of libsodium, SQLite beyond the tables the sources keep in it, the locale's clock, and
  what \<open>console.log\<close> makes of a value that is no string. A setting or a lifetime that is a number but not
  a whole one is not represented. Friend tokens and acceptances have the declared types, and so have the
  records the client of the registry reads; the code does not check the former, and a token with other
  fields is outside every property (the announce route of the registry is modelled for any fields, its
  store with a parameter \<open>column_text\<close> for what a text column makes of a value that is no text). The systems around
  the daemon in other languages (the Go and Python services, shell scripts) are outside. Signatures are not
  assumed unforgeable: a property about forgery says which signature would have to exist.
\<close>

end
